(* ===== verification/Prelude.thy ===== *)
theory Prelude
  imports Main "HOL-Library.Word" "HOL-Library.Char_ord" "HOL-Library.List_Lexorder"
    "HOL-Library.Sublist"
begin

text \<open>
  Shared vocabulary of the development: fallible results (\<open>anyhow::Result\<close> and the
  question mark operator), the operations of Rust's \<open>str\<close> the program calls, decimal
  formatting, and the machine integers.

  A Rust \<open>String\<close> is its UTF-8 bytes: \<open>string\<close> here is a list of bytes, so \<open>len\<close> is
  \<open>length\<close> and the order of \<open>Ord for str\<close> is the lexicographic order of the list. The
  operations of \<open>str\<close> that look at characters (\<open>trim\<close>, \<open>char::is_control\<close>) are written on
  the encodings and agree with Rust on every valid UTF-8 string.
\<close>

named_theorems result_simps \<open>inversion of successful and failed results\<close>
named_theorems str_simps \<open>characterisations of the string operations\<close>

section \<open>Integers\<close>

type_synonym u16 = "16 word"
type_synonym u64 = "64 word"

section \<open>Parsed URLs\<close>

text \<open>What the program reads of a parsed \<open>url::Url\<close>; the parser itself is a parameter.\<close>

record url =
  url_scheme :: string
  url_username :: string
  url_password :: "string option"
  url_host_str :: "string option"
  url_port :: "u16 option"
  url_path :: string
  url_query :: "string option"
  url_fragment :: "string option"

section \<open>Errors and results\<close>

text \<open>
  \<open>anyhow::Error\<close>: a root message or a message put in front of an inner error by
  \<open>context\<close>. \<open>Display\<close> (\<open>{error}\<close>) shows the outermost message, the alternate form
  (\<open>{error:#}\<close>) the whole chain.
\<close>

datatype anyhow = ErrorMsg string | ErrorContext string anyhow

fun error_display :: "anyhow \<Rightarrow> string" where
  "error_display (ErrorMsg m) = m"
| "error_display (ErrorContext c e) = c"

fun error_chain :: "anyhow \<Rightarrow> string" where
  "error_chain (ErrorMsg m) = m"
| "error_chain (ErrorContext c e) = c @ '': '' @ error_chain e"

type_synonym 'a res = "anyhow + 'a"

text \<open>The question mark operator: go on with the value, or return the error.\<close>

fun try_then :: "'e + 'a \<Rightarrow> ('a \<Rightarrow> 'e + 'b) \<Rightarrow> 'e + 'b" where
  "try_then (Inl e) f = Inl e"
| "try_then (Inr x) f = f x"

text \<open>\<open>if c { return Err(e) }\<close>\<close>

definition fail_if :: "bool \<Rightarrow> 'e \<Rightarrow> 'e + unit" where
  "fail_if c e = (if c then Inl e else Inr ())"

fun map_err :: "('e \<Rightarrow> 'd) \<Rightarrow> 'e + 'a \<Rightarrow> 'd + 'a" where
  "map_err f (Inl e) = Inl (f e)"
| "map_err f (Inr x) = Inr x"

abbreviation with_context :: "string \<Rightarrow> 'a res \<Rightarrow> 'a res" where
  "with_context c \<equiv> map_err (ErrorContext c)"

fun ok_or :: "'a option \<Rightarrow> 'e \<Rightarrow> 'e + 'a" where
  "ok_or None e = Inl e"
| "ok_or (Some x) e = Inr x"

fun result_ok :: "'e + 'a \<Rightarrow> 'a option" where
  "result_ok (Inl e) = None"
| "result_ok (Inr x) = Some x"

text \<open>\<open>Option::transpose\<close> of an optional fallible computation.\<close>

fun transpose :: "('e + 'a) option \<Rightarrow> 'e + 'a option" where
  "transpose None = Inr None"
| "transpose (Some (Inl e)) = Inl e"
| "transpose (Some (Inr x)) = Inr (Some x)"

text \<open>\<open>for x in xs { s = f(s, x)?; }\<close>\<close>

fun try_fold :: "('s \<Rightarrow> 'a \<Rightarrow> 'e + 's) \<Rightarrow> 's \<Rightarrow> 'a list \<Rightarrow> 'e + 's" where
  "try_fold f s [] = Inr s"
| "try_fold f s (x # xs) = try_then (f s x) (\<lambda>s'. try_fold f s' xs)"

text \<open>\<open>for x in xs { f(x)?; }\<close>\<close>

fun try_each :: "('a \<Rightarrow> 'e + unit) \<Rightarrow> 'a list \<Rightarrow> 'e + unit" where
  "try_each f [] = Inr ()"
| "try_each f (x # xs) = try_then (f x) (\<lambda>_. try_each f xs)"

text \<open>\<open>iter.map(f).collect::<Result<Vec<_>>>()\<close>\<close>

fun try_map :: "('a \<Rightarrow> 'e + 'b) \<Rightarrow> 'a list \<Rightarrow> 'e + 'b list" where
  "try_map f [] = Inr []"
| "try_map f (x # xs) = try_then (f x) (\<lambda>y. try_then (try_map f xs) (\<lambda>ys. Inr (y # ys)))"

text \<open>\<open>Iterator::filter_map\<close>\<close>

fun filter_map :: "('a \<Rightarrow> 'b option) \<Rightarrow> 'a list \<Rightarrow> 'b list" where
  "filter_map f [] = []"
| "filter_map f (x # xs) = (case f x of None \<Rightarrow> filter_map f xs | Some y \<Rightarrow> y # filter_map f xs)"

lemma set_filter_map: "y \<in> set (filter_map f xs) \<longleftrightarrow> (\<exists>x \<in> set xs. f x = Some y)"
  by (induction xs) (auto split: option.split)

lemma filter_map_Nil: "filter_map f xs = [] \<longleftrightarrow> (\<forall>x \<in> set xs. f x = None)"
  by (induction xs) (auto split: option.split)

lemma filter_map_append [simp]: "filter_map f (xs @ ys) = filter_map f xs @ filter_map f ys"
  by (induction xs) (auto split: option.split)

lemma filter_map_split:
  "filter_map f xs = before @ y # after \<Longrightarrow>
   \<exists>pre x post. xs = pre @ x # post \<and> f x = Some y \<and>
      filter_map f pre = before \<and> filter_map f post = after"
proof (induction xs arbitrary: before)
  case Nil
  then show ?case by simp
next
  case (Cons a xs)
  show ?case
  proof (cases "f a")
    case None
    with Cons.prems have "filter_map f xs = before @ y # after" by simp
    from Cons.IH [OF this] obtain pre x post where "xs = pre @ x # post" "f x = Some y"
        "filter_map f pre = before" "filter_map f post = after" by blast
    then show ?thesis using None by (intro exI [of _ "a # pre"] exI [of _ x] exI [of _ post]) simp
  next
    case (Some b)
    show ?thesis
    proof (cases before)
      case Nil
      with Cons.prems Some show ?thesis
        by (intro exI [of _ "[]"] exI [of _ a] exI [of _ xs]) simp
    next
      case (Cons c before')
      with Cons.prems Some have bc: "b = c" "filter_map f xs = before' @ y # after" by simp_all
      from Cons.IH [OF bc(2)] obtain pre x post where "xs = pre @ x # post" "f x = Some y"
          "filter_map f pre = before'" "filter_map f post = after" by blast
      then show ?thesis using Some Cons bc(1)
        by (intro exI [of _ "a # pre"] exI [of _ x] exI [of _ post]) simp
    qed
  qed
qed

lemma try_then_Inr [result_simps]:
  "try_then r f = Inr y \<longleftrightarrow> (\<exists>x. r = Inr x \<and> f x = Inr y)"
  by (cases r) auto

lemma try_then_Inl [result_simps]:
  "try_then r f = Inl e \<longleftrightarrow> r = Inl e \<or> (\<exists>x. r = Inr x \<and> f x = Inl e)"
  by (cases r) auto

lemma fail_if_Inr [result_simps]: "fail_if c e = Inr u \<longleftrightarrow> \<not> c"
  by (auto simp: fail_if_def)

lemma fail_if_Inl [result_simps]: "fail_if c e = Inl d \<longleftrightarrow> c \<and> d = e"
  by (auto simp: fail_if_def)

lemma fail_if_simps [simp]: "fail_if True e = Inl e" "fail_if False e = Inr ()"
  by (simp_all add: fail_if_def)

lemma map_err_Inr [result_simps]: "map_err f r = Inr y \<longleftrightarrow> r = Inr y"
  by (cases r) auto

lemma map_err_Inl [result_simps]: "map_err f r = Inl d \<longleftrightarrow> (\<exists>e. r = Inl e \<and> d = f e)"
  by (cases r) auto

lemma ok_or_Inr [result_simps]: "ok_or r e = Inr y \<longleftrightarrow> r = Some y"
  by (cases r) auto

lemma result_ok_Some [result_simps]: "result_ok r = Some y \<longleftrightarrow> r = Inr y"
  by (cases r) auto

lemma transpose_Inr [result_simps]:
  "transpose r = Inr y \<longleftrightarrow> (r = None \<and> y = None) \<or> (\<exists>x. r = Some (Inr x) \<and> y = Some x)"
  by (cases r rule: transpose.cases) auto

lemma try_each_Inr [result_simps]: "try_each f xs = Inr u \<longleftrightarrow> (\<forall>x \<in> set xs. f x = Inr ())"
  by (induction xs) (auto simp: try_then_Inr)

lemma try_each_append:
  "try_each f (xs @ ys) = try_then (try_each f xs) (\<lambda>_. try_each f ys)"
proof (induction xs)
  case Nil
  then show ?case by simp
next
  case (Cons x xs)
  then show ?case by (cases "f x") simp_all
qed

text \<open>A checking loop reports the first element that fails.\<close>

lemma try_each_first_error:
  "\<forall>y \<in> set ys. f y = Inr () \<Longrightarrow> f x = Inl e \<Longrightarrow> try_each f (ys @ x # zs) = Inl e"
  by (simp add: try_each_append try_each_Inr [THEN iffD2, of ys f "()"])

lemma try_map_Inr: "try_map f xs = Inr ys \<longleftrightarrow> list_all2 (\<lambda>x y. f x = Inr y) xs ys"
  by (induction xs arbitrary: ys) (auto simp: try_then_Inr list_all2_Cons1)

lemma try_fold_append:
  "try_fold f s (xs @ ys) = try_then (try_fold f s xs) (\<lambda>s'. try_fold f s' ys)"
proof (induction xs arbitrary: s)
  case Nil
  then show ?case by simp
next
  case (Cons x xs)
  then show ?case by (cases "f s x") simp_all
qed

text \<open>A loop invariant of a fallible loop that did not fail.\<close>

lemma try_fold_invariant:
  assumes "try_fold f s xs = Inr t" and "P s"
    and "\<And>s x s'. x \<in> set xs \<Longrightarrow> P s \<Longrightarrow> f s x = Inr s' \<Longrightarrow> P s'"
  shows "P t"
  using assms
proof (induction xs arbitrary: s)
  case Nil
  then show ?case by simp
next
  case (Cons x xs)
  then show ?case by (auto simp: try_then_Inr)
qed

section \<open>Strings\<close>

definition byte :: "char \<Rightarrow> nat" where
  "byte c = of_char c"

lemma byte_bound: "byte c < 256"
  by (simp add: byte_def)

lemma byte_inject [simp]: "byte c = byte d \<longleftrightarrow> c = d"
  by (simp add: byte_def)

text \<open>The UTF-8 encodings of the Unicode \<open>White_Space\<close> characters, which \<open>str::trim\<close> drops.\<close>

definition whitespace_encodings :: "string list" where
  "whitespace_encodings =
     [[CHR 0x20], [CHR 0x09], [CHR 0x0A], [CHR 0x0B], [CHR 0x0C], [CHR 0x0D],
      [CHR 0xC2, CHR 0x85], [CHR 0xC2, CHR 0xA0], [CHR 0xE1, CHR 0x9A, CHR 0x80],
      [CHR 0xE2, CHR 0x80, CHR 0x80], [CHR 0xE2, CHR 0x80, CHR 0x81],
      [CHR 0xE2, CHR 0x80, CHR 0x82], [CHR 0xE2, CHR 0x80, CHR 0x83],
      [CHR 0xE2, CHR 0x80, CHR 0x84], [CHR 0xE2, CHR 0x80, CHR 0x85],
      [CHR 0xE2, CHR 0x80, CHR 0x86], [CHR 0xE2, CHR 0x80, CHR 0x87],
      [CHR 0xE2, CHR 0x80, CHR 0x88], [CHR 0xE2, CHR 0x80, CHR 0x89],
      [CHR 0xE2, CHR 0x80, CHR 0x8A], [CHR 0xE2, CHR 0x80, CHR 0xA8],
      [CHR 0xE2, CHR 0x80, CHR 0xA9], [CHR 0xE2, CHR 0x80, CHR 0xAF],
      [CHR 0xE2, CHR 0x81, CHR 0x9F], [CHR 0xE3, CHR 0x80, CHR 0x80]]"

text \<open>Drop a prefix of the string that is in \<open>ws\<close> as long as there is one.\<close>

function drop_encodings :: "string list \<Rightarrow> string \<Rightarrow> string" where
  "drop_encodings ws s =
     (case find (\<lambda>w. w \<noteq> [] \<and> prefix w s) ws of
        None \<Rightarrow> s
      | Some w \<Rightarrow> drop_encodings ws (drop (length w) s))"
  by pat_completeness auto
termination
  by (relation "measure (\<lambda>(ws, s). length s)")
    (auto simp: find_Some_iff prefix_def)

declare drop_encodings.simps [simp del]

definition trim_start :: "string \<Rightarrow> string" where
  "trim_start s = drop_encodings whitespace_encodings s"

definition trim_end :: "string \<Rightarrow> string" where
  "trim_end s = rev (drop_encodings (map rev whitespace_encodings) (rev s))"

definition trim :: "string \<Rightarrow> string" where
  "trim s = trim_end (trim_start s)"

text \<open>
  \<open>char::is_control\<close> over the characters of a string: U+0000 to U+001F, U+007F, and
  U+0080 to U+009F, which are the byte C2 followed by one of 80 to 9F.
\<close>

fun has_control :: "string \<Rightarrow> bool" where
  "has_control [] = False"
| "has_control (c # cs) =
     (byte c < 32 \<or> byte c = 127 \<or>
      (byte c = 194 \<and> (case cs of [] \<Rightarrow> False | d # _ \<Rightarrow> 128 \<le> byte d \<and> byte d < 160)) \<or>
      has_control cs)"

definition is_ascii_digit :: "char \<Rightarrow> bool" where
  "is_ascii_digit c \<longleftrightarrow> 48 \<le> byte c \<and> byte c \<le> 57"

definition is_ascii_alphanumeric :: "char \<Rightarrow> bool" where
  "is_ascii_alphanumeric c \<longleftrightarrow>
     (48 \<le> byte c \<and> byte c \<le> 57) \<or> (65 \<le> byte c \<and> byte c \<le> 90) \<or>
     (97 \<le> byte c \<and> byte c \<le> 122)"

definition lower_char :: "char \<Rightarrow> char" where
  "lower_char c = (if 65 \<le> byte c \<and> byte c \<le> 90 then char_of (byte c + 32) else c)"

definition to_ascii_lowercase :: "string \<Rightarrow> string" where
  "to_ascii_lowercase s = map lower_char s"

definition eq_ignore_ascii_case :: "string \<Rightarrow> string \<Rightarrow> bool" where
  "eq_ignore_ascii_case s t \<longleftrightarrow> to_ascii_lowercase s = to_ascii_lowercase t"

abbreviation starts_with :: "string \<Rightarrow> string \<Rightarrow> bool" where
  "starts_with s p \<equiv> prefix p s"

abbreviation ends_with :: "string \<Rightarrow> string \<Rightarrow> bool" where
  "ends_with s p \<equiv> suffix p s"

definition strip_prefix :: "string \<Rightarrow> string \<Rightarrow> string option" where
  "strip_prefix p s = (if prefix p s then Some (drop (length p) s) else None)"

definition strip_suffix :: "string \<Rightarrow> string \<Rightarrow> string option" where
  "strip_suffix p s = (if suffix p s then Some (take (length s - length p) s) else None)"

text \<open>\<open>trim_start_matches(c)\<close> and \<open>trim_end_matches(c)\<close> for one ASCII character.\<close>

definition trim_start_matches :: "char \<Rightarrow> string \<Rightarrow> string" where
  "trim_start_matches c s = dropWhile (\<lambda>d. d = c) s"

definition trim_end_matches :: "char \<Rightarrow> string \<Rightarrow> string" where
  "trim_end_matches c s = rev (dropWhile (\<lambda>d. d = c) (rev s))"

text \<open>\<open>split(c)\<close>: always at least one segment.\<close>

fun split_on :: "char \<Rightarrow> string \<Rightarrow> string list" where
  "split_on c [] = [[]]"
| "split_on c (d # ds) =
     (if d = c then [] # split_on c ds
      else (case split_on c ds of [] \<Rightarrow> [[d]] | seg # segs \<Rightarrow> (d # seg) # segs))"

text \<open>\<open>rsplit_once(c)\<close>: split at the last occurrence.\<close>

definition rsplit_once :: "char \<Rightarrow> string \<Rightarrow> (string \<times> string) option" where
  "rsplit_once c s =
     (if c \<in> set s
      then Some (rev (drop 1 (dropWhile (\<lambda>d. d \<noteq> c) (rev s))), rev (takeWhile (\<lambda>d. d \<noteq> c) (rev s)))
      else None)"

text \<open>\<open>contains\<close> of a nonempty pattern.\<close>

fun contains_str :: "string \<Rightarrow> string \<Rightarrow> bool" where
  "contains_str [] p = (p = [])"
| "contains_str (c # cs) p = (prefix p (c # cs) \<or> contains_str cs p)"

text \<open>\<open>str::replace\<close> of a nonempty pattern: every match, leftmost first, not overlapping.\<close>

function replace_str :: "string \<Rightarrow> string \<Rightarrow> string \<Rightarrow> string" where
  "replace_str p t s =
     (case s of
        [] \<Rightarrow> []
      | c # cs \<Rightarrow>
          if p \<noteq> [] \<and> prefix p s then t @ replace_str p t (drop (length p) s)
          else c # replace_str p t cs)"
  by pat_completeness auto
termination
  by (relation "measure (\<lambda>(p, t, s). length s)") (auto simp: prefix_def)

declare replace_str.simps [simp del]

fun join_with :: "string \<Rightarrow> string list \<Rightarrow> string" where
  "join_with sep [] = []"
| "join_with sep [s] = s"
| "join_with sep (s # t # ss) = s @ sep @ join_with sep (t # ss)"

text \<open>\<open>String::from_utf8\<close>: the well-formed byte sequences of UTF-8.\<close>

definition utf8_tail :: "char \<Rightarrow> bool" where
  "utf8_tail c \<longleftrightarrow> 128 \<le> byte c \<and> byte c \<le> 191"

definition utf8_second :: "char \<Rightarrow> char \<Rightarrow> bool" where
  "utf8_second b c \<longleftrightarrow>
     (if byte b = 224 then 160 \<le> byte c \<and> byte c \<le> 191
      else if byte b = 237 then 128 \<le> byte c \<and> byte c \<le> 159
      else if byte b = 240 then 144 \<le> byte c \<and> byte c \<le> 191
      else if byte b = 244 then 128 \<le> byte c \<and> byte c \<le> 143
      else utf8_tail c)"

fun valid_utf8 :: "string \<Rightarrow> bool" where
  "valid_utf8 [] = True"
| "valid_utf8 (b # s) =
     (if byte b < 128 then valid_utf8 s
      else if 194 \<le> byte b \<and> byte b \<le> 223 then
        (case s of c # s' \<Rightarrow> utf8_tail c \<and> valid_utf8 s' | _ \<Rightarrow> False)
      else if 224 \<le> byte b \<and> byte b \<le> 239 then
        (case s of c # d # s' \<Rightarrow> utf8_second b c \<and> utf8_tail d \<and> valid_utf8 s' | _ \<Rightarrow> False)
      else if 240 \<le> byte b \<and> byte b \<le> 244 then
        (case s of c # d # e # s' \<Rightarrow>
           utf8_second b c \<and> utf8_tail d \<and> utf8_tail e \<and> valid_utf8 s' | _ \<Rightarrow> False)
      else False)"

text \<open>Decimal formatting of unsigned integers.\<close>

function show_nat :: "nat \<Rightarrow> string" where
  "show_nat n =
     (if n < 10 then [''0123456789'' ! n] else show_nat (n div 10) @ [''0123456789'' ! (n mod 10)])"
  by pat_completeness auto
termination
  by (relation "measure id") auto

declare show_nat.simps [simp del]

subsection \<open>Facts about the string operations\<close>

lemma strip_prefix_Some [str_simps]: "strip_prefix p s = Some t \<longleftrightarrow> s = p @ t"
  by (auto simp: strip_prefix_def prefix_def)

lemma strip_prefix_None [str_simps]: "strip_prefix p s = None \<longleftrightarrow> \<not> prefix p s"
  by (simp add: strip_prefix_def)

lemma strip_suffix_Some [str_simps]: "strip_suffix p s = Some t \<longleftrightarrow> s = t @ p"
  by (auto simp: strip_suffix_def suffix_def)

lemma strip_suffix_None [str_simps]: "strip_suffix p s = None \<longleftrightarrow> \<not> suffix p s"
  by (simp add: strip_suffix_def)

lemma byte_lower_char: "byte (lower_char c) = (if 65 \<le> byte c \<and> byte c \<le> 90 then byte c + 32 else byte c)"
  by (auto simp: lower_char_def byte_def)

lemma lower_char_idem [simp]: "lower_char (lower_char c) = lower_char c"
proof -
  have "\<not> (65 \<le> byte (lower_char c) \<and> byte (lower_char c) \<le> 90)"
    by (auto simp: byte_lower_char split: if_splits)
  then show ?thesis by (subst lower_char_def) auto
qed

lemma to_ascii_lowercase_idem [simp]:
  "to_ascii_lowercase (to_ascii_lowercase s) = to_ascii_lowercase s"
  by (simp add: to_ascii_lowercase_def)

lemma to_ascii_lowercase_Nil [simp]: "to_ascii_lowercase s = [] \<longleftrightarrow> s = []"
  by (simp add: to_ascii_lowercase_def)

lemma to_ascii_lowercase_append [simp]:
  "to_ascii_lowercase (s @ t) = to_ascii_lowercase s @ to_ascii_lowercase t"
  by (simp add: to_ascii_lowercase_def)

lemma length_to_ascii_lowercase [simp]: "length (to_ascii_lowercase s) = length s"
  by (simp add: to_ascii_lowercase_def)

lemma split_on_neq_Nil [simp]: "split_on c s \<noteq> []"
  by (induction s) (auto split: list.splits)

lemma split_on_segments: "seg \<in> set (split_on c s) \<Longrightarrow> c \<notin> set seg"
  by (induction s arbitrary: seg) (auto split: list.splits if_splits)

lemma split_on_chars: "seg \<in> set (split_on c s) \<Longrightarrow> set seg \<subseteq> set s"
proof (induction s arbitrary: seg)
  case Nil
  then show ?case by simp
next
  case (Cons d s)
  obtain a segs where as: "split_on c s = a # segs" by (cases "split_on c s") auto
  have "\<And>seg. seg \<in> set (a # segs) \<Longrightarrow> set seg \<subseteq> set s" using Cons.IH as by simp
  then have "set a \<subseteq> set s" and "\<And>seg. seg \<in> set segs \<Longrightarrow> set seg \<subseteq> set s" by auto
  with Cons.prems as show ?case by (auto split: if_splits)
qed

lemma join_with_Cons: "ss \<noteq> [] \<Longrightarrow> join_with sep (s # ss) = s @ sep @ join_with sep ss"
  by (cases ss) auto

lemma join_split_on: "join_with [c] (split_on c s) = s"
proof (induction s)
  case Nil
  then show ?case by simp
next
  case (Cons d ds)
  show ?case
  proof (cases "split_on c ds")
    case Nil
    then show ?thesis by simp
  next
    case (Cons seg segs)
    with Cons.IH show ?thesis
      by (cases segs) (auto simp: join_with_Cons)
  qed
qed

lemma split_on_append:
  "c \<notin> set seg \<Longrightarrow> split_on c (seg @ c # s) = seg # split_on c s"
  by (induction seg) auto

lemma split_on_single: "c \<notin> set seg \<Longrightarrow> split_on c seg = [seg]"
  by (induction seg) auto

lemma split_join_with:
  "ss \<noteq> [] \<Longrightarrow> \<forall>seg \<in> set ss. c \<notin> set seg \<Longrightarrow> split_on c (join_with [c] ss) = ss"
proof (induction ss)
  case Nil
  then show ?case by simp
next
  case (Cons s ss)
  then show ?case
    by (cases ss) (auto simp: split_on_single split_on_append)
qed

lemma rsplit_once_last:
  assumes "c \<notin> set b"
  shows "rsplit_once c (a @ c # b) = Some (a, b)"
proof -
  have b: "\<And>x. x \<in> set (rev b) \<Longrightarrow> x \<noteq> c" using assms by auto
  show ?thesis
    using dropWhile_append2 [of "rev b" "\<lambda>d. d \<noteq> c" "c # rev a", OF b]
      takeWhile_append2 [of "rev b" "\<lambda>d. d \<noteq> c" "c # rev a", OF b]
    by (simp add: rsplit_once_def)
qed

lemma rsplit_once_Some:
  "rsplit_once c s = Some (a, b) \<longleftrightarrow> s = a @ c # b \<and> c \<notin> set b"
proof
  assume *: "rsplit_once c s = Some (a, b)"
  then have "c \<in> set s" by (auto simp: rsplit_once_def split: if_splits)
  then obtain u v where s: "s = u @ c # v" and v: "c \<notin> set v"
    by (meson split_list_last)
  with * rsplit_once_last [OF v, of u] show "s = a @ c # b \<and> c \<notin> set b" by simp
qed (auto simp: rsplit_once_last)

lemma rsplit_once_None: "rsplit_once c s = None \<longleftrightarrow> c \<notin> set s"
  by (simp add: rsplit_once_def)

lemma drop_encodings_suffix: "suffix (drop_encodings ws s) s"
proof (induction ws s rule: drop_encodings.induct)
  case (1 ws s)
  show ?case
  proof (cases "find (\<lambda>w. w \<noteq> [] \<and> prefix w s) ws")
    case None
    then show ?thesis by (simp add: drop_encodings.simps)
  next
    case (Some w)
    with 1 have "suffix (drop_encodings ws (drop (length w) s)) (drop (length w) s)" by simp
    with Some show ?thesis
      by (simp add: drop_encodings.simps [of ws s]) (meson suffix_drop suffix_order.trans)
  qed
qed

lemma drop_encodings_id:
  "\<forall>w \<in> set ws. w = [] \<or> \<not> prefix w s \<Longrightarrow> drop_encodings ws s = s"
  by (subst drop_encodings.simps) (auto split: option.splits simp: find_Some_iff) 

lemma drop_encodings_stops: "w \<in> set ws \<Longrightarrow> w \<noteq> [] \<Longrightarrow> \<not> prefix w (drop_encodings ws s)"
proof (induction ws s rule: drop_encodings.induct)
  case (1 ws s)
  show ?case
  proof (cases "find (\<lambda>w. w \<noteq> [] \<and> prefix w s) ws")
    case None
    then have "drop_encodings ws s = s" by (simp add: drop_encodings.simps [of ws s])
    with "1.prems" None show ?thesis by (auto simp: find_None_iff)
  next
    case (Some v)
    with 1 show ?thesis by (simp add: drop_encodings.simps [of ws s])
  qed
qed

lemma drop_encodings_idem [simp]: "drop_encodings ws (drop_encodings ws s) = drop_encodings ws s"
  by (rule drop_encodings_id) (auto simp: drop_encodings_stops)

text \<open>A string of visible ASCII characters has nothing to trim.\<close>

definition visible_ascii :: "string \<Rightarrow> bool" where
  "visible_ascii s \<longleftrightarrow> (\<forall>c \<in> set s. 33 \<le> byte c \<and> byte c \<le> 126)"

lemma whitespace_not_visible:
  "w \<in> set whitespace_encodings \<Longrightarrow> visible_ascii (s @ w @ t) \<Longrightarrow> False"
  by (auto simp: whitespace_encodings_def visible_ascii_def byte_def)

lemma trim_visible: "visible_ascii s \<Longrightarrow> trim s = s"
proof -
  assume v: "visible_ascii s"
  have "trim_start s = s"
    unfolding trim_start_def
    by (rule drop_encodings_id) (use v whitespace_not_visible [of _ "[]"] in \<open>auto simp: prefix_def\<close>)
  moreover have "drop_encodings (map rev whitespace_encodings) (rev s) = rev s"
  proof (rule drop_encodings_id, intro ballI disjCI)
    fix w assume "w \<in> set (map rev whitespace_encodings)" and p: "\<not> \<not> prefix w (rev s)"
    then obtain x where x: "x \<in> set whitespace_encodings" "w = rev x" by auto
    from p x(2) have "suffix x s" by (simp add: suffix_to_prefix)
    with x(1) v show "w = []" using whitespace_not_visible [of x _ "[]"] by (auto simp: suffix_def)
  qed
  ultimately show ?thesis by (simp add: trim_def trim_end_def)
qed

lemma trim_chars: "set (trim s) \<subseteq> set s"
proof -
  have "set (trim_start s) \<subseteq> set s"
    by (simp add: trim_start_def drop_encodings_suffix set_mono_suffix)
  moreover have "set (trim_end t) \<subseteq> set t" for t
    using set_mono_suffix [OF drop_encodings_suffix [of "map rev whitespace_encodings" "rev t"]]
    by (simp add: trim_end_def)
  ultimately show ?thesis by (fastforce simp: trim_def)
qed

lemma trim_Nil [simp]: "trim [] = []"
  by (rule trim_visible) (simp add: visible_ascii_def)

lemma alphanumeric_visible: "is_ascii_alphanumeric c \<Longrightarrow> 33 \<le> byte c \<and> byte c \<le> 126"
  by (auto simp: is_ascii_alphanumeric_def)

lemma is_ascii_alphanumeric_lower [simp]:
  "is_ascii_alphanumeric (lower_char c) = is_ascii_alphanumeric c"
  by (auto simp: is_ascii_alphanumeric_def byte_lower_char)

lemma has_control_Cons: "\<not> has_control (c # s) \<Longrightarrow> \<not> has_control s"
  by simp

lemma has_control_drop: "\<not> has_control s \<Longrightarrow> \<not> has_control (drop n s)"
proof (induction s arbitrary: n)
  case Nil
  then show ?case by simp
next
  case (Cons c s)
  then show ?case by (cases n) auto
qed

lemma has_control_suffix: "suffix t s \<Longrightarrow> \<not> has_control s \<Longrightarrow> \<not> has_control t"
  by (metis has_control_drop suffix_def append_eq_conv_conj)

lemma visible_no_control: "visible_ascii s \<Longrightarrow> \<not> has_control s"
  by (induction s) (auto simp: visible_ascii_def)

lemma dropWhile_eq_hd: "dropWhile (\<lambda>d. d = c) s = [] \<or> hd (dropWhile (\<lambda>d. d = c) s) \<noteq> c"
  by (induction s) auto

lemma trim_start_matches_no_head: "trim_start_matches c s = [] \<or> hd (trim_start_matches c s) \<noteq> c"
  by (simp only: trim_start_matches_def dropWhile_eq_hd)

lemma trim_start_matches_id: "s = [] \<or> hd s \<noteq> c \<Longrightarrow> trim_start_matches c s = s"
  by (cases s) (auto simp: trim_start_matches_def)

lemma trim_start_matches_suffix: "suffix (trim_start_matches c s) s"
  by (simp add: trim_start_matches_def suffix_dropWhile)

lemma trim_end_matches_no_last: "trim_end_matches c s = [] \<or> last (trim_end_matches c s) \<noteq> c"
  using dropWhile_eq_hd [of c "rev s"] by (auto simp: trim_end_matches_def last_rev)

lemma trim_end_matches_id: "s = [] \<or> last s \<noteq> c \<Longrightarrow> trim_end_matches c s = s"
  by (cases s rule: rev_cases) (auto simp: trim_end_matches_def)

lemma trim_end_matches_replicate: "\<exists>n. s = trim_end_matches c s @ replicate n c"
proof (induction s rule: rev_induct)
  case Nil
  then show ?case by (simp add: trim_end_matches_def)
next
  case (snoc d s)
  then obtain n where n: "s = trim_end_matches c s @ replicate n c" ..
  show ?case
  proof (cases "d = c")
    case True
    then have "trim_end_matches c (s @ [d]) = trim_end_matches c s"
      by (simp add: trim_end_matches_def)
    moreover have "s @ [d] = trim_end_matches c s @ replicate (Suc n) c"
      using n True by (metis append.assoc replicate_append_same replicate_Suc)
    ultimately show ?thesis by metis
  next
    case False
    then show ?thesis by (auto simp: trim_end_matches_id intro: exI [of _ 0])
  qed
qed

lemma trim_end_matches_prefix: "prefix (trim_end_matches c s) s"
  using trim_end_matches_replicate [of s c] by (metis prefixI)

lemma contains_str_iff: "contains_str s p \<longleftrightarrow> (\<exists>u v. s = u @ p @ v)"
proof (induction s)
  case Nil
  then show ?case by auto
next
  case (Cons c cs)
  then show ?case
    by (auto simp: prefix_def Cons_eq_append_conv)
qed

lemma replace_str_absent: "\<not> contains_str s p \<Longrightarrow> replace_str p t s = s"
  by (induction s) (subst replace_str.simps, auto)+

lemma replace_str_here: "p \<noteq> [] \<Longrightarrow> replace_str p t (p @ v) = t @ replace_str p t v"
  by (subst replace_str.simps) (cases p; simp)

lemma show_nat_neq_Nil [simp]: "show_nat n \<noteq> []"
  by (subst show_nat.simps) simp

text \<open>Code equations that read the bits of a character instead of its number.\<close>

lemma has_control_Nil_code [code]: "has_control [] = False" by simp
lemma has_control_code [code]:
  "has_control (Char b0 b1 b2 b3 b4 b5 b6 b7 # cs) =
     (if b7 then
        (b6 \<and> \<not> b5 \<and> \<not> b4 \<and> \<not> b3 \<and> \<not> b2 \<and> b1 \<and> \<not> b0 \<and>
         (case cs of [] \<Rightarrow> False | d # _ \<Rightarrow> 128 \<le> byte d \<and> byte d < 160)) \<or> has_control cs
      else (\<not> b5 \<and> \<not> b6) \<or> (b0 \<and> b1 \<and> b2 \<and> b3 \<and> b4 \<and> b5 \<and> b6) \<or> has_control cs)"
  by (cases b0; cases b1; cases b2; cases b3; cases b4; cases b5; cases b6; cases b7; simp add: byte_def)

lemma lower_char_code [code]:
  "lower_char (Char b0 b1 b2 b3 b4 b5 b6 b7) =
     (if \<not> b7 \<and> b6 \<and> \<not> b5 \<and> (b0 \<or> b1 \<or> b2 \<or> b3 \<or> b4) \<and> \<not> (b4 \<and> b3 \<and> (b2 \<or> (b1 \<and> b0)))
      then Char b0 b1 b2 b3 b4 True b6 b7 else Char b0 b1 b2 b3 b4 b5 b6 b7)"
  by (cases b0; cases b1; cases b2; cases b3; cases b4; cases b5; cases b6; cases b7;
      simp add: lower_char_def byte_def char_of_def bit_iff_odd)

text \<open>What the simplifier needs to evaluate the string operations on literals.\<close>

lemmas byte_eval = byte_def char_of_def bit_iff_odd

lemmas str_eval = byte_eval to_ascii_lowercase_def lower_char_def eq_ignore_ascii_case_def
  trim_def trim_start_def trim_end_def drop_encodings.simps whitespace_encodings_def
  is_ascii_digit_def is_ascii_alphanumeric_def strip_prefix_def strip_suffix_def
  trim_start_matches_def trim_end_matches_def rsplit_once_def replace_str.simps show_nat.simps
  suffix_to_prefix

end
