(* ===== verification/Ordered_Map.thy ===== *)
theory Ordered_Map
  imports Prelude
begin

text \<open>
  \<open>std::collections::BTreeMap\<close> and \<open>BTreeSet\<close>: a map is the list of its entries in the
  order the iterators yield them, strictly increasing in the key, so two maps are equal
  exactly when they hold the same entries. The interface the program uses (insert, remove,
  get, ordered iteration, extend, collect) is the locale \<open>ordered_map\<close>, interpreted on the
  list representation at the end.
\<close>

named_theorems map_simps \<open>lookups and membership in ordered maps and sets\<close>

section \<open>The interface\<close>

locale ordered_map =
  fixes emp :: "'m"
    and ins :: "'k::linorder \<Rightarrow> 'v \<Rightarrow> 'm \<Rightarrow> 'm"
    and rem :: "'k \<Rightarrow> 'm \<Rightarrow> 'm"
    and get :: "'m \<Rightarrow> 'k \<Rightarrow> 'v option"
    and ents :: "'m \<Rightarrow> ('k \<times> 'v) list"
    and ok :: "'m \<Rightarrow> bool"
  assumes get_emp: "get emp = Map.empty"
    and get_ins: "ok m \<Longrightarrow> get (ins k v m) = (get m)(k \<mapsto> v)"
    and get_rem: "ok m \<Longrightarrow> get (rem k m) = (get m)(k := None)"
    and ok_emp: "ok emp"
    and ok_ins: "ok m \<Longrightarrow> ok (ins k v m)"
    and ok_rem: "ok m \<Longrightarrow> ok (rem k m)"
    and ents_ordered: "ok m \<Longrightarrow> sorted_wrt (<) (map fst (ents m))"
    and ents_get: "ok m \<Longrightarrow> (k, v) \<in> set (ents m) \<longleftrightarrow> get m k = Some v"
begin

lemma ents_distinct: "ok m \<Longrightarrow> distinct (map fst (ents m))"
  using ents_ordered strict_sorted_iff by blast

lemma map_of_ents: "ok m \<Longrightarrow> map_of (ents m) = get m"
proof
  fix k assume ok: "ok m"
  show "map_of (ents m) k = get m k"
    by (rule option.expand; cases "get m k")
      (auto simp: ok ents_get ents_distinct map_of_eq_None_iff image_iff dest!: map_of_SomeD
        intro: ents_get [OF ok, THEN iffD2])
qed

lemma ents_eqI:
  assumes "ok m" and "ok n" and "get m = get n"
  shows "ents m = ents n"
proof -
  have "set (ents m) = set (ents n)"
    using assms by (auto simp: ents_get)
  moreover from this have "map fst (ents m) = map fst (ents n)"
    using assms by (metis ents_ordered strict_sorted_equal set_map)
  ultimately show ?thesis
    using assms by (metis ents_distinct distinct_map inj_on_Un map_inj_on sup.idem)
qed

text \<open>Inserting a sequence of pairs (\<open>extend\<close>, \<open>collect\<close>): later pairs win.\<close>

lemma ok_extend: "ok m \<Longrightarrow> ok (foldl (\<lambda>m (k, v). ins k v m) m kvs)"
  by (induction kvs arbitrary: m) (auto simp: ok_ins)

lemma get_extend:
  "ok m \<Longrightarrow> get (foldl (\<lambda>m (k, v). ins k v m) m kvs) = get m ++ map_of (rev kvs)"
  by (induction kvs arbitrary: m) (auto simp: get_ins ok_ins map_add_def fun_eq_iff split: option.splits)

end

section \<open>Sorted association lists\<close>

type_synonym ('k, 'v) btree = "('k \<times> 'v) list"

fun bt_insert :: "'k::linorder \<Rightarrow> 'v \<Rightarrow> ('k, 'v) btree \<Rightarrow> ('k, 'v) btree" where
  "bt_insert k v [] = [(k, v)]"
| "bt_insert k v ((a, b) # m) =
     (if k < a then (k, v) # (a, b) # m
      else if k = a then (k, v) # m
      else (a, b) # bt_insert k v m)"

definition bt_remove :: "'k \<Rightarrow> ('k, 'v) btree \<Rightarrow> ('k, 'v) btree" where
  "bt_remove k m = filter (\<lambda>p. fst p \<noteq> k) m"

abbreviation bt_get :: "('k, 'v) btree \<Rightarrow> 'k \<Rightarrow> 'v option" where
  "bt_get \<equiv> map_of"

definition bt_contains :: "('k, 'v) btree \<Rightarrow> 'k \<Rightarrow> bool" where
  "bt_contains m k \<longleftrightarrow> bt_get m k \<noteq> None"

abbreviation bt_keys :: "('k, 'v) btree \<Rightarrow> 'k list" where
  "bt_keys m \<equiv> map fst m"

definition bt_ok :: "('k::linorder, 'v) btree \<Rightarrow> bool" where
  "bt_ok m \<longleftrightarrow> sorted_wrt (<) (map fst m)"

definition bt_extend :: "('k::linorder, 'v) btree \<Rightarrow> ('k \<times> 'v) list \<Rightarrow> ('k, 'v) btree" where
  "bt_extend m kvs = foldl (\<lambda>m (k, v). bt_insert k v m) m kvs"

abbreviation bt_collect :: "('k::linorder \<times> 'v) list \<Rightarrow> ('k, 'v) btree" where
  "bt_collect \<equiv> bt_extend []"

lemma map_of_bt_insert [simp]: "map_of (bt_insert k v m) = (map_of m)(k \<mapsto> v)"
  by (induction m rule: bt_insert.induct) auto

lemma map_of_bt_remove [simp]: "map_of (bt_remove k m) = (map_of m)(k := None)"
  by (induction m) (auto simp: bt_remove_def fun_eq_iff)

lemma bt_keys_insert: "set (bt_keys (bt_insert k v m)) = insert k (set (bt_keys m))"
  by (induction k v m rule: bt_insert.induct) auto

lemma bt_ok_Nil [simp, intro]: "bt_ok []"
  by (simp add: bt_ok_def)

lemma bt_ok_single [simp, intro]: "bt_ok [p]"
  by (simp add: bt_ok_def)

lemma bt_ok_Cons: "bt_ok ((k, v) # m) \<longleftrightarrow> (\<forall>k' \<in> set (bt_keys m). k < k') \<and> bt_ok m"
  by (simp add: bt_ok_def)

lemma bt_ok_insert [simp, intro]: "bt_ok m \<Longrightarrow> bt_ok (bt_insert k v m)"
proof (induction k v m rule: bt_insert.induct)
  case (1 k v)
  then show ?case by simp
next
  case (2 k v a b m)
  then show ?case
    using bt_keys_insert [of k v m] by (auto simp: bt_ok_Cons dest: order.strict_trans)
qed

lemma bt_ok_filter [simp, intro]: "bt_ok m \<Longrightarrow> bt_ok (filter P m)"
  by (induction m) (auto simp: bt_ok_Cons split_paired_all)

lemma bt_ok_remove [simp, intro]: "bt_ok m \<Longrightarrow> bt_ok (bt_remove k m)"
  by (simp add: bt_remove_def)

lemma bt_ok_distinct: "bt_ok m \<Longrightarrow> distinct (bt_keys m)"
  using strict_sorted_iff by (auto simp: bt_ok_def)

lemma bt_ok_entry: "bt_ok m \<Longrightarrow> (k, v) \<in> set m \<longleftrightarrow> map_of m k = Some v"
  by (simp add: bt_ok_distinct)

interpretation bt: ordered_map "[]" bt_insert bt_remove map_of "\<lambda>m. m" bt_ok
  by unfold_locales (auto simp: bt_ok_entry bt_ok_def [symmetric])

lemma bt_eqI: "bt_ok m \<Longrightarrow> bt_ok n \<Longrightarrow> map_of m = map_of n \<Longrightarrow> m = n"
  by (rule bt.ents_eqI)

lemma bt_ok_extend [simp, intro]: "bt_ok m \<Longrightarrow> bt_ok (bt_extend m kvs)"
  by (simp add: bt_extend_def bt.ok_extend)

lemma map_of_bt_extend: "bt_ok m \<Longrightarrow> map_of (bt_extend m kvs) = map_of m ++ map_of (rev kvs)"
  by (simp add: bt_extend_def bt.get_extend)

lemma map_of_bt_extend_ok:
  "bt_ok m \<Longrightarrow> bt_ok kvs \<Longrightarrow> map_of (bt_extend m kvs) = map_of m ++ map_of kvs"
  using map_of_inject_set [of "rev kvs" kvs]
  by (simp add: map_of_bt_extend bt_ok_distinct rev_map [symmetric])

lemma bt_keys_extend: "set (bt_keys (bt_extend m kvs)) = set (bt_keys m) \<union> fst ` set kvs"
  by (induction kvs arbitrary: m) (auto simp: bt_extend_def bt_keys_insert simp del: set_map)

lemma bt_extend_Nil [simp]: "bt_extend m [] = m"
  by (simp add: bt_extend_def)

lemma bt_contains_iff [map_simps]: "bt_contains m k \<longleftrightarrow> k \<in> set (bt_keys m)"
  by (simp add: bt_contains_def map_of_eq_None_iff)

section \<open>Ordered sets\<close>

type_synonym 'a bset = "'a list"

fun bset_insert :: "'a::linorder \<Rightarrow> 'a bset \<Rightarrow> 'a bset" where
  "bset_insert x [] = [x]"
| "bset_insert x (y # ys) =
     (if x < y then x # y # ys else if x = y then y # ys else y # bset_insert x ys)"

definition bset_of :: "'a::linorder list \<Rightarrow> 'a bset" where
  "bset_of xs = foldl (\<lambda>s x. bset_insert x s) [] xs"

definition bset_ok :: "'a::linorder bset \<Rightarrow> bool" where
  "bset_ok s \<longleftrightarrow> sorted_wrt (<) s"

lemma set_bset_insert [simp]: "set (bset_insert x s) = insert x (set s)"
  by (induction x s rule: bset_insert.induct) auto

lemma bset_ok_Nil [simp, intro]: "bset_ok []"
  by (simp add: bset_ok_def)

lemma bset_ok_insert [simp, intro]: "bset_ok s \<Longrightarrow> bset_ok (bset_insert x s)"
  by (induction x s rule: bset_insert.induct) (auto simp: bset_ok_def)

lemma set_foldl_bset_insert: "set (foldl (\<lambda>s x. bset_insert x s) s xs) = set s \<union> set xs"
  by (induction xs arbitrary: s) auto

lemma bset_ok_foldl: "bset_ok s \<Longrightarrow> bset_ok (foldl (\<lambda>s x. bset_insert x s) s xs)"
  by (induction xs arbitrary: s) auto

lemma set_bset_of [simp]: "set (bset_of xs) = set xs"
  by (simp add: bset_of_def set_foldl_bset_insert)

lemma bset_ok_of [simp, intro]: "bset_ok (bset_of xs)"
  by (simp add: bset_of_def bset_ok_foldl)

lemma bset_eqI: "bset_ok s \<Longrightarrow> bset_ok t \<Longrightarrow> set s = set t \<Longrightarrow> s = t"
  by (simp add: bset_ok_def strict_sorted_equal)

lemma bset_ok_distinct: "bset_ok s \<Longrightarrow> distinct s"
  using strict_sorted_iff by (auto simp: bset_ok_def)

lemma length_bset_of: "length (bset_of xs) = card (set xs)"
  using bset_ok_distinct [OF bset_ok_of, of xs] by (simp add: distinct_card [symmetric])

lemma bset_ok_filter [simp, intro]: "bset_ok s \<Longrightarrow> bset_ok (filter P s)"
  by (simp add: bset_ok_def sorted_wrt_filter)

lemma bset_of_id: "bset_ok s \<Longrightarrow> bset_of s = s"
  by (simp add: bset_eqI)

lemma bset_ok_keys: "bt_ok m \<Longrightarrow> bset_ok (bt_keys m)"
  by (simp add: bset_ok_def bt_ok_def)

end
