(* ===== verification/Mirror_Paths.thy ===== *)
theory Mirror_Paths
  imports Ordered_Map
begin

text \<open>
  Paths and object keys (\<open>src/repositories/local_mirror.rs\<close>, the path functions of
  \<open>src/repositories/sync.rs\<close>): \<open>std::path::Path::components\<close> on Unix, the validation of
  object keys and origin ids, the place of an object and of its metadata sidecar below an
  origin directory, and the hexadecimal encoding of key hashes. The SHA-256 digest is a
  parameter.
\<close>

section \<open>std::path\<close>

datatype component = RootDir | CurDir | ParentDir | Normal string

definition component_of :: "string \<Rightarrow> component" where
  "component_of seg = (if seg = ''..'' then ParentDir else Normal seg)"

text \<open>
  \<open>Path::components\<close>: repeated separators and inner dots vanish; a leading separator is
  \<open>RootDir\<close> and a leading dot of a relative path is \<open>CurDir\<close>.
\<close>

definition path_components :: "string \<Rightarrow> component list" where
  "path_components s =
     (let segs = split_on CHR ''/'' s in
      (if starts_with s ''/'' then [RootDir]
       else if hd segs = ''.'' then [CurDir] else []) @
      map component_of (filter (\<lambda>g. g \<noteq> [] \<and> g \<noteq> ''.'') segs))"

definition is_absolute :: "string \<Rightarrow> bool" where
  "is_absolute s \<longleftrightarrow> starts_with s ''/''"

text \<open>
  A \<open>PathBuf\<close> is its text. Equality and \<open>starts_with\<close> compare components; the operating
  system also sees whether the text ends with a separator.
\<close>

type_synonym pathbuf = string

definition join_path :: "pathbuf \<Rightarrow> string \<Rightarrow> pathbuf" where
  "join_path p s =
     (if is_absolute s then s
      else if p = [] \<or> ends_with p ''/'' then p @ s
      else p @ ''/'' @ s)"

definition path_starts_with :: "pathbuf \<Rightarrow> pathbuf \<Rightarrow> bool" where
  "path_starts_with p base \<longleftrightarrow> prefix (path_components base) (path_components p)"

definition same_path :: "pathbuf \<Rightarrow> pathbuf \<Rightarrow> bool" where
  "same_path p q \<longleftrightarrow> path_components p = path_components q"

text \<open>\<open>Path::parent\<close>: drop the last component and the separators and dots in front of it.\<close>

definition drop_blank_segments :: "string list \<Rightarrow> string list" where
  "drop_blank_segments segs = rev (dropWhile (\<lambda>g. g = [] \<or> g = ''.'') (rev segs))"

definition path_parent :: "pathbuf \<Rightarrow> pathbuf option" where
  "path_parent p =
     (if path_components p = [] \<or> path_components p = [RootDir] then None
      else
        (let segs = split_on CHR ''/'' p; first = hd segs; rest = drop_blank_segments (tl segs) in
         if rest = [] then Some []
         else (let above = drop_blank_segments (butlast rest) in
               if above = [] \<and> first = [] then Some ''/''
               else Some (join_with ''/'' (first # above)))))"

text \<open>\<open>Path::with_extension\<close> on a path whose last segment is a file name.\<close>

definition with_extension :: "pathbuf \<Rightarrow> string \<Rightarrow> pathbuf" where
  "with_extension p ext =
     (let segs = split_on CHR ''/'' p; name = last segs;
          stem = (case rsplit_once CHR ''.'' name of
                    Some (a, b) \<Rightarrow> (if a = [] then name else a)
                  | None \<Rightarrow> name)
      in join_with ''/'' (butlast segs @ [stem @ ''.'' @ ext]))"

section \<open>Object keys\<close>

definition METADATA_DIR_NAME :: string where
  "METADATA_DIR_NAME = ''.rendermesh-meta''"

definition invalid_object_path :: "string \<Rightarrow> anyhow" where
  "invalid_object_path key = ErrorMsg (''invalid object path '' @ key)"

text \<open>\<open>normalize_remote_key\<close> of \<open>sync.rs\<close>: the keys a storage may list.\<close>

definition normalize_remote_key :: "string \<Rightarrow> string res" where
  "normalize_remote_key key =
     try_then (fail_if (key = [] \<or> starts_with key ''/'' \<or> has_control key)
                 (invalid_object_path key)) (\<lambda>_.
     try_then (fail_if (is_absolute key \<or>
                  (\<exists>c \<in> set (path_components key). c = ParentDir \<or> c = RootDir))
                 (invalid_object_path key)) (\<lambda>_.
     try_then (fail_if (starts_with key METADATA_DIR_NAME \<and>
                  (length key = length METADATA_DIR_NAME \<or>
                   (length METADATA_DIR_NAME < length key \<and>
                    key ! length METADATA_DIR_NAME = CHR ''/'')))
                 (invalid_object_path key)) (\<lambda>_.
     Inr key)))"

definition is_reserved_metadata_key :: "string \<Rightarrow> bool" where
  "is_reserved_metadata_key path =
     (case path_components path of
        Normal part # _ \<Rightarrow> part = METADATA_DIR_NAME
      | _ \<Rightarrow> False)"

text \<open>\<open>normalize_object_path\<close> of \<open>local_mirror.rs\<close>: the paths a reader may ask for.\<close>

definition normalize_object_path :: "string \<Rightarrow> string res" where
  "normalize_object_path path =
     (let normalized = trim_start_matches CHR ''/'' (trim path) in
      try_then (fail_if (normalized = [] \<or> has_control normalized)
                  (invalid_object_path path)) (\<lambda>_.
      try_then (fail_if (is_absolute normalized \<or>
                   (\<exists>c \<in> set (path_components normalized). c = ParentDir \<or> c = RootDir))
                  (invalid_object_path path)) (\<lambda>_.
      try_then (fail_if (is_reserved_metadata_key normalized)
                  (invalid_object_path path)) (\<lambda>_.
      Inr normalized))))"

definition validate_origin_id :: "string \<Rightarrow> unit res" where
  "validate_origin_id origin_id =
     fail_if (\<not> (origin_id \<noteq> [] \<and>
        (\<forall>c \<in> set origin_id. is_ascii_alphanumeric c \<or> c = CHR ''_'' \<or> c = CHR ''-'')))
       (ErrorMsg (''invalid origin id '' @ origin_id))"

section \<open>Places below a mirror root\<close>

definition origin_dir :: "pathbuf \<Rightarrow> string \<Rightarrow> pathbuf res" where
  "origin_dir root origin_id =
     try_then (validate_origin_id origin_id) (\<lambda>_. Inr (join_path root origin_id))"

definition escapes_error :: anyhow where
  "escapes_error = ErrorMsg ''object path escapes origin directory''"

text \<open>\<open>LocalMirrorRepository::object_path\<close> and the \<open>object_path\<close> of \<open>sync.rs\<close>.\<close>

definition mirror_object_path :: "pathbuf \<Rightarrow> string \<Rightarrow> string \<Rightarrow> pathbuf res" where
  "mirror_object_path root origin_id object_path =
     try_then (origin_dir root origin_id) (\<lambda>dir.
     try_then (normalize_object_path object_path) (\<lambda>normalized.
     let p = join_path dir normalized in
     if path_starts_with p dir then Inr p else Inl escapes_error))"

definition sync_object_path :: "pathbuf \<Rightarrow> string \<Rightarrow> pathbuf res" where
  "sync_object_path dir key =
     try_then (normalize_remote_key key) (\<lambda>key.
     let p = join_path dir key in
     if path_starts_with p dir then Inr p else Inl escapes_error)"

text \<open>\<open>relative_key\<close> of \<open>sync.rs\<close>: the key of a file found below an origin directory.\<close>

definition normal_text :: "component \<Rightarrow> string" where
  "normal_text c = (case c of Normal part \<Rightarrow> part | _ \<Rightarrow> [])"

definition relative_key :: "pathbuf \<Rightarrow> pathbuf \<Rightarrow> string res" where
  "relative_key dir p =
     (if path_starts_with p dir
      then normalize_remote_key
             (join_with ''/'' (map normal_text (drop (length (path_components dir)) (path_components p))))
      else Inl (ErrorContext (''local object '' @ p @ '' is outside origin dir '' @ dir)
             (ErrorMsg ''prefix not found'')))"

section \<open>Metadata sidecars\<close>

definition hex_digits :: string where
  "hex_digits = ''0123456789abcdef''"

fun encode_hex :: "string \<Rightarrow> string" where
  "encode_hex [] = []"
| "encode_hex (b # bs) =
     hex_digits ! (byte b div 16) # hex_digits ! (byte b mod 16) # encode_hex bs"

definition stable_key_hash :: "(string \<Rightarrow> string) \<Rightarrow> string \<Rightarrow> string" where
  "stable_key_hash sha256 key = encode_hex (sha256 key)"

definition metadata_sidecar_path :: "(string \<Rightarrow> string) \<Rightarrow> pathbuf \<Rightarrow> string \<Rightarrow> pathbuf res" where
  "metadata_sidecar_path sha256 dir object_key =
     try_then (normalize_object_path object_key) (\<lambda>normalized.
     let hash = stable_key_hash sha256 normalized;
         shard = take 2 hash
     in Inr (join_path (join_path (join_path dir METADATA_DIR_NAME) shard) (hash @ ''.json'')))"

section \<open>Components of joined paths\<close>

lemma split_on_append_sep: "split_on c (s @ c # t) = split_on c s @ split_on c t"
proof (induction s)
  case Nil
  then show ?case by simp
next
  case (Cons d s)
  then show ?case by (cases "split_on c s") auto
qed

lemma split_on_Cons: "d \<noteq> c \<Longrightarrow> split_on c (d # s) = (d # hd (split_on c s)) # tl (split_on c s)"
  by (cases "split_on c s") auto

lemma hd_split_on_absolute: "starts_with s ''/'' \<Longrightarrow> hd (split_on CHR ''/'' s) = []"
  by (cases s) auto

definition key_components :: "string \<Rightarrow> component list" where
  "key_components s = map component_of (filter (\<lambda>g. g \<noteq> [] \<and> g \<noteq> ''.'') (split_on CHR ''/'' s))"

definition root_components :: "string \<Rightarrow> component list" where
  "root_components s =
     (if starts_with s ''/'' then [RootDir]
      else if hd (split_on CHR ''/'' s) = ''.'' then [CurDir] else [])"

lemma path_components_split: "path_components s = root_components s @ key_components s"
  by (simp add: path_components_def root_components_def key_components_def)

lemma key_components_kinds: "c \<in> set (key_components s) \<Longrightarrow> c \<noteq> CurDir \<and> c \<noteq> RootDir"
  by (auto simp: key_components_def component_of_def)

lemma filter_key_components [simp]: "filter (\<lambda>c. c \<noteq> CurDir) (key_components s) = key_components s"
  using key_components_kinds by (auto simp: filter_id_conv)

lemma key_components_append [simp]:
  "key_components (p @ CHR ''/'' # s) = key_components p @ key_components s"
  by (simp add: key_components_def split_on_append_sep)

lemma key_components_Nil [simp]: "key_components [] = []"
  by (simp add: key_components_def)

lemma root_components_append [simp]:
  "p \<noteq> [] \<Longrightarrow> root_components (p @ CHR ''/'' # s) = root_components p"
  by (auto simp: root_components_def split_on_append_sep hd_append prefix_Cons neq_Nil_conv)

lemma path_components_join:
  assumes "p \<noteq> []" and "\<not> is_absolute s"
  shows "path_components (join_path p s) = path_components p @ key_components s"
proof (cases "ends_with p ''/''")
  case True
  then obtain q where q: "p = q @ ''/''" by (auto simp: suffix_def)
  have join: "join_path p s = q @ CHR ''/'' # s" using assms True q by (simp add: join_path_def)
  show ?thesis
  proof (cases "q = []")
    case True
    have "key_components (CHR ''/'' # s) = key_components s"
      by (simp add: key_components_def)
    with True show ?thesis using join q
      by (simp add: path_components_split root_components_def) (simp add: key_components_def)
  next
    case False
    then show ?thesis using join q by (simp add: path_components_split)
  qed
next
  case False
  with assms show ?thesis
    by (simp add: join_path_def path_components_split)
qed

section \<open>Accepted keys\<close>

definition reserved_key :: "string \<Rightarrow> bool" where
  "reserved_key key \<longleftrightarrow> key = METADATA_DIR_NAME \<or> starts_with key (METADATA_DIR_NAME @ ''/'')"

definition accepted_key :: "string \<Rightarrow> bool" where
  "accepted_key key \<longleftrightarrow>
     key \<noteq> [] \<and> \<not> is_absolute key \<and> \<not> has_control key \<and>
     ''..'' \<notin> set (split_on CHR ''/'' key) \<and> \<not> reserved_key key"

lemma parent_dir_iff:
  "\<not> is_absolute key \<Longrightarrow>
     (\<exists>c \<in> set (path_components key). c = ParentDir \<or> c = RootDir) \<longleftrightarrow>
     ''..'' \<in> set (split_on CHR ''/'' key)"
  by (auto simp: path_components_def component_of_def is_absolute_def Let_def image_iff split: if_splits)

lemma reserved_key_iff:
  "reserved_key key \<longleftrightarrow>
     starts_with key METADATA_DIR_NAME \<and>
     (length key = length METADATA_DIR_NAME \<or>
      (length METADATA_DIR_NAME < length key \<and> key ! length METADATA_DIR_NAME = CHR ''/''))"
proof -
  have "starts_with (METADATA_DIR_NAME @ t) (METADATA_DIR_NAME @ ''/'') \<longleftrightarrow> starts_with t ''/''" for t
    by (simp add: prefix_append)
  then show ?thesis
    by (auto simp: reserved_key_def prefix_def nth_append neq_Nil_conv Cons_eq_append_conv)
qed

lemma normalize_remote_key_Inr [result_simps]:
  "normalize_remote_key key = Inr k \<longleftrightarrow> k = key \<and> accepted_key key"
  using parent_dir_iff [of key] reserved_key_iff [of key]
  by (auto simp: normalize_remote_key_def accepted_key_def result_simps is_absolute_def)

lemma normalize_remote_key_Inl:
  "\<not> accepted_key key \<Longrightarrow> normalize_remote_key key = Inl (invalid_object_path key)"
proof -
  assume "\<not> accepted_key key"
  then have "\<And>k. normalize_remote_key key \<noteq> Inr k" by (simp add: result_simps)
  then show ?thesis
    by (cases "normalize_remote_key key") (auto simp: normalize_remote_key_def result_simps)
qed

definition requested_key :: "string \<Rightarrow> string" where
  "requested_key path = trim_start_matches CHR ''/'' (trim path)"

definition readable_key :: "string \<Rightarrow> bool" where
  "readable_key key \<longleftrightarrow>
     key \<noteq> [] \<and> \<not> has_control key \<and> ''..'' \<notin> set (split_on CHR ''/'' key) \<and>
     \<not> is_reserved_metadata_key key"

lemma requested_key_relative: "\<not> is_absolute (requested_key path)"
  using trim_start_matches_no_head [of "CHR ''/''" "trim path"]
  by (cases "requested_key path") (auto simp: requested_key_def is_absolute_def)

lemma normalize_object_path_Inr [result_simps]:
  "normalize_object_path path = Inr n \<longleftrightarrow> n = requested_key path \<and> readable_key n"
  using parent_dir_iff [OF requested_key_relative, of path] requested_key_relative [of path]
  by (auto simp: normalize_object_path_def requested_key_def [symmetric] readable_key_def
      result_simps Let_def)

section \<open>Containment and round trips\<close>

definition key_names :: "string \<Rightarrow> string list" where
  "key_names s = filter (\<lambda>g. g \<noteq> [] \<and> g \<noteq> ''.'') (split_on CHR ''/'' s)"

lemma key_components_names:
  "''..'' \<notin> set (split_on CHR ''/'' key) \<Longrightarrow> key_components key = map Normal (key_names key)"
  by (auto simp: key_components_def key_names_def component_of_def)

lemma key_names_no_sep: "g \<in> set (key_names s) \<Longrightarrow> CHR ''/'' \<notin> set g"
  by (auto simp: key_names_def split_on_segments)

lemma accepted_key_relative: "accepted_key key \<Longrightarrow> \<not> is_absolute key"
  by (simp add: accepted_key_def)

lemma sync_object_path_Inr:
  assumes "dir \<noteq> []"
  shows "sync_object_path dir key = Inr p \<longleftrightarrow> accepted_key key \<and> p = join_path dir key"
proof (cases "accepted_key key")
  case True
  with assms have "path_starts_with (join_path dir key) dir"
    by (simp add: path_starts_with_def path_components_join accepted_key_relative)
  then show ?thesis using True
    by (auto simp: sync_object_path_def result_simps Let_def)
next
  case False
  then show ?thesis by (auto simp: sync_object_path_def result_simps)
qed

lemma valid_origin_id_no_sep:
  "validate_origin_id i = Inr u \<Longrightarrow>
     i \<noteq> [] \<and> CHR ''/'' \<notin> set i \<and> CHR ''.'' \<notin> set i \<and> \<not> is_absolute i"
  by (auto simp: validate_origin_id_def result_simps is_absolute_def is_ascii_alphanumeric_def
      byte_def prefix_def)

lemma origin_dir_Inr: "origin_dir root i = Inr d \<longleftrightarrow> validate_origin_id i = Inr () \<and> d = join_path root i"
  by (auto simp: origin_dir_def result_simps)

lemma key_components_segment:
  "CHR ''/'' \<notin> set s \<Longrightarrow> s \<noteq> [] \<Longrightarrow> s \<noteq> ''.'' \<Longrightarrow> s \<noteq> ''..'' \<Longrightarrow> key_components s = [Normal s]"
  by (simp add: key_components_def component_of_def split_on_single)

lemma join_path_neq_Nil: "p \<noteq> [] \<Longrightarrow> join_path p s \<noteq> []"
  by (auto simp: join_path_def is_absolute_def)

lemma origin_dir_components:
  assumes "root \<noteq> []" and "origin_dir root i = Inr d"
  shows "path_components d = path_components root @ [Normal i]" and "d \<noteq> []"
proof -
  from assms(2) have v: "validate_origin_id i = Inr ()" and d: "d = join_path root i"
    by (auto simp: origin_dir_Inr)
  note i = valid_origin_id_no_sep [OF v]
  have "key_components i = [Normal i]"
    using i by (intro key_components_segment) auto
  then show "path_components d = path_components root @ [Normal i]"
    using assms(1) i d by (simp add: path_components_join)
  show "d \<noteq> []" using assms(1) d by (simp add: join_path_neq_Nil)
qed

lemma mirror_object_path_Inr:
  assumes "root \<noteq> []"
  shows "mirror_object_path root i op = Inr p \<longleftrightarrow>
     validate_origin_id i = Inr () \<and> readable_key (requested_key op) \<and>
     p = join_path (join_path root i) (requested_key op)"
proof (cases "validate_origin_id i = Inr () \<and> readable_key (requested_key op)")
  case True
  then have d: "origin_dir root i = Inr (join_path root i)" by (simp add: origin_dir_Inr)
  have n: "normalize_object_path op = Inr (requested_key op)"
    using True by (simp add: normalize_object_path_Inr)
  have "path_starts_with (join_path (join_path root i) (requested_key op)) (join_path root i)"
    using origin_dir_components(2) [OF assms d] requested_key_relative [of op]
    by (simp add: path_starts_with_def path_components_join)
  then show ?thesis using True by (auto simp: mirror_object_path_def d n Let_def)
next
  case False
  then show ?thesis
    by (auto simp: mirror_object_path_def result_simps origin_dir_Inr)
qed

text \<open>Every component below the origin directory is a plain name.\<close>

lemma sync_path_components:
  assumes "dir \<noteq> []" and "sync_object_path dir key = Inr p"
  shows "path_components p = path_components dir @ map Normal (key_names key)"
  using assms by (auto simp: sync_object_path_Inr path_components_join accepted_key_relative
      key_components_names accepted_key_def)

lemma mirror_path_components:
  assumes "root \<noteq> []" and "mirror_object_path root i op = Inr p"
  shows "path_components p =
    path_components root @ Normal i # map Normal (key_names (requested_key op))"
proof -
  from assms have *: "validate_origin_id i = Inr ()" "readable_key (requested_key op)"
    "p = join_path (join_path root i) (requested_key op)"
    by (auto simp: mirror_object_path_Inr)
  then have d: "origin_dir root i = Inr (join_path root i)" by (simp add: origin_dir_Inr)
  have "key_components (requested_key op) = map Normal (key_names (requested_key op))"
    using *(2) by (simp add: key_components_names readable_key_def)
  then show ?thesis
    using * origin_dir_components [OF assms(1) d] requested_key_relative [of op]
    by (simp add: path_components_join)
qed

text \<open>
  A key is canonical when its segments are proper names; the mirror finds such keys back
  from the files.
\<close>

definition canonical_key :: "string \<Rightarrow> bool" where
  "canonical_key key \<longleftrightarrow>
     accepted_key key \<and> (\<forall>g \<in> set (split_on CHR ''/'' key). g \<noteq> [] \<and> g \<noteq> ''.'')"

lemma canonical_key_names: "canonical_key key \<Longrightarrow> join_with ''/'' (key_names key) = key"
  by (simp add: canonical_key_def key_names_def join_split_on filter_id_conv [THEN iffD2])

lemma normal_text_Normal [simp]: "normal_text (Normal name) = name" "normal_text \<circ> Normal = id"
  by (auto simp: normal_text_def)

lemma relative_key_sync_path:
  assumes "dir \<noteq> []" and "sync_object_path dir key = Inr p"
  shows "relative_key dir p = normalize_remote_key (join_with ''/'' (key_names key))"
  using sync_path_components [OF assms] by (simp add: relative_key_def path_starts_with_def)

section \<open>Sidecars\<close>

lemma length_encode_hex [simp]: "length (encode_hex bs) = 2 * length bs"
  by (induction bs) auto

lemma hex_digit_char: "n < 16 \<Longrightarrow> hex_digits ! n \<in> set hex_digits"
  by (rule nth_mem) (simp add: hex_digits_def)

lemma encode_hex_chars: "set (encode_hex bs) \<subseteq> set hex_digits"
proof (induction bs)
  case Nil
  then show ?case by simp
next
  case (Cons b bs)
  have "byte b div 16 < 16" "byte b mod 16 < 16" using byte_bound [of b] by auto
  with Cons show ?case by (auto intro: hex_digit_char)
qed

lemma hex_digits_distinct: "distinct hex_digits"
  by (simp add: hex_digits_def)

lemma hex_digit_inject: "m < 16 \<Longrightarrow> n < 16 \<Longrightarrow> hex_digits ! m = hex_digits ! n \<longleftrightarrow> m = n"
  using hex_digits_distinct by (simp add: nth_eq_iff_index_eq hex_digits_def)

lemma encode_hex_inject: "encode_hex bs = encode_hex cs \<Longrightarrow> bs = cs"
proof (induction bs arbitrary: cs)
  case Nil
  then show ?case by (cases cs) auto
next
  case (Cons b bs)
  then obtain c cs' where cs: "cs = c # cs'" by (cases cs) auto
  have bound: "byte b div 16 < 16" "byte c div 16 < 16" "byte b mod 16 < 16" "byte c mod 16 < 16"
    using byte_bound [of b] byte_bound [of c] by auto
  have eqs: "byte b div 16 = byte c div 16" "byte b mod 16 = byte c mod 16"
      "encode_hex bs = encode_hex cs'"
    using Cons.prems hex_digit_inject [OF bound(1,2)] hex_digit_inject [OF bound(3,4)]
    unfolding cs encode_hex.simps list.inject by blast+
  have "byte b = byte b div 16 * 16 + byte b mod 16" by simp
  also have "\<dots> = byte c" unfolding eqs by simp
  finally show ?case using Cons.IH [OF eqs(3)] by (simp add: cs)
qed

definition sidecar_names :: "(string \<Rightarrow> string) \<Rightarrow> string \<Rightarrow> string list" where
  "sidecar_names sha256 key =
     (let hash = stable_key_hash sha256 key in [METADATA_DIR_NAME, take 2 hash, hash @ ''.json''])"

lemma encode_hex_no_dot: "CHR ''.'' \<notin> set (encode_hex bs)" "CHR ''/'' \<notin> set (encode_hex bs)"
  using encode_hex_chars [of bs] by (auto simp: hex_digits_def)

lemma segment_relative: "CHR ''/'' \<notin> set s \<Longrightarrow> \<not> is_absolute s"
  by (cases s) (auto simp: is_absolute_def)

lemma metadata_sidecar_path_Inr:
  assumes "dir \<noteq> []" and "metadata_sidecar_path sha256 dir key = Inr p"
    and "sha256 (requested_key key) \<noteq> []"
  shows "path_components p = path_components dir @ map Normal (sidecar_names sha256 (requested_key key))"
proof -
  define hash where "hash = stable_key_hash sha256 (requested_key key)"
  have p: "p = join_path (join_path (join_path dir METADATA_DIR_NAME) (take 2 hash)) (hash @ ''.json'')"
    using assms(2) by (auto simp: metadata_sidecar_path_def result_simps Let_def hash_def)
  have len: "2 \<le> length hash"
    using assms(3) by (cases "sha256 (requested_key key)") (auto simp: hash_def stable_key_hash_def)
  have no: "CHR ''.'' \<notin> set hash" "CHR ''/'' \<notin> set hash"
    unfolding hash_def stable_key_hash_def by (rule encode_hex_no_dot)+
  have "CHR ''.'' \<notin> set (take 2 hash)" using no(1) by (auto dest: in_set_takeD)
  then have dots: "take 2 hash \<noteq> ''.''" "take 2 hash \<noteq> ''..''"
    by (metis list.set_intros(1))+
  have meta: "\<not> is_absolute METADATA_DIR_NAME" by (simp add: is_absolute_def METADATA_DIR_NAME_def)
  have "CHR ''/'' \<notin> set (take 2 hash)" "CHR ''/'' \<notin> set (hash @ ''.json'')"
    using no(2) by (auto dest: in_set_takeD)
  then have rel: "\<not> is_absolute METADATA_DIR_NAME" "\<not> is_absolute (take 2 hash)"
      "\<not> is_absolute (hash @ ''.json'')"
    using meta segment_relative by blast+
  have "key_components METADATA_DIR_NAME = [Normal METADATA_DIR_NAME]"
    by (rule key_components_segment) (auto simp: METADATA_DIR_NAME_def)
  moreover have "key_components (take 2 hash) = [Normal (take 2 hash)]"
    using no len dots by (intro key_components_segment) (auto dest: in_set_takeD)
  moreover have "key_components (hash @ ''.json'') = [Normal (hash @ ''.json'')]"
    using no len by (intro key_components_segment) auto
  ultimately show ?thesis
    using assms(1) rel
    by (simp add: p path_components_join join_path_neq_Nil sidecar_names_def Let_def hash_def)
qed

section \<open>Parents\<close>

definition proper_segments :: "string list \<Rightarrow> string list" where
  "proper_segments segs = filter (\<lambda>g. g \<noteq> [] \<and> g \<noteq> ''.'') segs"

lemma drop_blank_facts:
  "proper_segments (drop_blank_segments segs) = proper_segments segs"
  "drop_blank_segments segs \<noteq> [] \<Longrightarrow> last (drop_blank_segments segs) \<noteq> [] \<and> last (drop_blank_segments segs) \<noteq> ''.''"
  "set (drop_blank_segments segs) \<subseteq> set segs"
proof -
  have blank: "proper_segments (rev (dropWhile (\<lambda>g. g = [] \<or> g = ''.'') xs)) = proper_segments (rev xs)" for xs
    by (induction xs) (simp_all add: proper_segments_def)
  show "proper_segments (drop_blank_segments segs) = proper_segments segs"
    using blank [of "rev segs"] by (simp add: drop_blank_segments_def)
  show "drop_blank_segments segs \<noteq> [] \<Longrightarrow> last (drop_blank_segments segs) \<noteq> [] \<and> last (drop_blank_segments segs) \<noteq> ''.''"
    using hd_dropWhile [of "\<lambda>g. g = [] \<or> g = ''.''" "rev segs"]
    unfolding drop_blank_segments_def last_rev by blast
  show "set (drop_blank_segments segs) \<subseteq> set segs"
    unfolding drop_blank_segments_def by (auto dest: set_dropWhileD)
qed

lemma drop_blank_last:
  assumes "drop_blank_segments segs = rest" and "rest \<noteq> []"
  shows "proper_segments segs = proper_segments (butlast rest) @ [last rest]"
proof -
  have "proper_segments segs = proper_segments (butlast rest @ [last rest])"
    using drop_blank_facts(1) [of segs] assms by simp
  then show ?thesis using drop_blank_facts(2) [of segs] assms
    by (simp add: proper_segments_def del: append_butlast_last_id)
qed

lemma path_components_segments:
  "split_on CHR ''/'' p = first # others \<Longrightarrow>
   path_components p =
     (if first = [] \<and> others \<noteq> [] then [RootDir] else if first = ''.'' then [CurDir] else []) @
     map component_of (proper_segments (first # others))"
  using hd_split_on_absolute [of p]
  by (cases p) (auto simp: path_components_def proper_segments_def split: if_splits list.splits)

lemma path_components_parent:
  assumes "path_parent p = Some q"
  shows "path_components q = butlast (path_components p)"
proof -
  obtain first others where segs: "split_on CHR ''/'' p = first # others"
    by (cases "split_on CHR ''/'' p") auto
  define rest where "rest = drop_blank_segments others"
  define above where "above = drop_blank_segments (butlast rest)"
  have no_sep: "\<forall>g \<in> set (first # above). CHR ''/'' \<notin> set g"
    using drop_blank_facts(3) [of others] drop_blank_facts(3) [of "butlast rest"] in_set_butlastD [of _ rest]
      split_on_segments [of _ "CHR ''/''" p] segs
    unfolding rest_def [symmetric] above_def [symmetric] by auto
  have p: "path_components p =
     (if first = [] \<and> others \<noteq> [] then [RootDir] else if first = ''.'' then [CurDir] else []) @
     map component_of (proper_segments (first # others))"
    using path_components_segments [OF segs] .
  have nonempty: "path_components p \<noteq> []" "path_components p \<noteq> [RootDir]"
    using assms by (auto simp: path_parent_def split: if_splits)
  show ?thesis
  proof (cases "rest = []")
    case True
    then have "q = []" using assms segs nonempty by (simp add: path_parent_def rest_def)
    moreover have "proper_segments others = []"
      using drop_blank_facts(1) [of others] True by (simp add: rest_def proper_segments_def)
    ultimately show ?thesis using p nonempty
      by (auto simp: proper_segments_def path_components_def split: if_splits)
  next
    case False
    have others: "proper_segments others = proper_segments above @ [last rest]"
      using drop_blank_last [of others rest] False drop_blank_facts(1) [of "butlast rest"]
      by (simp add: rest_def above_def)
    then have many: "others \<noteq> []" by (auto simp: proper_segments_def)
    have q: "q = (if above = [] \<and> first = [] then ''/'' else join_with ''/'' (first # above))"
      using assms segs nonempty False 
      by (auto simp: path_parent_def rest_def above_def Let_def split: if_splits)
    show ?thesis
    proof (cases "above = [] \<and> first = []")
      case True
      then show ?thesis using p q others many by (simp add: proper_segments_def path_components_def)
    next
      case above: False
      have "split_on CHR ''/'' q = first # above"
        using q above split_join_with [of "first # above" "CHR ''/''"] no_sep by auto
      from path_components_segments [OF this] show ?thesis
        using p others many above by (auto simp: proper_segments_def butlast_append)
    qed
  qed
qed

text \<open>Names joined to a key of the metadata directory make a reserved key.\<close>

lemma reserved_join: "reserved_key (join_with ''/'' (METADATA_DIR_NAME # names))"
  by (cases names) (auto simp: reserved_key_def)

lemma join_split_snoc: "join_with ''/'' (split_on CHR ''/'' q @ [s]) = q @ ''/'' @ s"
proof -
  have snoc: "ss \<noteq> [] \<Longrightarrow> join_with sep (ss @ [s]) = join_with sep ss @ sep @ s" for sep s and ss :: "string list"
    by (induction ss rule: induct_list012) auto
  show ?thesis using snoc [of "split_on CHR ''/'' q"] join_split_on [of "CHR ''/''" q] by simp
qed

lemma join_path_sep:
  assumes "root \<noteq> []"
  shows "\<exists>q. \<forall>s. \<not> is_absolute s \<longrightarrow> join_path root s = q @ CHR ''/'' # s"
proof (cases "ends_with root ''/''")
  case True
  then obtain q where "root = q @ ''/''" by (auto simp: suffix_def)
  then show ?thesis by (intro exI [of _ q]) (simp add: join_path_def)
next
  case False
  then show ?thesis using assms by (intro exI [of _ root]) (simp add: join_path_def)
qed

section \<open>Properties\<close>

lemma key_names_plain: "''..'' \<notin> set (split_on CHR ''/'' key) \<Longrightarrow> ''..'' \<notin> set (key_names key)"
  by (simp add: key_names_def)

text \<open>The path of a requested object lies in the directory of its origin: it is the root, the valid
origin id and then names, none of them a parent directory, whatever the request.\<close>

theorem mirror_path_contained:
  assumes "root \<noteq> []" and "mirror_object_path root i op = Inr p"
  shows "validate_origin_id i = Inr () \<and>
    (\<exists>names. path_components p = path_components root @ Normal i # map Normal names \<and> ''..'' \<notin> set names)"
proof -
  have "validate_origin_id i = Inr ()" "readable_key (requested_key op)"
    using assms by (simp_all add: mirror_object_path_Inr)
  then show ?thesis
    using mirror_path_components [OF assms] key_names_plain unfolding readable_key_def by blast
qed

theorem mirror_path_contained_witness:
  "validate_origin_id ''web'' = Inr () \<and>
   (\<exists>p names. mirror_object_path ''m'' ''web'' ''//a/./b'' = Inr p \<and>
      path_components p = path_components ''m'' @ Normal ''web'' # map Normal names \<and> ''..'' \<notin> set names)"
proof -
  have "mirror_object_path ''m'' ''web'' ''//a/./b'' = Inr ''m/web/a/./b''"
    by (simp add: mirror_object_path_def origin_dir_def validate_origin_id_def fail_if_def str_eval
        normalize_object_path_def is_reserved_metadata_key_def METADATA_DIR_NAME_def Let_def join_path_def
        is_absolute_def path_components_def component_of_def path_starts_with_def)
  then show ?thesis using mirror_path_contained [of "''m''" "''web''"] by blast
qed

lemma sync_key_round_trip_plain: "canonical_key key \<Longrightarrow> \<exists>p. sync_object_path ''m/web'' key = Inr p"
  by (simp add: canonical_key_def sync_object_path_Inr)

text \<open>A canonical key written by the synchronisation is found back from the path of its file.\<close>

theorem sync_key_round_trip:
  assumes "canonical_key key" and "dir \<noteq> []"
  shows "\<exists>p. sync_object_path dir key = Inr p \<and> relative_key dir p = Inr key"
proof -
  have acc: "accepted_key key" using assms(1) by (simp add: canonical_key_def)
  obtain p where p: "sync_object_path dir key = Inr p"
    using acc assms(2) by (auto simp: sync_object_path_Inr)
  have "relative_key dir p = normalize_remote_key key"
    using relative_key_sync_path [OF assms(2) p] canonical_key_names [OF assms(1)] by simp
  then show ?thesis using p acc by (auto simp: normalize_remote_key_Inr)
qed

theorem sync_key_round_trip_witness:
  "\<exists>p. sync_object_path ''m/web'' ''docs/a.html'' = Inr p \<and> relative_key ''m/web'' p = Inr ''docs/a.html''"
proof -
  have "canonical_key ''docs/a.html''"
    by (simp add: canonical_key_def accepted_key_def is_absolute_def reserved_key_def METADATA_DIR_NAME_def byte_eval)
  then show ?thesis using sync_key_round_trip by simp
qed

text \<open>The sidecar of one key is never the object file of another canonical key, nor does it leave
the metadata directory of the origin.\<close>

theorem sidecar_apart_from_objects:
  assumes "dir \<noteq> []" and "metadata_sidecar_path sha256 dir key = Inr p" and "sha256 (requested_key key) \<noteq> []"
    and "canonical_key other" and "sync_object_path dir other = Inr q"
  shows "path_starts_with p (join_path dir METADATA_DIR_NAME) \<and> \<not> same_path p q"
proof -
  have meta: "path_components (join_path dir METADATA_DIR_NAME) = path_components dir @ [Normal METADATA_DIR_NAME]"
    using assms(1) by (simp add: path_components_join is_absolute_def METADATA_DIR_NAME_def key_components_def component_of_def)
  have p: "path_components p = path_components dir @ map Normal (sidecar_names sha256 (requested_key key))"
    using metadata_sidecar_path_Inr [OF assms(1-3)] .
  have q: "path_components q = path_components dir @ map Normal (key_names other)"
    using sync_path_components [OF assms(1,5)] .
  have segs: "key_names other = split_on CHR ''/'' other"
    using assms(4) by (simp add: canonical_key_def key_names_def filter_id_conv)
  have first: "hd (split_on CHR ''/'' other) \<noteq> METADATA_DIR_NAME"
  proof
    assume hd: "hd (split_on CHR ''/'' other) = METADATA_DIR_NAME"
    obtain rest where "split_on CHR ''/'' other = METADATA_DIR_NAME # rest"
      using hd by (cases "split_on CHR ''/'' other") auto
    then have "other = METADATA_DIR_NAME \<or> (\<exists>t. other = METADATA_DIR_NAME @ ''/'' @ t)"
      using join_split_on [of "CHR ''/''" other] join_with_Cons [of rest "''/''" METADATA_DIR_NAME]
      by (cases "rest = []") auto
    then have "reserved_key other" unfolding reserved_key_def by auto
    then show False using assms(4) by (simp add: canonical_key_def accepted_key_def)
  qed
  obtain rest where rest: "sidecar_names sha256 (requested_key key) = METADATA_DIR_NAME # rest"
    by (simp add: sidecar_names_def Let_def)
  have "METADATA_DIR_NAME # rest \<noteq> split_on CHR ''/'' other" using first by (metis list.sel(1))
  then have "map Normal (METADATA_DIR_NAME # rest) \<noteq> map Normal (split_on CHR ''/'' other)"
    using map_injective [of Normal] by (auto simp: inj_def simp del: list.map split_on.simps)
  then show ?thesis by (simp add: path_starts_with_def same_path_def meta p q segs rest)
qed

theorem sidecar_apart_from_objects_witness:
  "\<exists>p q. metadata_sidecar_path (\<lambda>_. ''h'') ''m/web'' ''a'' = Inr p \<and> sync_object_path ''m/web'' ''a'' = Inr q \<and>
     path_starts_with p (join_path ''m/web'' METADATA_DIR_NAME) \<and> \<not> same_path p q"
proof -
  have p: "metadata_sidecar_path (\<lambda>_. ''h'') ''m/web'' ''a'' = Inr ''m/web/.rendermesh-meta/68/68.json''"
    by (simp add: metadata_sidecar_path_def normalize_object_path_def is_reserved_metadata_key_def fail_if_def
        path_components_def component_of_def Let_def stable_key_hash_def hex_digits_def str_eval
        join_path_def is_absolute_def METADATA_DIR_NAME_def)
  have key: "canonical_key ''a''"
    by (simp add: canonical_key_def accepted_key_def is_absolute_def reserved_key_def METADATA_DIR_NAME_def byte_eval)
  obtain q where q: "sync_object_path ''m/web'' ''a'' = Inr q" using sync_key_round_trip_plain [OF key] by blast
  show ?thesis using sidecar_apart_from_objects [OF _ p _ key q] p q by simp
qed

end
