(* ===== verification/Actions.thy ===== *)
theory Actions
  imports Prelude
begin

text \<open>
  Computations that fail or yield a value and change a state on the way: the asynchronous
  functions of the program. The state is the file system with its faults, or whatever a
  client of a remote service acts on.
\<close>

type_synonym ('w, 'e, 'a) action = "'w \<Rightarrow> ('e + 'a) \<times> 'w"

definition io_return :: "'a \<Rightarrow> ('w, 'e, 'a) action" where
  "io_return x w = (Inr x, w)"

definition io_fail :: "'e \<Rightarrow> ('w, 'e, 'a) action" where
  "io_fail e w = (Inl e, w)"

definition io_then :: "('w, 'e, 'a) action \<Rightarrow> ('a \<Rightarrow> ('w, 'e, 'b) action) \<Rightarrow> ('w, 'e, 'b) action" where
  "io_then m f w =
     (case m w of (Inl e, w') \<Rightarrow> (Inl e, w') | (Inr x, w') \<Rightarrow> f x w')"

text \<open>Look at the result of an operation, error or not.\<close>

definition io_match :: "('w, 'e, 'a) action \<Rightarrow> ('e + 'a \<Rightarrow> ('w, 'd, 'b) action) \<Rightarrow> ('w, 'd, 'b) action" where
  "io_match m f w = (case m w of (r, w') \<Rightarrow> f r w')"

definition io_map_err :: "('e \<Rightarrow> 'd) \<Rightarrow> ('w, 'e, 'a) action \<Rightarrow> ('w, 'd, 'a) action" where
  "io_map_err f m w = (case m w of (r, w') \<Rightarrow> (map_err f r, w'))"

text \<open>A pure result.\<close>

definition io_lift :: "'e + 'a \<Rightarrow> ('w, 'e, 'a) action" where
  "io_lift r w = (r, w)"

abbreviation io_with_context :: "string \<Rightarrow> ('w, anyhow, 'a) action \<Rightarrow> ('w, anyhow, 'a) action" where
  "io_with_context c \<equiv> io_map_err (ErrorContext c)"

section \<open>Runs\<close>

lemma io_then_Inr: "io_then m f w = (Inr y, w'') \<longleftrightarrow> (\<exists>x w'. m w = (Inr x, w') \<and> f x w' = (Inr y, w''))"
  by (auto simp: io_then_def split: prod.splits sum.splits)

lemma io_map_err_Inr: "io_map_err f m w = (Inr y, w') \<longleftrightarrow> m w = (Inr y, w')"
  by (cases "m w"; cases "fst (m w)") (auto simp: io_map_err_def)

lemma io_lift_simps: "io_lift (Inl e) = io_fail e" "io_lift (Inr x) = io_return x"
  by (rule ext, simp add: io_lift_def io_fail_def io_return_def)+

lemma io_then_cases:
  assumes "io_then m g w = (r, v)"
  obtains (fails) e where "m w = (Inl e, v)" and "r = Inl e"
  | (goes_on) x u where "m w = (Inr x, u)" and "g x u = (r, v)"
  using assms by (auto simp: io_then_def split: prod.splits sum.splits)

lemma io_match_cases:
  assumes "io_match m g w = (r, v)"
  obtains s u where "m w = (s, u)" and "g s u = (r, v)"
  using assms by (auto simp: io_match_def split: prod.splits)

lemma io_map_err_cases:
  assumes "io_map_err c m w = (r, v)"
  obtains s where "m w = (s, v)" and "r = map_err c s"
  using assms by (cases "m w") (auto simp: io_map_err_def)

lemma io_then_assoc: "io_then (io_then m f) g = io_then m (\<lambda>x. io_then (f x) g)"
  by (rule ext) (auto simp: io_then_def split: prod.split sum.split)

lemma io_then_return: "io_then (io_return x) f = f x"
  by (rule ext) (simp add: io_then_def io_return_def)

lemma io_then_cong: "(\<And>x. f x = g x) \<Longrightarrow> io_then m f = io_then m g"
  by (rule arg_cong [where f = "io_then m"]) (rule ext)

section \<open>Invariants of the state\<close>

text \<open>
  A computation preserves a property of the state when no run of it, successful or not, ends
  in a state without the property.
\<close>

definition preserves :: "('w \<Rightarrow> bool) \<Rightarrow> ('w, 'e, 'a) action \<Rightarrow> bool" where
  "preserves I m \<longleftrightarrow> (\<forall>w. I w \<longrightarrow> I (snd (m w)))"

named_theorems preserves_intros \<open>invariants of computations\<close>

lemma preservesD: "preserves I m \<Longrightarrow> m w = (r, v) \<Longrightarrow> I w \<Longrightarrow> I v"
  unfolding preserves_def by (metis snd_conv)

lemma preserves_return [preserves_intros]: "preserves I (io_return x)"
  by (simp add: preserves_def io_return_def)

lemma preserves_fail [preserves_intros]: "preserves I (io_fail e)"
  by (simp add: preserves_def io_fail_def)

lemma preserves_lift [preserves_intros]: "preserves I (io_lift r)"
  by (simp add: preserves_def io_lift_def)

lemma preserves_then [preserves_intros]:
  assumes "preserves I m" and "\<And>x. preserves I (f x)"
  shows "preserves I (io_then m f)"
  using assms by (auto simp: preserves_def io_then_def split: prod.splits sum.splits)

text \<open>The continuation may use what a successful run tells about its value.\<close>

lemma preserves_then_post:
  assumes "preserves I m" and "\<And>w x v. I w \<Longrightarrow> m w = (Inr x, v) \<Longrightarrow> preserves I (f x)"
  shows "preserves I (io_then m f)"
  unfolding preserves_def
proof (intro allI impI)
  fix w assume I: "I w"
  obtain r v where run: "m w = (r, v)" by fastforce
  have "I v" using preservesD [OF assms(1) run I] .
  then show "I (snd (io_then m f w))"
    using assms(2) [OF I] run by (cases r) (simp_all add: io_then_def preserves_def)
qed

lemma preserves_match [preserves_intros]:
  assumes "preserves I m" and "\<And>r. preserves I (f r)"
  shows "preserves I (io_match m f)"
  using assms unfolding preserves_def io_match_def by (metis (no_types, lifting) case_prod_unfold)

lemma preserves_map_err [preserves_intros]: "preserves I m \<Longrightarrow> preserves I (io_map_err f m)"
  unfolding preserves_def io_map_err_def by (simp add: case_prod_unfold)

section \<open>Evaluation\<close>

lemmas sequencing = io_then_def [abs_def] io_match_def [abs_def] io_map_err_def [abs_def] io_lift_def [abs_def]
  io_return_def [abs_def] io_fail_def [abs_def]

end
