(* ===== verification/File_System.thy ===== *)
theory File_System
  imports Mirror_Paths Actions
begin

text \<open>
  The part of \<open>tokio::fs\<close> the program uses, on a file system that is a list of paths with
  their nodes. A path is its components, a leading dot left out. Operations run in a world
  that also holds a schedule of faults: at every step the operating system may fail with an
  error of its own, after doing part of the work where an operation has parts. The order in
  which a directory is read is the order of the list, which is arbitrary.
\<close>

section \<open>Nodes and paths\<close>

type_synonym fs_key = "component list"

datatype fs_node = FileNode string | DirNode

type_synonym filesystem = "(fs_key \<times> fs_node) list"

datatype io_error =
  NotFound | NotADirectory | IsADirectory | FileExists | DirectoryNotEmpty | OtherIo string

fun io_display :: "io_error \<Rightarrow> string" where
  "io_display NotFound = ''No such file or directory (os error 2)''"
| "io_display NotADirectory = ''Not a directory (os error 20)''"
| "io_display IsADirectory = ''Is a directory (os error 21)''"
| "io_display FileExists = ''File exists (os error 17)''"
| "io_display DirectoryNotEmpty = ''Directory not empty (os error 39)''"
| "io_display (OtherIo msg) = msg"

definition io_anyhow :: "io_error \<Rightarrow> anyhow" where
  "io_anyhow e = ErrorMsg (io_display e)"

definition fs_key :: "pathbuf \<Rightarrow> fs_key" where
  "fs_key p = filter (\<lambda>c. c \<noteq> CurDir) (path_components p)"

text \<open>A path that ends with a separator or a dot can only name a directory.\<close>

definition wants_dir :: "pathbuf \<Rightarrow> bool" where
  "wants_dir p \<longleftrightarrow> last (split_on CHR ''/'' p) \<in> {[], ''.''}"

text \<open>The root and the working directory always exist.\<close>

definition fs_lookup :: "filesystem \<Rightarrow> fs_key \<Rightarrow> fs_node option" where
  "fs_lookup fs k = (if k = [] \<or> k = [RootDir] then Some DirNode else map_of fs k)"

definition is_file :: "filesystem \<Rightarrow> fs_key \<Rightarrow> bool" where
  "is_file fs k \<longleftrightarrow> (case fs_lookup fs k of Some (FileNode _) \<Rightarrow> True | _ \<Rightarrow> False)"

definition is_dir :: "filesystem \<Rightarrow> fs_key \<Rightarrow> bool" where
  "is_dir fs k \<longleftrightarrow> fs_lookup fs k = Some DirNode"

text \<open>Resolution stops at a file in the middle of a path.\<close>

definition missing_error :: "filesystem \<Rightarrow> fs_key \<Rightarrow> io_error" where
  "missing_error fs k =
     (if \<exists>j \<in> set [0 ..< length k]. is_file fs (take j k) then NotADirectory else NotFound)"

definition fs_stat :: "filesystem \<Rightarrow> pathbuf \<Rightarrow> io_error + fs_node" where
  "fs_stat fs p =
     (case fs_lookup fs (fs_key p) of
        Some DirNode \<Rightarrow> Inr DirNode
      | Some (FileNode content) \<Rightarrow> if wants_dir p then Inl NotADirectory else Inr (FileNode content)
      | None \<Rightarrow> Inl (missing_error fs (fs_key p)))"

definition fs_read :: "filesystem \<Rightarrow> pathbuf \<Rightarrow> io_error + string" where
  "fs_read fs p =
     try_then (fs_stat fs p) (\<lambda>node.
       case node of FileNode content \<Rightarrow> Inr content | DirNode \<Rightarrow> Inl IsADirectory)"

text \<open>What can be the name of an entry.\<close>

definition segment_ok :: "string \<Rightarrow> bool" where
  "segment_ok name \<longleftrightarrow> name \<noteq> [] \<and> name \<noteq> ''.'' \<and> name \<noteq> ''..'' \<and> CHR ''/'' \<notin> set name"

text \<open>The entries of a directory: names and nodes.\<close>

fun fs_children :: "filesystem \<Rightarrow> fs_key \<Rightarrow> (string \<times> fs_node) list" where
  "fs_children [] k = []"
| "fs_children ((j, node) # fs) k =
     (if j \<noteq> [] \<and> butlast j = k
      then (case last j of Normal name \<Rightarrow> if segment_ok name then [(name, node)] else [] | _ \<Rightarrow> []) @
        fs_children fs k
      else fs_children fs k)"

definition fs_read_dir :: "filesystem \<Rightarrow> pathbuf \<Rightarrow> io_error + (string \<times> fs_node) list" where
  "fs_read_dir fs p =
     try_then (fs_stat fs p) (\<lambda>node.
       case node of DirNode \<Rightarrow> Inr (fs_children fs (fs_key p)) | FileNode _ \<Rightarrow> Inl NotADirectory)"

section \<open>Changes\<close>

definition fs_put :: "fs_key \<Rightarrow> fs_node \<Rightarrow> filesystem \<Rightarrow> filesystem" where
  "fs_put k node fs = (k, node) # filter (\<lambda>e. fst e \<noteq> k) fs"

definition fs_delete :: "(fs_key \<Rightarrow> bool) \<Rightarrow> filesystem \<Rightarrow> filesystem" where
  "fs_delete gone fs = filter (\<lambda>e. \<not> gone (fst e)) fs"

definition fs_write :: "pathbuf \<Rightarrow> string \<Rightarrow> filesystem \<Rightarrow> (io_error + unit) \<times> filesystem" where
  "fs_write p content fs =
     (let k = fs_key p in
      case fs_lookup fs k of
        Some DirNode \<Rightarrow> (Inl IsADirectory, fs)
      | Some (FileNode _) \<Rightarrow>
          if wants_dir p then (Inl NotADirectory, fs) else (Inr (), fs_put k (FileNode content) fs)
      | None \<Rightarrow>
          if \<not> is_dir fs (butlast k) then (Inl (missing_error fs k), fs)
          else if wants_dir p then (Inl IsADirectory, fs)
          else (Inr (), fs_put k (FileNode content) fs))"

text \<open>\<open>create_dir_all\<close>: the missing directories of the path, from the top.\<close>

definition missing_dirs :: "filesystem \<Rightarrow> fs_key \<Rightarrow> fs_key list" where
  "missing_dirs fs k =
     filter (\<lambda>j. fs_lookup fs j = None) (map (\<lambda>n. take n k) [1 ..< Suc (length k)])"

definition fs_create_dir_all :: "pathbuf \<Rightarrow> filesystem \<Rightarrow> (io_error + unit) \<times> filesystem" where
  "fs_create_dir_all p fs =
     (let k = fs_key p in
      case fs_lookup fs k of
        Some DirNode \<Rightarrow> (Inr (), fs)
      | Some (FileNode _) \<Rightarrow> (Inl FileExists, fs)
      | None \<Rightarrow>
          if missing_error fs k = NotADirectory then (Inl NotADirectory, fs)
          else (Inr (), foldl (\<lambda>fs j. fs_put j DirNode fs) fs (missing_dirs fs k)))"

definition fs_remove_file :: "pathbuf \<Rightarrow> filesystem \<Rightarrow> (io_error + unit) \<times> filesystem" where
  "fs_remove_file p fs =
     (case fs_stat fs p of
        Inl e \<Rightarrow> (Inl e, fs)
      | Inr DirNode \<Rightarrow> (Inl IsADirectory, fs)
      | Inr (FileNode _) \<Rightarrow> (Inr (), fs_delete (\<lambda>j. j = fs_key p) fs))"

definition fs_remove_dir_all :: "pathbuf \<Rightarrow> filesystem \<Rightarrow> (io_error + unit) \<times> filesystem" where
  "fs_remove_dir_all p fs =
     (case fs_stat fs p of
        Inl e \<Rightarrow> (Inl e, fs)
      | Inr (FileNode _) \<Rightarrow> (Inl NotADirectory, fs)
      | Inr DirNode \<Rightarrow> (Inr (), fs_delete (prefix (fs_key p)) fs))"

text \<open>\<open>rename\<close> of a file or of a directory with all it holds.\<close>

definition move_tree :: "fs_key \<Rightarrow> fs_key \<Rightarrow> filesystem \<Rightarrow> filesystem" where
  "move_tree src dst fs =
     map (\<lambda>(j, node). (if prefix src j then dst @ drop (length src) j else j, node))
       (fs_delete (\<lambda>j. prefix dst j \<and> \<not> prefix src j) fs)"

definition fs_rename :: "pathbuf \<Rightarrow> pathbuf \<Rightarrow> filesystem \<Rightarrow> (io_error + unit) \<times> filesystem" where
  "fs_rename p q fs =
     (let src = fs_key p; dst = fs_key q in
      case fs_stat fs p of
        Inl e \<Rightarrow> (Inl e, fs)
      | Inr node \<Rightarrow>
          if src = dst then (Inr (), fs)
          else if src \<in> {[], [RootDir]} \<or> dst \<in> {[], [RootDir]} then (Inl (OtherIo ''Device or resource busy (os error 16)''), fs)
          else if prefix src dst then (Inl (OtherIo ''Invalid argument (os error 22)''), fs)
          else if \<not> is_dir fs (butlast dst) then (Inl (missing_error fs dst), fs)
          else
            (case fs_lookup fs dst of
               None \<Rightarrow> (Inr (), move_tree src dst fs)
             | Some (FileNode _) \<Rightarrow>
                 if node = DirNode then (Inl NotADirectory, fs) else (Inr (), move_tree src dst fs)
             | Some DirNode \<Rightarrow>
                 if node \<noteq> DirNode then (Inl IsADirectory, fs)
                 else if fs_children fs dst \<noteq> [] then (Inl DirectoryNotEmpty, fs)
                 else (Inr (), move_tree src dst fs)))"

section \<open>The world\<close>

record world =
  world_fs :: filesystem
  world_step :: nat
  world_faults :: "nat \<Rightarrow> (string \<times> nat) option"

type_synonym ('e, 'a) io = "(world, 'e, 'a) action"

text \<open>The question mark on an \<open>io::Error\<close>, and \<open>with_context\<close>.\<close>

abbreviation io_try :: "(io_error, 'a) io \<Rightarrow> (anyhow, 'a) io" where
  "io_try \<equiv> io_map_err io_anyhow"

abbreviation io_context :: "string \<Rightarrow> (io_error, 'a) io \<Rightarrow> (anyhow, 'a) io" where
  "io_context c \<equiv> io_map_err (\<lambda>e. ErrorContext c (io_anyhow e))"

text \<open>
  One operation of the operating system. When the schedule holds a fault for the step, the
  operation fails with the message of the fault after the effect \<open>partial n\<close>.
\<close>

definition io_op ::
    "(filesystem \<Rightarrow> (io_error + 'a) \<times> filesystem) \<Rightarrow> (nat \<Rightarrow> filesystem \<Rightarrow> filesystem) \<Rightarrow>
     (io_error, 'a) io" where
  "io_op act partial w =
     (case world_faults w (world_step w) of
        Some (msg, n) \<Rightarrow>
          (Inl (OtherIo msg), w\<lparr>world_fs := partial n (world_fs w), world_step := Suc (world_step w)\<rparr>)
      | None \<Rightarrow>
          (case act (world_fs w) of
             (r, fs) \<Rightarrow> (r, w\<lparr>world_fs := fs, world_step := Suc (world_step w)\<rparr>)))"

definition io_stat :: "pathbuf \<Rightarrow> (io_error, fs_node) io" where
  "io_stat p = io_op (\<lambda>fs. (fs_stat fs p, fs)) (\<lambda>_ fs. fs)"

definition io_read :: "pathbuf \<Rightarrow> (io_error, string) io" where
  "io_read p = io_op (\<lambda>fs. (fs_read fs p, fs)) (\<lambda>_ fs. fs)"

definition io_read_dir :: "pathbuf \<Rightarrow> (io_error, (string \<times> fs_node) list) io" where
  "io_read_dir p = io_op (\<lambda>fs. (fs_read_dir fs p, fs)) (\<lambda>_ fs. fs)"

text \<open>\<open>next_entry\<close> and \<open>file_type\<close> can fail too.\<close>

definition io_next_entry :: "(io_error, unit) io" where
  "io_next_entry = io_op (\<lambda>fs. (Inr (), fs)) (\<lambda>_ fs. fs)"

definition io_file_type :: "(io_error, unit) io" where
  "io_file_type = io_op (\<lambda>fs. (Inr (), fs)) (\<lambda>_ fs. fs)"

text \<open>A write that fails may leave the beginning of the content.\<close>

definition io_write :: "pathbuf \<Rightarrow> string \<Rightarrow> (io_error, unit) io" where
  "io_write p content = io_op (fs_write p content) (\<lambda>n fs. snd (fs_write p (take n content) fs))"

text \<open>\<open>create_dir_all\<close> and \<open>remove_dir_all\<close> may stop after some of the directories.\<close>

definition io_create_dir_all :: "pathbuf \<Rightarrow> (io_error, unit) io" where
  "io_create_dir_all p = io_op (fs_create_dir_all p)
     (\<lambda>n fs. if missing_error fs (fs_key p) = NotADirectory then fs
        else foldl (\<lambda>fs j. fs_put j DirNode fs) fs (take n (missing_dirs fs (fs_key p))))"

definition io_remove_file :: "pathbuf \<Rightarrow> (io_error, unit) io" where
  "io_remove_file p = io_op (fs_remove_file p) (\<lambda>_ fs. fs)"

definition io_remove_dir_all :: "pathbuf \<Rightarrow> (io_error, unit) io" where
  "io_remove_dir_all p = io_op (fs_remove_dir_all p)
     (\<lambda>n fs. let below = filter (prefix (fs_key p)) (map fst fs);
                 gone = take n (sort_key (\<lambda>j. - int (length j)) below)
             in fs_delete (\<lambda>j. j \<in> set gone) fs)"

definition io_rename :: "pathbuf \<Rightarrow> pathbuf \<Rightarrow> (io_error, unit) io" where
  "io_rename p q = io_op (fs_rename p q) (\<lambda>_ fs. fs)"

text \<open>\<open>fs::copy\<close>: the content of a file into a file that is made or overwritten.\<close>

definition io_copy :: "pathbuf \<Rightarrow> pathbuf \<Rightarrow> (io_error, unit) io" where
  "io_copy p q = io_then (io_read p) (io_write q)"

section \<open>What an operation leaves alone\<close>

text \<open>
  A computation keeps a set of paths when no run of it, with whatever faults, changes what
  is at them.
\<close>

definition keeps :: "fs_key set \<Rightarrow> ('e, 'a) io \<Rightarrow> bool" where
  "keeps K m \<longleftrightarrow>
     (\<forall>w k. k \<in> K \<longrightarrow> fs_lookup (world_fs (snd (m w))) k = fs_lookup (world_fs w) k)"

named_theorems keeps_intros \<open>what computations leave alone\<close>

lemma keepsI:
  "(\<And>w k. k \<in> K \<Longrightarrow> fs_lookup (world_fs (snd (m w))) k = fs_lookup (world_fs w) k) \<Longrightarrow> keeps K m"
  by (simp add: keeps_def)

lemma keepsD:
  "keeps K m \<Longrightarrow> m w = (r, w') \<Longrightarrow> k \<in> K \<Longrightarrow> fs_lookup (world_fs w') k = fs_lookup (world_fs w) k"
  unfolding keeps_def by (metis snd_conv)

lemma keeps_return [keeps_intros]: "keeps K (io_return x)"
  by (simp add: keeps_def io_return_def)

lemma keeps_fail [keeps_intros]: "keeps K (io_fail e)"
  by (simp add: keeps_def io_fail_def)

lemma keeps_lift [keeps_intros]: "keeps K (io_lift r)"
  by (simp add: keeps_def io_lift_def)

lemma keeps_then [keeps_intros]:
  assumes "keeps K m" and "\<And>x. keeps K (f x)"
  shows "keeps K (io_then m f)"
proof (rule keepsI)
  fix w k assume k: "k \<in> K"
  obtain r w' where m: "m w = (r, w')" by (cases "m w")
  show "fs_lookup (world_fs (snd (io_then m f w))) k = fs_lookup (world_fs w) k"
    using assms(2) k keepsD [OF assms(1) m k] by (cases r) (simp_all add: io_then_def m keeps_def)
qed

lemma keeps_match [keeps_intros]:
  assumes "keeps K m" and "\<And>r. keeps K (f r)"
  shows "keeps K (io_match m f)"
  using assms unfolding keeps_def io_match_def by (metis (no_types, lifting) case_prod_unfold)

lemma keeps_map_err [keeps_intros]: "keeps K m \<Longrightarrow> keeps K (io_map_err f m)"
  unfolding keeps_def io_map_err_def by (simp add: case_prod_unfold)

lemma keeps_subset: "keeps K m \<Longrightarrow> J \<subseteq> K \<Longrightarrow> keeps J m"
  by (auto simp: keeps_def)

lemma keeps_op:
  assumes "\<And>fs k. k \<in> K \<Longrightarrow> fs_lookup (snd (act fs)) k = fs_lookup fs k"
    and "\<And>n fs k. k \<in> K \<Longrightarrow> fs_lookup (partial n fs) k = fs_lookup fs k"
  shows "keeps K (io_op act partial)"
  using assms by (auto simp: keeps_def io_op_def split: option.split prod.split) (metis snd_conv)

lemma keeps_reads [keeps_intros]:
  "keeps K (io_stat p)" "keeps K (io_read p)" "keeps K (io_read_dir p)" "keeps K io_next_entry"
  "keeps K io_file_type"
  unfolding io_stat_def io_read_def io_read_dir_def io_next_entry_def io_file_type_def by (rule keeps_op; simp)+

lemma fs_lookup_put: "fs_lookup (fs_put k node fs) j = (if j = k \<and> j \<noteq> [] \<and> j \<noteq> [RootDir] then Some node else fs_lookup fs j)"
proof -
  have "map_of (filter (\<lambda>e. fst e \<noteq> k) fs) j = (if j = k then None else map_of fs j)"
    by (induction fs) auto
  then show ?thesis by (auto simp: fs_lookup_def fs_put_def)
qed

lemma fs_lookup_delete:
  "fs_lookup (fs_delete gone fs) j = (if gone j \<and> j \<noteq> [] \<and> j \<noteq> [RootDir] then None else fs_lookup fs j)"
proof -
  have "map_of (filter (\<lambda>e. \<not> gone (fst e)) fs) j = (if gone j then None else map_of fs j)"
    by (induction fs) auto
  then show ?thesis by (auto simp: fs_lookup_def fs_delete_def)
qed

lemma fs_lookup_put_dirs:
  "fs_lookup (foldl (\<lambda>fs j. fs_put j DirNode fs) fs js) k =
     (if k \<in> set js \<and> k \<noteq> [] \<and> k \<noteq> [RootDir] then Some DirNode else fs_lookup fs k)"
  by (induction js arbitrary: fs) (auto simp: fs_lookup_put)

text \<open>What each operation may change.\<close>

lemma fs_write_other: "k \<noteq> fs_key p \<Longrightarrow> fs_lookup (snd (fs_write p content fs)) k = fs_lookup fs k"
  by (auto simp: fs_write_def Let_def fs_lookup_put split: option.split fs_node.split)

lemma keeps_write [keeps_intros]: "fs_key p \<notin> K \<Longrightarrow> keeps K (io_write p content)"
  unfolding io_write_def by (rule keeps_op) (metis fs_write_other)+

lemma keeps_copy [keeps_intros]: "fs_key q \<notin> K \<Longrightarrow> keeps K (io_copy p q)"
  unfolding io_copy_def by (intro keeps_intros) 

lemma missing_dirs_mem: "j \<in> set (missing_dirs fs k) \<longleftrightarrow>
    fs_lookup fs j = None \<and> (\<exists>n. 1 \<le> n \<and> n \<le> length k \<and> j = take n k)"
  by (auto simp: missing_dirs_def image_iff)

lemma missing_dirs_prefix: "j \<in> set (missing_dirs fs k) \<Longrightarrow> prefix j k \<and> fs_lookup fs j = None"
  by (auto simp: missing_dirs_mem take_is_prefix)

lemma keeps_create_dir_all [keeps_intros]:
  assumes "\<And>k. k \<in> K \<Longrightarrow> \<not> prefix k (fs_key p)"
  shows "keeps K (io_create_dir_all p)"
  unfolding io_create_dir_all_def
proof (rule keeps_op)
  fix fs k assume k: "k \<in> K"
  then have "k \<notin> set (missing_dirs fs (fs_key p))" for fs
    using assms missing_dirs_prefix by blast
  then show "fs_lookup (snd (fs_create_dir_all p fs)) k = fs_lookup fs k"
    by (auto simp: fs_create_dir_all_def Let_def fs_lookup_put_dirs split: option.split fs_node.split)
next
  fix n fs k assume k: "k \<in> K"
  then have "k \<notin> set (take n (missing_dirs fs (fs_key p)))"
    using assms missing_dirs_prefix in_set_takeD by fast
  then show "fs_lookup (if missing_error fs (fs_key p) = NotADirectory then fs
        else foldl (\<lambda>fs j. fs_put j DirNode fs) fs (take n (missing_dirs fs (fs_key p)))) k =
      fs_lookup fs k"
    by (simp add: fs_lookup_put_dirs)
qed

lemma keeps_remove_file [keeps_intros]: "fs_key p \<notin> K \<Longrightarrow> keeps K (io_remove_file p)"
  unfolding io_remove_file_def
  by (rule keeps_op) (auto simp: fs_remove_file_def fs_lookup_delete split: sum.split fs_node.split)

lemma keeps_remove_dir_all [keeps_intros]:
  assumes "\<And>k. k \<in> K \<Longrightarrow> \<not> prefix (fs_key p) k"
  shows "keeps K (io_remove_dir_all p)"
  unfolding io_remove_dir_all_def
proof (rule keeps_op)
  fix fs k assume k: "k \<in> K"
  then show "fs_lookup (snd (fs_remove_dir_all p fs)) k = fs_lookup fs k"
    using assms by (auto simp: fs_remove_dir_all_def fs_lookup_delete split: sum.split fs_node.split)
next
  fix n and fs :: filesystem and k assume k: "k \<in> K"
  define gone where "gone = take n (sort_key (\<lambda>j. - int (length j)) (filter (prefix (fs_key p)) (map fst fs)))"
  have "\<forall>j \<in> set gone. prefix (fs_key p) j"
    unfolding gone_def by (auto dest: in_set_takeD)
  then have "k \<notin> set gone" using assms [OF k] by blast
  then show "fs_lookup (let below = filter (prefix (fs_key p)) (map fst fs);
        gone = take n (sort_key (\<lambda>j. - int (length j)) below) in fs_delete (\<lambda>j. j \<in> set gone) fs) k =
      fs_lookup fs k"
    unfolding Let_def gone_def [symmetric] fs_lookup_delete by simp
qed

text \<open>Renaming moves what is below the source and nothing else.\<close>

lemma map_of_map_inj:
  "(\<And>k. k \<in> fst ` set fs \<Longrightarrow> f k = f j \<Longrightarrow> k = j) \<Longrightarrow>
   map_of (map (\<lambda>(k, v). (f k, v)) fs) (f j) = map_of fs j"
  by (induction fs) (auto split: if_splits, metis)

lemma fs_lookup_move_tree:
  assumes "\<not> prefix src dst" and "dst \<noteq> []" "dst \<noteq> [RootDir]" and "src \<noteq> []" "src \<noteq> [RootDir]"
  shows "fs_lookup (move_tree src dst fs) k =
     (if prefix dst k then fs_lookup fs (src @ drop (length dst) k)
      else if prefix src k then None
      else fs_lookup fs k)"
proof -
  define f where "f = (\<lambda>j. if prefix src j then dst @ drop (length src) j else j)"
  define gone where "gone = (\<lambda>j. prefix dst j \<and> \<not> prefix src j)"
  have move: "move_tree src dst fs = map (\<lambda>(j, node). (f j, node)) (fs_delete gone fs)"
    by (simp add: move_tree_def f_def gone_def)
  have kept: "j \<in> fst ` set (fs_delete gone fs) \<Longrightarrow> \<not> gone j" for j
    by (auto simp: fs_delete_def)
  have inj: "i = j" if "\<not> gone i" "\<not> gone j" "f i = f j" for i j
    using that by (auto simp: f_def gone_def prefix_def split: if_splits)
  have del: "\<not> gone j \<Longrightarrow> map_of (fs_delete gone fs) j = map_of fs j" for j
    unfolding fs_delete_def by (induction fs) auto
  have at: "map_of (move_tree src dst fs) (f j) = map_of fs j" if "\<not> gone j" for j
    unfolding move using map_of_map_inj [of "fs_delete gone fs" f j] kept inj that del by metis
  have root: "\<not> prefix dst []" "\<not> prefix dst [RootDir]" "\<not> prefix src []" "\<not> prefix src [RootDir]"
    using assms by (auto simp: prefix_def Cons_eq_append_conv)
  show ?thesis
  proof (cases "prefix dst k")
    case True
    define j where "j = src @ drop (length dst) k"
    have "f j = k" using True by (auto simp: f_def j_def prefix_def)
    moreover have "\<not> gone j" by (simp add: gone_def j_def)
    moreover have "prefix src j" by (simp add: j_def)
    then have "k \<noteq> []" "k \<noteq> [RootDir]" "j \<noteq> []" "j \<noteq> [RootDir]"
      using True root by metis+
    ultimately have "fs_lookup (move_tree src dst fs) k = fs_lookup fs j"
      using at [of j] by (simp add: fs_lookup_def)
    then show ?thesis using True by (simp add: j_def)
  next
    case False
    show ?thesis
    proof (cases "prefix src k")
      case True
      have "f j \<noteq> k" for j using True False by (auto simp: f_def)
      then have "k \<notin> fst ` set (move_tree src dst fs)" unfolding move by force
      moreover have "k \<noteq> []" "k \<noteq> [RootDir]" using True root by auto
      ultimately show ?thesis using True False by (simp add: fs_lookup_def map_of_eq_None_iff)
    next
      case src: False
      then have "f k = k" "\<not> gone k" using False by (simp_all add: f_def gone_def)
      then show ?thesis using at [of k] False src by (simp add: fs_lookup_def)
    qed
  qed
qed

lemma fs_rename_Inr:
  assumes "fs_rename p q fs = (Inr (), fs')" and "fs_key p \<noteq> fs_key q"
  shows "fs' = move_tree (fs_key p) (fs_key q) fs" and "\<not> prefix (fs_key p) (fs_key q)"
    and "fs_key p \<noteq> []" "fs_key p \<noteq> [RootDir]" "fs_key q \<noteq> []" "fs_key q \<noteq> [RootDir]" "is_dir fs (butlast (fs_key q))"
  using assms by (auto simp: fs_rename_def Let_def split: sum.splits if_splits option.splits fs_node.splits)

lemma fs_rename_Inl: "fs_rename p q fs = (Inl e, fs') \<Longrightarrow> fs' = fs"
  by (auto simp: fs_rename_def Let_def split: sum.splits if_splits option.splits fs_node.splits)

section \<open>Runs without faults\<close>

definition calm :: "world \<Rightarrow> bool" where
  "calm w \<longleftrightarrow> (\<forall>n. world_faults w n = None)"

definition world_on :: "filesystem \<Rightarrow> world" where
  "world_on fs = \<lparr>world_fs = fs, world_step = 0, world_faults = (\<lambda>_. None)\<rparr>"

lemma io_op_calm:
  "calm w \<Longrightarrow> io_op act partial w =
     (fst (act (world_fs w)), w\<lparr>world_fs := snd (act (world_fs w)), world_step := Suc (world_step w)\<rparr>)"
  by (simp add: io_op_def calm_def split: prod.split)

lemma io_op_Inr:
  assumes "io_op act partial w = (Inr x, w')"
  shows "act (world_fs w) = (Inr x, world_fs w')"
  using assms by (auto simp: io_op_def split: option.splits prod.splits)

text \<open>
  A computation reads a value when it changes nothing, yields the value in a calm world, and
  yields no other value when it succeeds in spite of faults.
\<close>

definition reads :: "('e, 'a) io \<Rightarrow> (filesystem \<Rightarrow> 'e + 'a) \<Rightarrow> bool" where
  "reads m f \<longleftrightarrow>
     (\<forall>w r v. m w = (r, v) \<longrightarrow>
        world_fs v = world_fs w \<and> (calm w \<longrightarrow> calm v \<and> r = f (world_fs w)) \<and>
        (isl r \<or> f (world_fs w) = r))"

named_theorems reads_intros \<open>values that computations read\<close>

lemma readsI:
  assumes "\<And>w r v. m w = (r, v) \<Longrightarrow> world_fs v = world_fs w"
    and "\<And>w r v. m w = (r, v) \<Longrightarrow> calm w \<Longrightarrow> calm v"
    and "\<And>w r v. m w = (r, v) \<Longrightarrow> calm w \<Longrightarrow> r = f (world_fs w)"
    and "\<And>w x v. m w = (Inr x, v) \<Longrightarrow> f (world_fs w) = Inr x"
  shows "reads m f"
  unfolding reads_def using assms by (metis isl_def sum.exhaust)

lemma readsD:
  assumes "reads m f"
  shows "m w = (r, v) \<Longrightarrow> world_fs v = world_fs w"
    and "m w = (r, v) \<Longrightarrow> calm w \<Longrightarrow> calm v"
    and "m w = (r, v) \<Longrightarrow> calm w \<Longrightarrow> r = f (world_fs w)"
    and "m w = (Inr x, v) \<Longrightarrow> f (world_fs w) = Inr x"
  using assms unfolding reads_def by (metis sum.disc(2))+

lemma reads_lift [reads_intros]: "reads (io_lift r) (\<lambda>_. r)"
  by (rule readsI) (simp_all add: io_lift_def)

lemma reads_return [reads_intros]: "reads (io_return x) (\<lambda>_. Inr x)"
  by (rule readsI) (simp_all add: io_return_def)

lemma reads_fail [reads_intros]: "reads (io_fail e) (\<lambda>_. Inl e)"
  by (rule readsI) (simp_all add: io_fail_def)

lemma reads_then [reads_intros]:
  assumes m: "reads m f" and g: "\<And>x. reads (g x) (h x)"
  shows "reads (io_then m g) (\<lambda>fs. try_then (f fs) (\<lambda>x. h x fs))"
proof (rule readsI)
  fix w v :: world and r
  assume run: "io_then m g w = (r, v)"
  from run show fs: "world_fs v = world_fs w"
    by (cases rule: io_then_cases) (simp_all add: readsD(1) [OF m] readsD(1) [OF g])
  assume calm: "calm w"
  from run show "calm v"
    by (cases rule: io_then_cases) (use calm readsD(2) [OF m] readsD(2) [OF g] in blast)+
  from run show "r = try_then (f (world_fs w)) (\<lambda>x. h x (world_fs w))"
  proof (cases rule: io_then_cases)
    case (fails e)
    then have "f (world_fs w) = Inl e" using readsD(3) [OF m fails(1) calm] by simp
    then show ?thesis using fails(2) by simp
  next
    case (goes_on x u)
    have "f (world_fs w) = Inr x" using readsD(4) [OF m goes_on(1)] .
    moreover have "r = h x (world_fs u)"
      using readsD(3) [OF g goes_on(2)] readsD(2) [OF m goes_on(1) calm] .
    ultimately show ?thesis using readsD(1) [OF m goes_on(1)] by simp
  qed
next
  fix w v :: world and y
  assume "io_then m g w = (Inr y, v)"
  then show "try_then (f (world_fs w)) (\<lambda>x. h x (world_fs w)) = Inr y"
  proof (cases rule: io_then_cases)
    case (goes_on x u)
    have "h x (world_fs u) = Inr y" using readsD(4) [OF g goes_on(2)] .
    then show ?thesis using readsD(4) [OF m goes_on(1)] readsD(1) [OF m goes_on(1)] by simp
  qed simp
qed

lemma reads_map_err [reads_intros]:
  assumes m: "reads m f"
  shows "reads (io_map_err c m) (\<lambda>fs. map_err c (f fs))"
proof (rule readsI)
  fix w v :: world and r
  assume "io_map_err c m w = (r, v)"
  then obtain s where s: "m w = (s, v)" "r = map_err c s" by (rule io_map_err_cases)
  show "world_fs v = world_fs w" using readsD(1) [OF m s(1)] .
  assume calm: "calm w"
  show "calm v" using readsD(2) [OF m s(1) calm] .
  show "r = map_err c (f (world_fs w))" using readsD(3) [OF m s(1) calm] s(2) by simp
next
  fix w v :: world and x
  assume "io_map_err c m w = (Inr x, v)"
  then obtain s where s: "m w = (s, v)" "map_err c s = Inr x" by (metis io_map_err_cases)
  then have "s = Inr x" by (cases s) simp_all
  then show "map_err c (f (world_fs w)) = Inr x" using readsD(4) [OF m] s(1) by simp
qed

text \<open>An operation that only looks: it fails with the fault of its step or yields its value.\<close>

lemma io_look_cases:
  assumes "io_op (\<lambda>fs. (f fs, fs)) (\<lambda>_ fs. fs) w = (r, v)"
  obtains (fault) msg where "r = Inl (OtherIo msg)" and "world_fs v = world_fs w" and "\<not> calm w"
  | (look) "r = f (world_fs w)" and "world_fs v = world_fs w" and "calm w \<longrightarrow> calm v"
proof (cases "world_faults w (world_step w)")
  case None
  with assms have "r = f (world_fs w)" "v = w\<lparr>world_step := Suc (world_step w)\<rparr>"
    by (simp_all add: io_op_def)
  then show thesis by (intro look) (simp_all add: calm_def)
next
  case (Some p)
  with assms have "r = Inl (OtherIo (fst p))" "v = w\<lparr>world_step := Suc (world_step w)\<rparr>"
    by (simp_all add: io_op_def case_prod_unfold)
  moreover have "\<not> calm w" unfolding calm_def using Some by (metis option.distinct(1))
  ultimately show thesis by (intro fault) simp_all
qed

lemma reads_op: "reads (io_op (\<lambda>fs. (f fs, fs)) (\<lambda>_ fs. fs)) f"
proof (rule readsI)
  fix w v :: world and r
  assume run: "io_op (\<lambda>fs. (f fs, fs)) (\<lambda>_ fs. fs) w = (r, v)"
  from run show "world_fs v = world_fs w" by (cases rule: io_look_cases) simp_all
  assume calm: "calm w"
  from run show "calm v" by (cases rule: io_look_cases) (simp_all add: calm)
  from run show "r = f (world_fs w)" by (cases rule: io_look_cases) (simp_all add: calm)
next
  fix w v :: world and x
  assume "io_op (\<lambda>fs. (f fs, fs)) (\<lambda>_ fs. fs) w = (Inr x, v)"
  then show "f (world_fs w) = Inr x" by (cases rule: io_look_cases) simp_all
qed

lemma reads_simple [reads_intros]:
  "reads (io_stat p) (\<lambda>fs. fs_stat fs p)" "reads (io_read p) (\<lambda>fs. fs_read fs p)"
  "reads (io_read_dir p) (\<lambda>fs. fs_read_dir fs p)"
  unfolding io_stat_def io_read_def io_read_dir_def by (rule reads_op)+

text \<open>
  Looking at the outcome of an operation: an injected error must not be taken for a result.
\<close>

lemma reads_match_op:
  assumes g: "\<And>r. reads (g r) (h r)"
    and faulty: "\<And>msg w v x. g (Inl (OtherIo msg)) w = (Inr x, v) \<Longrightarrow> False"
  shows "reads (io_match (io_op (\<lambda>fs. (f fs, fs)) (\<lambda>_ fs. fs)) g) (\<lambda>fs. h (f fs) fs)"
proof (rule readsI)
  fix w v :: world and r
  assume "io_match (io_op (\<lambda>fs. (f fs, fs)) (\<lambda>_ fs. fs)) g w = (r, v)"
  then obtain s u where op: "io_op (\<lambda>fs. (f fs, fs)) (\<lambda>_ fs. fs) w = (s, u)" and run: "g s u = (r, v)"
    by (auto simp: io_match_def split: prod.splits)
  from op have u: "world_fs u = world_fs w" by (cases rule: io_look_cases) simp_all
  then show "world_fs v = world_fs w" using readsD(1) [OF g run] by simp
  assume calm: "calm w"
  from op have s: "s = f (world_fs w)" "calm u" by (cases rule: io_look_cases; simp add: calm)+
  show "calm v" using readsD(2) [OF g run s(2)] .
  show "r = h (f (world_fs w)) (world_fs w)" using readsD(3) [OF g run s(2)] s(1) u by simp
next
  fix w v :: world and x
  assume "io_match (io_op (\<lambda>fs. (f fs, fs)) (\<lambda>_ fs. fs)) g w = (Inr x, v)"
  then obtain s u where op: "io_op (\<lambda>fs. (f fs, fs)) (\<lambda>_ fs. fs) w = (s, u)" and run: "g s u = (Inr x, v)"
    by (auto simp: io_match_def split: prod.splits)
  from op show "h (f (world_fs w)) (world_fs w) = Inr x"
  proof (cases rule: io_look_cases)
    case (fault msg)
    then show ?thesis using faulty run by blast
  next
    case look
    then show ?thesis using readsD(4) [OF g run] by simp
  qed
qed

lemma reads_steps [reads_intros]: "reads io_next_entry (\<lambda>_. Inr ())" "reads io_file_type (\<lambda>_. Inr ())"
  unfolding io_next_entry_def io_file_type_def by (rule reads_op)+

lemma preserves_reads: "reads m f \<Longrightarrow> preserves (\<lambda>w. world_fs w = fs) m"
  unfolding preserves_def using readsD(1) by (metis prod.collapse)

text \<open>In a calm world a look yields its value.\<close>

lemma calm_then:
  assumes "reads m f" and "f (world_fs w) = Inr x" and "calm w"
  obtains v where "io_then m g w = g x v" and "calm v" and "world_fs v = world_fs w"
proof -
  obtain r v where run: "m w = (r, v)" by fastforce
  have "r = Inr x" using readsD(3) [OF assms(1) run assms(3)] assms(2) by simp
  then show ?thesis
    using that [of v] run readsD(1,2) [OF assms(1) run] assms(3) by (simp add: io_then_def)
qed

text \<open>What the simplifier needs to run a computation.\<close>

lemmas io_eval = io_then_def io_match_def io_map_err_def io_lift_def io_return_def io_fail_def
  io_op_def io_stat_def io_read_def io_read_dir_def io_next_entry_def io_file_type_def io_write_def
  io_create_dir_all_def io_remove_file_def io_remove_dir_all_def io_rename_def io_copy_def
  fs_stat_def fs_read_def fs_read_dir_def fs_write_def fs_create_dir_all_def fs_remove_file_def
  fs_remove_dir_all_def fs_rename_def move_tree_def fs_put_def fs_delete_def fs_lookup_def
  is_file_def is_dir_def segment_ok_def missing_error_def missing_dirs_def fs_key_def wants_dir_def io_anyhow_def
  world_on_def path_components_def component_of_def join_path_def is_absolute_def

lemma fs_key_parent: "path_parent p = Some q \<Longrightarrow> prefix (fs_key q) (fs_key p)"
  using path_components_parent [of p q]
  by (metis append_butlast_last_id butlast.simps(1) filter_append fs_key_def prefix_def append_Nil2)

lemma keeps_rename:
  assumes "fs_key p \<noteq> fs_key q" and roots: "fs_key p \<noteq> []" "fs_key p \<noteq> [RootDir]" "fs_key q \<noteq> []" "fs_key q \<noteq> [RootDir]"
    and "\<And>k. k \<in> K \<Longrightarrow> \<not> prefix (fs_key p) k \<and> \<not> prefix (fs_key q) k"
  shows "keeps K (io_rename p q)"
  unfolding io_rename_def
proof (rule keeps_op)
  fix fs k assume k: "k \<in> K"
  obtain r fs' where run: "fs_rename p q fs = (r, fs')" by (cases "fs_rename p q fs")
  show "fs_lookup (snd (fs_rename p q fs)) k = fs_lookup fs k"
  proof (cases r)
    case (Inl e)
    then show ?thesis using fs_rename_Inl [of p q fs e fs'] run by simp
  next
    case (Inr u)
    then have moved: "fs' = move_tree (fs_key p) (fs_key q) fs" "\<not> prefix (fs_key p) (fs_key q)"
      using fs_rename_Inr [of p q fs fs'] run assms(1) by auto
    show ?thesis
      unfolding run snd_conv moved(1) fs_lookup_move_tree [OF moved(2) roots(3,4) roots(1,2)]
      using assms(6) [OF k] by simp
  qed
qed simp

section \<open>Evaluation\<close>

text \<open>Code equations with the sequencing unfolded, so that a continuation is evaluated once its argument is known.\<close>

lemmas io_stat_code [code] = io_stat_def [THEN fun_cong, unfolded sequencing]
lemmas io_read_code [code] = io_read_def [THEN fun_cong, unfolded sequencing]
lemmas io_read_dir_code [code] = io_read_dir_def [THEN fun_cong, unfolded sequencing]
lemmas io_next_entry_code [code] = io_next_entry_def [THEN fun_cong, unfolded sequencing]
lemmas io_file_type_code [code] = io_file_type_def [THEN fun_cong, unfolded sequencing]
lemmas io_write_code [code] = io_write_def [THEN fun_cong, unfolded sequencing]
lemmas io_create_dir_all_code [code] = io_create_dir_all_def [THEN fun_cong, unfolded sequencing]
lemmas io_remove_file_code [code] = io_remove_file_def [THEN fun_cong, unfolded sequencing]
lemmas io_remove_dir_all_code [code] = io_remove_dir_all_def [THEN fun_cong, unfolded sequencing]
lemmas io_rename_code [code] = io_rename_def [THEN fun_cong, unfolded sequencing]
lemmas io_copy_code [code] = io_copy_def [THEN fun_cong, unfolded sequencing]

end
