(* ===== verification/Dir_Walk.thy ===== *)
theory Dir_Walk
  imports File_System
begin

text \<open>
  The directory walks of the program: \<open>while let Some(dir) = stack.pop()\<close>, the body reads
  a directory, does something with every file and pushes the directories below. The loop is
  written with fuel; the locale \<open>dir_walk\<close> states what a body promises and shows that as
  much fuel as there are nodes is enough.
\<close>

section \<open>Well-formed file systems\<close>

text \<open>One node per path, every name could be the name of a file, and every node is in a directory.\<close>

definition key_ok :: "fs_key \<Rightarrow> bool" where
  "key_ok k \<longleftrightarrow> (\<forall>name. Normal name \<in> set k \<longrightarrow> segment_ok name)"

definition fs_ok :: "filesystem \<Rightarrow> bool" where
  "fs_ok fs \<longleftrightarrow> distinct (map fst fs) \<and> (\<forall>e \<in> set fs. key_ok (fst e) \<and> is_dir fs (butlast (fst e)))"

lemma key_ok_append [simp]: "key_ok (j @ k) \<longleftrightarrow> key_ok j \<and> key_ok k"
  by (auto simp: key_ok_def)

lemma key_ok_take: "key_ok k \<Longrightarrow> key_ok (take n k)"
  by (auto simp: key_ok_def dest: in_set_takeD)

lemma key_ok_drop: "key_ok k \<Longrightarrow> key_ok (drop n k)"
  by (auto simp: key_ok_def dest: in_set_dropD)

lemma key_ok_prefix: "prefix j k \<Longrightarrow> key_ok k \<Longrightarrow> key_ok j"
  by (auto simp: prefix_def)

lemma key_ok_fs_key: "key_ok (fs_key p)"
  by (auto simp: key_ok_def fs_key_def path_components_split root_components_def key_components_def
      component_of_def segment_ok_def dest: split_on_segments split: if_splits)

lemma fs_key_join:
  assumes "segment_ok name"
  shows "fs_key (join_path p name) = fs_key p @ [Normal name]"
proof -
  have k: "key_components name = [Normal name]" "\<not> is_absolute name"
    using assms key_components_segment segment_relative by (simp_all add: segment_ok_def)
  show ?thesis
  proof (cases "p = []")
    case True
    have "hd (split_on CHR ''/'' name) = name" using assms by (simp add: segment_ok_def split_on_single)
    then have "root_components name = []"
      using k(2) assms by (simp add: root_components_def is_absolute_def segment_ok_def)
    moreover have "fs_key [] = []" by (simp add: fs_key_def path_components_def)
    ultimately show ?thesis using True k by (simp add: join_path_def fs_key_def path_components_split)
  next
    case False
    then show ?thesis using k by (simp add: fs_key_def path_components_join)
  qed
qed

definition io_ok :: "('e, 'a) io \<Rightarrow> bool" where
  "io_ok m \<longleftrightarrow> (\<forall>w. fs_ok (world_fs w) \<longrightarrow> fs_ok (world_fs (snd (m w))))"

named_theorems ok_intros \<open>computations that keep a file system well-formed\<close>

lemma io_okD: "io_ok m \<Longrightarrow> m w = (r, w') \<Longrightarrow> fs_ok (world_fs w) \<Longrightarrow> fs_ok (world_fs w')"
  unfolding io_ok_def by (metis snd_conv)

lemma io_ok_simple [ok_intros]: "io_ok (io_return x)" "io_ok (io_fail e)" "io_ok (io_lift r)"
  by (simp_all add: io_ok_def io_return_def io_fail_def io_lift_def)

lemma io_ok_then [ok_intros]:
  assumes "io_ok m" and "\<And>x. io_ok (f x)"
  shows "io_ok (io_then m f)"
  unfolding io_ok_def
proof (intro allI impI)
  fix w :: world assume ok: "fs_ok (world_fs w)"
  obtain r w' where m: "m w = (r, w')" by (cases "m w")
  show "fs_ok (world_fs (snd (io_then m f w)))"
    using assms(2) io_okD [OF assms(1) m ok] by (cases r) (simp_all add: io_then_def m io_ok_def)
qed

lemma io_ok_match [ok_intros]:
  assumes "io_ok m" and "\<And>r. io_ok (f r)"
  shows "io_ok (io_match m f)"
  using assms unfolding io_ok_def io_match_def by (metis (no_types, lifting) case_prod_unfold)

lemma io_ok_map_err [ok_intros]: "io_ok m \<Longrightarrow> io_ok (io_map_err f m)"
  unfolding io_ok_def io_map_err_def by (simp add: case_prod_unfold)

lemma io_ok_op:
  assumes "\<And>fs. fs_ok fs \<Longrightarrow> fs_ok (snd (act fs))" and "\<And>n fs. fs_ok fs \<Longrightarrow> fs_ok (partial n fs)"
  shows "io_ok (io_op act partial)"
  using assms by (auto simp: io_ok_def io_op_def split: option.split prod.split) (metis snd_conv)

lemma fs_ok_iff:
  "fs_ok fs \<longleftrightarrow> distinct (map fst fs) \<and> (\<forall>e \<in> set fs. key_ok (fst e)) \<and>
     (\<forall>k. fs_lookup fs k \<noteq> None \<longrightarrow> is_dir fs (butlast k))"
proof -
  have "(\<forall>e \<in> set fs. is_dir fs (butlast (fst e))) \<longleftrightarrow> (\<forall>k. fs_lookup fs k \<noteq> None \<longrightarrow> is_dir fs (butlast k))"
    if "distinct (map fst fs)"
  proof
    assume dirs: "\<forall>e \<in> set fs. is_dir fs (butlast (fst e))"
    show "\<forall>k. fs_lookup fs k \<noteq> None \<longrightarrow> is_dir fs (butlast k)"
    proof (intro allI impI)
      fix k assume "fs_lookup fs k \<noteq> None"
      then show "is_dir fs (butlast k)"
        using dirs by (cases "k = [] \<or> k = [RootDir]") (auto simp: fs_lookup_def is_dir_def dest!: map_of_SomeD)
    qed
  next
    assume "\<forall>k. fs_lookup fs k \<noteq> None \<longrightarrow> is_dir fs (butlast k)"
    then show "\<forall>e \<in> set fs. is_dir fs (butlast (fst e))" using that by (force simp: fs_lookup_def)
  qed
  then show ?thesis by (auto simp: fs_ok_def)
qed

lemma fs_ok_parent: "fs_ok fs \<Longrightarrow> fs_lookup fs k = Some node \<Longrightarrow> is_dir fs (butlast k)"
  by (simp add: fs_ok_iff)

lemma fs_ok_above:
  assumes "fs_ok fs" and "fs_lookup fs k = Some node" and "prefix j k" and "j \<noteq> k"
  shows "is_dir fs j"
proof -
  have "\<exists>node. fs_lookup fs (j @ x) = Some node \<Longrightarrow> x \<noteq> [] \<Longrightarrow> is_dir fs j" for x
  proof (induction x rule: rev_induct)
    case (snoc c x)
    then have "is_dir fs (j @ x)" using fs_ok_parent [OF assms(1)] by (fastforce simp: butlast_append)
    then show ?case using snoc.IH by (cases x) (auto simp: is_dir_def)
  qed simp
  then show ?thesis using assms(2-4) by (auto simp: prefix_def)
qed

lemma fs_ok_delete:
  assumes "fs_ok fs" and "\<And>k. fs_lookup fs k \<noteq> None \<Longrightarrow> gone (butlast k) \<Longrightarrow> butlast k \<noteq> [] \<Longrightarrow> butlast k \<noteq> [RootDir] \<Longrightarrow> gone k"
  shows "fs_ok (fs_delete gone fs)"
proof -
  have dir: "is_dir (fs_delete gone fs) (butlast k)" if "fs_lookup (fs_delete gone fs) k \<noteq> None" for k
  proof -
    have k: "fs_lookup fs k \<noteq> None" "k = [] \<or> k = [RootDir] \<or> \<not> gone k" using that by (auto simp: fs_lookup_delete split: if_splits)
    then have "is_dir fs (butlast k)" using assms(1) by (simp add: fs_ok_iff)
    then show ?thesis using k assms(2) [of k] by (auto simp: is_dir_def fs_lookup_delete)
  qed
  have "distinct (map fst (fs_delete gone fs))" "\<forall>e \<in> set (fs_delete gone fs). key_ok (fst e)"
    using assms(1) by (auto simp: fs_ok_def fs_delete_def distinct_map_filter)
  then show ?thesis using dir by (simp add: fs_ok_iff)
qed

lemma fs_ok_put:
  assumes "fs_ok fs" and "key_ok k" and "is_dir fs (butlast k)" and "node = DirNode \<or> \<not> is_dir fs k"
  shows "fs_ok (fs_put k node fs)"
proof -
  have dir: "is_dir (fs_put k node fs) (butlast j)" if "fs_lookup (fs_put k node fs) j \<noteq> None" for j
  proof -
    have "is_dir fs (butlast j)"
      using that assms(1,3) by (auto simp: fs_ok_iff fs_lookup_put split: if_splits)
    then show ?thesis using assms(4) by (auto simp: is_dir_def fs_lookup_put)
  qed
  have "distinct (map fst (fs_put k node fs))" "\<forall>e \<in> set (fs_put k node fs). key_ok (fst e)"
    using assms(1,2) by (auto simp: fs_ok_def fs_put_def distinct_map_filter)
  then show ?thesis using dir by (simp add: fs_ok_iff)
qed

text \<open>Of a sorted list the smaller elements come first.\<close>

lemma sorted_take_smaller:
  assumes "sorted (map m xs)" and "y \<in> set (take n xs)" and "x \<in> set xs" and "m x < (m y :: 'a :: linorder)"
  shows "x \<in> set (take n xs)"
proof (rule ccontr)
  assume "x \<notin> set (take n xs)"
  then have "x \<in> set (drop n xs)" using assms(3) set_append [of "take n xs" "drop n xs"] by simp
  moreover have "sorted (map m (take n xs) @ map m (drop n xs))" using assms(1) by (simp flip: map_append)
  ultimately have "m y \<le> m x" using assms(2) by (force simp: sorted_append)
  then show False using assms(4) by simp
qed

text \<open>Directories made from the top, no file on the way.\<close>

lemma fs_ok_put_dirs:
  "fs_ok fs \<Longrightarrow> sorted (map length js) \<Longrightarrow>
   (\<And>j. j \<in> set js \<Longrightarrow> j \<noteq> [] \<and> key_ok j \<and> (is_dir fs (butlast j) \<or> butlast j \<in> set js)) \<Longrightarrow>
   fs_ok (foldl (\<lambda>fs j. fs_put j DirNode fs) fs js)"
proof (induction js rule: rev_induct)
  case (snoc k js)
  have "butlast j \<noteq> k" if "j \<in> set js" for j
  proof
    assume k: "butlast j = k"
    have "length j \<le> length k" "j \<noteq> []" using snoc.prems(2) snoc.prems(3) [of j] that by (auto simp: sorted_append)
    then show False using k by (cases j rule: rev_cases) auto
  qed
  then have ok: "fs_ok (foldl (\<lambda>fs j. fs_put j DirNode fs) fs js)"
    using snoc.prems(2,3) by (intro snoc.IH [OF snoc.prems(1)]) (auto simp: sorted_append)
  have "k \<noteq> []" "key_ok k" "is_dir fs (butlast k) \<or> butlast k \<in> set (js @ [k])" using snoc.prems(3) [of k] by auto
  moreover from this have "butlast k \<noteq> k" by (metis append_butlast_last_id not_Cons_self2 self_append_conv)
  ultimately have "is_dir (foldl (\<lambda>fs j. fs_put j DirNode fs) fs js) (butlast k)"
    by (cases "butlast k = [] \<or> butlast k = [RootDir]") (auto simp: is_dir_def fs_lookup_put_dirs fs_lookup_def [of fs])
  then show ?case using fs_ok_put [OF ok] \<open>key_ok k\<close> by simp
qed simp

lemma missing_dirs_ok: "j \<in> set (missing_dirs fs (fs_key p)) \<Longrightarrow> key_ok j"
  using missing_dirs_prefix key_ok_prefix key_ok_fs_key by blast

lemma missing_dirs_sorted: "sorted (map length (missing_dirs fs k))"
proof -
  have "sorted (map length (map (\<lambda>n. take n k) [1 ..< Suc (length k)]))"
    by (simp add: sorted_iff_nth_mono comp_def del: upt_Suc)
  then show ?thesis unfolding missing_dirs_def by (rule sorted_filter)
qed

lemma fs_ok_missing_dirs:
  assumes "fs_ok fs" and "missing_error fs (fs_key p) \<noteq> NotADirectory"
  shows "fs_ok (foldl (\<lambda>fs j. fs_put j DirNode fs) fs (take n (missing_dirs fs (fs_key p))))"
proof (rule fs_ok_put_dirs [OF assms(1)])
  let ?k = "fs_key p" and ?js = "missing_dirs fs (fs_key p)"
  show "sorted (map length (take n ?js))"
    using missing_dirs_sorted [of fs ?k] by (simp flip: take_map add: sorted_wrt_take)
  fix j assume j: "j \<in> set (take n ?js)"
  then obtain m where m: "j = take m ?k" "1 \<le> m" "m \<le> length ?k" "fs_lookup fs j = None"
    by (auto simp: missing_dirs_mem dest!: in_set_takeD)
  have parent: "butlast j = take (m - 1) ?k" using m by (simp add: butlast_take)
  have "is_dir fs (butlast j) \<or> butlast j \<in> set (take n ?js)"
  proof (cases "fs_lookup fs (butlast j)")
    case None
    then have "butlast j \<noteq> []" by (auto simp: fs_lookup_def)
    then have "m \<noteq> 1" using parent by auto
    then have "butlast j \<in> set ?js" unfolding missing_dirs_mem parent
      using m parent None by (intro conjI exI [of _ "m - 1"]) auto
    then show ?thesis using sorted_take_smaller [OF missing_dirs_sorted j, of "butlast j"] m by (auto simp: parent)
  next
    case (Some node)
    have "\<not> is_file fs (take (m - 1) ?k)" using assms(2) m by (auto simp: missing_error_def split: if_splits)
    then show ?thesis using Some parent by (cases node) (auto simp: is_dir_def is_file_def)
  qed
  then show "j \<noteq> [] \<and> key_ok j \<and> (is_dir fs (butlast j) \<or> butlast j \<in> set (take n ?js))"
    using m missing_dirs_ok in_set_takeD [OF j] by auto
qed

lemma fs_ok_move_tree:
  assumes "fs_ok fs" and "\<not> prefix src dst" and "key_ok dst" and "is_dir fs (butlast dst)"
    and roots: "dst \<noteq> []" "dst \<noteq> [RootDir]" "src \<noteq> []" "src \<noteq> [RootDir]"
  shows "fs_ok (move_tree src dst fs)"
proof -
  let ?gone = "\<lambda>j. prefix dst j \<and> \<not> prefix src j"
  let ?f = "\<lambda>j. if prefix src j then dst @ drop (length src) j else j"
  have del: "distinct (map fst (fs_delete ?gone fs))" "\<forall>e \<in> set (fs_delete ?gone fs). key_ok (fst e)"
    using assms(1) by (auto simp: fs_ok_def fs_delete_def distinct_map_filter)
  have "inj_on ?f (set (map fst (fs_delete ?gone fs)))"
    by (rule inj_onI) (auto simp: fs_delete_def prefix_def split: if_splits)
  then have "distinct (map ?f (map fst (fs_delete ?gone fs)))"
    using del(1) by (simp only: distinct_map)
  moreover have keys: "map fst (move_tree src dst fs) = map ?f (map fst (fs_delete ?gone fs))"
    by (simp add: move_tree_def comp_def case_prod_unfold)
  moreover have "\<forall>k \<in> set (map ?f (map fst (fs_delete ?gone fs))). key_ok k"
    using del(2) assms(3) by (auto simp: key_ok_drop)
  ultimately have shape: "distinct (map fst (move_tree src dst fs))" "\<forall>e \<in> set (move_tree src dst fs). key_ok (fst e)"
    by (metis, metis (no_types, lifting) image_eqI list.set_map)
  note move = fs_lookup_move_tree [OF assms(2) roots]
  have "is_dir (move_tree src dst fs) (butlast k)" if k: "fs_lookup (move_tree src dst fs) k \<noteq> None" for k
  proof (cases "prefix dst k")
    case True
    then obtain x where x: "k = dst @ x" by (auto simp: prefix_def)
    show ?thesis
    proof (cases "x = []")
      case True
      have "\<not> prefix src (butlast dst)" using assms(2) roots(1) by (metis append_butlast_last_id prefix_prefix)
      moreover have "\<not> prefix dst (butlast dst)" using roots(1) by (cases dst rule: rev_cases) (auto dest!: prefix_length_le)
      ultimately show ?thesis using assms(4) x True by (simp add: is_dir_def move)
    next
      case False
      have "fs_lookup fs (src @ x) \<noteq> None" using k x by (simp add: move)
      then have "is_dir fs (src @ butlast x)" using assms(1) False by (auto simp: butlast_append dest: fs_ok_parent)
      then show ?thesis using x False by (simp add: is_dir_def move butlast_append)
    qed
  next
    case False
    then have "fs_lookup fs k \<noteq> None" "\<not> prefix src k" using k by (auto simp: move split: if_splits)
    then have "is_dir fs (butlast k)" "\<not> prefix src (butlast k)" "\<not> prefix dst (butlast k)"
      using assms(1) False by (auto dest: fs_ok_parent prefix_order.trans [OF _ prefixeq_butlast])
    then show ?thesis by (simp add: is_dir_def move)
  qed
  then show ?thesis using shape by (simp add: fs_ok_iff)
qed

lemma io_ok_reads [ok_intros]:
  "io_ok (io_stat p)" "io_ok (io_read p)" "io_ok (io_read_dir p)" "io_ok io_next_entry" "io_ok io_file_type"
  unfolding io_stat_def io_read_def io_read_dir_def io_next_entry_def io_file_type_def
  by (rule io_ok_op; simp)+

lemma fs_ok_write: "fs_ok fs \<Longrightarrow> fs_ok (snd (fs_write p content fs))"
  by (auto simp: fs_write_def Let_def key_ok_fs_key is_dir_def intro!: fs_ok_put dest: fs_ok_parent
      split: option.split fs_node.split)

lemma io_ok_write [ok_intros]: "io_ok (io_write p content)"
  unfolding io_write_def by (rule io_ok_op) (simp_all add: fs_ok_write)

lemma io_ok_copy [ok_intros]: "io_ok (io_copy p q)"
  unfolding io_copy_def by (intro ok_intros)

lemma io_ok_create_dir_all [ok_intros]: "io_ok (io_create_dir_all p)"
proof -
  have "fs_ok fs \<Longrightarrow> missing_error fs (fs_key p) \<noteq> NotADirectory \<Longrightarrow>
      fs_ok (foldl (\<lambda>fs j. fs_put j DirNode fs) fs (missing_dirs fs (fs_key p)))" for fs
    using fs_ok_missing_dirs [of fs p "length (missing_dirs fs (fs_key p))"] by simp
  then show ?thesis unfolding io_create_dir_all_def
    by (intro io_ok_op) (auto simp: fs_create_dir_all_def Let_def fs_ok_missing_dirs split: option.split fs_node.split)
qed

lemma io_ok_remove_file [ok_intros]: "io_ok (io_remove_file p)"
proof -
  have "fs_ok (fs_delete (\<lambda>j. j = fs_key p) fs)" if "fs_ok fs" "fs_stat fs p = Inr (FileNode c)" for fs c
  proof (rule fs_ok_delete [OF that(1)])
    fix k assume "fs_lookup fs k \<noteq> None" "butlast k = fs_key p"
    then show "k = fs_key p" using that by (auto simp: fs_stat_def is_dir_def dest!: fs_ok_parent)
  qed
  then show ?thesis unfolding io_remove_file_def
    by (intro io_ok_op) (auto simp: fs_remove_file_def split: sum.split fs_node.split)
qed

lemma io_ok_remove_dir_all [ok_intros]: "io_ok (io_remove_dir_all p)"
proof -
  have all: "fs_ok (fs_delete (prefix (fs_key p)) fs)" if "fs_ok fs" for fs
    by (rule fs_ok_delete [OF that]) (rule prefix_order.trans [OF _ prefixeq_butlast])
  have part: "fs_ok (fs_delete (\<lambda>j. j \<in> set (take n (sort_key (\<lambda>j. - int (length j)) (filter (prefix (fs_key p)) (map fst fs))))) fs)"
    if "fs_ok fs" for n fs
  proof (rule fs_ok_delete [OF that])
    let ?below = "sort_key (\<lambda>j. - int (length j)) (filter (prefix (fs_key p)) (map fst fs))"
    fix k assume k: "fs_lookup fs k \<noteq> None" "butlast k \<in> set (take n ?below)" "butlast k \<noteq> []"
    then have "prefix (fs_key p) (butlast k)" by (auto dest: in_set_takeD)
    then have "prefix (fs_key p) k" by (rule prefix_order.trans [OF _ prefixeq_butlast])
    moreover have "k \<in> fst ` set fs" using k(1,3) by (force simp: fs_lookup_def dest!: map_of_SomeD split: if_splits)
    moreover have "length (butlast k) < length k" using k(3) by (cases k) auto
    ultimately show "k \<in> set (take n ?below)"
      using k(2) sorted_take_smaller [of "\<lambda>j. - int (length j)" ?below "butlast k" n k] by auto
  qed
  show ?thesis unfolding io_remove_dir_all_def
    by (rule io_ok_op) (auto simp: fs_remove_dir_all_def all part Let_def split: sum.split fs_node.split)
qed

lemma io_ok_rename [ok_intros]: "io_ok (io_rename p q)"
  unfolding io_rename_def
proof (rule io_ok_op)
  fix fs assume ok: "fs_ok fs"
  obtain r fs' where run: "fs_rename p q fs = (r, fs')" by (cases "fs_rename p q fs")
  show "fs_ok (snd (fs_rename p q fs))"
  proof (cases "isl r \<or> fs_key p = fs_key q")
    case True
    have "fs' = fs"
    proof (cases "fs_key p = fs_key q")
      case True
      then show ?thesis using run by (auto simp: fs_rename_def Let_def split: sum.splits)
    next
      case False
      then obtain e where "r = Inl e" using \<open>isl r \<or> fs_key p = fs_key q\<close> by (cases r) auto
      then show ?thesis using run by (auto dest: fs_rename_Inl)
    qed
    then show ?thesis using ok run by simp
  next
    case False
    then have "fs_rename p q fs = (Inr (), fs')" using run by (cases r) auto
    from fs_rename_Inr [OF this] False run ok show ?thesis
      using fs_ok_move_tree [of fs "fs_key p" "fs_key q"] key_ok_fs_key by simp
  qed
qed simp

text \<open>The entries read are the children, each under a name of its own.\<close>

lemma fs_children_mem:
  "(name, node) \<in> set (fs_children fs k) \<longleftrightarrow> segment_ok name \<and> (k @ [Normal name], node) \<in> set fs"
proof (induction fs k rule: fs_children.induct)
  case (1 k)
  then show ?case by simp
next
  case (2 j node' fs k)
  show ?case
  proof (cases "j \<noteq> [] \<and> butlast j = k")
    case True
    then obtain c where j: "j = k @ [c]" by (metis append_butlast_last_id)
    then show ?thesis using 2 by (cases c) auto
  next
    case False
    then have "j \<noteq> k @ [Normal name]" by auto
    then show ?thesis using 2 False by auto
  qed
qed

lemma fs_children_distinct_names: "distinct (map fst fs) \<Longrightarrow> distinct (map fst (fs_children fs k))"
proof (induction fs k rule: fs_children.induct)
  case (1 k)
  then show ?case by simp
next
  case (2 j node fs k)
  then have ok: "distinct (map fst fs)" "j \<notin> fst ` set fs" by auto
  have IH: "distinct (map fst (fs_children fs k))"
    by (cases "j \<noteq> [] \<and> butlast j = k") (use 2 ok in \<open>blast+\<close>)
  show ?case
  proof (cases "\<exists>name. j = k @ [Normal name]")
    case True
    then obtain name where j: "j = k @ [Normal name]" ..
    have "name \<notin> fst ` set (fs_children fs k)"
    proof
      assume "name \<in> fst ` set (fs_children fs k)"
      then obtain node' where "(name, node') \<in> set (fs_children fs k)" by auto
      with ok(2) j show False by (force simp: fs_children_mem)
    qed
    with IH j show ?thesis by simp
  next
    case False
    then have "j \<noteq> [] \<Longrightarrow> butlast j = k \<Longrightarrow> \<nexists>name. last j = Normal name"
      by (metis append_butlast_last_id)
    with IH show ?thesis by (auto split: component.split)
  qed
qed

lemma fs_children_distinct: "fs_ok fs \<Longrightarrow> distinct (map fst (fs_children fs k))"
  by (rule fs_children_distinct_names) (simp add: fs_ok_def)

lemma fs_children_lookup:
  "fs_ok fs \<Longrightarrow> (name, node) \<in> set (fs_children fs k) \<Longrightarrow> fs_lookup fs (k @ [Normal name]) = Some node"
  by (auto simp: fs_children_mem fs_lookup_def fs_ok_def)
section \<open>Directories that a computation makes\<close>

definition makes_dirs_in :: "fs_key set \<Rightarrow> ('e, 'a) io \<Rightarrow> bool" where
  "makes_dirs_in D m \<longleftrightarrow>
     (\<forall>w k. is_dir (world_fs (snd (m w))) k \<longrightarrow> is_dir (world_fs w) k \<or> k \<in> D)"

named_theorems makes_intros \<open>directories that computations make\<close>

lemma makes_dirs_inD:
  "makes_dirs_in D m \<Longrightarrow> m w = (r, w') \<Longrightarrow> is_dir (world_fs w') k \<Longrightarrow> is_dir (world_fs w) k \<or> k \<in> D"
  unfolding makes_dirs_in_def by (metis snd_conv)

lemma makes_simple [makes_intros]:
  "makes_dirs_in D (io_return x)" "makes_dirs_in D (io_fail e)" "makes_dirs_in D (io_lift r)"
  by (simp_all add: makes_dirs_in_def io_return_def io_fail_def io_lift_def)

lemma makes_then [makes_intros]:
  assumes "makes_dirs_in D m" and "\<And>x. makes_dirs_in D (f x)"
  shows "makes_dirs_in D (io_then m f)"
  unfolding makes_dirs_in_def
proof (intro allI impI)
  fix w :: world and k
  assume made: "is_dir (world_fs (snd (io_then m f w))) k"
  obtain r u where m: "m w = (r, u)" by (cases "m w")
  have "is_dir (world_fs u) k \<or> k \<in> D"
  proof (cases r)
    case (Inl e)
    then show ?thesis using made m by (simp add: io_then_def)
  next
    case (Inr x)
    then have "is_dir (world_fs (snd (f x u))) k" using made m by (simp add: io_then_def)
    then show ?thesis using assms(2) [of x] unfolding makes_dirs_in_def by blast
  qed
  then show "is_dir (world_fs w) k \<or> k \<in> D" using makes_dirs_inD [OF assms(1) m] by blast
qed

lemma makes_match [makes_intros]:
  assumes "makes_dirs_in D m" and "\<And>r. makes_dirs_in D (f r)"
  shows "makes_dirs_in D (io_match m f)"
  unfolding makes_dirs_in_def
proof (intro allI impI)
  fix w :: world and k
  assume made: "is_dir (world_fs (snd (io_match m f w))) k"
  obtain r u where m: "m w = (r, u)" by (cases "m w")
  then have "is_dir (world_fs u) k \<or> k \<in> D"
    using made assms(2) [of r] unfolding makes_dirs_in_def by (simp add: io_match_def)
  then show "is_dir (world_fs w) k \<or> k \<in> D" using makes_dirs_inD [OF assms(1) m] by blast
qed

lemma makes_map_err [makes_intros]: "makes_dirs_in D m \<Longrightarrow> makes_dirs_in D (io_map_err f m)"
  unfolding makes_dirs_in_def io_map_err_def by (simp add: case_prod_unfold)

lemma makes_keeps: "keeps UNIV m \<Longrightarrow> makes_dirs_in D m"
  by (simp add: makes_dirs_in_def keeps_def is_dir_def)

lemma makes_op:
  assumes "\<And>fs k. is_dir (snd (act fs)) k \<Longrightarrow> is_dir fs k \<or> k \<in> D"
    and "\<And>n fs k. is_dir (partial n fs) k \<Longrightarrow> is_dir fs k \<or> k \<in> D"
  shows "makes_dirs_in D (io_op act partial)"
  using assms by (auto simp: makes_dirs_in_def io_op_def split: option.split prod.split)

lemma makes_reads [makes_intros]:
  "makes_dirs_in D (io_stat p)" "makes_dirs_in D (io_read p)" "makes_dirs_in D (io_read_dir p)"
  "makes_dirs_in D io_next_entry" "makes_dirs_in D io_file_type"
  by (intro makes_keeps keeps_intros)+

lemma makes_write [makes_intros]: "makes_dirs_in D (io_write p content)"
proof -
  have "is_dir (snd (fs_write p content fs)) k \<Longrightarrow> is_dir fs k" for content fs k
    by (auto simp: fs_write_def Let_def is_dir_def fs_lookup_put split: option.splits fs_node.splits if_splits)
  then show ?thesis unfolding io_write_def by (intro makes_op) blast+
qed

lemma makes_copy [makes_intros]: "makes_dirs_in D (io_copy p q)"
  unfolding io_copy_def by (intro makes_intros)

lemma is_dir_delete: "is_dir (fs_delete gone fs) k \<Longrightarrow> is_dir fs k"
  by (auto simp: is_dir_def fs_lookup_delete split: if_splits)

lemma makes_remove [makes_intros]: "makes_dirs_in D (io_remove_file p)" "makes_dirs_in D (io_remove_dir_all p)"
  unfolding io_remove_file_def io_remove_dir_all_def
  by (rule makes_op; auto simp: fs_remove_file_def fs_remove_dir_all_def Let_def
      dest: is_dir_delete split: sum.splits fs_node.splits)+

lemma makes_create_dir_all [makes_intros]:
  assumes "\<And>k. prefix k (fs_key p) \<Longrightarrow> k \<in> D"
  shows "makes_dirs_in D (io_create_dir_all p)"
proof -
  have dirs: "k \<in> D" if "k \<in> set (missing_dirs fs (fs_key p))" for k fs
    using missing_dirs_prefix [OF that] assms by blast
  show ?thesis
    unfolding io_create_dir_all_def
    by (rule makes_op)
      (auto simp: fs_create_dir_all_def Let_def is_dir_def fs_lookup_put_dirs
        dest: dirs in_set_takeD split: option.splits fs_node.splits if_splits)
qed

section \<open>The subdirectories of a directory\<close>

definition dir_names :: "(string \<times> fs_node) list \<Rightarrow> string list" where
  "dir_names entries = map fst (filter (\<lambda>e. snd e = DirNode) entries)"

lemma dir_names_simps [simp]:
  "dir_names [] = []"
  "dir_names ((name, node) # entries) = (if node = DirNode then name # dir_names entries else dir_names entries)"
  by (simp_all add: dir_names_def)

lemma children_segment_ok: "(name, node) \<in> set (fs_children fs k) \<Longrightarrow> segment_ok name"
  by (simp add: fs_children_mem)

text \<open>What a directory held when it was read.\<close>

lemma io_read_dir_Inr:
  "io_read_dir p w = (Inr entries, u) \<Longrightarrow>
     world_fs u = world_fs w \<and> is_dir (world_fs w) (fs_key p) \<and> entries = fs_children (world_fs w) (fs_key p)"
  using readsD(1,4) [OF reads_simple(3), of p w]
  by (auto simp: fs_read_dir_def fs_stat_def is_dir_def split: option.splits fs_node.splits if_splits)

lemma subseq_facts: "subseq xs ys \<Longrightarrow> set xs \<subseteq> set ys \<and> (distinct ys \<longrightarrow> distinct xs)"
  by (induction rule: list_emb.induct) auto

lemma pushed_children:
  assumes ok: "fs_ok fs" and names: "subseq names (dir_names (fs_children fs (fs_key dir)))"
  shows "distinct names" and "n \<in> set names \<Longrightarrow> segment_ok n"
    and "n \<in> set names \<Longrightarrow> is_dir fs (fs_key dir @ [Normal n])"
proof -
  have "distinct (dir_names (fs_children fs (fs_key dir)))"
    unfolding dir_names_def using fs_children_distinct [OF ok] by (rule distinct_map_filter)
  then show "distinct names" using subseq_facts [OF names] by simp
  assume "n \<in> set names"
  then have "(n, DirNode) \<in> set (fs_children fs (fs_key dir))"
    using subseq_facts [OF names] by (auto simp: dir_names_def)
  then show "segment_ok n" "is_dir fs (fs_key dir @ [Normal n])"
    using children_segment_ok fs_children_lookup [OF ok] by (auto simp: is_dir_def)
qed

lemma distinct_joined:
  "distinct names \<Longrightarrow> \<forall>n \<in> set names. segment_ok n \<Longrightarrow> distinct (map (fs_key \<circ> join_path dir) names)"
  by (induction names) (auto simp: fs_key_join)

lemma wants_dir_join:
  assumes "d \<noteq> []" and "\<not> is_absolute s"
  shows "wants_dir (join_path d s) \<longleftrightarrow> wants_dir s"
proof -
  obtain q where "join_path d s = q @ CHR ''/'' # s" using join_path_sep [OF assms(1)] assms(2) by blast
  then show ?thesis by (simp add: wants_dir_def split_on_append_sep)
qed

section \<open>The loop\<close>

fun walk ::
    "('d \<Rightarrow> 'a \<Rightarrow> (anyhow, 'a \<times> 'd list) io) \<Rightarrow> nat \<Rightarrow> 'd list \<Rightarrow> 'a \<Rightarrow> world \<Rightarrow>
     ((anyhow + 'a) \<times> world) option" where
  "walk visit n [] acc w = Some (Inr acc, w)"
| "walk visit 0 (d # stack) acc w = None"
| "walk visit (Suc n) (d # stack) acc w =
     (case visit d acc w of
        (Inl e, w') \<Rightarrow> Some (Inl e, w')
      | (Inr (acc', pushed), w') \<Rightarrow> walk visit n (rev pushed @ stack) acc' w')"

definition walk_fuel :: "'d list \<Rightarrow> world \<Rightarrow> nat" where
  "walk_fuel stack w = length (world_fs w) + length stack + 2"

definition walk_dirs ::
    "('d \<Rightarrow> 'a \<Rightarrow> (anyhow, 'a \<times> 'd list) io) \<Rightarrow> 'd list \<Rightarrow> 'a \<Rightarrow> (anyhow, 'a) io" where
  "walk_dirs visit stack acc w =
     (case walk visit (walk_fuel stack w) stack acc w of
        Some r \<Rightarrow> r
      | None \<Rightarrow> (Inl (ErrorMsg ''directory walk did not end''), w))"

lemma walk_Cons:
  "walk visit n (d # stack) acc w =
     (case n of
        0 \<Rightarrow> None
      | Suc m \<Rightarrow>
          (case visit d acc w of
             (Inl e, w') \<Rightarrow> Some (Inl e, w')
           | (Inr r, w') \<Rightarrow> walk visit m (rev (snd r) @ stack) (fst r) w'))"
  by (cases n) (auto split: sum.split prod.split)

text \<open>What every visit preserves, the walk preserves.\<close>

lemma walk_invariant:
  assumes step: "\<And>d acc w r w'. visit d acc w = (r, w') \<Longrightarrow> P w \<Longrightarrow> P w'"
  shows "walk visit n stack acc w = Some (r, w') \<Longrightarrow> P w \<Longrightarrow> P w'"
proof (induction n arbitrary: stack acc w)
  case 0
  then show ?case by (cases stack) auto
next
  case (Suc n)
  show ?case
  proof (cases stack)
    case Nil
    with Suc.prems show ?thesis by simp
  next
    case (Cons d st)
    obtain s v where v: "visit d acc w = (s, v)" by (cases "visit d acc w")
    have "P v" using step [OF v] Suc.prems by blast
    then show ?thesis using Suc.prems(1) Suc.IH v Cons by (cases s) (auto simp: walk_Cons)
  qed
qed

lemma keeps_walk_dirs [keeps_intros]:
  assumes "\<And>d acc. keeps K (visit d acc)"
  shows "keeps K (walk_dirs visit stack acc)"
proof (rule keepsI)
  fix w :: world and k assume k: "k \<in> K"
  define P where "P = (\<lambda>v :: world. fs_lookup (world_fs v) k = fs_lookup (world_fs w) k)"
  have step: "visit d a u = (r, v) \<Longrightarrow> P u \<Longrightarrow> P v" for d a u r v
    using keepsD [OF assms _ k, of d a u r v] by (simp add: P_def)
  have "P (snd (walk_dirs visit stack acc w))"
  proof (cases "walk visit (walk_fuel stack w) stack acc w")
    case None
    then show ?thesis by (simp add: walk_dirs_def P_def)
  next
    case (Some p)
    then have walk: "walk visit (walk_fuel stack w) stack acc w = Some (fst p, snd p)" by simp
    have "P (snd p)" using walk_invariant [of visit P, OF _ walk] step by (metis P_def)
    with Some show ?thesis by (simp add: walk_dirs_def)
  qed
  then show "fs_lookup (world_fs (snd (walk_dirs visit stack acc w))) k = fs_lookup (world_fs w) k"
    by (simp add: P_def)
qed

lemma preserves_walk_dirs:
  assumes "\<And>d acc. preserves I (visit d acc)"
  shows "preserves I (walk_dirs visit stack acc)"
proof -
  have "I (snd (walk_dirs visit stack acc w))" if "I w" for w
  proof (cases "walk visit (walk_fuel stack w) stack acc w")
    case None
    then show ?thesis using that by (simp add: walk_dirs_def)
  next
    case (Some p)
    then have "walk visit (walk_fuel stack w) stack acc w = Some (fst p, snd p)" by simp
    then have "I (snd p)" using walk_invariant [of visit I] preservesD [OF assms] that by blast
    then show ?thesis using Some by (simp add: walk_dirs_def)
  qed
  then show ?thesis by (simp add: preserves_def)
qed

text \<open>The same when the directories that are pushed are known to be good ones.\<close>

lemma keeps_walk_good:
  assumes keeps: "\<And>d acc. good d \<Longrightarrow> keeps K (visit d acc)"
    and pushes: "\<And>d acc w acc' pushed v. good d \<Longrightarrow> visit d acc w = (Inr (acc', pushed), v) \<Longrightarrow> \<forall>p \<in> set pushed. good p"
  shows "\<forall>d \<in> set stack. good d \<Longrightarrow> keeps K (walk_dirs visit stack acc)"
proof (rule keepsI)
  fix w :: world and k
  assume stack: "\<forall>d \<in> set stack. good d" and k: "k \<in> K"
  have "walk visit n stack acc w = Some (r, v) \<Longrightarrow> fs_lookup (world_fs v) k = fs_lookup (world_fs w) k" for n r v
    using stack
  proof (induction n arbitrary: stack acc w)
    case 0
    then show ?case by (cases stack) auto
  next
    case (Suc n)
    show ?case
    proof (cases stack)
      case (Cons d st)
      obtain s u where s: "visit d acc w = (s, u)" by (cases "visit d acc w")
      have good: "good d" using Suc.prems(2) Cons by simp
      have same: "fs_lookup (world_fs u) k = fs_lookup (world_fs w) k" using keepsD [OF keeps [OF good] s k] .
      show ?thesis
      proof (cases s)
        case (Inl e)
        then show ?thesis using Suc.prems(1) Cons s same by simp
      next
        case (Inr p)
        then have "\<forall>e \<in> set (rev (snd p) @ st). good e"
          using pushes [OF good, of acc w "fst p" "snd p" u] s Suc.prems(2) Cons by auto
        then show ?thesis using Suc.prems(1) Suc.IH Cons s Inr same by (simp add: walk_Cons)
      qed
    qed (use Suc.prems in simp)
  qed
  then show "fs_lookup (world_fs (snd (walk_dirs visit stack acc w))) k = fs_lookup (world_fs w) k"
    by (cases "walk visit (walk_fuel stack w) stack acc w") (auto simp: walk_dirs_def)
qed

lemma io_ok_walk_dirs [ok_intros]:
  assumes "\<And>d acc. io_ok (visit d acc)"
  shows "io_ok (walk_dirs visit stack acc)"
  unfolding io_ok_def
proof (intro allI impI)
  fix w :: world assume ok: "fs_ok (world_fs w)"
  show "fs_ok (world_fs (snd (walk_dirs visit stack acc w)))"
  proof (cases "walk visit (walk_fuel stack w) stack acc w")
    case None
    with ok show ?thesis by (simp add: walk_dirs_def)
  next
    case (Some p)
    then have walk: "walk visit (walk_fuel stack w) stack acc w = Some (fst p, snd p)" by simp
    have "fs_ok (world_fs (snd p))"
      by (rule walk_invariant [where P = "\<lambda>w. fs_ok (world_fs w)", OF io_okD [OF assms] walk ok])
    with Some show ?thesis by (simp add: walk_dirs_def)
  qed
qed

section \<open>Enough fuel\<close>

text \<open>
  What a body promises: it keeps one node per path, it makes no directory at or below the
  part of the tree that is walked, and what it pushes are directories it found directly
  below the one it visited.
\<close>

locale dir_walk =
  fixes visit :: "'d \<Rightarrow> 'a \<Rightarrow> (anyhow, 'a \<times> 'd list) io"
    and key :: "'d \<Rightarrow> fs_key"
    and top :: fs_key
    and good :: "'d \<Rightarrow> bool"
  assumes visit_ok: "io_ok (visit d acc)"
    and visit_dirs: "good d \<Longrightarrow> visit d acc w = (r, w') \<Longrightarrow> prefix top k \<Longrightarrow> is_dir (world_fs w') k \<Longrightarrow>
           is_dir (world_fs w) k"
    and visit_pushed: "good d \<Longrightarrow> visit d acc w = (Inr (acc', pushed), w') \<Longrightarrow> fs_ok (world_fs w) \<Longrightarrow>
           distinct (map key pushed) \<and>
           (\<forall>p \<in> set pushed. good p \<and> (\<exists>name. key p = key d @ [Normal name] \<and> is_dir (world_fs w) (key p)))"
begin

definition ahead :: "world \<Rightarrow> 'd list \<Rightarrow> fs_key set" where
  "ahead w stack = {k. (is_dir (world_fs w) k \<or> k \<in> key ` set stack) \<and> (\<exists>d \<in> set stack. prefix (key d) k)}"

definition apart :: "'d list \<Rightarrow> bool" where
  "apart stack \<longleftrightarrow> distinct (map key stack) \<and>
     (\<forall>d \<in> set stack. \<forall>e \<in> set stack. prefix (key d) (key e) \<longrightarrow> key d = key e) \<and>
     (\<forall>d \<in> set stack. prefix top (key d))"

lemma is_dir_mem: "is_dir fs k \<Longrightarrow> k \<in> insert [] (insert [RootDir] (fst ` set fs))"
  by (force simp: is_dir_def fs_lookup_def dest: map_of_SomeD split: if_splits)

lemma ahead_subset: "ahead w stack \<subseteq> insert [] (insert [RootDir] (fst ` set (world_fs w))) \<union> key ` set stack"
  using is_dir_mem by (auto simp: ahead_def)

lemma ahead_finite: "finite (ahead w stack)"
  by (rule finite_subset [OF ahead_subset]) simp

lemma apart_head:
  assumes "apart (d # stack)" and "e \<in> set stack"
  shows "\<not> prefix (key e) (key d)" and "\<not> prefix (key d) (key e)"
proof -
  have "key d \<notin> key ` set stack" using assms(1) by (simp add: apart_def)
  then have "key e \<noteq> key d" using assms(2) by (metis image_eqI)
  moreover have "\<forall>a \<in> set (d # stack). \<forall>b \<in> set (d # stack). prefix (key a) (key b) \<longrightarrow> key a = key b"
    using assms(1) unfolding apart_def by blast
  ultimately show "\<not> prefix (key e) (key d)" and "\<not> prefix (key d) (key e)"
    using assms(2) by (metis list.set_intros)+
qed

lemma apart_push:
  assumes "apart (d # stack)" and "distinct (map key pushed)"
    and "\<forall>p \<in> set pushed. \<exists>name. key p = key d @ [Normal name]"
  shows "apart (rev pushed @ stack)"
proof -
  have rest: "\<not> prefix (key e) (key d)" "\<not> prefix (key d) (key e)" if "e \<in> set stack" for e
    using apart_head [OF assms(1) that] .
  have cross: "\<not> prefix (key p) (key e) \<and> \<not> prefix (key e) (key p)" if pm: "p \<in> set pushed" "e \<in> set stack" for p e
  proof -
    obtain name where p: "key p = key d @ [Normal name]" using bspec [OF assms(3) pm(1)] ..
    have "\<not> prefix (key e) (key d @ [Normal name])"
    proof
      assume "prefix (key e) (key d @ [Normal name])"
      then have "prefix (key e) (key d) \<or> key e = key d @ [Normal name]" by (simp only: prefix_snoc) blast
      then show False using rest [OF pm(2)] by auto
    qed
    moreover have "\<not> prefix (key d @ [Normal name]) (key e)"
      using rest(2) [OF pm(2)] append_prefixD by blast
    ultimately show ?thesis unfolding p by simp
  qed
  have inner: "key p = key q" if pq: "p \<in> set pushed" "q \<in> set pushed" "prefix (key p) (key q)" for p q
  proof -
    obtain m n where "key p = key d @ [Normal m]" "key q = key d @ [Normal n]" using assms(3) pq by meson
    with pq(3) show ?thesis by simp
  qed
  have "key ` set pushed \<inter> key ` set stack = {}" using cross by fastforce
  moreover have "prefix top (key p)" if "p \<in> set pushed" for p
    using assms(1,3) that by (auto simp: apart_def)
  ultimately show ?thesis using assms(1,2) cross inner
    by (auto simp: apart_def rev_map [symmetric])
qed

lemma ahead_push:
  assumes "apart (d # stack)" and "\<forall>p \<in> set pushed. \<exists>name. key p = key d @ [Normal name] \<and> is_dir (world_fs w) (key p)"
    and dirs: "\<And>k. prefix top k \<Longrightarrow> is_dir (world_fs w') k \<Longrightarrow> is_dir (world_fs w) k"
  shows "ahead w' (rev pushed @ stack) \<subset> ahead w (d # stack)"
proof
  have below: "k \<in> ahead w (d # stack) \<and> k \<noteq> key d" if new: "k \<in> ahead w' (rev pushed @ stack)" for k
  proof -
    from new obtain e where e: "e \<in> set pushed \<or> e \<in> set stack" "prefix (key e) k"
      by (auto simp: ahead_def)
    have over: "\<exists>c \<in> set (d # stack). prefix (key c) k \<and> prefix top k"
    proof (cases "e \<in> set pushed")
      case True
      then have "prefix (key d) k" using assms(2) e(2) append_prefixD by metis
      then show ?thesis using assms(1) by (auto simp: apart_def intro: prefix_order.trans)
    next
      case False
      then show ?thesis using e assms(1) by (auto simp: apart_def intro: prefix_order.trans)
    qed
    have "is_dir (world_fs w) k \<or> k \<in> key ` set (d # stack)"
      using new assms(2) dirs over by (auto simp: ahead_def)
    moreover have "k \<noteq> key d"
    proof
      assume k: "k = key d"
      show False
      proof (cases "e \<in> set pushed")
        case True
        then obtain name where "key e = key d @ [Normal name]" using assms(2) by blast
        with e(2) k show False by (simp add: prefix_def)
      next
        case False
        then show False using e k apart_head [OF assms(1)] by blast
      qed
    qed
    ultimately show ?thesis using over by (auto simp: ahead_def)
  qed
  then show "ahead w' (rev pushed @ stack) \<subseteq> ahead w (d # stack)" by blast
  have "key d \<in> ahead w (d # stack)" by (auto simp: ahead_def)
  with below show "ahead w' (rev pushed @ stack) \<noteq> ahead w (d # stack)" by blast
qed

lemma walk_returns:
  "apart stack \<Longrightarrow> \<forall>d \<in> set stack. good d \<Longrightarrow> fs_ok (world_fs w) \<Longrightarrow> card (ahead w stack) \<le> n \<Longrightarrow>
   \<exists>r. walk visit n stack acc w = Some r"
proof (induction n arbitrary: stack acc w)
  case 0
  then have "ahead w stack = {}" using ahead_finite by simp
  then have "stack = []" by (cases stack) (auto simp: ahead_def)
  then show ?case by simp
next
  case (Suc n)
  show ?case
  proof (cases stack)
    case Nil
    then show ?thesis by simp
  next
    case (Cons d st)
    obtain s v where v: "visit d acc w = (s, v)" by (cases "visit d acc w")
    show ?thesis
    proof (cases s)
      case (Inl e)
      with v Cons show ?thesis by (simp add: walk_Cons)
    next
      case (Inr p)
      obtain acc' pushed where p: "p = (acc', pushed)" by (cases p)
      have pushed: "distinct (map key pushed)"
          "\<forall>p \<in> set pushed. \<exists>name. key p = key d @ [Normal name] \<and> is_dir (world_fs w) (key p)"
          "\<forall>p \<in> set pushed. good p"
        using visit_pushed [of d acc w acc' pushed v] v Inr p Suc.prems(2,3) Cons by auto
      have dirs: "prefix top k \<Longrightarrow> is_dir (world_fs v) k \<Longrightarrow> is_dir (world_fs w) k" for k
        using visit_dirs [OF _ v] Suc.prems(2) Cons by simp
      have "ahead v (rev pushed @ st) \<subset> ahead w (d # st)"
        using ahead_push [of d st pushed w v] Suc.prems(1) pushed(2) dirs Cons by blast
      then have "card (ahead v (rev pushed @ st)) < card (ahead w (d # st))"
        by (rule psubset_card_mono [OF ahead_finite])
      moreover have "apart (rev pushed @ st)"
        using apart_push [of d st pushed] Suc.prems(1) pushed Cons by blast
      moreover have "\<forall>e \<in> set (rev pushed @ st). good e" using pushed(3) Suc.prems(2) Cons by auto
      moreover have "fs_ok (world_fs v)" using io_okD [OF visit_ok v] Suc.prems(3) .
      ultimately have "\<exists>r. walk visit n (rev pushed @ st) acc' v = Some r"
        using Suc.IH Suc.prems(4) Cons by simp
      then show ?thesis using v Inr p Cons by (simp add: walk_Cons)
    qed
  qed
qed

lemma walk_dirs_returns:
  assumes "key d = top" and "good d" and "fs_ok (world_fs w)"
  shows "\<exists>r. walk visit (walk_fuel [d] w) [d] acc w = Some r"
proof (rule walk_returns)
  show "apart [d]" using assms by (simp add: apart_def)
  have "ahead w [d] \<subseteq> set ([] # [RootDir] # key d # map fst (world_fs w))"
    using ahead_subset [of w "[d]"] by auto
  then have "card (ahead w [d]) \<le> length ([] # [RootDir] # key d # map fst (world_fs w))"
    by (meson card_length card_mono finite_set le_trans)
  then show "card (ahead w [d]) \<le> walk_fuel [d] w" by (simp add: walk_fuel_def)
qed (use assms in auto)

end

section \<open>Computations that only take away\<close>

definition shrinks :: "('e, 'a) io \<Rightarrow> bool" where
  "shrinks m \<longleftrightarrow>
     (\<forall>w k. fs_lookup (world_fs (snd (m w))) k = fs_lookup (world_fs w) k \<or>
        fs_lookup (world_fs (snd (m w))) k = None)"

named_theorems shrinks_intros \<open>computations that make and change nothing\<close>

lemma shrinksD:
  "shrinks m \<Longrightarrow> m w = (r, v) \<Longrightarrow>
     fs_lookup (world_fs v) k = fs_lookup (world_fs w) k \<or> fs_lookup (world_fs v) k = None"
  unfolding shrinks_def by (metis snd_conv)

lemma shrinks_Some:
  "shrinks m \<Longrightarrow> m w = (r, v) \<Longrightarrow> fs_lookup (world_fs v) k = Some node \<Longrightarrow>
     fs_lookup (world_fs w) k = Some node"
  by (metis option.distinct(1) shrinksD)

lemma shrinks_keeps: "keeps UNIV m \<Longrightarrow> shrinks m"
  by (simp add: shrinks_def keeps_def)

lemma shrinks_simple [shrinks_intros]:
  "shrinks (io_return x)" "shrinks (io_fail e)" "shrinks (io_lift r)"
  "shrinks (io_stat p)" "shrinks (io_read p)" "shrinks (io_read_dir p)"
  "shrinks io_next_entry" "shrinks io_file_type"
  by (intro shrinks_keeps keeps_intros)+

lemma shrinks_then [shrinks_intros]:
  assumes "shrinks m" and "\<And>x. shrinks (f x)"
  shows "shrinks (io_then m f)"
  unfolding shrinks_def
proof (intro allI)
  fix w :: world and k
  obtain r u where m: "m w = (r, u)" by (cases "m w")
  show "fs_lookup (world_fs (snd (io_then m f w))) k = fs_lookup (world_fs w) k \<or>
      fs_lookup (world_fs (snd (io_then m f w))) k = None"
  proof (cases r)
    case (Inl e)
    then show ?thesis using shrinksD [OF assms(1) m, of k] m by (simp add: io_then_def)
  next
    case (Inr x)
    then show ?thesis
      using shrinksD [OF assms(1) m, of k] shrinksD [OF assms(2), of x u "fst (f x u)" "snd (f x u)" k] m
      by (auto simp: io_then_def)
  qed
qed

lemma shrinks_match [shrinks_intros]:
  assumes "shrinks m" and "\<And>r. shrinks (f r)"
  shows "shrinks (io_match m f)"
  unfolding shrinks_def
proof (intro allI)
  fix w :: world and k
  obtain r u where m: "m w = (r, u)" by (cases "m w")
  show "fs_lookup (world_fs (snd (io_match m f w))) k = fs_lookup (world_fs w) k \<or>
      fs_lookup (world_fs (snd (io_match m f w))) k = None"
    using shrinksD [OF assms(1) m, of k] shrinksD [OF assms(2), of r u "fst (f r u)" "snd (f r u)" k] m
    by (auto simp: io_match_def)
qed

lemma shrinks_map_err [shrinks_intros]: "shrinks m \<Longrightarrow> shrinks (io_map_err f m)"
  unfolding shrinks_def io_map_err_def by (simp add: case_prod_unfold)

lemma shrinks_remove_file [shrinks_intros]: "shrinks (io_remove_file p)"
  unfolding shrinks_def
proof (intro allI)
  fix w :: world and k
  show "fs_lookup (world_fs (snd (io_remove_file p w))) k = fs_lookup (world_fs w) k \<or>
      fs_lookup (world_fs (snd (io_remove_file p w))) k = None"
    by (auto simp: io_remove_file_def io_op_def fs_remove_file_def fs_lookup_delete
        split: option.split sum.split fs_node.split)
qed

lemma io_remove_file_Inr:
  assumes "io_remove_file p w = (Inr (), v)"
  shows "fs_lookup (world_fs v) (fs_key p) = None"
proof -
  have run: "fs_remove_file p (world_fs w) = (Inr (), world_fs v)"
    by (rule io_op_Inr [OF assms [unfolded io_remove_file_def]])
  then obtain content where found: "fs_lookup (world_fs w) (fs_key p) = Some (FileNode content)"
    by (auto simp: fs_remove_file_def fs_stat_def split: option.splits fs_node.splits if_splits)
  then have "fs_key p \<noteq> []" "fs_key p \<noteq> [RootDir]" by (auto simp: fs_lookup_def)
  moreover have "world_fs v = fs_delete (\<lambda>j. j = fs_key p) (world_fs w)"
    using run by (auto simp: fs_remove_file_def split: sum.splits fs_node.splits)
  ultimately show ?thesis by (simp add: fs_lookup_delete)
qed

lemma shrinks_makes: "shrinks m \<Longrightarrow> makes_dirs_in D m"
  unfolding makes_dirs_in_def shrinks_def is_dir_def by (metis option.distinct(1))

section \<open>Walks that leave nothing behind\<close>

text \<open>Every directory on the way from one path down to another is there.\<close>

definition reachable_from :: "filesystem \<Rightarrow> fs_key \<Rightarrow> fs_key \<Rightarrow> bool" where
  "reachable_from fs j k \<longleftrightarrow> (\<forall>n. length j \<le> n \<and> n < length k \<longrightarrow> is_dir fs (take n k))"

lemma fs_ok_reachable: "fs_ok fs \<Longrightarrow> fs_lookup fs k = Some node \<Longrightarrow> reachable_from fs j k"
  unfolding reachable_from_def using fs_ok_above take_is_prefix by (metis length_take min.absorb4 nat_less_le)

lemma reachable_child:
  assumes "reachable_from fs j k" and "prefix (j @ [c]) k" and "k \<noteq> j @ [c]"
  shows "is_dir fs (j @ [c])"
proof -
  have len: "length (j @ [c]) < length k"
    using assms(2,3) prefix_length_less [of "j @ [c]" k] by (auto simp: prefix_def)
  moreover have "take (length (j @ [c])) k = j @ [c]" using assms(2) by (auto simp: prefix_def)
  ultimately show ?thesis using assms(1) unfolding reachable_from_def
    by (metis le_add1 length_append)
qed

text \<open>
  A sweep is a walk with work to be done at some of the files: the work that is done stays
  done, and a visit leaves work only below the directories it pushes.
\<close>

locale dir_sweep = dir_walk visit key top good
  for visit :: "'d \<Rightarrow> 'a \<Rightarrow> (anyhow, 'a \<times> 'd list) io" and key :: "'d \<Rightarrow> fs_key"
    and top :: fs_key and good :: "'d \<Rightarrow> bool" +
  fixes todo :: "filesystem \<Rightarrow> fs_key \<Rightarrow> bool"
  assumes visit_done: "good d \<Longrightarrow> visit d acc w = (Inr r, w') \<Longrightarrow> fs_ok (world_fs w) \<Longrightarrow> prefix top k \<Longrightarrow>
          todo (world_fs w') k \<Longrightarrow> todo (world_fs w) k"
    and visit_swept: "good d \<Longrightarrow> visit d acc w = (Inr (acc', pushed), w') \<Longrightarrow> fs_ok (world_fs w) \<Longrightarrow>
          prefix top k \<Longrightarrow> prefix (key d) k \<Longrightarrow> todo (world_fs w') k \<Longrightarrow> reachable_from (world_fs w') (key d) k \<Longrightarrow>
          \<exists>p \<in> set pushed. prefix (key p) k"
begin

lemma walk_sweeps:
  "walk visit n stack acc w = Some (Inr r, v) \<Longrightarrow> \<forall>d \<in> set stack. good d \<and> prefix top (key d) \<Longrightarrow>
   fs_ok (world_fs w) \<Longrightarrow> prefix top k \<Longrightarrow> todo (world_fs v) k \<Longrightarrow> reachable_from (world_fs v) top k \<Longrightarrow>
   todo (world_fs w) k \<and> reachable_from (world_fs w) top k \<and> (\<forall>d \<in> set stack. \<not> prefix (key d) k)"
proof (induction n arbitrary: stack acc w)
  case 0
  then show ?case by (cases stack) auto
next
  case (Suc n)
  show ?case
  proof (cases stack)
    case Nil
    with Suc.prems show ?thesis by simp
  next
    case (Cons d st)
    obtain s u where s: "visit d acc w = (s, u)" by (cases "visit d acc w")
    obtain acc' pushed where p: "s = Inr (acc', pushed)"
      using Suc.prems(1) s Cons by (cases s) (auto split: prod.splits)
    note run = s [unfolded p]
    have good: "good d" "prefix top (key d)" using Suc.prems(2) Cons by auto
    have rest: "walk visit n (rev pushed @ st) acc' u = Some (Inr r, v)"
      using Suc.prems(1) Cons run by simp
    have new: "good e \<and> prefix top (key e)" if "e \<in> set pushed" for e
      using visit_pushed [OF good(1) run Suc.prems(3)] that good(2) by (auto simp: prefix_def)
    have ok: "fs_ok (world_fs u)" using io_okD [OF visit_ok run Suc.prems(3)] .
    have IH: "todo (world_fs u) k" "reachable_from (world_fs u) top k" "\<forall>e \<in> set (rev pushed @ st). \<not> prefix (key e) k"
      using Suc.IH [OF rest _ ok Suc.prems(4-6)] new Suc.prems(2) Cons by auto
    have below: "prefix top (take m k)" if "length top \<le> m" for m
      using Suc.prems(4) that by (auto simp: prefix_def)
    have "reachable_from (world_fs w) top k"
      using IH(2) visit_dirs [OF good(1) run] below unfolding reachable_from_def by blast
    moreover have "todo (world_fs w) k" using visit_done [OF good(1) run Suc.prems(3,4) IH(1)] .
    moreover have "\<not> prefix (key d) k"
    proof
      assume d: "prefix (key d) k"
      have "reachable_from (world_fs u) (key d) k"
        using IH(2) prefix_length_le [OF good(2)] unfolding reachable_from_def by auto
      then have "\<exists>p \<in> set pushed. prefix (key p) k"
        using visit_swept [OF good(1) run Suc.prems(3,4) d IH(1)] by blast
      then show False using IH(3) by auto
    qed
    ultimately show ?thesis using IH(3) Cons by simp
  qed
qed

lemma walk_dirs_sweeps:
  assumes "walk_dirs visit [d] acc w = (Inr r, v)" and "key d = top" and "good d" and "fs_ok (world_fs w)"
    and "prefix top k" and "reachable_from (world_fs v) top k"
  shows "\<not> todo (world_fs v) k"
proof
  assume todo: "todo (world_fs v) k"
  have "walk visit (walk_fuel [d] w) [d] acc w = Some (Inr r, v)"
    using assms(1) walk_dirs_returns [OF assms(2-4), of acc] by (auto simp: walk_dirs_def)
  then show False using walk_sweeps [of _ "[d]"] assms todo by auto
qed

end

section \<open>More rules\<close>

lemma fs_children_memI:
  assumes "fs_ok fs" and "fs_lookup fs (k @ [Normal name]) = Some node"
  shows "(name, node) \<in> set (fs_children fs k)"
proof -
  have "(k @ [Normal name], node) \<in> set fs"
    using assms(2) by (auto simp: fs_lookup_def dest: map_of_SomeD split: if_splits)
  then show ?thesis using assms(1) by (force simp: fs_children_mem fs_ok_def key_ok_def)
qed

text \<open>The entries a directory is read to have are names.\<close>

definition entries_ok :: "(string \<times> fs_node) list \<Rightarrow> bool" where
  "entries_ok entries \<longleftrightarrow> (\<forall>e \<in> set entries. segment_ok (fst e))"

lemma entries_ok_simps [simp]:
  "entries_ok []" "entries_ok ((name, node) # entries) \<longleftrightarrow> segment_ok name \<and> entries_ok entries"
  by (auto simp: entries_ok_def)

lemma entries_ok_children: "entries_ok (fs_children fs k)"
  using children_segment_ok by (auto simp: entries_ok_def)

lemma keeps_lift_then:
  "(\<And>x. r = Inr x \<Longrightarrow> keeps K (f x)) \<Longrightarrow> keeps K (io_then (io_lift r) f)"
  by (cases r) (auto simp: keeps_def io_then_def io_lift_def)

text \<open>What follows a step may use what the step established.\<close>

lemma keeps_then_post:
  assumes m: "keeps K m" and post: "\<And>w x v. m w = (Inr x, v) \<Longrightarrow> P x" and f: "\<And>x. P x \<Longrightarrow> keeps K (f x)"
  shows "keeps K (io_then m f)"
proof (rule keepsI)
  fix w k assume k: "k \<in> K"
  obtain r u where run: "m w = (r, u)" by (cases "m w")
  show "fs_lookup (world_fs (snd (io_then m f w))) k = fs_lookup (world_fs w) k"
  proof (cases r)
    case (Inl e)
    then show ?thesis using keepsD [OF m run k] run by (simp add: io_then_def)
  next
    case (Inr x)
    then have "keeps K (f x)" using f post run by blast
    then have "fs_lookup (world_fs (snd (f x u))) k = fs_lookup (world_fs u) k" using k by (simp add: keeps_def)
    then show ?thesis using keepsD [OF m run k] run Inr by (simp add: io_then_def)
  qed
qed

lemma io_map_err_read_dir_Inr:
  "io_map_err c (io_read_dir p) w = (Inr entries, u) \<Longrightarrow>
     world_fs u = world_fs w \<and> is_dir (world_fs w) (fs_key p) \<and> entries = fs_children (world_fs w) (fs_key p)"
  using io_read_dir_Inr by (simp add: io_map_err_Inr)

lemma keeps_then_read_dir:
  assumes "\<And>entries. entries_ok entries \<Longrightarrow> keeps K (f entries)"
  shows "keeps K (io_then (io_map_err c (io_read_dir p)) f)"
  by (rule keeps_then_post [where P = entries_ok])
    (auto intro!: keeps_intros assms entries_ok_children dest: io_map_err_read_dir_Inr)

lemma keeps_match_read_dir:
  assumes "\<And>entries. entries_ok entries \<Longrightarrow> keeps K (f (Inr entries))" and "\<And>e. keeps K (f (Inl e))"
  shows "keeps K (io_match (io_read_dir p) f)"
proof (rule keepsI)
  fix w k assume k: "k \<in> K"
  obtain r u where run: "io_read_dir p w = (r, u)" by (cases "io_read_dir p w")
  have same: "world_fs u = world_fs w" using readsD(1) [OF reads_simple(3) run] .
  have "keeps K (f r)"
    using assms io_read_dir_Inr [of p w _ u] run entries_ok_children by (cases r) auto
  then have "fs_lookup (world_fs (snd (f r u))) k = fs_lookup (world_fs u) k" using k by (simp add: keeps_def)
  then show "fs_lookup (world_fs (snd (io_match (io_read_dir p) f w))) k = fs_lookup (world_fs w) k"
    using run same by (simp add: io_match_def)
qed

text \<open>A path that lies some names below another.\<close>

definition below_path :: "pathbuf \<Rightarrow> pathbuf \<Rightarrow> string list \<Rightarrow> bool" where
  "below_path base d names \<longleftrightarrow>
     d \<noteq> [] \<and> path_components d = path_components base @ map Normal names \<and> list_all segment_ok names"

lemma below_path_refl: "base \<noteq> [] \<Longrightarrow> below_path base base []"
  by (simp add: below_path_def)

lemma segment_ok_join:
  "segment_ok name \<Longrightarrow> d \<noteq> [] \<Longrightarrow> path_components (join_path d name) = path_components d @ [Normal name]"
  by (simp add: path_components_join segment_ok_def segment_relative key_components_segment)

lemma below_path_join:
  "below_path base d names \<Longrightarrow> segment_ok name \<Longrightarrow> below_path base (join_path d name) (names @ [name])"
  by (auto simp: below_path_def segment_ok_join join_path_neq_Nil)

lemma below_path_key: "below_path base d names \<Longrightarrow> fs_key d = fs_key base @ map Normal names"
  by (simp add: below_path_def fs_key_def)

lemma below_path_relative:
  "below_path base d names \<Longrightarrow> relative_key base d = normalize_remote_key (join_with ''/'' names)"
  by (simp add: below_path_def relative_key_def path_starts_with_def comp_def)

lemma metadata_segment_ok: "segment_ok METADATA_DIR_NAME"
  by (simp add: segment_ok_def METADATA_DIR_NAME_def)

lemma below_path_metadata:
  "base \<noteq> [] \<Longrightarrow> below_path base d names \<Longrightarrow>
     same_path d (join_path base METADATA_DIR_NAME) \<longleftrightarrow> names = [METADATA_DIR_NAME]"
  by (auto simp: below_path_def same_path_def segment_ok_join metadata_segment_ok map_eq_Cons_conv)

lemma fs_key_metadata: "fs_key (join_path base METADATA_DIR_NAME) = fs_key base @ [Normal METADATA_DIR_NAME]"
  by (simp add: fs_key_join metadata_segment_ok)

lemma sidecar_fs_key:
  assumes "base \<noteq> []" and "metadata_sidecar_path sha256 base key = Inr p" and "\<And>k. sha256 k \<noteq> []"
  shows "fs_key p = fs_key base @ map Normal (sidecar_names sha256 (requested_key key))"
    and "prefix (fs_key base @ [Normal METADATA_DIR_NAME]) (fs_key p)"
proof -
  show 1: "fs_key p = fs_key base @ map Normal (sidecar_names sha256 (requested_key key))"
    using metadata_sidecar_path_Inr [OF assms(1,2)] assms(3) by (simp add: fs_key_def)
  show "prefix (fs_key base @ [Normal METADATA_DIR_NAME]) (fs_key p)"
    unfolding 1 by (simp add: sidecar_names_def Let_def)
qed

text \<open>
  What a visit does with the entries of a directory: the subdirectories that are not to be
  skipped are pushed, and every file is dealt with.
\<close>

definition entries_swept ::
    "(pathbuf \<Rightarrow> bool) \<Rightarrow> (string \<Rightarrow> string \<Rightarrow> bool) \<Rightarrow> (string \<Rightarrow> 'd) \<Rightarrow> pathbuf \<Rightarrow> (string \<times> fs_node) list \<Rightarrow>
     'd list \<Rightarrow> 'd list \<Rightarrow> bool" where
  "entries_swept skip handled push dir entries pushed ps \<longleftrightarrow>
     (\<exists>names. subseq names (dir_names entries) \<and> ps = pushed @ map push names \<and>
        (\<forall>n. (n, DirNode) \<in> set entries \<longrightarrow> n \<in> set names \<or> skip (join_path dir n))) \<and>
     (\<forall>n c. (n, FileNode c) \<in> set entries \<longrightarrow> handled n c)"

lemma entries_swept_Nil: "entries_swept skip handled push dir [] pushed pushed"
  by (simp add: entries_swept_def)

lemma entries_swept_file:
  assumes "entries_swept skip handled push dir entries pushed ps" and "handled name c"
  shows "entries_swept skip handled push dir ((name, FileNode c) # entries) pushed ps"
  using assms by (auto simp: entries_swept_def)

lemma entries_swept_skip:
  assumes "entries_swept skip handled push dir entries pushed ps" and "skip (join_path dir name)"
  shows "entries_swept skip handled push dir ((name, DirNode) # entries) pushed ps"
proof -
  from assms(1) obtain names where names: "subseq names (dir_names entries)" "ps = pushed @ map push names"
      "\<forall>n. (n, DirNode) \<in> set entries \<longrightarrow> n \<in> set names \<or> skip (join_path dir n)"
    unfolding entries_swept_def by blast
  then have "subseq names (dir_names ((name, DirNode) # entries))" by auto
  then show ?thesis using assms names unfolding entries_swept_def by auto
qed

lemma entries_swept_push:
  assumes "entries_swept skip handled push dir entries (pushed @ [push name]) ps"
  shows "entries_swept skip handled push dir ((name, DirNode) # entries) pushed ps"
proof -
  from assms obtain names where names: "subseq names (dir_names entries)" "ps = pushed @ [push name] @ map push names"
      "\<forall>n. (n, DirNode) \<in> set entries \<longrightarrow> n \<in> set names \<or> skip (join_path dir n)"
    unfolding entries_swept_def by auto
  then have "subseq (name # names) (dir_names ((name, DirNode) # entries))"
      "ps = pushed @ map push (name # names)" by simp_all
  then show ?thesis using assms names unfolding entries_swept_def by (auto intro!: exI [of _ "name # names"])
qed

lemmas entries_swept_intros = entries_swept_Nil entries_swept_file entries_swept_skip entries_swept_push

text \<open>The directories that were pushed are children, each once.\<close>

lemma swept_pushed:
  assumes "entries_swept skip handled push dir (fs_children fs (fs_key dir)) [] ps" and "fs_ok fs"
    and "\<And>n. segment_ok n \<Longrightarrow> key (push n) = fs_key dir @ [Normal n]"
  shows "distinct (map key ps)"
    and "p \<in> set ps \<Longrightarrow> \<exists>n. p = push n \<and> segment_ok n \<and> key p = fs_key dir @ [Normal n] \<and> is_dir fs (key p)"
proof -
  obtain names where names: "subseq names (dir_names (fs_children fs (fs_key dir)))" "ps = map push names"
    using assms(1) unfolding entries_swept_def by auto
  note facts = pushed_children [OF assms(2) names(1)]
  have "map key ps = map (\<lambda>n. fs_key dir @ [Normal n]) names"
    using assms(3) facts(2) names(2) by simp
  then show "distinct (map key ps)" using facts(1) by (simp add: distinct_map inj_on_def)
  show "p \<in> set ps \<Longrightarrow> \<exists>n. p = push n \<and> segment_ok n \<and> key p = fs_key dir @ [Normal n] \<and> is_dir fs (key p)"
    using facts(2,3) assms(3) names(2) by auto
qed

text \<open>A file below the directory was dealt with, or it is below one that was pushed or skipped.\<close>

lemma swept_below:
  assumes swept: "entries_swept skip handled push dir (fs_children fs (fs_key dir)) [] ps" and ok: "fs_ok fs"
    and key: "\<And>n. segment_ok n \<Longrightarrow> key (push n) = fs_key dir @ [Normal n]"
    and k: "k = fs_key dir @ Normal n # rest" and lookup: "fs_lookup fs k = Some (FileNode c)"
    and reach: "reachable_from fs (fs_key dir) k"
  shows "(\<exists>p \<in> set ps. prefix (key p) k) \<or> rest \<noteq> [] \<and> skip (join_path dir n) \<or> rest = [] \<and> handled n c"
proof (cases "rest = []")
  case True
  then show ?thesis
    using fs_children_memI [OF ok, of "fs_key dir" n] lookup k swept by (auto simp: entries_swept_def)
next
  case False
  then have "is_dir fs (fs_key dir @ [Normal n])"
    using reachable_child [OF reach, of "Normal n"] k by auto
  then have mem: "(n, DirNode) \<in> set (fs_children fs (fs_key dir))"
    using fs_children_memI [OF ok] by (simp add: is_dir_def)
  then have "segment_ok n" by (rule children_segment_ok)
  from swept mem have "push n \<in> set ps \<or> skip (join_path dir n)" unfolding entries_swept_def by auto
  moreover have "prefix (key (push n)) k" using key [OF \<open>segment_ok n\<close>] k by simp
  ultimately show ?thesis using False by blast
qed

lemma io_read_dir_NotFound:
  assumes "io_read_dir p w = (s, u)" and "s = Inl e" and "e = NotFound"
  shows "fs_lookup (world_fs w) (fs_key p) = None"
  using assms(1) unfolding io_read_dir_def
  by (cases rule: io_look_cases)
    (use assms in \<open>auto simp: fs_read_dir_def fs_stat_def split: option.splits fs_node.splits if_splits\<close>)

lemma prefix_map_Normal:
  assumes "prefix (map Normal names) (map Normal ks)" and "names \<noteq> ks"
  shows "\<exists>n rest. ks = names @ n # rest"
proof -
  from assms(1) obtain us vs where "ks = us @ vs" "map Normal us = map Normal names"
    by (auto simp: prefix_def map_eq_append_conv)
  then have "ks = names @ vs" by (simp add: inj_map_eq_map [of Normal] inj_def)
  then show ?thesis using assms(2) by (cases vs) auto
qed

lemma fs_lookup_names:
  assumes "fs_ok fs" and "fs_lookup fs k = Some (FileNode c)" and "Normal n \<in> set k"
  shows "segment_ok n"
proof -
  have "(k, FileNode c) \<in> set fs" using assms(2) by (auto simp: fs_lookup_def dest: map_of_SomeD split: if_splits)
  then show ?thesis using assms(1,3) by (auto simp: fs_ok_def key_ok_def)
qed

text \<open>The same for a file some names below the top of the walk.\<close>

lemma below_swept:
  assumes swept: "entries_swept skip handled push d (fs_children fs (fs_key d)) [] ps" and ok: "fs_ok fs"
    and key: "\<And>n. segment_ok n \<Longrightarrow> key (push n) = fs_key d @ [Normal n]"
    and names: "below_path base d names" and k: "k = fs_key base @ map Normal ks" and below: "prefix (fs_key d) k"
    and lookup: "fs_lookup fs k = Some (FileNode c)" and dir: "is_dir fs (fs_key d)"
    and reach: "reachable_from fs (fs_key d) k"
    and pushed: "\<And>n rest. ks = names @ n # rest \<Longrightarrow> rest \<noteq> [] \<Longrightarrow> below_path base (join_path d n) (names @ [n]) \<Longrightarrow>
      \<not> skip (join_path d n)"
    and left: "\<And>n. ks = names @ [n] \<Longrightarrow> below_path base (join_path d n) (names @ [n]) \<Longrightarrow>
      fs_key (join_path d n) = k \<Longrightarrow> \<not> handled n c"
  shows "\<exists>p \<in> set ps. prefix (key p) k"
proof -
  have "k \<noteq> fs_key d" using dir lookup by (auto simp: is_dir_def)
  then have "names \<noteq> ks" "prefix (map Normal names) (map Normal ks)"
    using below k below_path_key [OF names] by auto
  then obtain n rest where split: "ks = names @ n # rest"
    using prefix_map_Normal by blast
  have step: "k = fs_key d @ Normal n # map Normal rest" using k split below_path_key [OF names] by simp
  have "segment_ok n" using fs_lookup_names [OF ok lookup] step by auto
  note at = below_path_join [OF names this]
  have "rest \<noteq> [] \<Longrightarrow> \<not> skip (join_path d n)" using pushed [OF split _ at] .
  moreover have "rest = [] \<Longrightarrow> \<not> handled n c"
    using left [OF _ at] split below_path_key [OF at] k by simp
  ultimately show ?thesis using swept_below [OF swept ok key step lookup reach] by auto
qed

lemma reachable_top: "reachable_from fs j k \<Longrightarrow> prefix j k \<Longrightarrow> j = k \<or> is_dir fs j"
  unfolding reachable_from_def prefix_def by (cases "j = k") auto

section \<open>Computations that do not touch what is there\<close>

definition keeps_nodes :: "fs_key set \<Rightarrow> ('e, 'a) io \<Rightarrow> bool" where
  "keeps_nodes K m \<longleftrightarrow>
     (\<forall>w k node. k \<in> K \<longrightarrow> fs_lookup (world_fs w) k = Some node \<longrightarrow>
        fs_lookup (world_fs (snd (m w))) k = Some node)"

named_theorems nodes_intros \<open>computations that do not touch what is there\<close>

lemma keeps_nodesD:
  "keeps_nodes K m \<Longrightarrow> m w = (r, v) \<Longrightarrow> k \<in> K \<Longrightarrow> fs_lookup (world_fs w) k = Some node \<Longrightarrow>
     fs_lookup (world_fs v) k = Some node"
  unfolding keeps_nodes_def by (metis snd_conv)

lemma keeps_nodes_keeps: "keeps K m \<Longrightarrow> keeps_nodes K m"
  by (simp add: keeps_nodes_def keeps_def)

lemma nodes_simple [nodes_intros]:
  "keeps_nodes K (io_return x)" "keeps_nodes K (io_fail e)" "keeps_nodes K (io_lift r)"
  "keeps_nodes K (io_stat p)" "keeps_nodes K (io_read p)" "keeps_nodes K (io_read_dir p)"
  "keeps_nodes K io_next_entry" "keeps_nodes K io_file_type"
  by (intro keeps_nodes_keeps keeps_intros)+

lemma nodes_copy [nodes_intros]: "fs_key q \<notin> K \<Longrightarrow> keeps_nodes K (io_copy p q)"
  by (intro keeps_nodes_keeps keeps_intros)

lemma nodes_then [nodes_intros]:
  assumes "keeps_nodes K m" and "\<And>x. keeps_nodes K (f x)"
  shows "keeps_nodes K (io_then m f)"
  unfolding keeps_nodes_def
proof (intro allI impI)
  fix w :: world and k node assume k: "k \<in> K" "fs_lookup (world_fs w) k = Some node"
  obtain r u where m: "m w = (r, u)" by (cases "m w")
  have u: "fs_lookup (world_fs u) k = Some node" using keeps_nodesD [OF assms(1) m k] .
  show "fs_lookup (world_fs (snd (io_then m f w))) k = Some node"
    using u assms(2) k(1) m by (cases r) (simp_all add: io_then_def keeps_nodes_def)
qed

lemma nodes_map_err [nodes_intros]: "keeps_nodes K m \<Longrightarrow> keeps_nodes K (io_map_err f m)"
  unfolding keeps_nodes_def io_map_err_def by (simp add: case_prod_unfold)

lemma nodes_create_dir_all [nodes_intros]: "keeps_nodes K (io_create_dir_all p)"
proof -
  have dirs: "fs_lookup fs k = Some node \<Longrightarrow> set js \<subseteq> set (missing_dirs fs (fs_key p)) \<Longrightarrow>
      fs_lookup (foldl (\<lambda>fs j. fs_put j DirNode fs) fs js) k = Some node" for fs k node js
    unfolding fs_lookup_put_dirs by (auto simp: missing_dirs_mem)
  show ?thesis
    unfolding keeps_nodes_def io_create_dir_all_def io_op_def
    by (auto simp: fs_create_dir_all_def Let_def intro!: dirs dest: in_set_takeD
        split: option.split prod.split fs_node.split)
qed

lemma io_write_Inr:
  assumes "io_write q content w = (Inr (), v)"
  shows "fs_lookup (world_fs v) (fs_key q) = Some (FileNode content)"
proof -
  have run: "fs_write q content (world_fs w) = (Inr (), world_fs v)"
    by (rule io_op_Inr [OF assms [unfolded io_write_def]])
  then have "fs_lookup (world_fs w) (fs_key q) \<noteq> Some DirNode" "world_fs v = fs_put (fs_key q) (FileNode content) (world_fs w)"
    by (auto simp: fs_write_def Let_def split: option.splits fs_node.splits if_splits)
  moreover from this(1) have "fs_key q \<noteq> []" "fs_key q \<noteq> [RootDir]" by (auto simp: fs_lookup_def)
  ultimately show ?thesis by (simp add: fs_lookup_put)
qed

lemma io_copy_Inr:
  assumes "io_copy p q w = (Inr (), v)" and "fs_key p \<noteq> fs_key q"
  shows "fs_lookup (world_fs v) (fs_key q) = fs_lookup (world_fs v) (fs_key p)"
proof -
  from assms(1) obtain content u where read: "io_read p w = (Inr content, u)"
      and wrote: "io_write q content u = (Inr (), v)"
    by (auto simp: io_copy_def io_then_Inr)
  have "fs_read (world_fs w) p = Inr content" "world_fs u = world_fs w"
    using readsD(1,4) [OF reads_simple(2) read] by simp_all
  then have "fs_lookup (world_fs u) (fs_key p) = Some (FileNode content)"
    by (auto simp: fs_read_def fs_stat_def split: option.splits fs_node.splits if_splits)
  moreover have "fs_lookup (world_fs v) (fs_key p) = fs_lookup (world_fs u) (fs_key p)"
    using keepsD [OF keeps_write [of q "- {fs_key q}"] wrote] assms(2) by simp
  ultimately show ?thesis using io_write_Inr [OF wrote] by simp
qed

lemma shrinks_walk_dirs:
  assumes "\<And>d acc. shrinks (visit d acc)"
  shows "shrinks (walk_dirs visit stack acc)"
  unfolding shrinks_def
proof (intro allI)
  fix w :: world and k
  define P where "P = (\<lambda>v :: world. fs_lookup (world_fs v) k = fs_lookup (world_fs w) k \<or> fs_lookup (world_fs v) k = None)"
  have step: "visit d a u = (r, v) \<Longrightarrow> P u \<Longrightarrow> P v" for d a u r v
    using shrinksD [OF assms, of d a u r v k] by (auto simp: P_def)
  have "P (snd (walk_dirs visit stack acc w))"
  proof (cases "walk visit (walk_fuel stack w) stack acc w")
    case None
    then show ?thesis by (simp add: walk_dirs_def P_def)
  next
    case (Some p)
    then have walk: "walk visit (walk_fuel stack w) stack acc w = Some (fst p, snd p)" by simp
    have "P (snd p)" using walk_invariant [of visit P, OF _ walk] step by (metis P_def)
    with Some show ?thesis by (simp add: walk_dirs_def)
  qed
  then show "fs_lookup (world_fs (snd (walk_dirs visit stack acc w))) k = fs_lookup (world_fs w) k \<or>
      fs_lookup (world_fs (snd (walk_dirs visit stack acc w))) k = None" by (simp add: P_def)
qed

end
