(* ===== verification/Local_Mirror.thy ===== *)
theory Local_Mirror
  imports File_System
begin

text \<open>
  Reading the local mirror (\<open>src/repositories/local_mirror.rs\<close>): an object and the metadata
  of its sidecar. The SHA-256 digest and serde's parser of the sidecar are parameters.
\<close>

record object_metadata =
  meta_content_type :: "string option"
  meta_etag :: "string option"
  meta_last_modified :: "string option"
  meta_cache_control :: "string option"

record local_object =
  object_body :: string
  object_metadata :: object_metadata

definition default_metadata :: object_metadata where
  "default_metadata =
     \<lparr>meta_content_type = None, meta_etag = None, meta_last_modified = None,
      meta_cache_control = None\<rparr>"

definition io_read_to_string :: "pathbuf \<Rightarrow> (io_error, string) io" where
  "io_read_to_string p =
     io_then (io_read p) (\<lambda>content.
       if valid_utf8 content then io_return content
       else io_fail (OtherIo ''stream did not contain valid UTF-8''))"

definition read_metadata ::
    "(string \<Rightarrow> string) \<Rightarrow> (string \<Rightarrow> string + object_metadata) \<Rightarrow> pathbuf \<Rightarrow> string \<Rightarrow>
     (anyhow, object_metadata) io" where
  "read_metadata sha256 parse dir object_key =
     io_then (io_lift (metadata_sidecar_path sha256 dir object_key)) (\<lambda>p.
     io_match (io_read_to_string p) (\<lambda>r.
       case r of
         Inr content \<Rightarrow>
           io_lift (with_context (''parse local object metadata '' @ p) (map_err ErrorMsg (parse content)))
       | Inl NotFound \<Rightarrow> io_return default_metadata
       | Inl e \<Rightarrow> io_fail (ErrorContext (''read local object metadata '' @ p) (io_anyhow e))))"

definition read_object ::
    "(string \<Rightarrow> string) \<Rightarrow> (string \<Rightarrow> string + object_metadata) \<Rightarrow> pathbuf \<Rightarrow> string \<Rightarrow> string \<Rightarrow>
     (anyhow, local_object option) io" where
  "read_object sha256 parse root origin_id object_path =
     io_then (io_lift (origin_dir root origin_id)) (\<lambda>dir.
     io_then (io_lift (normalize_object_path object_path)) (\<lambda>normalized.
     io_then (io_lift (mirror_object_path root origin_id normalized)) (\<lambda>p.
     io_match (io_read p) (\<lambda>r.
       case r of
         Inr body \<Rightarrow>
           io_then (read_metadata sha256 parse dir normalized) (\<lambda>metadata.
           io_return (Some \<lparr>object_body = body, object_metadata = metadata\<rparr>))
       | Inl NotFound \<Rightarrow> io_return None
       | Inl e \<Rightarrow> io_fail (ErrorContext (''read local object '' @ p) (io_anyhow e))))))"

section \<open>Facts\<close>

lemma keeps_read_to_string [keeps_intros]: "keeps K (io_read_to_string p)"
  unfolding io_read_to_string_def by (auto intro!: keeps_intros)

lemma keeps_read_metadata [keeps_intros]: "keeps K (read_metadata sha256 parse dir key)"
  unfolding read_metadata_def
  by (auto intro!: keeps_intros split: sum.split io_error.split)

lemma keeps_read_object [keeps_intros]: "keeps K (read_object sha256 parse root i p)"
  unfolding read_object_def
  by (auto intro!: keeps_intros split: sum.split io_error.split)

text \<open>The objects and the metadata that a file system holds: what reading should return.\<close>

definition fs_read_to_string :: "filesystem \<Rightarrow> pathbuf \<Rightarrow> io_error + string" where
  "fs_read_to_string fs p =
     try_then (fs_read fs p) (\<lambda>content.
       if valid_utf8 content then Inr content else Inl (OtherIo ''stream did not contain valid UTF-8''))"

definition stored_metadata ::
    "(string \<Rightarrow> string) \<Rightarrow> (string \<Rightarrow> string + object_metadata) \<Rightarrow> pathbuf \<Rightarrow> string \<Rightarrow> filesystem \<Rightarrow>
     object_metadata res" where
  "stored_metadata sha256 parse dir key fs =
     try_then (metadata_sidecar_path sha256 dir key) (\<lambda>p.
     case fs_read_to_string fs p of
       Inr content \<Rightarrow> with_context (''parse local object metadata '' @ p) (map_err ErrorMsg (parse content))
     | Inl NotFound \<Rightarrow> Inr default_metadata
     | Inl e \<Rightarrow> Inl (ErrorContext (''read local object metadata '' @ p) (io_anyhow e)))"

definition stored_object ::
    "(string \<Rightarrow> string) \<Rightarrow> (string \<Rightarrow> string + object_metadata) \<Rightarrow> pathbuf \<Rightarrow> string \<Rightarrow> string \<Rightarrow> filesystem \<Rightarrow>
     local_object option res" where
  "stored_object sha256 parse root origin_id object_path fs =
     try_then (origin_dir root origin_id) (\<lambda>dir.
     try_then (normalize_object_path object_path) (\<lambda>normalized.
     try_then (mirror_object_path root origin_id normalized) (\<lambda>p.
     case fs_read fs p of
       Inr body \<Rightarrow>
         try_then (stored_metadata sha256 parse dir normalized fs) (\<lambda>metadata.
         Inr (Some \<lparr>object_body = body, object_metadata = metadata\<rparr>))
     | Inl NotFound \<Rightarrow> Inr None
     | Inl e \<Rightarrow> Inl (ErrorContext (''read local object '' @ p) (io_anyhow e)))))"

lemma match_read_to_string:
  "io_match (io_read_to_string p) g =
     io_match (io_read p) (\<lambda>r. case r of
         Inr content \<Rightarrow>
           g (if valid_utf8 content then Inr content
              else Inl (OtherIo ''stream did not contain valid UTF-8''))
       | Inl e \<Rightarrow> g (Inl e))"
  by (rule ext)
    (auto simp: io_match_def io_read_to_string_def io_then_def io_return_def io_fail_def
      split: sum.split prod.split)

lemma reads_match_read:
  assumes "\<And>r. reads (g r) (\<lambda>fs. h r fs)"
    and "\<And>msg w v x. g (Inl (OtherIo msg)) w = (Inr x, v) \<Longrightarrow> False"
  shows "reads (io_match (io_read p) g) (\<lambda>fs. h (fs_read fs p) fs)"
  unfolding io_read_def using assms by (rule reads_match_op)

lemma reads_read_metadata [reads_intros]:
  "reads (read_metadata sha256 parse dir key) (stored_metadata sha256 parse dir key)"
proof -
  define found where "found = (\<lambda>p r. case r of
       Inr content \<Rightarrow> with_context (''parse local object metadata '' @ p) (map_err ErrorMsg (parse content))
     | Inl NotFound \<Rightarrow> Inr default_metadata
     | Inl e \<Rightarrow> Inl (ErrorContext (''read local object metadata '' @ p) (io_anyhow e)))"
  define decoded where "decoded = (\<lambda>r :: io_error + string. try_then r (\<lambda>content.
       if valid_utf8 content then Inr content else Inl (OtherIo ''stream did not contain valid UTF-8'')))"
  have model: "read_metadata sha256 parse dir key =
      io_then (io_lift (metadata_sidecar_path sha256 dir key)) (\<lambda>p.
        io_match (io_read p) (\<lambda>r. io_lift (found p (decoded r))))"
    unfolding read_metadata_def match_read_to_string
  proof (rule arg_cong2 [where f = io_then], rule refl, rule ext,
      rule arg_cong2 [where f = io_match], rule refl, rule ext)
    fix p r
    show "(case r of
         Inl e \<Rightarrow>
           (case Inl e of
              Inl NotFound \<Rightarrow> io_return default_metadata
            | Inl e \<Rightarrow> io_fail (ErrorContext (''read local object metadata '' @ p) (io_anyhow e))
            | Inr content \<Rightarrow>
                io_lift (with_context (''parse local object metadata '' @ p) (map_err ErrorMsg (parse content))))
       | Inr content \<Rightarrow>
           (case if valid_utf8 content then Inr content
                 else Inl (OtherIo ''stream did not contain valid UTF-8'') of
              Inl NotFound \<Rightarrow> io_return default_metadata
            | Inl e \<Rightarrow> io_fail (ErrorContext (''read local object metadata '' @ p) (io_anyhow e))
            | Inr content \<Rightarrow>
                io_lift (with_context (''parse local object metadata '' @ p) (map_err ErrorMsg (parse content))))) =
      io_lift (found p (decoded r))"
    proof (cases r)
      case (Inl e)
      then show ?thesis by (cases e) (simp_all add: found_def decoded_def io_lift_simps)
    next
      case (Inr content)
      then show ?thesis by (simp add: found_def decoded_def io_lift_simps)
    qed
  qed
  have spec: "stored_metadata sha256 parse dir key =
      (\<lambda>fs. try_then (metadata_sidecar_path sha256 dir key) (\<lambda>p. found p (decoded (fs_read fs p))))"
    by (rule ext) (simp only: stored_metadata_def found_def decoded_def fs_read_to_string_def)
  show ?thesis unfolding model spec
  proof (intro reads_then reads_lift reads_match_read)
    fix p msg and w v :: world and x
    assume "io_lift (found p (decoded (Inl (OtherIo msg)))) w = (Inr x, v)"
    then show False by (simp add: io_lift_def found_def decoded_def)
  qed
qed

lemma reads_read_object [reads_intros]:
  "reads (read_object sha256 parse root i op) (stored_object sha256 parse root i op)"
  unfolding read_object_def stored_object_def
proof (intro reads_then reads_lift reads_match_read
    [where h = "\<lambda>r fs. case r of
         Inr body \<Rightarrow> _ body fs
       | Inl NotFound \<Rightarrow> Inr None
       | Inl e \<Rightarrow> Inl (ErrorContext (''read local object '' @ _) (io_anyhow e))"])
  fix dir n p and r :: "io_error + string"
  show "reads (case r of
         Inr body \<Rightarrow>
           io_then (read_metadata sha256 parse dir n) (\<lambda>metadata.
           io_return (Some \<lparr>object_body = body, object_metadata = metadata\<rparr>))
       | Inl NotFound \<Rightarrow> io_return None
       | Inl e \<Rightarrow> io_fail (ErrorContext (''read local object '' @ p) (io_anyhow e)))
     (\<lambda>fs. case r of
         Inr body \<Rightarrow>
           try_then (stored_metadata sha256 parse dir n fs) (\<lambda>metadata.
           Inr (Some \<lparr>object_body = body, object_metadata = metadata\<rparr>))
       | Inl NotFound \<Rightarrow> Inr None
       | Inl e \<Rightarrow> Inl (ErrorContext (''read local object '' @ p) (io_anyhow e)))"
    by (auto intro!: reads_intros split: sum.split io_error.split)
qed (simp add: io_fail_def)

lemma fs_read_Inr: "fs_read fs p = Inr body \<longleftrightarrow> fs_lookup fs (fs_key p) = Some (FileNode body) \<and> \<not> wants_dir p"
proof (cases "fs_lookup fs (fs_key p)")
  case None
  then show ?thesis by (simp add: fs_read_def fs_stat_def)
next
  case (Some node)
  then show ?thesis by (cases node) (auto simp: fs_read_def fs_stat_def)
qed

lemma fs_read_NotFound: "fs_read fs p = Inl NotFound \<Longrightarrow> fs_lookup fs (fs_key p) = None"
proof (cases "fs_lookup fs (fs_key p)")
  case (Some node)
  then show "fs_read fs p = Inl NotFound \<Longrightarrow> ?thesis"
    by (cases node) (auto simp: fs_read_def fs_stat_def split: if_splits)
qed

text \<open>What a successful read returned is the content of the file below the origin directory.\<close>

lemma stored_object_Some:
  assumes "stored_object sha256 parse root i op fs = Inr (Some obj)"
  shows "\<exists>p. mirror_object_path root i (requested_key op) = Inr p \<and> readable_key (requested_key op) \<and>
     fs_lookup fs (fs_key p) = Some (FileNode (object_body obj))"
proof -
  from assms obtain dir p where p: "readable_key (requested_key op)"
      "mirror_object_path root i (requested_key op) = Inr p"
      and read: "(case fs_read fs p of
         Inr body \<Rightarrow>
           try_then (stored_metadata sha256 parse dir (requested_key op) fs) (\<lambda>metadata.
           Inr (Some \<lparr>object_body = body, object_metadata = metadata\<rparr>))
       | Inl NotFound \<Rightarrow> Inr None
       | Inl e \<Rightarrow> Inl (ErrorContext (''read local object '' @ p) (io_anyhow e))) = Inr (Some obj)"
    by (auto simp: stored_object_def try_then_Inr normalize_object_path_Inr)
  show ?thesis
  proof (cases "fs_read fs p")
    case (Inl e)
    with read show ?thesis by (cases e) simp_all
  next
    case (Inr body)
    with read have "object_body obj = body" by (auto simp: try_then_Inr)
    with Inr p show ?thesis by (auto simp: fs_read_Inr)
  qed
qed

section \<open>What a computation that only looks ensures\<close>

text \<open>
  Whatever the faults, a successful run changed no file and its value has a property that
  may depend on the files.
\<close>

definition ensures :: "('e, 'a) io \<Rightarrow> (filesystem \<Rightarrow> 'a \<Rightarrow> bool) \<Rightarrow> bool" where
  "ensures m P \<longleftrightarrow>
     (\<forall>w x v. m w = (Inr x, v) \<longrightarrow> world_fs v = world_fs w \<and> P (world_fs w) x)"

named_theorems ensures_intros \<open>properties of the values of computations\<close>

lemma ensuresD:
  "ensures m P \<Longrightarrow> m w = (Inr x, v) \<Longrightarrow> world_fs v = world_fs w \<and> P (world_fs w) x"
  by (simp add: ensures_def)

lemma ensures_return [ensures_intros]: "(\<And>fs. P fs x) \<Longrightarrow> ensures (io_return x) P"
  by (simp add: ensures_def io_return_def)

lemma ensures_fail [ensures_intros]: "ensures (io_fail e) P"
  by (simp add: ensures_def io_fail_def)

lemma ensures_lift: "(\<And>fs x. r = Inr x \<Longrightarrow> P fs x) \<Longrightarrow> ensures (io_lift r) P"
  by (simp add: ensures_def io_lift_def)

lemma ensures_then:
  assumes "ensures m P" and "\<And>x. ensures (f x) (\<lambda>fs y. P fs x \<longrightarrow> Q fs y)"
  shows "ensures (io_then m f) Q"
  unfolding ensures_def
proof (intro allI impI)
  fix w v :: world and y
  assume "io_then m f w = (Inr y, v)"
  then obtain x u where m: "m w = (Inr x, u)" and f: "f x u = (Inr y, v)" by (auto simp: io_then_Inr)
  show "world_fs v = world_fs w \<and> Q (world_fs w) y"
    using ensuresD [OF assms(1) m] ensuresD [OF assms(2) f] by simp
qed

lemma ensures_match_op:
  assumes "\<And>r. ensures (g r) (\<lambda>fs y. Q fs y)"
  shows "ensures (io_match (io_op (\<lambda>fs. (f fs, fs)) (\<lambda>_ fs. fs)) g) Q"
  unfolding ensures_def
proof (intro allI impI)
  fix w v :: world and y
  assume "io_match (io_op (\<lambda>fs. (f fs, fs)) (\<lambda>_ fs. fs)) g w = (Inr y, v)"
  then obtain s u where op: "io_op (\<lambda>fs. (f fs, fs)) (\<lambda>_ fs. fs) w = (s, u)" and g: "g s u = (Inr y, v)"
    by (auto simp: io_match_def split: prod.splits)
  from op have "world_fs u = world_fs w" by (cases rule: io_look_cases) simp_all
  then show "world_fs v = world_fs w \<and> Q (world_fs w) y" using ensuresD [OF assms g] by simp
qed

lemma ensures_reads: "reads m f \<Longrightarrow> (\<And>fs x. f fs = Inr x \<Longrightarrow> P fs x) \<Longrightarrow> ensures m P"
  unfolding ensures_def by (simp add: readsD(1) readsD(4))

lemma ensures_weaken: "ensures m P \<Longrightarrow> (\<And>fs x. P fs x \<Longrightarrow> Q fs x) \<Longrightarrow> ensures m Q"
  by (simp add: ensures_def)

lemma ensures_bind:
  assumes "ensures m (\<lambda>_. P)" and "\<And>x. P x \<Longrightarrow> ensures (f x) Q"
  shows "ensures (io_then m f) Q"
  unfolding ensures_def
proof (intro allI impI)
  fix w v :: world and y
  assume "io_then m f w = (Inr y, v)"
  then obtain x u where m: "m w = (Inr x, u)" and f: "f x u = (Inr y, v)" by (auto simp: io_then_Inr)
  show "world_fs v = world_fs w \<and> Q (world_fs w) y"
    using ensuresD [OF assms(1) m] ensuresD [OF assms(2) f] by simp
qed

section \<open>Properties\<close>

text \<open>Reading an object yields what the file system holds: the content of its file with its metadata,
nothing when there is no such file, or the error; with faults it yields that or fails, and it never
changes a file.\<close>

theorem read_object_refines_store:
  "reads (read_object sha256 parse root i op) (stored_object sha256 parse root i op)"
  by (rule reads_read_object)

section \<open>Evaluation\<close>

text \<open>Code equations with the sequencing unfolded, so that a continuation is evaluated once its argument is known.\<close>

lemmas io_read_to_string_code [code] = io_read_to_string_def [THEN fun_cong, unfolded sequencing]
lemmas read_metadata_code [code] = read_metadata_def [THEN fun_cong, unfolded sequencing]
lemmas read_object_code [code] = read_object_def [THEN fun_cong, unfolded sequencing]

end
