(* ===== verification/Manifest.thy ===== *)
theory Manifest
  imports Mirror_Paths
begin

text \<open>
  The manifest (\<open>src/dto/manifest.rs\<close>, \<open>src/services/manifest.rs\<close>,
  \<open>src/services/config_format.rs\<close>): its data, its validation, and the resolution of a
  \<open>Host\<close> header to an origin. The YAML and JSON parsers of serde are parameters that
  return the value or the text of their error.
\<close>

section \<open>Data\<close>

text \<open>
  \<open>serde_json::Value\<close>: a number is its literal, an object its entries in key order.
\<close>

datatype json =
    JNull
  | JBool bool
  | JNumber string
  | JString string
  | JArray "json list"
  | JObject "(string \<times> json) list"

datatype refresh_strategy = ChangedPaths | RefreshAll

datatype reconcile_mode = DnsRecords | CustomHostnames

record cdn_domain_config =
  dom_enabled :: bool
  dom_mode :: reconcile_mode
  dom_origin_domain_env :: string
  dom_certificate_arn_env :: "string option"
  dom_proxied :: bool
  dom_include_wildcards :: bool
  dom_remove_extra_domains :: bool

record cloudfront_config =
  cf_distribution_id_env :: string
  cf_strategy :: refresh_strategy
  cf_domains :: "cdn_domain_config option"

record cloudflare_config =
  fl_zone_id_env :: string
  fl_api_token_env :: string
  fl_api_base_env :: "string option"
  fl_strategy :: refresh_strategy
  fl_url_prefixes :: "string list"
  fl_domains :: "cdn_domain_config option"

datatype validation_token_host = TokenHostCloudFront

datatype saas_certificate = ManagedCertificate validation_token_host

record saas_config =
  saas_distribution_id_env :: string
  saas_connection_group_id_env :: "string option"
  saas_strategy :: refresh_strategy
  saas_parameters_env :: "(string, string) btree"
  saas_certificate_config :: "saas_certificate option"

datatype cdn_config =
    CloudFront cloudfront_config
  | CloudFrontSaas saas_config
  | Cloudflare cloudflare_config

record s3_origin =
  s3_bucket :: string
  s3_endpoint_env :: string
  s3_region_env :: string
  s3_access_key_id_env :: "string option"
  s3_secret_access_key_env :: "string option"
  s3_force_path_style_env :: "string option"
  s3_sync_interval_seconds :: "u64 option"
  s3_activation_barrier_path :: "string option"
  s3_cdn :: "cdn_config option"
  s3_edge_context :: "json option"

record local_origin =
  loc_path :: string
  loc_sync_interval_seconds :: "u64 option"
  loc_activation_barrier_path :: "string option"
  loc_cdn :: "cdn_config option"
  loc_edge_context :: "json option"

datatype origin_config = S3 s3_origin | Local local_origin

record runtime_config =
  local_store_dir :: string
  runtime_sync_interval_seconds :: u64

record host_config =
  host_origin :: string

record manifest =
  manifest_version :: u16
  runtime :: runtime_config
  origins :: "(string, origin_config) btree"
  hosts :: "(string, host_config) btree"

fun sync_interval_seconds :: "origin_config \<Rightarrow> u64 option" where
  "sync_interval_seconds (S3 s) = s3_sync_interval_seconds s"
| "sync_interval_seconds (Local l) = loc_sync_interval_seconds l"

fun edge_context_bucket :: "origin_config \<Rightarrow> string \<Rightarrow> string" where
  "edge_context_bucket (S3 s) i = s3_bucket s"
| "edge_context_bucket (Local l) i = i"

fun origin_cdn :: "origin_config \<Rightarrow> cdn_config option" where
  "origin_cdn (S3 s) = s3_cdn s"
| "origin_cdn (Local l) = loc_cdn l"

fun activation_barrier_path :: "origin_config \<Rightarrow> string option" where
  "activation_barrier_path (S3 s) = s3_activation_barrier_path s"
| "activation_barrier_path (Local l) = loc_activation_barrier_path l"

fun origin_edge_context :: "origin_config \<Rightarrow> json option" where
  "origin_edge_context (S3 s) = s3_edge_context s"
| "origin_edge_context (Local l) = loc_edge_context l"

fun cdn_domains :: "cdn_config \<Rightarrow> cdn_domain_config option" where
  "cdn_domains (CloudFront c) = cf_domains c"
| "cdn_domains (Cloudflare c) = fl_domains c"
| "cdn_domains (CloudFrontSaas c) = None"

section \<open>Parsing\<close>

text \<open>
  \<open>parse_config\<close>: YAML first, JSON when YAML fails, and then both errors reported.
\<close>

definition parse_config ::
    "(string \<Rightarrow> string + 'a) \<Rightarrow> (string \<Rightarrow> string + 'a) \<Rightarrow> string \<Rightarrow> string \<Rightarrow> 'a res" where
  "parse_config yaml json name input =
     (case yaml input of
        Inr v \<Rightarrow> Inr v
      | Inl yaml_error \<Rightarrow>
          with_context (''failed to parse '' @ name @ '' as YAML or JSON; YAML error: '' @ yaml_error)
            (map_err ErrorMsg (json input)))"

section \<open>Validation\<close>

definition origin_error :: "string \<Rightarrow> string \<Rightarrow> anyhow" where
  "origin_error origin_id msg = ErrorMsg (''origin '' @ origin_id @ '' '' @ msg)"

definition is_blank :: "string \<Rightarrow> bool" where
  "is_blank s \<longleftrightarrow> trim s = []"

definition validate_cdn_domain_config ::
    "string \<Rightarrow> cdn_domain_config option \<Rightarrow> bool \<Rightarrow> unit res" where
  "validate_cdn_domain_config origin_id domains cloudfront =
     (case domains of
        None \<Rightarrow> Inr ()
      | Some d \<Rightarrow>
          if \<not> dom_enabled d then Inr ()
          else
            try_then (fail_if (is_blank (dom_origin_domain_env d))
              (origin_error origin_id ''cdn.domains.origin_domain_env is required'')) (\<lambda>_.
            try_then (fail_if (cloudfront \<and>
                is_blank (case dom_certificate_arn_env d of Some e \<Rightarrow> e | None \<Rightarrow> []))
              (origin_error origin_id
                 ''cdn.domains.certificate_arn_env is required for CloudFront'')) (\<lambda>_.
            fail_if (\<not> cloudfront \<and> dom_mode d = CustomHostnames)
              (origin_error origin_id ''cdn.domains.mode custom_hostnames is not implemented''))))"

definition validate_saas_parameter :: "string \<Rightarrow> string \<times> string \<Rightarrow> unit res" where
  "validate_saas_parameter origin_id entry =
     try_then (fail_if (is_blank (fst entry))
       (origin_error origin_id ''cdn.parameters_env contains an empty parameter name'')) (\<lambda>_.
     fail_if (is_blank (snd entry))
       (origin_error origin_id (''cdn.parameters_env.'' @ fst entry @ '' is required'')))"

definition validate_cloudfront_saas_cdn_config :: "string \<Rightarrow> saas_config \<Rightarrow> unit res" where
  "validate_cloudfront_saas_cdn_config origin_id c =
     try_then (fail_if (is_blank (saas_distribution_id_env c))
       (origin_error origin_id ''cdn.distribution_id_env is required'')) (\<lambda>_.
     try_then (case saas_connection_group_id_env c of
         Some e \<Rightarrow> fail_if (is_blank e) (origin_error origin_id ''cdn.connection_group_id_env is required'')
       | None \<Rightarrow> Inr ()) (\<lambda>_.
     try_each (validate_saas_parameter origin_id) (saas_parameters_env c)))"

definition validate_cdn_config :: "string \<Rightarrow> cdn_config option \<Rightarrow> unit res" where
  "validate_cdn_config origin_id cdn =
     (case cdn of
        Some (CloudFront c) \<Rightarrow>
          try_then (fail_if (is_blank (cf_distribution_id_env c))
            (origin_error origin_id ''cdn.distribution_id_env is required'')) (\<lambda>_.
          validate_cdn_domain_config origin_id (cf_domains c) True)
      | Some (Cloudflare c) \<Rightarrow>
          try_then (fail_if (is_blank (fl_zone_id_env c))
            (origin_error origin_id ''cdn.zone_id_env is required'')) (\<lambda>_.
          try_then (fail_if (is_blank (fl_api_token_env c))
            (origin_error origin_id ''cdn.api_token_env is required'')) (\<lambda>_.
          try_then (try_each (\<lambda>p. fail_if (\<not> starts_with p ''https://'' \<and> \<not> starts_with p ''http://'')
              (origin_error origin_id ''cdn.url_prefixes must use http or https URLs''))
            (fl_url_prefixes c)) (\<lambda>_.
          validate_cdn_domain_config origin_id (fl_domains c) False)))
      | Some (CloudFrontSaas c) \<Rightarrow> validate_cloudfront_saas_cdn_config origin_id c
      | None \<Rightarrow> Inr ())"

definition validate_origin :: "string \<times> origin_config \<Rightarrow> unit res" where
  "validate_origin entry =
     (case entry of (origin_id, origin) \<Rightarrow>
       try_then (validate_origin_id origin_id) (\<lambda>_.
       try_then (case origin of
           S3 s \<Rightarrow> try_then (fail_if (is_blank (s3_bucket s)) (origin_error origin_id ''bucket is required''))
                     (\<lambda>_. validate_cdn_config origin_id (s3_cdn s))
         | Local l \<Rightarrow> try_then (fail_if (is_blank (loc_path l)) (origin_error origin_id ''path is required''))
                     (\<lambda>_. validate_cdn_config origin_id (loc_cdn l))) (\<lambda>_.
       try_then (fail_if (sync_interval_seconds origin = Some 0)
         (origin_error origin_id ''sync_interval_seconds must be positive'')) (\<lambda>_.
       (case activation_barrier_path origin of
          Some path \<Rightarrow>
            map_err (\<lambda>e. origin_error origin_id
                (''activation_barrier_path is invalid: '' @ error_display e))
              (try_then (normalize_remote_key path) (\<lambda>_. Inr ()))
        | None \<Rightarrow> Inr ())))))"

definition validate_host :: "manifest \<Rightarrow> string \<times> host_config \<Rightarrow> unit res" where
  "validate_host m entry =
     try_then (fail_if (is_blank (fst entry)) (ErrorMsg ''host entry cannot be empty'')) (\<lambda>_.
     fail_if (\<not> bt_contains (origins m) (host_origin (snd entry)))
       (ErrorMsg (''host '' @ fst entry @ '' references unknown origin '' @ host_origin (snd entry))))"

definition validate_manifest :: "manifest \<Rightarrow> unit res" where
  "validate_manifest m =
     try_then (fail_if (manifest_version m \<noteq> 1)
       (ErrorMsg (''unsupported manifest version '' @ show_nat (unat (manifest_version m))))) (\<lambda>_.
     try_then (fail_if (is_blank (local_store_dir (runtime m)))
       (ErrorMsg ''runtime.local_store_dir is required'')) (\<lambda>_.
     try_then (fail_if (runtime_sync_interval_seconds (runtime m) = 0)
       (ErrorMsg ''runtime.sync_interval_seconds must be positive'')) (\<lambda>_.
     try_then (try_each validate_origin (origins m)) (\<lambda>_.
     try_each (validate_host m) (hosts m)))))"

definition parse_manifest_config ::
    "(string \<Rightarrow> string + manifest) \<Rightarrow> (string \<Rightarrow> string + manifest) \<Rightarrow> string \<Rightarrow> manifest res" where
  "parse_manifest_config yaml json input =
     try_then (parse_config yaml json ''manifest'' input) (\<lambda>m.
     try_then (validate_manifest m) (\<lambda>_. Inr m))"

section \<open>Hosts\<close>

definition is_valid_host_label :: "string \<Rightarrow> bool" where
  "is_valid_host_label label \<longleftrightarrow>
     label \<noteq> [] \<and> \<not> starts_with label ''-'' \<and> \<not> ends_with label ''-'' \<and>
     (\<forall>c \<in> set label. is_ascii_alphanumeric c \<or> c = CHR ''-'')"

definition is_valid_host :: "string \<Rightarrow> bool" where
  "is_valid_host host \<longleftrightarrow>
     host \<noteq> [] \<and> \<not> starts_with host ''.'' \<and> \<not> ends_with host ''.'' \<and>
     (\<forall>label \<in> set (split_on CHR ''.'' host). is_valid_host_label label)"

definition normalize_host :: "string \<Rightarrow> string option" where
  "normalize_host header =
     (let v = trim header in
      if v = [] then None
      else
        case (case rsplit_once CHR '':'' v of
                Some (host, port) \<Rightarrow>
                  if port = [] \<or> \<not> (\<forall>c \<in> set port. is_ascii_digit c) then None else Some host
              | None \<Rightarrow> Some v) of
          None \<Rightarrow> None
        | Some raw \<Rightarrow>
            let host = to_ascii_lowercase (trim raw) in
            if is_valid_host host then Some host else None)"

record wildcard_host =
  wc_pattern :: string
  wc_suffix :: string
  wc_origin_id :: string

record host_resolver =
  hr_exact :: "(string, string) btree"
  hr_wildcards :: "wildcard_host list"
  hr_fallback :: "string option"

record resolved_host =
  normalized_host :: string
  matched_host :: string
  rh_origin_id :: string

definition add_host :: "host_resolver \<Rightarrow> string \<times> host_config \<Rightarrow> host_resolver res" where
  "add_host r entry =
     (case entry of (host, config) \<Rightarrow>
       let normalized = to_ascii_lowercase (trim host) in
       if normalized = ''*'' then
         (if hr_fallback r \<noteq> None then Inl (ErrorMsg ''duplicate global wildcard host'')
          else Inr (r\<lparr>hr_fallback := Some (host_origin config)\<rparr>))
       else
         case strip_prefix ''*.'' normalized of
           Some suf \<Rightarrow>
             if normalize_host suf \<noteq> Some suf then Inl (ErrorMsg (''invalid wildcard host '' @ host))
             else Inr (r\<lparr>hr_wildcards := hr_wildcards r @
                    [\<lparr>wc_pattern = normalized, wc_suffix = ''.'' @ suf, wc_origin_id = host_origin config\<rparr>]\<rparr>)
         | None \<Rightarrow>
             try_then (ok_or (normalize_host normalized) (ErrorMsg (''invalid host '' @ host))) (\<lambda>n.
             Inr (r\<lparr>hr_exact := bt_insert n (host_origin config) (hr_exact r)\<rparr>)))"

definition host_resolver_new :: "manifest \<Rightarrow> host_resolver res" where
  "host_resolver_new m =
     try_then (try_fold add_host \<lparr>hr_exact = [], hr_wildcards = [], hr_fallback = None\<rparr> (hosts m)) (\<lambda>r.
     Inr (r\<lparr>hr_wildcards := sort_key (\<lambda>w. - int (length (wc_suffix w))) (hr_wildcards r)\<rparr>))"

definition wildcard_matches :: "string \<Rightarrow> wildcard_host \<Rightarrow> bool" where
  "wildcard_matches host w \<longleftrightarrow>
     ends_with host (wc_suffix w) \<and> length (wc_suffix w) < length host"

definition resolve :: "host_resolver \<Rightarrow> string \<Rightarrow> resolved_host option" where
  "resolve r header =
     (case normalize_host header of
        None \<Rightarrow> None
      | Some n \<Rightarrow>
          (case bt_get (hr_exact r) n of
             Some i \<Rightarrow> Some \<lparr>normalized_host = n, matched_host = n, rh_origin_id = i\<rparr>
           | None \<Rightarrow>
               (case find (wildcard_matches n) (hr_wildcards r) of
                  Some w \<Rightarrow>
                    Some \<lparr>normalized_host = n, matched_host = wc_pattern w, rh_origin_id = wc_origin_id w\<rparr>
                | None \<Rightarrow>
                    map_option (\<lambda>i. \<lparr>normalized_host = n, matched_host = ''*'', rh_origin_id = i\<rparr>)
                      (hr_fallback r))))"

section \<open>What validation establishes\<close>

definition domain_config_ok :: "bool \<Rightarrow> cdn_domain_config option \<Rightarrow> bool" where
  "domain_config_ok cloudfront domains =
     (case domains of
        None \<Rightarrow> True
      | Some d \<Rightarrow> dom_enabled d \<longrightarrow>
          \<not> is_blank (dom_origin_domain_env d) \<and>
          (cloudfront \<longrightarrow> (\<exists>e. dom_certificate_arn_env d = Some e \<and> \<not> is_blank e)) \<and>
          (\<not> cloudfront \<longrightarrow> dom_mode d = DnsRecords))"

fun cdn_config_ok :: "cdn_config \<Rightarrow> bool" where
  "cdn_config_ok (CloudFront c) \<longleftrightarrow>
     \<not> is_blank (cf_distribution_id_env c) \<and> domain_config_ok True (cf_domains c)"
| "cdn_config_ok (Cloudflare c) \<longleftrightarrow>
     \<not> is_blank (fl_zone_id_env c) \<and> \<not> is_blank (fl_api_token_env c) \<and>
     (\<forall>p \<in> set (fl_url_prefixes c). starts_with p ''https://'' \<or> starts_with p ''http://'') \<and>
     domain_config_ok False (fl_domains c)"
| "cdn_config_ok (CloudFrontSaas c) \<longleftrightarrow>
     \<not> is_blank (saas_distribution_id_env c) \<and>
     (\<forall>e. saas_connection_group_id_env c = Some e \<longrightarrow> \<not> is_blank e) \<and>
     (\<forall>(n, e) \<in> set (saas_parameters_env c). \<not> is_blank n \<and> \<not> is_blank e)"

definition source_ok :: "origin_config \<Rightarrow> bool" where
  "source_ok origin =
     (case origin of S3 s \<Rightarrow> \<not> is_blank (s3_bucket s) | Local l \<Rightarrow> \<not> is_blank (loc_path l))"

definition manifest_origin_ok :: "string \<Rightarrow> origin_config \<Rightarrow> bool" where
  "manifest_origin_ok i origin \<longleftrightarrow>
     validate_origin_id i = Inr () \<and> source_ok origin \<and>
     (\<forall>cdn. origin_cdn origin = Some cdn \<longrightarrow> cdn_config_ok cdn) \<and>
     sync_interval_seconds origin \<noteq> Some 0 \<and>
     (\<forall>p. activation_barrier_path origin = Some p \<longrightarrow> accepted_key p)"

definition manifest_ok :: "manifest \<Rightarrow> bool" where
  "manifest_ok m \<longleftrightarrow>
     manifest_version m = 1 \<and> \<not> is_blank (local_store_dir (runtime m)) \<and>
     runtime_sync_interval_seconds (runtime m) \<noteq> 0 \<and>
     (\<forall>(i, origin) \<in> set (origins m). manifest_origin_ok i origin) \<and>
     (\<forall>(h, c) \<in> set (hosts m). \<not> is_blank h \<and> bt_contains (origins m) (host_origin c))"

lemma is_blank_Nil [simp]: "is_blank []"
  by (simp add: is_blank_def)

lemma reconcile_mode_cases: "m \<noteq> CustomHostnames \<longleftrightarrow> m = DnsRecords"
  by (cases m) auto

lemma validate_cdn_domain_config_Inr [result_simps]:
  "validate_cdn_domain_config i d cf = Inr u \<longleftrightarrow> domain_config_ok cf d"
  by (auto simp: validate_cdn_domain_config_def domain_config_ok_def result_simps
      reconcile_mode_cases split: option.splits)

lemma validate_cdn_config_Inr [result_simps]:
  "validate_cdn_config i cdn = Inr u \<longleftrightarrow> (\<forall>c. cdn = Some c \<longrightarrow> cdn_config_ok c)"
proof (cases cdn)
  case None
  then show ?thesis by (simp add: validate_cdn_config_def)
next
  case (Some c)
  then show ?thesis
    by (cases c) (auto simp: validate_cdn_config_def validate_cloudfront_saas_cdn_config_def
        validate_saas_parameter_def result_simps split: option.splits)
qed

lemma validate_origin_Inr [result_simps]:
  "validate_origin (i, origin) = Inr u \<longleftrightarrow> manifest_origin_ok i origin"
  by (cases origin)
    (auto simp: validate_origin_def manifest_origin_ok_def source_ok_def result_simps
      split: option.splits)

lemma validate_host_Inr [result_simps]:
  "validate_host m (h, c) = Inr u \<longleftrightarrow> \<not> is_blank h \<and> bt_contains (origins m) (host_origin c)"
  by (auto simp: validate_host_def result_simps)

lemma validate_manifest_ok: "validate_manifest m = Inr u \<longleftrightarrow> manifest_ok m"
  by (auto simp: validate_manifest_def manifest_ok_def result_simps)

section \<open>What a resolver answers\<close>

text \<open>The kind of a host entry of the manifest, and the host names each kind covers.\<close>

datatype host_kind = AnyHost | SubdomainsOf string | ExactHost string | BadHost

definition host_kind :: "string \<Rightarrow> host_kind" where
  "host_kind host =
     (let pattern = to_ascii_lowercase (trim host) in
      if pattern = ''*'' then AnyHost
      else case strip_prefix ''*.'' pattern of
        Some suf \<Rightarrow> if normalize_host suf = Some suf then SubdomainsOf suf else BadHost
      | None \<Rightarrow> (case normalize_host pattern of Some n \<Rightarrow> ExactHost n | None \<Rightarrow> BadHost))"

fun covers :: "host_kind \<Rightarrow> string \<Rightarrow> bool" where
  "covers AnyHost n = True"
| "covers (SubdomainsOf suf) n = ends_with n (''.'' @ suf)"
| "covers (ExactHost e) n = (e = n)"
| "covers BadHost n = False"

fun specificity :: "host_kind \<Rightarrow> nat" where
  "specificity AnyHost = 0"
| "specificity (SubdomainsOf suf) = length suf + 1"
| "specificity (ExactHost e) = length e"
| "specificity BadHost = 0"

lemma valid_host_chars:
  "is_valid_host h \<Longrightarrow> c \<in> set h \<Longrightarrow> is_ascii_alphanumeric c \<or> c = CHR ''-'' \<or> c = CHR ''.''"
proof -
  assume v: "is_valid_host h" and c: "c \<in> set h"
  have "set (join_with ''.'' segs) \<subseteq> (\<Union>s \<in> set segs. set s) \<union> {CHR ''.''}" for segs
    by (induction segs rule: join_with.induct [of "\<lambda>_ segs. _ segs" "''.''"]) auto
  from this [of "split_on CHR ''.'' h"] c
  have "c = CHR ''.'' \<or> (\<exists>l \<in> set (split_on CHR ''.'' h). c \<in> set l)"
    by (auto simp: join_split_on)
  with v show ?thesis by (auto simp: is_valid_host_def is_valid_host_label_def)
qed

lemma visible_host_char:
  "is_ascii_alphanumeric c \<or> c = CHR ''-'' \<or> c = CHR ''.'' \<Longrightarrow> 33 \<le> byte c \<and> byte c \<le> 126"
  using alphanumeric_visible [of c] by (elim disjE) (simp_all add: byte_def)

lemma valid_host_visible: "is_valid_host h \<Longrightarrow> visible_ascii h"
  using valid_host_chars visible_host_char by (simp add: visible_ascii_def)

lemma valid_host_no_colon: "is_valid_host h \<Longrightarrow> CHR '':'' \<notin> set h"
  using valid_host_chars [of h "CHR '':''"]
  by (auto simp: is_ascii_alphanumeric_def byte_def)

lemma normalize_host_valid: "normalize_host header = Some n \<Longrightarrow> is_valid_host n \<and> to_ascii_lowercase n = n"
  by (auto simp: normalize_host_def Let_def split: if_splits option.splits)

lemma normalize_host_id: "is_valid_host n \<Longrightarrow> to_ascii_lowercase n = n \<Longrightarrow> normalize_host n = Some n"
proof -
  assume n: "is_valid_host n" "to_ascii_lowercase n = n"
  have "trim n = n" "rsplit_once CHR '':'' n = None" "n \<noteq> []"
    using n(1) valid_host_visible [of n] valid_host_no_colon [of n]
    by (auto simp: trim_visible rsplit_once_None is_valid_host_def)
  then show ?thesis using n by (simp add: normalize_host_def)
qed

lemma normalize_host_idem: "normalize_host header = Some n \<Longrightarrow> normalize_host n = Some n"
  using normalize_host_valid normalize_host_id by blast

lemma add_host_kind:
  "add_host r (h, c) =
     (case host_kind h of
        AnyHost \<Rightarrow>
          if hr_fallback r \<noteq> None then Inl (ErrorMsg ''duplicate global wildcard host'')
          else Inr (r\<lparr>hr_fallback := Some (host_origin c)\<rparr>)
      | SubdomainsOf suf \<Rightarrow>
          Inr (r\<lparr>hr_wildcards := hr_wildcards r @
             [\<lparr>wc_pattern = ''*.'' @ suf, wc_suffix = ''.'' @ suf, wc_origin_id = host_origin c\<rparr>]\<rparr>)
      | ExactHost n \<Rightarrow> Inr (r\<lparr>hr_exact := bt_insert n (host_origin c) (hr_exact r)\<rparr>)
      | BadHost \<Rightarrow>
          Inl (ErrorMsg ((if starts_with (to_ascii_lowercase (trim h)) ''*.''
                          then ''invalid wildcard host '' else ''invalid host '') @ h)))"
  by (auto simp: add_host_def host_kind_def Let_def str_simps result_simps
      split: option.splits) 

text \<open>The resolver holds exactly the entries it was built from.\<close>

definition wildcard_for :: "string \<Rightarrow> host_config \<Rightarrow> wildcard_host" where
  "wildcard_for suf c = \<lparr>wc_pattern = ''*.'' @ suf, wc_suffix = ''.'' @ suf, wc_origin_id = host_origin c\<rparr>"

fun exact_entries :: "(string \<times> host_config) list \<Rightarrow> (string \<times> string) list" where
  "exact_entries [] = []"
| "exact_entries ((h, c) # hs) =
     (case host_kind h of ExactHost n \<Rightarrow> [(n, host_origin c)] | _ \<Rightarrow> []) @ exact_entries hs"

fun wildcard_entries :: "(string \<times> host_config) list \<Rightarrow> wildcard_host list" where
  "wildcard_entries [] = []"
| "wildcard_entries ((h, c) # hs) =
     (case host_kind h of SubdomainsOf suf \<Rightarrow> [wildcard_for suf c] | _ \<Rightarrow> []) @ wildcard_entries hs"

fun any_entries :: "(string \<times> host_config) list \<Rightarrow> string list" where
  "any_entries [] = []"
| "any_entries ((h, c) # hs) =
     (case host_kind h of AnyHost \<Rightarrow> [host_origin c] | _ \<Rightarrow> []) @ any_entries hs"

lemma try_fold_add_host:
  "try_fold add_host r hs = Inr r' \<longleftrightarrow>
     (\<forall>h \<in> set (bt_keys hs). host_kind h \<noteq> BadHost) \<and>
     length (any_entries hs) \<le> (if hr_fallback r = None then 1 else 0) \<and>
     r' = \<lparr>hr_exact = bt_extend (hr_exact r) (exact_entries hs),
           hr_wildcards = hr_wildcards r @ wildcard_entries hs,
           hr_fallback = (case any_entries hs of [] \<Rightarrow> hr_fallback r | i # _ \<Rightarrow> Some i)\<rparr>"
proof (induction hs arbitrary: r)
  case Nil
  then show ?case by auto
next
  case (Cons p hs)
  obtain h c where p: "p = (h, c)" by (cases p)
  show ?case
    by (cases "host_kind h")
      (auto simp: p add_host_kind Cons.IH bt_extend_def wildcard_for_def split: list.splits)
qed

lemma host_resolver_new_Inr:
  "host_resolver_new m = Inr r \<longleftrightarrow>
     (\<forall>h \<in> set (bt_keys (hosts m)). host_kind h \<noteq> BadHost) \<and> length (any_entries (hosts m)) \<le> 1 \<and>
     r = \<lparr>hr_exact = bt_collect (exact_entries (hosts m)),
          hr_wildcards = sort_key (\<lambda>w. - int (length (wc_suffix w))) (wildcard_entries (hosts m)),
          hr_fallback = (case any_entries (hosts m) of [] \<Rightarrow> None | i # _ \<Rightarrow> Some i)\<rparr>"
  by (auto simp: host_resolver_new_def result_simps try_fold_add_host split: list.splits)

lemma ex_entry_Cons:
  "(\<exists>a b. (a = h \<and> b = c \<or> (a, b) \<in> S) \<and> P a b) \<longleftrightarrow> P h c \<or> (\<exists>a b. (a, b) \<in> S \<and> P a b)"
  by blast

lemma exact_entries_iff:
  "(n, i) \<in> set (exact_entries hs) \<longleftrightarrow>
     (\<exists>h c. (h, c) \<in> set hs \<and> host_kind h = ExactHost n \<and> i = host_origin c)"
  by (induction hs rule: exact_entries.induct) (auto simp: ex_entry_Cons split: host_kind.split)

lemma wildcard_entries_iff:
  "w \<in> set (wildcard_entries hs) \<longleftrightarrow>
     (\<exists>h c suf. (h, c) \<in> set hs \<and> host_kind h = SubdomainsOf suf \<and> w = wildcard_for suf c)"
proof (induction hs rule: wildcard_entries.induct)
  case (2 h c hs)
  then show ?case by (cases "host_kind h") (auto simp: ex_entry_Cons)
qed simp

lemma any_entries_iff:
  "i \<in> set (any_entries hs) \<longleftrightarrow> (\<exists>h c. (h, c) \<in> set hs \<and> host_kind h = AnyHost \<and> i = host_origin c)"
  by (induction hs rule: any_entries.induct) (auto simp: ex_entry_Cons split: host_kind.split)

text \<open>The first element of a list sorted by a key that satisfies a predicate is a minimal one.\<close>

lemma find_sorted_min:
  "sorted (map k xs) \<Longrightarrow> find P xs = Some x \<Longrightarrow> y \<in> set xs \<Longrightarrow> P y \<Longrightarrow> k x \<le> k y"
  by (induction xs) (auto split: if_splits)

lemma covers_specificity: "covers k n \<Longrightarrow> specificity k \<le> length n"
  by (cases k) (auto simp: suffix_def)

lemma wildcard_for_matches:
  assumes "is_valid_host n"
  shows "wildcard_matches n (wildcard_for suf c) \<longleftrightarrow> covers (SubdomainsOf suf) n"
proof -
  have "n \<noteq> ''.'' @ suf" using assms by (auto simp: is_valid_host_def)
  then show ?thesis by (auto simp: wildcard_matches_def wildcard_for_def suffix_def)
qed

definition selects :: "manifest \<Rightarrow> string \<Rightarrow> string \<Rightarrow> bool" where
  "selects m n i \<longleftrightarrow>
     (\<exists>h c. (h, c) \<in> set (hosts m) \<and> covers (host_kind h) n \<and> i = host_origin c \<and>
        (\<forall>h' c'. (h', c') \<in> set (hosts m) \<longrightarrow> covers (host_kind h') n \<longrightarrow>
           specificity (host_kind h') \<le> specificity (host_kind h)))"

lemma selectsI:
  assumes "(h, c) \<in> set (hosts m)" and "covers (host_kind h) n" and "i = host_origin c"
    and "\<And>h' c'. (h', c') \<in> set (hosts m) \<Longrightarrow> covers (host_kind h') n \<Longrightarrow>
           specificity (host_kind h') \<le> specificity (host_kind h)"
  shows "selects m n i"
  using assms unfolding selects_def by blast

lemma resolver_exact:
  assumes "host_resolver_new m = Inr r"
  shows "bt_get (hr_exact r) n = Some i \<Longrightarrow>
      \<exists>h c. (h, c) \<in> set (hosts m) \<and> host_kind h = ExactHost n \<and> i = host_origin c"
    and "bt_get (hr_exact r) n = None \<Longrightarrow> (h, c) \<in> set (hosts m) \<Longrightarrow> host_kind h \<noteq> ExactHost n"
proof -
  have get: "bt_get (hr_exact r) n = map_of (rev (exact_entries (hosts m))) n"
    using assms by (simp add: host_resolver_new_Inr map_of_bt_extend)
  show "bt_get (hr_exact r) n = Some i \<Longrightarrow>
      \<exists>h c. (h, c) \<in> set (hosts m) \<and> host_kind h = ExactHost n \<and> i = host_origin c"
    using map_of_SomeD [of "rev (exact_entries (hosts m))" n i] by (simp add: get exact_entries_iff)
  show "bt_get (hr_exact r) n = None \<Longrightarrow> (h, c) \<in> set (hosts m) \<Longrightarrow> host_kind h \<noteq> ExactHost n"
    using exact_entries_iff [of n "host_origin c" "hosts m"]
    by (auto simp: get map_of_eq_None_iff image_iff)
qed

lemma resolver_fallback:
  assumes "host_resolver_new m = Inr r"
  shows "hr_fallback r = Some i \<Longrightarrow>
      \<exists>h c. (h, c) \<in> set (hosts m) \<and> host_kind h = AnyHost \<and> i = host_origin c"
    and "hr_fallback r = None \<Longrightarrow> (h, c) \<in> set (hosts m) \<Longrightarrow> host_kind h \<noteq> AnyHost"
  using assms any_entries_iff [of _ "hosts m"]
  by (auto simp: host_resolver_new_Inr split: list.splits)

lemma resolver_wildcards:
  assumes "host_resolver_new m = Inr r"
  shows "set (hr_wildcards r) = set (wildcard_entries (hosts m))"
    and "sorted (map (\<lambda>w. - int (length (wc_suffix w))) (hr_wildcards r))"
  using assms by (auto simp: host_resolver_new_Inr)

lemma resolver_wildcard_select:
  assumes r: "host_resolver_new m = Inr r" and n: "is_valid_host n"
    and exact: "bt_get (hr_exact r) n = None"
    and w: "find (wildcard_matches n) (hr_wildcards r) = Some w"
  shows "selects m n (wc_origin_id w)"
proof -
  from w have "w \<in> set (hr_wildcards r)" "wildcard_matches n w"
    by (auto simp: find_Some_iff)
  then obtain h c suf where h: "(h, c) \<in> set (hosts m)" "host_kind h = SubdomainsOf suf"
      "w = wildcard_for suf c" and m: "wildcard_matches n (wildcard_for suf c)"
    using resolver_wildcards(1) [OF r] wildcard_entries_iff [of w "hosts m"] by metis
  show ?thesis
  proof (rule selectsI [OF h(1)])
    show "covers (host_kind h) n" using m h(2) wildcard_for_matches [OF n] by metis
    show "wc_origin_id w = host_origin c" by (simp add: h(3) wildcard_for_def)
    fix h' c' assume h': "(h', c') \<in> set (hosts m)" "covers (host_kind h') n"
    show "specificity (host_kind h') \<le> specificity (host_kind h)"
    proof (cases "host_kind h'")
      case (SubdomainsOf suf')
      then have "wildcard_for suf' c' \<in> set (hr_wildcards r)"
        using h'(1) resolver_wildcards(1) [OF r] wildcard_entries_iff [of _ "hosts m"] by metis
      moreover have "wildcard_matches n (wildcard_for suf' c')"
        using h'(2) SubdomainsOf wildcard_for_matches [OF n] by metis
      ultimately show ?thesis
        using find_sorted_min [OF resolver_wildcards(2) [OF r] w, of "wildcard_for suf' c'"]
        by (simp add: SubdomainsOf h(2,3) wildcard_for_def)
    qed (use h' resolver_exact(2) [OF r exact h'(1)] in auto)
  qed
qed

lemma resolver_nothing:
  assumes r: "host_resolver_new m = Inr r" and n: "is_valid_host n"
    and exact: "bt_get (hr_exact r) n = None"
    and w: "find (wildcard_matches n) (hr_wildcards r) = None"
    and h: "(h, c) \<in> set (hosts m)" "covers (host_kind h) n"
  shows "host_kind h = AnyHost"
proof (cases "host_kind h")
  case (SubdomainsOf suf)
  then have "wildcard_for suf c \<in> set (hr_wildcards r)"
    using h(1) resolver_wildcards(1) [OF r] wildcard_entries_iff [of _ "hosts m"] by metis
  moreover have "wildcard_matches n (wildcard_for suf c)"
    using h(2) SubdomainsOf wildcard_for_matches [OF n] by metis
  ultimately show ?thesis using w by (auto simp: find_None_iff)
qed (use h resolver_exact(2) [OF r exact h(1)] in auto)

lemma resolve_selects:
  assumes r: "host_resolver_new m = Inr r" and rh: "resolve r header = Some rh"
  shows "normalize_host header = Some (normalized_host rh)"
    and "selects m (normalized_host rh) (rh_origin_id rh)"
proof -
  obtain n where n: "normalize_host header = Some n"
    using rh by (auto simp: resolve_def split: option.splits)
  then have nn: "normalized_host rh = n"
    using rh by (auto simp: resolve_def split: option.splits)
  with n show "normalize_host header = Some (normalized_host rh)" by simp
  have v: "is_valid_host n" using normalize_host_valid [OF n] by simp
  show "selects m (normalized_host rh) (rh_origin_id rh)"
  proof (cases "bt_get (hr_exact r) n")
    case (Some i)
    then obtain h c where h: "(h, c) \<in> set (hosts m)" "host_kind h = ExactHost n" "i = host_origin c"
      using resolver_exact(1) [OF r] by blast
    moreover have "rh_origin_id rh = i" using rh n Some by (auto simp: resolve_def)
    ultimately show ?thesis
      using covers_specificity [of _ n] by (intro selectsI [of h c]) (auto simp: nn)
  next
    case None
    show ?thesis
    proof (cases "find (wildcard_matches n) (hr_wildcards r)")
      case (Some w)
      then have "rh_origin_id rh = wc_origin_id w" using rh n None by (auto simp: resolve_def)
      with resolver_wildcard_select [OF r v None Some] show ?thesis by (simp add: nn)
    next
      case none: None
      then have f: "hr_fallback r = Some (rh_origin_id rh)"
        using rh n None by (auto simp: resolve_def)
      then obtain h c where h: "(h, c) \<in> set (hosts m)" "host_kind h = AnyHost" "rh_origin_id rh = host_origin c"
        using resolver_fallback(1) [OF r] by blast
      then show ?thesis
        using resolver_nothing [OF r v None none] by (intro selectsI [of h c]) (force simp: nn)+
    qed
  qed
qed

lemma resolve_None:
  assumes r: "host_resolver_new m = Inr r" and n: "normalize_host header = Some n"
  shows "resolve r header = None \<longleftrightarrow> (\<forall>h \<in> set (bt_keys (hosts m)). \<not> covers (host_kind h) n)"
proof
  assume none: "resolve r header = None"
  then have e: "bt_get (hr_exact r) n = None" "find (wildcard_matches n) (hr_wildcards r) = None"
      "hr_fallback r = None"
    using n by (auto simp: resolve_def split: option.splits)
  have v: "is_valid_host n" using normalize_host_valid [OF n] by simp
  show "\<forall>h \<in> set (bt_keys (hosts m)). \<not> covers (host_kind h) n"
    using resolver_nothing [OF r v e(1,2)] resolver_fallback(2) [OF r e(3)] by auto
next
  assume none: "\<forall>h \<in> set (bt_keys (hosts m)). \<not> covers (host_kind h) n"
  show "resolve r header = None"
  proof (cases "resolve r header")
    case (Some rh)
    from resolve_selects [OF r Some] none n show ?thesis by (force simp: selects_def)
  qed
qed

section \<open>Properties\<close>

text \<open>C37: The validation accepts exactly the manifests whose version, runtime, origins, CDN settings and
hosts are as the rules demand.\<close>

theorem manifest_validation_exact: "validate_manifest m = Inr () \<longleftrightarrow> manifest_ok m"
  by (rule validate_manifest_ok)

text \<open>The resolver is built exactly for the hosts that are all well formed and have at most one global
wildcard.\<close>

theorem resolver_built_exactly:
  "(\<exists>r. host_resolver_new m = Inr r) \<longleftrightarrow>
     BadHost \<notin> host_kind ` set (bt_keys (hosts m)) \<and>
     length (filter (\<lambda>h. host_kind h = AnyHost) (bt_keys (hosts m))) \<le> 1"
proof -
  have "length (any_entries hs) = length (filter (\<lambda>h. host_kind h = AnyHost) (bt_keys hs))" for hs
    by (induction hs rule: any_entries.induct) (auto split: host_kind.split)
  moreover have "BadHost \<notin> host_kind ` S \<longleftrightarrow> (\<forall>h \<in> S. host_kind h \<noteq> BadHost)" for S by (metis image_iff)
  ultimately show ?thesis by (simp only: host_resolver_new_Inr) simp
qed

lemma resolver_built_plain:
  "(\<exists>r. host_resolver_new m = Inr r) \<longleftrightarrow>
     (\<forall>h \<in> set (bt_keys (hosts m)). host_kind h \<noteq> BadHost) \<and> length (any_entries (hosts m)) \<le> 1"
  by (simp add: host_resolver_new_Inr)

text \<open>C21: A host header is resolved to the origin of an entry that covers it, and no entry that covers it is
more specific.\<close>

theorem resolver_most_specific:
  assumes "host_resolver_new m = Inr r" and "resolve r header = Some found"
  shows "normalize_host header = Some (normalized_host found) \<and> selects m (normalized_host found) (rh_origin_id found)"
  using resolve_selects [OF assms] by blast

definition example_manifest :: manifest where
  "example_manifest = \<lparr>manifest_version = 1,
     runtime = \<lparr>local_store_dir = ''m'', runtime_sync_interval_seconds = 30\<rparr>,
     origins = [], hosts = [(''*'', \<lparr>host_origin = ''any''\<rparr>), (''*.a.io'', \<lparr>host_origin = ''sub''\<rparr>),
       (''b.a.io'', \<lparr>host_origin = ''web''\<rparr>)]\<rparr>"

lemma example_resolver:
  "host_resolver_new example_manifest = Inr \<lparr>hr_exact = [(''b.a.io'', ''web'')],
     hr_wildcards = [\<lparr>wc_pattern = ''*.a.io'', wc_suffix = ''.a.io'', wc_origin_id = ''sub''\<rparr>], hr_fallback = Some ''any''\<rparr>"
  by (simp add: host_resolver_new_def example_manifest_def add_host_def Let_def str_eval normalize_host_def
      is_valid_host_def is_valid_host_label_def)

theorem resolver_most_specific_witness: "selects example_manifest ''c.a.io'' ''sub''"
proof -
  have "resolve \<lparr>hr_exact = [(''b.a.io'', ''web'')],
     hr_wildcards = [\<lparr>wc_pattern = ''*.a.io'', wc_suffix = ''.a.io'', wc_origin_id = ''sub''\<rparr>], hr_fallback = Some ''any''\<rparr>
     '' C.a.io:80'' = Some \<lparr>normalized_host = ''c.a.io'', matched_host = ''*.a.io'', rh_origin_id = ''sub''\<rparr>"
    by (simp add: resolve_def wildcard_matches_def Let_def str_eval normalize_host_def is_valid_host_def
        is_valid_host_label_def)
  from resolver_most_specific [OF example_resolver this] show ?thesis by simp
qed

text \<open>A well-formed host header is refused exactly when no entry of the manifest covers it.\<close>

theorem resolver_refuses_uncovered:
  assumes "host_resolver_new m = Inr r" and "normalize_host header = Some n"
  shows "resolve r header = None \<longleftrightarrow> (\<forall>h \<in> set (bt_keys (hosts m)). \<not> covers (host_kind h) n)"
  by (rule resolve_None [OF assms])

theorem resolver_refuses_uncovered_witness:
  "\<exists>r. host_resolver_new (example_manifest\<lparr>hosts := [(''b.a.io'', \<lparr>host_origin = ''web''\<rparr>)]\<rparr>) = Inr r \<and>
     resolve r ''c.a.io'' = None"
proof -
  let ?m = "example_manifest\<lparr>hosts := [(''b.a.io'', \<lparr>host_origin = ''web''\<rparr>)]\<rparr>"
  have hosts: "normalize_host ''c.a.io'' = Some ''c.a.io''" "host_kind ''b.a.io'' = ExactHost ''b.a.io''"
    by (simp_all add: host_kind_def Let_def str_eval normalize_host_def is_valid_host_def is_valid_host_label_def)
  then have "\<exists>r. host_resolver_new ?m = Inr r" by (simp add: resolver_built_plain)
  then obtain r where r: "host_resolver_new ?m = Inr r" ..
  from resolver_refuses_uncovered [OF r hosts(1)] show ?thesis using r hosts(2) by simp
qed

end
