(* ===== verification/Edge_Config.thy ===== *)
theory Edge_Config
  imports Manifest
begin

text \<open>
  The edge configuration of an origin (\<open>src/dto/edge.rs\<close>,
  \<open>src/services/edge_config.rs\<close>) and the store of the configurations in force
  (\<open>src/services/edge_config_store.rs\<close>). \<open>url::Url::parse\<close> is a parameter that returns the
  parsed URL or the text of its error.
\<close>

section \<open>Data\<close>

datatype missing_action = MissingNotFound | MissingServe | MissingRedirect

record missing_config =
  missing_action :: missing_action
  missing_page :: "string option"
  missing_path :: "string option"
  missing_to :: "string option"
  missing_status :: "u16 option"

record edge_defaults =
  root_object :: string
  auto_rewrite_index :: bool

record redirect_rule =
  redirect_from :: string
  redirect_to :: string
  redirect_status :: u16

record rewrite_rule =
  rewrite_from :: string
  rewrite_to :: string

record edge_hook_config =
  hook_name :: string
  hook_url :: string
  hook_timeout_ms :: u64

record edge_config =
  config_version :: u16
  edge :: edge_defaults
  missing :: missing_config
  redirects :: "redirect_rule list"
  rewrite_rules :: "rewrite_rule list"
  edges :: "edge_hook_config list"

section \<open>Validation\<close>

definition default_edge_config :: edge_config where
  "default_edge_config =
     \<lparr>config_version = 1,
      edge = \<lparr>root_object = ''/index.html'', auto_rewrite_index = True\<rparr>,
      missing = \<lparr>missing_action = MissingNotFound, missing_page = Some ''/index.html'',
                 missing_path = None, missing_to = None, missing_status = None\<rparr>,
      redirects = [], rewrite_rules = [], edges = []\<rparr>"

definition reject_present :: "string \<Rightarrow> 'a option \<Rightarrow> unit res" where
  "reject_present field v =
     fail_if (v \<noteq> None) (ErrorMsg (field @ '' is not valid for this missing action''))"

definition validate_absolute_path :: "string \<Rightarrow> string \<Rightarrow> unit res" where
  "validate_absolute_path field path =
     (let has_control_char = has_control path in
      try_then (fail_if (path = [] \<or> \<not> starts_with path ''/'' \<or> has_control_char)
        (ErrorMsg (field @ '' must be a non-empty absolute path''))) (\<lambda>_.
      fail_if (\<exists>segment \<in> set (split_on CHR ''/'' path). segment = ''..'')
        (ErrorMsg (field @ '' cannot contain parent directory segments''))))"

definition validate_optional_path :: "string \<Rightarrow> string option \<Rightarrow> unit res" where
  "validate_optional_path field v =
     (case v of Some path \<Rightarrow> validate_absolute_path field path | None \<Rightarrow> Inr ())"

definition validate_redirect_status :: "u16 \<Rightarrow> unit res" where
  "validate_redirect_status status =
     fail_if (\<not> (status = 301 \<or> status = 302 \<or> status = 307 \<or> status = 308))
       (ErrorMsg (''invalid redirect status '' @ show_nat (unat status)))"

definition validate_edge_hook_url :: "(string \<Rightarrow> string + url) \<Rightarrow> string \<Rightarrow> unit res" where
  "validate_edge_hook_url parse_url url =
     try_then (map_err ErrorMsg (parse_url url)) (\<lambda>parsed.
     fail_if (\<not> (url_scheme parsed = ''http'' \<or> url_scheme parsed = ''https''))
       (ErrorMsg ''edge hook url must use http or https''))"

definition validate_missing_config :: "missing_config \<Rightarrow> unit res" where
  "validate_missing_config m =
     (case missing_action m of
        MissingNotFound \<Rightarrow>
          try_then (validate_optional_path ''missing.page'' (missing_page m)) (\<lambda>_.
          try_then (reject_present ''missing.path'' (missing_path m)) (\<lambda>_.
          try_then (reject_present ''missing.to'' (missing_to m)) (\<lambda>_.
          reject_present ''missing.status'' (missing_status m))))
      | MissingServe \<Rightarrow>
          try_then (ok_or (missing_path m) (ErrorMsg ''missing serve requires path'')) (\<lambda>path.
          try_then (validate_absolute_path ''missing.path'' path) (\<lambda>_.
          try_then (reject_present ''missing.page'' (missing_page m)) (\<lambda>_.
          try_then (reject_present ''missing.to'' (missing_to m)) (\<lambda>_.
          reject_present ''missing.status'' (missing_status m)))))
      | MissingRedirect \<Rightarrow>
          try_then (ok_or (missing_to m) (ErrorMsg ''missing redirect requires to'')) (\<lambda>to.
          try_then (validate_absolute_path ''missing.to'' to) (\<lambda>_.
          try_then (ok_or (missing_status m) (ErrorMsg ''missing redirect requires status'')) (\<lambda>status.
          try_then (validate_redirect_status status) (\<lambda>_.
          try_then (reject_present ''missing.page'' (missing_page m)) (\<lambda>_.
          reject_present ''missing.path'' (missing_path m)))))))"

definition validate_redirect :: "redirect_rule \<Rightarrow> unit res" where
  "validate_redirect rule =
     try_then (validate_absolute_path ''redirect.from'' (redirect_from rule)) (\<lambda>_.
     try_then (validate_absolute_path ''redirect.to'' (redirect_to rule)) (\<lambda>_.
     validate_redirect_status (redirect_status rule)))"

definition validate_rewrite :: "rewrite_rule \<Rightarrow> unit res" where
  "validate_rewrite rule =
     try_then (validate_absolute_path ''rewrite.from'' (rewrite_from rule)) (\<lambda>_.
     validate_absolute_path ''rewrite.to'' (rewrite_to rule))"

definition validate_edge_hook :: "(string \<Rightarrow> string + url) \<Rightarrow> edge_hook_config \<Rightarrow> unit res" where
  "validate_edge_hook parse_url h =
     try_then (fail_if (is_blank (hook_name h)) (ErrorMsg ''edge hook name is required'')) (\<lambda>_.
     try_then (fail_if (hook_timeout_ms h = 0)
       (ErrorMsg (''edge hook '' @ hook_name h @ '' timeout_ms must be positive''))) (\<lambda>_.
     validate_edge_hook_url parse_url (hook_url h)))"

definition validate_edge_config :: "(string \<Rightarrow> string + url) \<Rightarrow> edge_config \<Rightarrow> unit res" where
  "validate_edge_config parse_url c =
     try_then (fail_if (config_version c \<noteq> 1)
       (ErrorMsg (''unsupported edge config version '' @ show_nat (unat (config_version c))))) (\<lambda>_.
     try_then (validate_absolute_path ''edge.root_object'' (root_object (edge c))) (\<lambda>_.
     try_then (validate_missing_config (missing c)) (\<lambda>_.
     try_then (try_each validate_redirect (redirects c)) (\<lambda>_.
     try_then (try_each validate_rewrite (rewrite_rules c)) (\<lambda>_.
     try_each (validate_edge_hook parse_url) (edges c))))))"

definition parse_edge_config ::
    "(string \<Rightarrow> string + url) \<Rightarrow> (string \<Rightarrow> string + edge_config) \<Rightarrow>
     (string \<Rightarrow> string + edge_config) \<Rightarrow> string \<Rightarrow> edge_config res" where
  "parse_edge_config parse_url yaml json input =
     try_then (parse_config yaml json ''edge config'' input) (\<lambda>c.
     try_then (validate_edge_config parse_url c) (\<lambda>_. Inr c))"

section \<open>The store\<close>

datatype edge_config_entry = ValidConfig edge_config | InvalidConfig string

datatype edge_config_store_error = ConfigMissing | ConfigInvalid string

type_synonym edge_config_store = "(string, edge_config_entry) btree"

definition config_store_of :: "(string, edge_config) btree \<Rightarrow> edge_config_store" where
  "config_store_of configs = bt_collect (map (\<lambda>(i, c). (i, ValidConfig c)) configs)"

definition config_store_get :: "edge_config_store \<Rightarrow> string \<Rightarrow> edge_config_store_error + edge_config" where
  "config_store_get s i =
     (case bt_get s i of
        Some (ValidConfig c) \<Rightarrow> Inr c
      | Some (InvalidConfig e) \<Rightarrow> Inl (ConfigInvalid e)
      | None \<Rightarrow> Inl ConfigMissing)"

definition config_store_set_valid :: "string \<Rightarrow> edge_config \<Rightarrow> edge_config_store \<Rightarrow> edge_config_store" where
  "config_store_set_valid i c s = bt_insert i (ValidConfig c) s"

definition config_store_set_invalid :: "string \<Rightarrow> string \<Rightarrow> edge_config_store \<Rightarrow> edge_config_store" where
  "config_store_set_invalid i e s = bt_insert i (InvalidConfig e) s"

section \<open>What validation establishes\<close>

definition absolute_path_ok :: "string \<Rightarrow> bool" where
  "absolute_path_ok path \<longleftrightarrow>
     is_absolute path \<and> \<not> has_control path \<and> ''..'' \<notin> set (split_on CHR ''/'' path)"

definition redirect_status_ok :: "u16 \<Rightarrow> bool" where
  "redirect_status_ok status \<longleftrightarrow> unat status \<in> {301, 302, 307, 308}"

definition missing_config_ok :: "missing_config \<Rightarrow> bool" where
  "missing_config_ok m =
     (case missing_action m of
        MissingNotFound \<Rightarrow>
          (\<forall>p. missing_page m = Some p \<longrightarrow> absolute_path_ok p) \<and>
          missing_path m = None \<and> missing_to m = None \<and> missing_status m = None
      | MissingServe \<Rightarrow>
          (\<exists>p. missing_path m = Some p \<and> absolute_path_ok p) \<and>
          missing_page m = None \<and> missing_to m = None \<and> missing_status m = None
      | MissingRedirect \<Rightarrow>
          (\<exists>t s. missing_to m = Some t \<and> missing_status m = Some s \<and>
             absolute_path_ok t \<and> redirect_status_ok s) \<and>
          missing_page m = None \<and> missing_path m = None)"

definition edge_hook_ok :: "(string \<Rightarrow> string + url) \<Rightarrow> edge_hook_config \<Rightarrow> bool" where
  "edge_hook_ok parse_url h \<longleftrightarrow>
     \<not> is_blank (hook_name h) \<and> hook_timeout_ms h \<noteq> 0 \<and>
     (\<exists>u. parse_url (hook_url h) = Inr u \<and> url_scheme u \<in> {''http'', ''https''})"

definition edge_config_ok :: "(string \<Rightarrow> string + url) \<Rightarrow> edge_config \<Rightarrow> bool" where
  "edge_config_ok parse_url c \<longleftrightarrow>
     config_version c = 1 \<and> absolute_path_ok (root_object (edge c)) \<and> missing_config_ok (missing c) \<and>
     (\<forall>r \<in> set (redirects c).
        absolute_path_ok (redirect_from r) \<and> absolute_path_ok (redirect_to r) \<and>
        redirect_status_ok (redirect_status r)) \<and>
     (\<forall>r \<in> set (rewrite_rules c). absolute_path_ok (rewrite_from r) \<and> absolute_path_ok (rewrite_to r)) \<and>
     (\<forall>h \<in> set (edges c). edge_hook_ok parse_url h)"

lemma validate_absolute_path_Inr [result_simps]:
  "validate_absolute_path field path = Inr u \<longleftrightarrow> absolute_path_ok path"
  by (auto simp: validate_absolute_path_def absolute_path_ok_def is_absolute_def result_simps)

lemma validate_redirect_status_Inr [result_simps]:
  "validate_redirect_status status = Inr u \<longleftrightarrow> redirect_status_ok status"
  by (auto simp: validate_redirect_status_def redirect_status_ok_def result_simps word_unat_eq_iff)

lemma reject_present_Inr [result_simps]: "reject_present field v = Inr u \<longleftrightarrow> v = None"
  by (auto simp: reject_present_def result_simps)

lemma validate_missing_config_Inr [result_simps]:
  "validate_missing_config m = Inr u \<longleftrightarrow> missing_config_ok m"
  by (cases "missing_action m")
    (auto simp: validate_missing_config_def missing_config_ok_def validate_optional_path_def
      result_simps split: option.splits)

lemma validate_edge_hook_Inr [result_simps]:
  "validate_edge_hook parse_url h = Inr u \<longleftrightarrow> edge_hook_ok parse_url h"
  by (auto simp: validate_edge_hook_def validate_edge_hook_url_def edge_hook_ok_def result_simps)

lemma validate_edge_config_ok:
  "validate_edge_config parse_url c = Inr u \<longleftrightarrow> edge_config_ok parse_url c"
  by (auto simp: validate_edge_config_def edge_config_ok_def validate_redirect_def
      validate_rewrite_def result_simps)

section \<open>Properties\<close>

text \<open>The validation accepts exactly the edge configurations with absolute paths that stay inside, redirect
statuses that redirect, a consistent missing action and hooks with a name, a timeout and an HTTP URL.\<close>

theorem edge_config_validation_exact: "validate_edge_config parse_url c = Inr () \<longleftrightarrow> edge_config_ok parse_url c"
  by (rule validate_edge_config_ok)

text \<open>The configuration used when an origin has none of its own passes the validation.\<close>

theorem default_edge_config_valid: "validate_edge_config parse_url default_edge_config = Inr ()"
  by (simp add: validate_edge_config_ok edge_config_ok_def default_edge_config_def missing_config_ok_def
      absolute_path_ok_def is_absolute_def byte_eval)

end
