(* ===== verification/Edge_Hooks.thy ===== *)
theory Edge_Hooks
  imports Edge_Config
begin

text \<open>
  Edge hooks (\<open>src/services/edge_hooks.rs\<close>, \<open>src/repositories/edge_http.rs\<close>, the request
  and payload records of \<open>src/dto/edge.rs\<close>): what a hook is sent, what its answer does to
  the chain. Sending the HTTP request and decoding the JSON answer are parameters.
\<close>

record edge_hook_context =
  ctx_bucket :: string
  ctx_ip :: "string option"
  ctx_origin :: string
  ctx_edge_context :: "json option"

record edge_hook_http_request =
  req_url :: string
  req_path :: string
  req_querystring :: string
  req_queryparams :: "(string, string) btree"
  req_method :: string
  req_headers :: "(string, string) btree"
  req_body :: string

record edge_hook_request =
  hook_context :: edge_hook_context
  hook_request :: edge_hook_http_request

record edge_hook_payload =
  payload_headers :: "(string, string) btree"
  payload_body :: "string option"
  payload_file_path :: "string option"
  payload_params :: "json option"

record edge_http_response =
  edge_status :: u16
  edge_payload :: edge_hook_payload

text \<open>\<open>StatusCode::from_u16\<close>\<close>

definition status_from_u16 :: "u16 \<Rightarrow> u16 res" where
  "status_from_u16 s =
     (if 100 \<le> unat s \<and> unat s < 1000 then Inr s else Inl (ErrorMsg ''invalid status code''))"

text \<open>The errors of a call: a \<open>reqwest::Error\<close>, which knows whether it is a timeout, or another.\<close>

datatype edge_call_error = ReqwestError (is_timeout: bool) string | OtherCallError anyhow

text \<open>
  \<open>EdgeHttpRepository::call\<close>: \<open>send\<close> posts the request with the timeout and returns the
  status and the body, \<open>decode\<close> is \<open>response.json\<close>.
\<close>

definition edge_http_call ::
    "(string \<Rightarrow> u64 \<Rightarrow> edge_hook_request \<Rightarrow> edge_call_error + u16 \<times> string) \<Rightarrow>
     (string \<Rightarrow> edge_call_error + edge_hook_payload) \<Rightarrow>
     string \<Rightarrow> u64 \<Rightarrow> edge_hook_request \<Rightarrow> edge_call_error + edge_http_response" where
  "edge_http_call send decode url timeout_ms request =
     try_then (send url timeout_ms request) (\<lambda>(code, content).
     try_then (map_err OtherCallError (status_from_u16 code)) (\<lambda>status.
     try_then (decode content) (\<lambda>payload.
     Inr \<lparr>edge_status = status, edge_payload = payload\<rparr>)))"

datatype edge_payload_outcome =
    Continue
  | RespondDirect (direct_status: u16) (direct_body: string)
  | ServeFile (serve_status: u16) (serve_file_path: string) (serve_params: "json option")
  | RenderTarget (target_status: u16) (target_params: json)

definition validate_edge_file_path :: "string \<Rightarrow> unit res" where
  "validate_edge_file_path path =
     fail_if (\<not> starts_with path ''/'' \<or> has_control path \<or> contains_str path ''..'')
       (ErrorMsg (''invalid file_path '' @ path))"

text \<open>\<open>apply_edge_payload\<close>: the outcome and the headers the chain has then collected.\<close>

definition apply_edge_payload ::
    "(string, string) btree \<Rightarrow> u16 \<Rightarrow> edge_hook_payload \<Rightarrow>
     (edge_payload_outcome \<times> (string, string) btree) res" where
  "apply_edge_payload headers status payload =
     try_then
       (case payload_body payload of
          Some body \<Rightarrow> Inr (RespondDirect status body)
        | None \<Rightarrow>
            (case payload_file_path payload of
               Some file_path \<Rightarrow>
                 try_then (validate_edge_file_path file_path) (\<lambda>_.
                 Inr (ServeFile status file_path (payload_params payload)))
             | None \<Rightarrow>
                 (case payload_params payload of
                    Some params \<Rightarrow> Inr (RenderTarget status params)
                  | None \<Rightarrow> Inr Continue)))
       (\<lambda>outcome. Inr (outcome, bt_extend headers (payload_headers payload)))"

definition is_html :: "string \<Rightarrow> string option \<Rightarrow> bool" where
  "is_html path content_type =
     (case content_type of
        Some ct \<Rightarrow> eq_ignore_ascii_case (trim (hd (split_on CHR '';'' ct))) ''text/html''
      | None \<Rightarrow>
          let lower = to_ascii_lowercase path in ends_with lower ''.html'' \<or> ends_with lower ''.htm'')"

section \<open>Facts\<close>

lemma validate_edge_file_path_Inr [result_simps]:
  "validate_edge_file_path path = Inr u \<longleftrightarrow>
     is_absolute path \<and> \<not> has_control path \<and> \<not> contains_str path ''..''"
  by (auto simp: validate_edge_file_path_def is_absolute_def result_simps)

lemma join_with_contains: "seg \<in> set ss \<Longrightarrow> contains_str (join_with sep ss) seg"
proof (induction ss)
  case Nil
  then show ?case by simp
next
  case (Cons s ss)
  show ?case
  proof (cases "ss = []")
    case True
    with Cons.prems show ?thesis by (auto simp: contains_str_iff intro: exI [of _ "[]"])
  next
    case False
    then have join: "join_with sep (s # ss) = s @ sep @ join_with sep ss" by (rule join_with_Cons)
    show ?thesis
    proof (cases "seg = s")
      case True
      then show ?thesis unfolding join contains_str_iff by (metis append_Nil)
    next
      case False
      with Cons obtain u v where "join_with sep ss = u @ seg @ v" by (auto simp: contains_str_iff)
      then show ?thesis unfolding join contains_str_iff by (metis append.assoc)
    qed
  qed
qed

lemma edge_file_path_ok: "validate_edge_file_path path = Inr u \<Longrightarrow> absolute_path_ok path"
  using join_with_contains [of "''..''" "split_on CHR ''/'' path" "''/''"]
  by (auto simp: result_simps absolute_path_ok_def join_split_on)

text \<open>The fields of a payload take precedence in the order body, file, parameters.\<close>

lemma apply_edge_payload_Inr:
  "apply_edge_payload headers status payload = Inr (outcome, headers') \<longleftrightarrow>
     headers' = bt_extend headers (payload_headers payload) \<and>
     (case payload_body payload of
        Some body \<Rightarrow> outcome = RespondDirect status body
      | None \<Rightarrow>
          (case payload_file_path payload of
             Some p \<Rightarrow> validate_edge_file_path p = Inr () \<and> outcome = ServeFile status p (payload_params payload)
           | None \<Rightarrow> outcome = (case payload_params payload of
                 Some params \<Rightarrow> RenderTarget status params | None \<Rightarrow> Continue)))"
  by (auto simp: apply_edge_payload_def try_then_Inr split: option.splits)

section \<open>Properties\<close>

text \<open>The file path a hook asks for is only used when it is absolute and has no parent directory segment
and no control character; otherwise its whole answer is refused and no header of it is kept.\<close>

theorem hook_file_path_safe:
  "apply_edge_payload headers status payload = Inr (ServeFile s p params, headers') \<Longrightarrow>
     absolute_path_ok p \<and> s = status \<and> headers' = bt_extend headers (payload_headers payload)"
  by (auto simp: apply_edge_payload_Inr split: option.splits dest: edge_file_path_ok)

theorem hook_file_path_safe_witness: "absolute_path_ok ''/a.html''"
  using hook_file_path_safe [of "[]" 200 "\<lparr>payload_headers = [], payload_body = None, payload_file_path = Some ''/a.html'',
      payload_params = None\<rparr>" 200 "''/a.html''" None "[]"]
  by (simp add: apply_edge_payload_def validate_edge_file_path_def fail_if_def byte_eval)

end
