(* ===== verification/Freshness.thy ===== *)
theory Freshness
  imports Mirror_Paths
begin

text \<open>
  The freshness index of an origin (\<open>src/services/freshness.rs\<close>): the state of every file
  at one listing, and the difference of two listings. A time stamp is its RFC 3339 text.
\<close>

record remote_object_summary =
  sum_key :: string
  sum_created_at :: "string option"
  sum_last_modified :: "string option"
  sum_size :: u64
  sum_etag :: "string option"
  sum_content_type :: "string option"
  sum_cache_control :: "string option"

record origin_file_state =
  fs_path :: string
  fs_created_at :: "string option"
  fs_last_modified :: "string option"
  fs_captured_at :: string
  fs_size :: u64
  fs_etag :: "string option"
  fs_content_type :: "string option"
  fs_cache_control :: "string option"

record origin_freshness_index =
  index_origin_id :: string
  index_captured_at :: string
  index_files :: "(string, origin_file_state) btree"

record origin_freshness_diff =
  diff_added :: "string bset"
  diff_modified :: "string bset"
  diff_removed :: "string bset"
  diff_unchanged :: "string bset"

datatype freshness_change = FileAdded | FileModified | FileRemoved | FileUnchanged

definition diff_changed_paths :: "origin_freshness_diff \<Rightarrow> string list" where
  "diff_changed_paths d = diff_added d @ diff_modified d"

definition change_for :: "origin_freshness_diff \<Rightarrow> string \<Rightarrow> freshness_change option" where
  "change_for d path =
     (if path \<in> set (diff_added d) then Some FileAdded
      else if path \<in> set (diff_modified d) then Some FileModified
      else if path \<in> set (diff_removed d) then Some FileRemoved
      else if path \<in> set (diff_unchanged d) then Some FileUnchanged
      else None)"

definition file_state_of :: "string \<Rightarrow> string \<Rightarrow> remote_object_summary \<Rightarrow> origin_file_state" where
  "file_state_of captured_at path s =
     \<lparr>fs_path = path, fs_created_at = sum_created_at s, fs_last_modified = sum_last_modified s,
      fs_captured_at = captured_at, fs_size = sum_size s, fs_etag = sum_etag s,
      fs_content_type = sum_content_type s, fs_cache_control = sum_cache_control s\<rparr>"

definition build_origin_index ::
    "string \<Rightarrow> remote_object_summary list \<Rightarrow> string \<Rightarrow> origin_freshness_index res" where
  "build_origin_index origin_id summaries captured_at =
     try_then
       (try_fold (\<lambda>files s.
          try_then (normalize_remote_key (sum_key s)) (\<lambda>path.
          Inr (bt_insert path (file_state_of captured_at path s) files))) [] summaries) (\<lambda>files.
     Inr \<lparr>index_origin_id = origin_id, index_captured_at = captured_at, index_files = files\<rparr>)"

definition same_source_state :: "origin_file_state \<Rightarrow> origin_file_state \<Rightarrow> bool" where
  "same_source_state l r \<longleftrightarrow>
     fs_path l = fs_path r \<and> fs_created_at l = fs_created_at r \<and>
     fs_last_modified l = fs_last_modified r \<and> fs_size l = fs_size r \<and> fs_etag l = fs_etag r \<and>
     fs_content_type l = fs_content_type r \<and> fs_cache_control l = fs_cache_control r"

definition empty_diff :: origin_freshness_diff where
  "empty_diff = \<lparr>diff_added = [], diff_modified = [], diff_removed = [], diff_unchanged = []\<rparr>"

definition diff_file ::
    "(string, origin_file_state) btree \<Rightarrow> origin_freshness_diff \<Rightarrow> string \<times> origin_file_state \<Rightarrow>
     origin_freshness_diff" where
  "diff_file previous d entry =
     (case entry of (path, next_file) \<Rightarrow>
       case bt_get previous path of
         Some previous_file \<Rightarrow>
           if same_source_state previous_file next_file
           then d\<lparr>diff_unchanged := bset_insert path (diff_unchanged d)\<rparr>
           else d\<lparr>diff_modified := bset_insert path (diff_modified d)\<rparr>
       | None \<Rightarrow> d\<lparr>diff_added := bset_insert path (diff_added d)\<rparr>)"

definition diff_missing ::
    "(string, origin_file_state) btree \<Rightarrow> origin_freshness_diff \<Rightarrow> string \<Rightarrow> origin_freshness_diff" where
  "diff_missing files d path =
     (if \<not> bt_contains files path then d\<lparr>diff_removed := bset_insert path (diff_removed d)\<rparr> else d)"

definition diff_origin_indexes ::
    "origin_freshness_index option \<Rightarrow> origin_freshness_index \<Rightarrow> origin_freshness_diff" where
  "diff_origin_indexes previous next_index =
     (case previous of
        None \<Rightarrow> empty_diff\<lparr>diff_added := bset_of (bt_keys (index_files next_index))\<rparr>
      | Some p \<Rightarrow>
          foldl (diff_missing (index_files next_index))
            (foldl (diff_file (index_files p)) empty_diff (index_files next_index))
            (bt_keys (index_files p)))"

section \<open>What an index holds\<close>

lemma build_origin_index_fold:
  assumes "try_fold (\<lambda>files s.
      try_then (normalize_remote_key (sum_key s)) (\<lambda>path.
      Inr (bt_insert path (file_state_of t path s) files))) files summaries = Inr files'"
    and "bt_ok files"
  shows "bt_ok files' \<and> (\<forall>s \<in> set summaries. accepted_key (sum_key s)) \<and>
     bt_get files' = bt_get files ++ map_of (rev (map (\<lambda>s. (sum_key s, file_state_of t (sum_key s) s)) summaries))"
  using assms
proof (induction summaries arbitrary: files)
  case Nil
  then show ?case by simp
next
  case (Cons s summaries)
  then show ?case
    by (auto simp: result_simps map_add_def fun_eq_iff split: option.splits dest!: Cons.IH)
qed

lemma build_origin_index_Inr:
  assumes "build_origin_index i summaries t = Inr index"
  shows "bt_ok (index_files index)" and "\<forall>s \<in> set summaries. accepted_key (sum_key s)"
    and "bt_get (index_files index) =
           map_of (rev (map (\<lambda>s. (sum_key s, file_state_of t (sum_key s) s)) summaries))"
  using assms build_origin_index_fold [where files = "[]" and t = t and summaries = summaries]
  by (auto simp: build_origin_index_def result_simps)

lemma build_origin_index_fails:
  assumes "s \<in> set summaries" and "\<not> accepted_key (sum_key s)"
  shows "\<exists>key. build_origin_index i summaries t = Inl (invalid_object_path key)"
proof (cases "build_origin_index i summaries t")
  case (Inr index)
  with assms build_origin_index_Inr(2) show ?thesis by blast
next
  case (Inl e)
  have "\<exists>key. try_fold (\<lambda>files s.
      try_then (normalize_remote_key (sum_key s)) (\<lambda>path.
      Inr (bt_insert path (file_state_of t path s) files))) files xs = Inl e \<longrightarrow> e = invalid_object_path key"
    for files xs
  proof (induction xs arbitrary: files)
    case Nil
    then show ?case by simp
  next
    case (Cons x xs)
    show ?case
    proof (cases "accepted_key (sum_key x)")
      case True
      then have "normalize_remote_key (sum_key x) = Inr (sum_key x)" by (simp add: result_simps)
      with Cons.IH show ?thesis by simp
    qed (auto simp: normalize_remote_key_Inl)
  qed
  from this [of "[]" summaries] Inl show ?thesis
    by (auto simp: build_origin_index_def result_simps)
qed

section \<open>What a difference says\<close>

lemma diff_file_sets:
  "k \<in> set (diff_added (diff_file p d e)) \<longleftrightarrow>
     k \<in> set (diff_added d) \<or> (fst e = k \<and> bt_get p k = None)"
  "k \<in> set (diff_modified (diff_file p d e)) \<longleftrightarrow>
     k \<in> set (diff_modified d) \<or>
     (fst e = k \<and> (\<exists>g. bt_get p k = Some g \<and> \<not> same_source_state g (snd e)))"
  "k \<in> set (diff_unchanged (diff_file p d e)) \<longleftrightarrow>
     k \<in> set (diff_unchanged d) \<or>
     (fst e = k \<and> (\<exists>g. bt_get p k = Some g \<and> same_source_state g (snd e)))"
  "diff_removed (diff_file p d e) = diff_removed d"
  by (cases e; cases "bt_get p (fst e)"; auto simp: diff_file_def)+

lemma foldl_diff_file:
  "k \<in> set (diff_added (foldl (diff_file p) d es)) \<longleftrightarrow>
     k \<in> set (diff_added d) \<or> (\<exists>e \<in> set es. fst e = k \<and> bt_get p k = None)"
  "k \<in> set (diff_modified (foldl (diff_file p) d es)) \<longleftrightarrow>
     k \<in> set (diff_modified d) \<or>
     (\<exists>e \<in> set es. fst e = k \<and> (\<exists>g. bt_get p k = Some g \<and> \<not> same_source_state g (snd e)))"
  "k \<in> set (diff_unchanged (foldl (diff_file p) d es)) \<longleftrightarrow>
     k \<in> set (diff_unchanged d) \<or>
     (\<exists>e \<in> set es. fst e = k \<and> (\<exists>g. bt_get p k = Some g \<and> same_source_state g (snd e)))"
  "diff_removed (foldl (diff_file p) d es) = diff_removed d"
  subgoal by (induction es arbitrary: d) (auto simp: diff_file_sets)
  subgoal by (induction es arbitrary: d) (auto simp: diff_file_sets)
  subgoal by (induction es arbitrary: d) (auto simp: diff_file_sets)
  subgoal by (induction es arbitrary: d) (auto simp: diff_file_sets)
  done

lemma diff_missing_sets:
  "diff_added (diff_missing fs d k) = diff_added d"
  "diff_modified (diff_missing fs d k) = diff_modified d"
  "diff_unchanged (diff_missing fs d k) = diff_unchanged d"
  "x \<in> set (diff_removed (diff_missing fs d k)) \<longleftrightarrow>
     x \<in> set (diff_removed d) \<or> (k = x \<and> bt_get fs x = None)"
  by (auto simp: diff_missing_def bt_contains_def)

lemma foldl_diff_missing:
  "diff_added (foldl (diff_missing fs) d ks) = diff_added d"
  "diff_modified (foldl (diff_missing fs) d ks) = diff_modified d"
  "diff_unchanged (foldl (diff_missing fs) d ks) = diff_unchanged d"
  "x \<in> set (diff_removed (foldl (diff_missing fs) d ks)) \<longleftrightarrow>
     x \<in> set (diff_removed d) \<or> (x \<in> set ks \<and> bt_get fs x = None)"
  subgoal by (induction ks arbitrary: d) (auto simp: diff_missing_sets)
  subgoal by (induction ks arbitrary: d) (auto simp: diff_missing_sets)
  subgoal by (induction ks arbitrary: d) (auto simp: diff_missing_sets)
  subgoal by (induction ks arbitrary: d) (auto simp: diff_missing_sets)
  done

definition diff_ok :: "origin_freshness_diff \<Rightarrow> bool" where
  "diff_ok d \<longleftrightarrow> bset_ok (diff_added d) \<and> bset_ok (diff_modified d) \<and>
     bset_ok (diff_removed d) \<and> bset_ok (diff_unchanged d)"

lemma diff_ok_file: "diff_ok d \<Longrightarrow> diff_ok (diff_file p d e)"
  by (cases e) (auto simp: diff_ok_def diff_file_def split: option.split)

lemma diff_ok_missing: "diff_ok d \<Longrightarrow> diff_ok (diff_missing fs d k)"
  by (auto simp: diff_ok_def diff_missing_def)

lemma diff_ok_fold_file: "diff_ok d \<Longrightarrow> diff_ok (foldl (diff_file p) d es)"
  by (induction es arbitrary: d) (simp_all add: diff_ok_file)

lemma diff_ok_fold_missing: "diff_ok d \<Longrightarrow> diff_ok (foldl (diff_missing fs) d ks)"
  by (induction ks arbitrary: d) (simp_all add: diff_ok_missing)

lemma diff_origin_indexes_ok: "diff_ok (diff_origin_indexes previous next_index)"
proof -
  have "diff_ok empty_diff" by (simp add: empty_diff_def diff_ok_def)
  then show ?thesis
    by (cases previous)
      (simp_all add: diff_origin_indexes_def diff_ok_fold_file diff_ok_fold_missing,
        simp add: diff_ok_def empty_diff_def)
qed

text \<open>The file states of an optional index.\<close>

definition indexed :: "origin_freshness_index option \<Rightarrow> string \<Rightarrow> origin_file_state option" where
  "indexed previous path = (case previous of None \<Rightarrow> None | Some p \<Rightarrow> bt_get (index_files p) path)"

lemma bt_entry_ex: "bt_ok m \<Longrightarrow> (\<exists>e \<in> set m. fst e = k \<and> P (snd e)) \<longleftrightarrow> (\<exists>v. bt_get m k = Some v \<and> P v)"
  by (force simp: bt_ok_entry [symmetric])

lemma diff_sets:
  fixes previous
  assumes ok: "bt_ok (index_files next_index)"
  defines "d \<equiv> diff_origin_indexes previous next_index"
  shows "k \<in> set (diff_added d) \<longleftrightarrow>
      (\<exists>f. bt_get (index_files next_index) k = Some f) \<and> indexed previous k = None"
    and "k \<in> set (diff_removed d) \<longleftrightarrow>
      bt_get (index_files next_index) k = None \<and> (\<exists>g. indexed previous k = Some g)"
    and "k \<in> set (diff_modified d) \<longleftrightarrow>
      (\<exists>f. bt_get (index_files next_index) k = Some f \<and>
        (\<exists>g. indexed previous k = Some g \<and> \<not> same_source_state g f))"
    and "k \<in> set (diff_unchanged d) \<longleftrightarrow>
      (\<exists>f. bt_get (index_files next_index) k = Some f \<and>
        (\<exists>g. indexed previous k = Some g \<and> same_source_state g f))"
proof -
  have key: "k \<in> set (bt_keys m) \<longleftrightarrow> (\<exists>v. bt_get m k = Some v)" for m :: "(string, origin_file_state) btree"
    by (metis map_of_eq_None_iff not_None_eq set_map)
  note sets = d_def diff_origin_indexes_def foldl_diff_file foldl_diff_missing empty_diff_def indexed_def
  show "k \<in> set (diff_added d) \<longleftrightarrow>
      (\<exists>f. bt_get (index_files next_index) k = Some f) \<and> indexed previous k = None"
    using bt_entry_ex [OF ok, of k "\<lambda>_. indexed previous k = None"] key [of "index_files next_index"]
    by (cases previous) (simp_all add: sets)
  show "k \<in> set (diff_removed d) \<longleftrightarrow>
      bt_get (index_files next_index) k = None \<and> (\<exists>g. indexed previous k = Some g)"
    using key by (cases previous) (auto simp: sets)
  show "k \<in> set (diff_modified d) \<longleftrightarrow>
      (\<exists>f. bt_get (index_files next_index) k = Some f \<and>
        (\<exists>g. indexed previous k = Some g \<and> \<not> same_source_state g f))"
    using bt_entry_ex [OF ok, of k "\<lambda>f. \<exists>g. indexed previous k = Some g \<and> \<not> same_source_state g f"]
    by (cases previous) (simp_all add: sets)
  show "k \<in> set (diff_unchanged d) \<longleftrightarrow>
      (\<exists>f. bt_get (index_files next_index) k = Some f \<and>
        (\<exists>g. indexed previous k = Some g \<and> same_source_state g f))"
    using bt_entry_ex [OF ok, of k "\<lambda>f. \<exists>g. indexed previous k = Some g \<and> same_source_state g f"]
    by (cases previous) (simp_all add: sets)
qed

lemma diff_changed_listed:
  assumes "bt_ok (index_files index)"
  shows "set (diff_changed_paths (diff_origin_indexes previous index)) \<subseteq> set (bt_keys (index_files index))"
proof
  fix k assume "k \<in> set (diff_changed_paths (diff_origin_indexes previous index))"
  then obtain f where "bt_get (index_files index) k = Some f"
    using diff_sets(1,3) [OF assms, of k previous] by (auto simp: diff_changed_paths_def)
  then show "k \<in> set (bt_keys (index_files index))" by (force dest: map_of_SomeD)
qed

section \<open>Properties\<close>

text \<open>The difference of two indexes puts every known path into exactly one class: added, modified,
removed or unchanged, as the two states of the path say.\<close>

theorem diff_classifies_paths:
  assumes "bt_ok (index_files next_index)"
  shows "change_for (diff_origin_indexes previous next_index) path =
     (case (indexed previous path, bt_get (index_files next_index) path) of
        (None, None) \<Rightarrow> None
      | (None, Some _) \<Rightarrow> Some FileAdded
      | (Some _, None) \<Rightarrow> Some FileRemoved
      | (Some old, Some new) \<Rightarrow> Some (if same_source_state old new then FileUnchanged else FileModified))"
proof (cases "bt_get (index_files next_index) path")
  case None
  then show ?thesis
    by (cases "indexed previous path") (simp_all add: change_for_def diff_sets [OF assms])
next
  case (Some new)
  then show ?thesis
    by (cases "indexed previous path") (auto simp: change_for_def diff_sets [OF assms])
qed

definition example_state :: "string \<Rightarrow> u64 \<Rightarrow> origin_file_state" where
  "example_state path bytes = \<lparr>fs_path = path, fs_created_at = None, fs_last_modified = None, fs_captured_at = [],
     fs_size = bytes, fs_etag = None, fs_content_type = None, fs_cache_control = None\<rparr>"

theorem diff_classifies_paths_witness:
  "change_for (diff_origin_indexes
       (Some \<lparr>index_origin_id = ''web'', index_captured_at = [], index_files = [(''a'', example_state ''a'' 1)]\<rparr>)
       \<lparr>index_origin_id = ''web'', index_captured_at = [], index_files = [(''a'', example_state ''a'' 2)]\<rparr>) ''a'' =
     Some FileModified"
  using diff_classifies_paths [of "\<lparr>index_origin_id = ''web'', index_captured_at = [], index_files = [(''a'', example_state ''a'' 2)]\<rparr>"]
  by (simp add: indexed_def same_source_state_def example_state_def)

text \<open>A listing with a key that is not accepted is refused as a whole; otherwise the index holds the last
entry listed under each key and nothing else.\<close>

theorem index_of_listing:
  "case build_origin_index i summaries t of
     Inr index \<Rightarrow> set (map sum_key summaries) \<subseteq> Collect accepted_key \<and> bt_ok (index_files index) \<and>
       bt_get (index_files index) =
         map_of (rev (map (\<lambda>s. (sum_key s, file_state_of t (sum_key s) s)) summaries))
   | Inl e \<Rightarrow> \<not> set (map sum_key summaries) \<subseteq> Collect accepted_key"
proof (cases "build_origin_index i summaries t")
  case (Inr index)
  then show ?thesis using build_origin_index_Inr [OF Inr] by auto
next
  case (Inl e)
  have fold: "\<exists>files'. try_fold (\<lambda>files s. try_then (normalize_remote_key (sum_key s)) (\<lambda>path.
      Inr (bt_insert path (file_state_of t path s) files))) files xs = Inr files'"
    if "set (map sum_key xs) \<subseteq> Collect accepted_key" for files xs
    using that
  proof (induction xs arbitrary: files)
    case (Cons s xs)
    then have "normalize_remote_key (sum_key s) = Inr (sum_key s)" by (simp add: normalize_remote_key_Inr)
    then show ?case using Cons by simp
  qed simp
  have "\<not> set (map sum_key summaries) \<subseteq> Collect accepted_key"
  proof
    assume "set (map sum_key summaries) \<subseteq> Collect accepted_key"
    from fold [OF this, of "[]"] Inl show False by (auto simp: build_origin_index_def)
  qed
  then show ?thesis using Inl by simp
qed

end
