(* ===== verification/Template_Store.thy ===== *)
theory Template_Store
  imports Dir_Walk Local_Mirror Edge_Hooks Freshness
begin

text \<open>
  The templates of the origins (\<open>src/services/template_store.rs\<close>). A Handlebars registry is
  the map of its registered names; what a compiled template is (\<open>'t\<close>), the compiler and the
  renderer are parameters.
\<close>

section \<open>Registries\<close>

type_synonym 't registry = "(string, 't) btree"

type_synonym 't template_store = "(string, 't registry) btree"

definition register_template ::
    "(string \<Rightarrow> string + 't) \<Rightarrow> string \<Rightarrow> string \<Rightarrow> 't registry \<Rightarrow> 't registry res" where
  "register_template compile key body registry =
     try_then (map_err ErrorMsg (compile body)) (\<lambda>template. Inr (bt_insert key template registry))"

definition unregister_template :: "string \<Rightarrow> 't registry \<Rightarrow> 't registry" where
  "unregister_template key registry = bt_remove key registry"

text \<open>The body of an object as a template.\<close>

definition add_template ::
    "(string \<Rightarrow> string + 't) \<Rightarrow> string \<Rightarrow> string \<Rightarrow> string \<Rightarrow> 't registry \<Rightarrow> 't registry res" where
  "add_template compile origin_id key body registry =
     try_then (if valid_utf8 body then Inr body
               else Inl (ErrorContext (''template '' @ origin_id @ ''/'' @ key @ '' is not valid utf-8'')
                      (ErrorMsg ''invalid utf-8 sequence''))) (\<lambda>content.
     with_context (''compile template '' @ origin_id @ ''/'' @ key)
       (register_template compile key content registry))"

section \<open>Loading an origin\<close>

definition template_relative_key :: "pathbuf \<Rightarrow> pathbuf \<Rightarrow> string res" where
  "template_relative_key dir p =
     (if path_starts_with p dir
      then normalize_object_path
             (join_with ''/'' (filter_map (\<lambda>c. case c of Normal part \<Rightarrow> Some part | _ \<Rightarrow> None)
                (drop (length (path_components dir)) (path_components p))))
      else Inl (ErrorContext (''template path '' @ p @ '' is outside origin dir'')
             (ErrorMsg ''prefix not found'')))"

fun mirror_entries ::
    "pathbuf \<Rightarrow> pathbuf \<Rightarrow> (string \<times> fs_node) list \<Rightarrow> string list \<Rightarrow> pathbuf list \<Rightarrow>
     (anyhow, string list \<times> pathbuf list) io" where
  "mirror_entries base dir [] files pushed =
     io_then (io_try io_next_entry) (\<lambda>_. io_return (files, pushed))"
| "mirror_entries base dir ((name, node) # entries) files pushed =
     io_then (io_try io_next_entry) (\<lambda>_.
     let p = join_path dir name in
     io_then (io_try io_file_type) (\<lambda>_.
     case node of
       DirNode \<Rightarrow>
         if same_path p (join_path base METADATA_DIR_NAME)
         then mirror_entries base dir entries files pushed
         else mirror_entries base dir entries files (pushed @ [p])
     | FileNode _ \<Rightarrow>
         io_then (io_lift (template_relative_key base p)) (\<lambda>key.
         mirror_entries base dir entries (files @ [key]) pushed)))"

definition mirror_dir ::
    "pathbuf \<Rightarrow> pathbuf \<Rightarrow> string list \<Rightarrow> (anyhow, string list \<times> pathbuf list) io" where
  "mirror_dir base dir files =
     io_match (io_read_dir dir) (\<lambda>r.
       case r of
         Inr entries \<Rightarrow> mirror_entries base dir entries files []
       | Inl NotFound \<Rightarrow> io_return (files, [])
       | Inl e \<Rightarrow> io_fail (ErrorContext (''read mirror dir '' @ dir) (io_anyhow e)))"

definition mirror_files :: "pathbuf \<Rightarrow> (anyhow, string list) io" where
  "mirror_files base = walk_dirs (mirror_dir base) [base] []"

fun load_templates ::
    "(string \<Rightarrow> string) \<Rightarrow> (string \<Rightarrow> string + object_metadata) \<Rightarrow> (string \<Rightarrow> string + 't) \<Rightarrow>
     pathbuf \<Rightarrow> string \<Rightarrow> string list \<Rightarrow> 't registry \<Rightarrow> (anyhow, 't registry) io" where
  "load_templates sha256 parse compile root origin_id [] registry = io_return registry"
| "load_templates sha256 parse compile root origin_id (key # keys) registry =
     io_then (read_object sha256 parse root origin_id key) (\<lambda>found.
     case found of
       None \<Rightarrow> load_templates sha256 parse compile root origin_id keys registry
     | Some obj \<Rightarrow>
         if \<not> is_html key (meta_content_type (object_metadata obj))
         then load_templates sha256 parse compile root origin_id keys registry
         else
           io_then (io_lift (add_template compile origin_id key (object_body obj) registry))
             (load_templates sha256 parse compile root origin_id keys))"

definition load_origin_registry ::
    "(string \<Rightarrow> string) \<Rightarrow> (string \<Rightarrow> string + object_metadata) \<Rightarrow> (string \<Rightarrow> string + 't) \<Rightarrow>
     pathbuf \<Rightarrow> string \<Rightarrow> (anyhow, 't registry) io" where
  "load_origin_registry sha256 parse compile root origin_id =
     io_then (io_lift (origin_dir root origin_id)) (\<lambda>dir.
     io_then (mirror_files dir) (\<lambda>files.
     load_templates sha256 parse compile root origin_id files []))"

definition load_origin_templates ::
    "(string \<Rightarrow> string) \<Rightarrow> (string \<Rightarrow> string + object_metadata) \<Rightarrow> (string \<Rightarrow> string + 't) \<Rightarrow>
     pathbuf \<Rightarrow> string \<Rightarrow> 't template_store \<Rightarrow> (anyhow, 't template_store) io" where
  "load_origin_templates sha256 parse compile root origin_id store =
     io_then (load_origin_registry sha256 parse compile root origin_id) (\<lambda>registry.
     io_return (bt_insert origin_id registry store))"

section \<open>Updating an origin\<close>

fun update_templates ::
    "(string \<Rightarrow> string) \<Rightarrow> (string \<Rightarrow> string + object_metadata) \<Rightarrow> (string \<Rightarrow> string + 't) \<Rightarrow>
     pathbuf \<Rightarrow> string \<Rightarrow> string \<Rightarrow> string list \<Rightarrow> 't registry \<Rightarrow> (anyhow, 't registry) io" where
  "update_templates sha256 parse compile root origin_id mirror_id [] registry = io_return registry"
| "update_templates sha256 parse compile root origin_id mirror_id (key # keys) registry =
     io_then (read_object sha256 parse root mirror_id key) (\<lambda>found.
     case found of
       None \<Rightarrow>
         update_templates sha256 parse compile root origin_id mirror_id keys
           (unregister_template key registry)
     | Some obj \<Rightarrow>
         if \<not> is_html key (meta_content_type (object_metadata obj))
         then update_templates sha256 parse compile root origin_id mirror_id keys
                (unregister_template key registry)
         else
           io_then (io_lift (add_template compile origin_id key (object_body obj) registry))
             (update_templates sha256 parse compile root origin_id mirror_id keys))"

definition compile_template_update_from_mirror ::
    "(string \<Rightarrow> string) \<Rightarrow> (string \<Rightarrow> string + object_metadata) \<Rightarrow> (string \<Rightarrow> string + 't) \<Rightarrow>
     't template_store \<Rightarrow> string \<Rightarrow> string \<Rightarrow> pathbuf \<Rightarrow> origin_freshness_diff \<Rightarrow> (anyhow, 't registry) io" where
  "compile_template_update_from_mirror sha256 parse compile store origin_id mirror_id root d =
     (let registry = (case bt_get store origin_id of Some r \<Rightarrow> r | None \<Rightarrow> []);
          pruned = foldl (\<lambda>r key. unregister_template key r) registry (diff_removed d)
      in update_templates sha256 parse compile root origin_id mirror_id (diff_changed_paths d) pruned)"

definition set_origin_registry :: "string \<Rightarrow> 't registry \<Rightarrow> 't template_store \<Rightarrow> 't template_store" where
  "set_origin_registry origin_id registry store = bt_insert origin_id registry store"

section \<open>Rendering\<close>

datatype template_error = NotHtml | RenderFailed string

definition render_template ::
    "('t registry \<Rightarrow> string \<Rightarrow> json \<Rightarrow> string + string) \<Rightarrow> 't template_store \<Rightarrow> string \<Rightarrow> string \<Rightarrow> json \<Rightarrow>
     template_error + string" where
  "render_template render store origin_id path params =
     try_then (map_err (\<lambda>_. NotHtml) (normalize_object_path path)) (\<lambda>key.
     case bt_get store origin_id of
       None \<Rightarrow> Inl NotHtml
     | Some registry \<Rightarrow>
         if \<not> bt_contains registry key then Inl NotHtml
         else map_err RenderFailed (render registry key params))"

section \<open>Facts\<close>

lemma keeps_mirror_entries [keeps_intros]: "keeps K (mirror_entries base dir entries files pushed)"
  by (induction base dir entries files pushed rule: mirror_entries.induct)
    (auto intro!: keeps_intros simp: Let_def split: fs_node.split)

lemma keeps_mirror_files [keeps_intros]: "keeps K (mirror_files base)"
  unfolding mirror_files_def mirror_dir_def
  by (auto intro!: keeps_intros split: sum.split io_error.split)

lemma keeps_load_templates [keeps_intros]:
  "keeps K (load_templates sha256 parse compile root i keys registry)"
  by (induction keys arbitrary: registry)
    (auto intro!: keeps_intros split: option.split)

lemma keeps_load_origin_templates [keeps_intros]:
  "keeps K (load_origin_templates sha256 parse compile root i store)"
  unfolding load_origin_templates_def load_origin_registry_def by (intro keeps_intros)

lemma keeps_update_templates [keeps_intros]:
  "keeps K (update_templates sha256 parse compile root i mirror_id keys registry)"
  by (induction keys arbitrary: registry)
    (auto intro!: keeps_intros split: option.split)

lemma keeps_compile_template_update [keeps_intros]:
  "keeps K (compile_template_update_from_mirror sha256 parse compile store i mirror_id root d)"
  unfolding compile_template_update_from_mirror_def Let_def by (intro keeps_intros)

text \<open>Only a key that is registered renders, and nothing renders for an unknown origin.\<close>

lemma render_template_Inr:
  "render_template render store i path params = Inr out \<longleftrightarrow>
     (\<exists>registry. bt_get store i = Some registry \<and> readable_key (requested_key path) \<and>
        requested_key path \<in> set (bt_keys registry) \<and>
        render registry (requested_key path) params = Inr out)"
  by (auto simp: render_template_def result_simps bt_contains_iff split: option.splits if_splits)

lemma add_template_Inr [result_simps]:
  "add_template compile i key body registry = Inr r \<longleftrightarrow>
     valid_utf8 body \<and> (\<exists>t. compile body = Inr t \<and> r = bt_insert key t registry)"
  by (auto simp: add_template_def register_template_def result_simps)

lemma bt_ok_unregister: "bt_ok registry \<Longrightarrow> bt_ok (unregister_template key registry)"
  by (simp add: unregister_template_def)

text \<open>What an update makes of one key, given the object the mirror holds under it.\<close>

definition template_for :: "(string \<Rightarrow> string + 't) \<Rightarrow> string \<Rightarrow> local_object option \<Rightarrow> 't option" where
  "template_for compile key found =
     (case found of
        None \<Rightarrow> None
      | Some obj \<Rightarrow>
          if is_html key (meta_content_type (object_metadata obj))
          then result_ok (compile (object_body obj)) else None)"

definition updated_registry ::
    "(string \<Rightarrow> string + 't) \<Rightarrow> string \<Rightarrow> string \<Rightarrow> local_object option \<Rightarrow> 't registry \<Rightarrow> 't registry res" where
  "updated_registry compile origin_id key found registry =
     (case found of
        None \<Rightarrow> Inr (unregister_template key registry)
      | Some obj \<Rightarrow>
          if \<not> is_html key (meta_content_type (object_metadata obj))
          then Inr (unregister_template key registry)
          else add_template compile origin_id key (object_body obj) registry)"

lemma update_templates_step:
  "update_templates sha256 parse compile root i mirror_id (key # keys) registry =
     io_then (read_object sha256 parse root mirror_id key) (\<lambda>found.
     io_then (io_lift (updated_registry compile i key found registry))
       (update_templates sha256 parse compile root i mirror_id keys))"
  by (rule ext)
    (auto simp: updated_registry_def io_then_def io_lift_def split: option.split prod.split sum.split)

declare update_templates.simps(2) [simp del]

lemma updated_registry_Inr:
  assumes "updated_registry compile i key found registry = Inr r" and "bt_ok registry"
  shows "bt_ok r" and "bt_get r = (bt_get registry)(key := template_for compile key found)"
  using assms
  by (auto simp: updated_registry_def template_for_def unregister_template_def result_simps
      split: option.splits if_splits)

text \<open>An update recompiles the changed keys from the mirror and keeps all others.\<close>

lemma update_templates_Inr:
  assumes "update_templates sha256 parse compile root i mirror_id keys registry w = (Inr r, w')"
    and "bt_ok registry"
  shows "bt_ok r \<and>
     (\<forall>k. bt_get r k =
        (if k \<in> set keys
         then (case stored_object sha256 parse root mirror_id k (world_fs w) of
                 Inr found \<Rightarrow> template_for compile k found | Inl _ \<Rightarrow> None)
         else bt_get registry k))"
  using assms
proof (induction keys arbitrary: registry w)
  case Nil
  then show ?case by (simp add: io_return_def)
next
  case (Cons key keys)
  from Cons.prems(1) obtain found w1 r1 where
      found: "read_object sha256 parse root mirror_id key w = (Inr found, w1)"
      and r1: "updated_registry compile i key found registry = Inr r1"
      and rest: "update_templates sha256 parse compile root i mirror_id keys r1 w1 = (Inr r, w')"
    by (auto simp: update_templates_step io_then_Inr io_lift_def)
  note reg = updated_registry_Inr [OF r1 Cons.prems(2)]
  have fs: "world_fs w1 = world_fs w"
      "stored_object sha256 parse root mirror_id key (world_fs w) = Inr found"
    using readsD(1,4) [OF reads_read_object found] .
  from Cons.IH [OF rest reg(1)] show ?case using fs reg(2) by auto
qed

section \<open>Walking the mirror\<close>

lemma mirror_entries_pushed:
  "mirror_entries base dir entries files pushed w = (Inr (files', pushed'), v) \<Longrightarrow>
   \<exists>names. subseq names (dir_names entries) \<and> pushed' = pushed @ map (join_path dir) names"
proof (induction base dir entries files pushed arbitrary: w rule: mirror_entries.induct)
  case (1 base dir files pushed)
  then show ?case by (auto simp: io_then_Inr io_return_def)
next
  case (2 base dir name node entries files pushed)
  show ?case
  proof (cases node)
    case (FileNode content)
    from 2(4) show ?thesis
      by (auto simp: io_then_Inr Let_def FileNode dest!: 2(1) [OF refl FileNode])
  next
    case DirNode
    then show ?thesis
    proof (cases "same_path (join_path dir name) (join_path base METADATA_DIR_NAME)")
      case True
      from 2(4) obtain u where "mirror_entries base dir entries files pushed u = (Inr (files', pushed'), v)"
        using True DirNode by (auto simp: io_then_Inr Let_def)
      then show ?thesis using 2(2) [OF refl DirNode True] DirNode by auto
    next
      case False
      from 2(4) obtain u where
          "mirror_entries base dir entries files (pushed @ [join_path dir name]) u = (Inr (files', pushed'), v)"
        using False DirNode by (auto simp: io_then_Inr Let_def)
      then obtain names where "subseq names (dir_names entries)"
          "pushed' = pushed @ [join_path dir name] @ map (join_path dir) names"
        using 2(3) [OF refl DirNode False] by auto
      then show ?thesis using DirNode by (intro exI [of _ "name # names"]) auto
    qed
  qed
qed

lemma keeps_mirror_dir [keeps_intros]: "keeps K (mirror_dir base dir files)"
  unfolding mirror_dir_def by (auto intro!: keeps_intros split: sum.split io_error.split)

lemma ok_mirror_entries [ok_intros]: "io_ok (mirror_entries base dir entries files pushed)"
  by (induction base dir entries files pushed rule: mirror_entries.induct)
    (auto intro!: ok_intros simp: Let_def split: fs_node.split)

lemma ok_mirror_dir [ok_intros]: "io_ok (mirror_dir base dir files)"
  unfolding mirror_dir_def by (auto intro!: ok_intros split: sum.split io_error.split)

lemma mirror_dir_pushed:
  assumes "mirror_dir base dir files w = (Inr (files', pushed), v)" and "fs_ok (world_fs w)"
  shows "distinct (map fs_key pushed) \<and>
    (\<forall>p \<in> set pushed. \<exists>name. fs_key p = fs_key dir @ [Normal name] \<and> is_dir (world_fs w) (fs_key p))"
proof -
  from assms(1) obtain s u where read: "io_read_dir dir w = (s, u)"
      and go: "(case s of
         Inr entries \<Rightarrow> mirror_entries base dir entries files []
       | Inl NotFound \<Rightarrow> io_return (files, [])
       | Inl e \<Rightarrow> io_fail (ErrorContext (''read mirror dir '' @ dir) (io_anyhow e))) u = (Inr (files', pushed), v)"
    unfolding mirror_dir_def by (rule io_match_cases)
  show ?thesis
  proof (cases s)
    case (Inl e)
    with go show ?thesis by (cases e) (auto simp: io_return_def io_fail_def)
  next
    case (Inr entries)
    with go obtain names where names: "subseq names (dir_names entries)" "pushed = map (join_path dir) names"
      by (auto dest: mirror_entries_pushed)
    have "entries = fs_children (world_fs w) (fs_key dir)" using io_read_dir_Inr read Inr by blast
    note facts = pushed_children [OF assms(2) names(1) [unfolded this]]
    show ?thesis using facts distinct_joined [of names dir] names(2) by (auto simp: fs_key_join)
  qed
qed

interpretation mirror_walk: dir_walk "mirror_dir base" fs_key "fs_key base" "\<lambda>_. True" for base
proof
  fix d acc
  show "io_ok (mirror_dir base d acc)" by (rule ok_intros)
next
  fix d acc and w :: world and r w' k
  assume "mirror_dir base d acc w = (r, w')" "is_dir (world_fs w') k"
  then show "is_dir (world_fs w) k"
    using keepsD [OF keeps_mirror_dir [of UNIV]] by (auto simp: is_dir_def)
next
  fix d acc and w :: world and acc' pushed w'
  assume "mirror_dir base d acc w = (Inr (acc', pushed), w')" "fs_ok (world_fs w)"
  then show "distinct (map fs_key pushed) \<and>
      (\<forall>p \<in> set pushed. True \<and> (\<exists>name. fs_key p = fs_key d @ [Normal name] \<and> is_dir (world_fs w) (fs_key p)))"
    using mirror_dir_pushed by simp
qed

text \<open>The walk over the mirror of an origin ends.\<close>

lemma mirror_files_ends:
  assumes "fs_ok (world_fs w)"
  shows "walk (mirror_dir base) (walk_fuel [base] w) [base] files w = Some (walk_dirs (mirror_dir base) [base] files w)"
  using mirror_walk.walk_dirs_returns [of base base w files] assms by (auto simp: walk_dirs_def)

lemma update_templates_read:
  assumes "update_templates sha256 parse compile root i mirror_id keys registry w = (Inr r, w')"
  shows "\<forall>k \<in> set keys. \<exists>found. stored_object sha256 parse root mirror_id k (world_fs w) = Inr found"
  using assms
proof (induction keys arbitrary: registry w)
  case (Cons key keys)
  from Cons.prems obtain found w1 r1 where
      found: "read_object sha256 parse root mirror_id key w = (Inr found, w1)"
      and rest: "update_templates sha256 parse compile root i mirror_id keys r1 w1 = (Inr r, w')"
    by (auto simp: update_templates_step io_then_Inr io_lift_def)
  have "world_fs w1 = world_fs w" "stored_object sha256 parse root mirror_id key (world_fs w) = Inr found"
    using readsD(1,4) [OF reads_read_object found] .
  then show ?case using Cons.IH [OF rest] by auto
qed simp

lemma pruned_registry:
  "bt_ok registry \<Longrightarrow> bt_ok (foldl (\<lambda>r key. unregister_template key r) registry keys) \<and>
   (\<forall>k. bt_get (foldl (\<lambda>r key. unregister_template key r) registry keys) k =
      (if k \<in> set keys then None else bt_get registry k))"
proof (induction keys arbitrary: registry)
  case (Cons key keys)
  have "bt_ok (unregister_template key registry)" using Cons.prems by (rule bt_ok_unregister)
  from Cons.IH [OF this] show ?case using Cons.prems by (auto simp: unregister_template_def)
qed simp

lemma compile_update_Inr:
  assumes "compile_template_update_from_mirror sha256 parse compile store i mirror_id root d w = (Inr r, w')"
    and "\<And>registry. bt_get store i = Some registry \<Longrightarrow> bt_ok registry"
  shows "\<forall>k \<in> set (diff_changed_paths d). \<exists>found. stored_object sha256 parse root mirror_id k (world_fs w) = Inr found \<and>
      bt_get r k = template_for compile k found"
    and "\<forall>k. k \<notin> set (diff_changed_paths d) \<longrightarrow> bt_get r k =
      (if k \<in> set (diff_removed d) then None else case bt_get store i of Some registry \<Rightarrow> bt_get registry k | None \<Rightarrow> None)"
    and "bt_ok r"
proof -
  define registry where "registry = (case bt_get store i of Some r \<Rightarrow> r | None \<Rightarrow> [])"
  have ok: "bt_ok registry" using assms(2) by (auto simp: registry_def split: option.split)
  note pruned = pruned_registry [OF ok, of "diff_removed d"]
  from assms(1) have run: "update_templates sha256 parse compile root i mirror_id (diff_changed_paths d)
      (foldl (\<lambda>r key. unregister_template key r) registry (diff_removed d)) w = (Inr r, w')"
    by (simp add: compile_template_update_from_mirror_def registry_def Let_def)
  note upd = update_templates_Inr [OF run conjunct1 [OF pruned]] and rd = update_templates_read [OF run]
  show "\<forall>k \<in> set (diff_changed_paths d). \<exists>found. stored_object sha256 parse root mirror_id k (world_fs w) = Inr found \<and>
      bt_get r k = template_for compile k found"
  proof
    fix k assume k: "k \<in> set (diff_changed_paths d)"
    then obtain found where "stored_object sha256 parse root mirror_id k (world_fs w) = Inr found" using rd by blast
    then show "\<exists>found. stored_object sha256 parse root mirror_id k (world_fs w) = Inr found \<and>
      bt_get r k = template_for compile k found" using upd k by auto
  qed
  show "\<forall>k. k \<notin> set (diff_changed_paths d) \<longrightarrow> bt_get r k =
      (if k \<in> set (diff_removed d) then None else case bt_get store i of Some registry \<Rightarrow> bt_get registry k | None \<Rightarrow> None)"
    using upd pruned by (auto simp: registry_def split: option.split)
  show "bt_ok r" using upd by blast
qed

section \<open>Properties\<close>



text \<open>Walking the mirror of an origin ends, with as much fuel as there are nodes, on every file system
and under every schedule of faults.\<close>

theorem mirror_walk_ends:
  assumes "fs_ok (world_fs w)"
  shows "\<exists>r. walk (mirror_dir base) (walk_fuel [base] w) [base] files w = Some r"
  using mirror_files_ends [OF assms] by blast

theorem mirror_walk_ends_witness: "\<exists>r. walk (mirror_dir ''m'') 3 [''m''] [] (world_on []) = Some r"
  using mirror_walk_ends [of "world_on []" "''m''" "[]"] by (simp add: fs_ok_def world_on_def walk_fuel_def numeral_3_eq_3 del: walk.simps)

section \<open>Evaluation\<close>

text \<open>Code equations with the sequencing unfolded, so that a continuation is evaluated once its argument is known.\<close>

lemmas update_templates_code [code] = update_templates.simps [THEN fun_cong, unfolded sequencing]
lemmas compile_template_update_from_mirror_code [code] = compile_template_update_from_mirror_def [THEN fun_cong, unfolded sequencing]

end
