(* ===== verification/Static_Rules.thy ===== *)
theory Static_Rules
  imports Edge_Config "HOL-Library.Product_Lexorder"
begin

text \<open>
  Redirect and rewrite rules (\<open>src/services/static_rules.rs\<close>): matching of one pattern,
  choice of the best rule, substitution of the splat, the root object and the index
  candidate of a path.
\<close>

datatype match_kind = WildcardMatch | ExactMatch

text \<open>The derived \<open>Ord\<close>: a wildcard match ranks below an exact one.\<close>

instantiation match_kind :: linorder
begin

definition less_eq_match_kind :: "match_kind \<Rightarrow> match_kind \<Rightarrow> bool" where
  "less_eq_match_kind a b \<longleftrightarrow> a = WildcardMatch \<or> b = ExactMatch"

definition less_match_kind :: "match_kind \<Rightarrow> match_kind \<Rightarrow> bool" where
  "less_match_kind a b \<longleftrightarrow> a = WildcardMatch \<and> b = ExactMatch"

instance
proof
  fix a b c :: match_kind
  show "a < b \<longleftrightarrow> a \<le> b \<and> \<not> b \<le> a"
    by (cases a; cases b) (simp_all add: less_eq_match_kind_def less_match_kind_def)
  show "a \<le> a" by (cases a) (simp_all add: less_eq_match_kind_def)
  show "a \<le> b \<Longrightarrow> b \<le> c \<Longrightarrow> a \<le> c"
    by (cases a; cases b; cases c) (simp_all add: less_eq_match_kind_def)
  show "a \<le> b \<Longrightarrow> b \<le> a \<Longrightarrow> a = b"
    by (cases a; cases b) (simp_all add: less_eq_match_kind_def)
  show "a \<le> b \<or> b \<le> a" by (cases a; cases b) (simp_all add: less_eq_match_kind_def)
qed

end

record pattern_match =
  match_kind :: match_kind
  match_specificity :: nat
  match_splat :: "string option"

definition match_rank :: "pattern_match \<Rightarrow> match_kind \<times> nat" where
  "match_rank m = (match_kind m, match_specificity m)"

definition match_pattern :: "string \<Rightarrow> string \<Rightarrow> pattern_match option" where
  "match_pattern pattern path =
     (if pattern = path then
        Some \<lparr>match_kind = ExactMatch, match_specificity = length pattern, match_splat = None\<rparr>
      else
        (case strip_suffix ''*'' pattern of
           None \<Rightarrow> None
         | Some p \<Rightarrow>
             map_option (\<lambda>splat.
               \<lparr>match_kind = WildcardMatch, match_specificity = length p, match_splat = Some splat\<rparr>)
               (strip_prefix p path)))"

text \<open>\<open>Iterator::max_by_key\<close>: the last of the greatest elements.\<close>

definition max_by_key :: "('a \<Rightarrow> 'r::linorder) \<Rightarrow> 'a list \<Rightarrow> 'a option" where
  "max_by_key key xs =
     (case xs of
        [] \<Rightarrow> None
      | x # rest \<Rightarrow> Some (foldl (\<lambda>best y. if key best \<le> key y then y else best) x rest))"

definition best_rule :: "('a \<Rightarrow> string) \<Rightarrow> 'a list \<Rightarrow> string \<Rightarrow> ('a \<times> pattern_match) option" where
  "best_rule from rules path =
     max_by_key (\<lambda>(rule, matched). match_rank matched)
       (filter_map (\<lambda>rule. map_option (\<lambda>matched. (rule, matched)) (match_pattern (from rule) path))
          rules)"

definition apply_splat :: "string \<Rightarrow> string option \<Rightarrow> string" where
  "apply_splat target splat =
     replace_str '':splat'' (case splat of Some s \<Rightarrow> s | None \<Rightarrow> []) target"

record redirect_decision =
  decision_status :: u16
  decision_location :: string

definition find_redirect :: "edge_config \<Rightarrow> string \<Rightarrow> string option \<Rightarrow> redirect_decision option" where
  "find_redirect config path query =
     (case best_rule redirect_from (redirects config) path of
        None \<Rightarrow> None
      | Some (rule, matched) \<Rightarrow>
          let location = apply_splat (redirect_to rule) (match_splat matched);
              full = (if \<not> contains_str location ''?'' then
                        (case query of
                           Some q \<Rightarrow> if q \<noteq> [] then location @ ''?'' @ q else location
                         | None \<Rightarrow> location)
                      else location)
          in Some \<lparr>decision_status = redirect_status rule, decision_location = full\<rparr>)"

definition resolve_rewrite :: "edge_config \<Rightarrow> string \<Rightarrow> string" where
  "resolve_rewrite config path =
     (case best_rule rewrite_from (rewrite_rules config) path of
        Some (rule, matched) \<Rightarrow> apply_splat (rewrite_to rule) (match_splat matched)
      | None \<Rightarrow> path)"

definition resolve_root_object :: "edge_config \<Rightarrow> string \<Rightarrow> string" where
  "resolve_root_object config path =
     (if \<not> ends_with path ''/'' then path
      else trim_end_matches CHR ''/'' path @ root_object (edge config))"

definition auto_index_candidate :: "string \<Rightarrow> string" where
  "auto_index_candidate path = trim_end_matches CHR ''/'' path @ ''/index.html''"

section \<open>Facts\<close>

lemma match_pattern_Some:
  "match_pattern pattern path = Some m \<longleftrightarrow>
     (pattern = path \<and> m = \<lparr>match_kind = ExactMatch, match_specificity = length path, match_splat = None\<rparr>) \<or>
     (pattern \<noteq> path \<and> (\<exists>p s. pattern = p @ ''*'' \<and> path = p @ s \<and>
        m = \<lparr>match_kind = WildcardMatch, match_specificity = length p, match_splat = Some s\<rparr>))"
  by (auto simp: match_pattern_def str_simps split: option.splits)

text \<open>The last of the greatest elements of a list.\<close>

definition last_max :: "('a \<Rightarrow> 'r::linorder) \<Rightarrow> 'a list \<Rightarrow> 'a \<Rightarrow> bool" where
  "last_max key xs m \<longleftrightarrow> (\<exists>before after. xs = before @ m # after \<and>
     (\<forall>y \<in> set before. key y \<le> key m) \<and> (\<forall>y \<in> set after. key y < key m))"

lemma last_maxI:
  "xs = before @ m # after \<Longrightarrow> \<forall>y \<in> set before. key y \<le> key m \<Longrightarrow> \<forall>y \<in> set after. key y < key m \<Longrightarrow>
   last_max key xs m"
  unfolding last_max_def by blast

lemma last_max_snoc:
  assumes "last_max key xs m"
  shows "last_max key (xs @ [z]) (if key m \<le> key z then z else m)"
proof -
  from assms obtain before after where ba: "xs = before @ m # after"
      "\<forall>y \<in> set before. key y \<le> key m" "\<forall>y \<in> set after. key y < key m"
    unfolding last_max_def by blast
  show ?thesis
  proof (cases "key m \<le> key z")
    case True
    have "\<forall>y \<in> set xs. key y \<le> key z" using ba True by fastforce
    then have "last_max key (xs @ [z]) z" by (intro last_maxI [of _ xs _ "[]"]) auto
    with True show ?thesis by simp
  next
    case False
    then have "last_max key (xs @ [z]) m" using ba by (intro last_maxI [of _ before _ "after @ [z]"]) auto
    with False show ?thesis by simp
  qed
qed

lemma last_max_fold:
  "last_max key (x # xs) (foldl (\<lambda>best y. if key best \<le> key y then y else best) x xs)"
proof (induction xs rule: rev_induct)
  case Nil
  show ?case by (intro last_maxI [of _ "[]" _ "[]"]) auto
next
  case (snoc z xs)
  from last_max_snoc [OF this, of z] show ?case by simp
qed

lemma max_by_key_Some: "max_by_key key xs = Some m \<Longrightarrow> last_max key xs m"
  using last_max_fold [of key] by (auto simp: max_by_key_def split: list.splits)

lemma max_by_key_None: "max_by_key key xs = None \<longleftrightarrow> xs = []"
  by (auto simp: max_by_key_def split: list.splits)

text \<open>The rule chosen is the last one of the greatest rank.\<close>

lemma best_rule_Some:
  assumes "best_rule from rules path = Some (rule, m)"
  shows "\<exists>pre post. rules = pre @ rule # post \<and> match_pattern (from rule) path = Some m \<and>
      (\<forall>r \<in> set pre. \<forall>k. match_pattern (from r) path = Some k \<longrightarrow> match_rank k \<le> match_rank m) \<and>
      (\<forall>r \<in> set post. \<forall>k. match_pattern (from r) path = Some k \<longrightarrow> match_rank k < match_rank m)"
proof -
  let ?f = "\<lambda>rule. map_option (\<lambda>matched. (rule, matched)) (match_pattern (from rule) path)"
  from max_by_key_Some [OF assms [unfolded best_rule_def]]
  have "last_max (\<lambda>(rule, matched). match_rank matched) (filter_map ?f rules) (rule, m)" .
  then obtain before after where ba: "filter_map ?f rules = before @ (rule, m) # after"
      "\<forall>(r, k) \<in> set before. match_rank k \<le> match_rank m"
      "\<forall>(r, k) \<in> set after. match_rank k < match_rank m"
    by (auto simp: last_max_def case_prod_unfold)
  from filter_map_split [OF this(1)] obtain pre x post where
      p: "rules = pre @ x # post" "?f x = Some (rule, m)"
      "filter_map ?f pre = before" "filter_map ?f post = after" by blast
  have "match_rank k \<le> match_rank m" if "r \<in> set pre" "match_pattern (from r) path = Some k" for r k
    using ba(2) that p(3) set_filter_map [of "(r, k)" ?f pre] by fastforce
  moreover have "match_rank k < match_rank m" if "r \<in> set post" "match_pattern (from r) path = Some k" for r k
    using ba(3) that p(4) set_filter_map [of "(r, k)" ?f post] by fastforce
  moreover have "x = rule" "match_pattern (from rule) path = Some m" using p(2) by auto
  ultimately show ?thesis using p(1) by blast
qed

lemma best_rule_None:
  "best_rule from rules path = None \<longleftrightarrow> (\<forall>r \<in> set rules. match_pattern (from r) path = None)"
  by (simp add: best_rule_def max_by_key_None filter_map_Nil)

section \<open>Properties\<close>

text \<open>The rule that is applied matches the path, and every other matching rule ranks lower, or equal and
stands before it: exact patterns before wildcards, longer wildcards before shorter, the last of equals.\<close>

theorem best_rule_wins:
  assumes "best_rule from rules path = Some (rule, m)"
  shows "\<exists>pre post. rules = pre @ rule # post \<and> match_pattern (from rule) path = Some m \<and>
      (\<forall>r \<in> set pre. \<forall>k. match_pattern (from r) path = Some k \<longrightarrow> match_rank k \<le> match_rank m) \<and>
      (\<forall>r \<in> set post. \<forall>k. match_pattern (from r) path = Some k \<longrightarrow> match_rank k < match_rank m)"
  by (rule best_rule_Some [OF assms])

theorem best_rule_wins_witness:
  "\<exists>pre post. [''/*'', ''/a/*'', ''/b/*''] = pre @ ''/a/*'' # post \<and>
     match_pattern ''/a/*'' ''/a/x'' = Some \<lparr>match_kind = WildcardMatch, match_specificity = 3, match_splat = Some ''x''\<rparr>"
proof -
  have "best_rule id [''/*'', ''/a/*'', ''/b/*''] ''/a/x'' =
      Some (''/a/*'', \<lparr>match_kind = WildcardMatch, match_specificity = 3, match_splat = Some ''x''\<rparr>)"
    by (simp add: best_rule_def match_pattern_def max_by_key_def str_eval match_rank_def less_eq_prod_def
        less_eq_match_kind_def less_match_kind_def)
  from best_rule_wins [OF this] show ?thesis by simp blast
qed

end
