(* ===== verification/Cors.thy ===== *)
theory Cors
  imports Manifest
begin

text \<open>
  Cross-origin requests (\<open>src/services/cors.rs\<close>): the origins a manifest allows. The URL
  parser is a parameter.
\<close>

datatype cors_host_rule = CorsExact string | CorsWildcardSuffix string

type_synonym cors_policy = "(string, cors_host_rule list) btree"

definition cors_rule :: "string \<Rightarrow> cors_host_rule option" where
  "cors_rule host =
     (let normalized = to_ascii_lowercase (trim host) in
      if normalized = ''*'' then None
      else case strip_prefix ''*.'' normalized of
        Some suf \<Rightarrow>
          (case normalize_host suf of
             Some n \<Rightarrow> if n = suf then Some (CorsWildcardSuffix (''.'' @ n)) else None
           | None \<Rightarrow> None)
      | None \<Rightarrow> map_option CorsExact (normalize_host normalized))"

definition add_cors_host :: "cors_policy \<Rightarrow> string \<times> host_config \<Rightarrow> cors_policy" where
  "add_cors_host rules entry =
     (case entry of (host, config) \<Rightarrow>
       case cors_rule host of
         None \<Rightarrow> rules
       | Some rule \<Rightarrow>
           bt_insert (host_origin config)
             ((case bt_get rules (host_origin config) of Some rs \<Rightarrow> rs | None \<Rightarrow> []) @ [rule]) rules)"

definition cors_from_manifest :: "manifest \<Rightarrow> cors_policy" where
  "cors_from_manifest m = foldl add_cors_host [] (hosts m)"

definition parse_https_origin_host :: "(string \<Rightarrow> string + url) \<Rightarrow> string \<Rightarrow> string option" where
  "parse_https_origin_host parse_url request_origin =
     (case result_ok (parse_url request_origin) of
        None \<Rightarrow> None
      | Some parsed \<Rightarrow>
          if url_scheme parsed \<noteq> ''https'' \<or> url_path parsed \<noteq> ''/'' \<or> url_query parsed \<noteq> None \<or>
             url_fragment parsed \<noteq> None \<or> url_username parsed \<noteq> [] \<or> url_password parsed \<noteq> None \<or>
             \<not> (url_port parsed = None \<or> url_port parsed = Some 443)
          then None
          else Option.bind (url_host_str parsed) normalize_host)"

fun cors_rule_matches :: "string \<Rightarrow> cors_host_rule \<Rightarrow> bool" where
  "cors_rule_matches host (CorsExact e) = (e = host)"
| "cors_rule_matches host (CorsWildcardSuffix suf) = (ends_with host suf \<and> length suf < length host)"

definition allowed_origin_for ::
    "(string \<Rightarrow> string + url) \<Rightarrow> cors_policy \<Rightarrow> string \<Rightarrow> string \<Rightarrow> string option" where
  "allowed_origin_for parse_url policy origin_id request_origin =
     (case parse_https_origin_host parse_url request_origin of
        None \<Rightarrow> None
      | Some host \<Rightarrow>
          (case bt_get policy origin_id of
             None \<Rightarrow> None
           | Some rules \<Rightarrow>
               if \<exists>rule \<in> set rules. cors_rule_matches host rule then Some request_origin else None))"

section \<open>Facts\<close>

lemma cors_rule_kind:
  "cors_rule host =
     (case host_kind host of
        ExactHost n \<Rightarrow> Some (CorsExact n)
      | SubdomainsOf suf \<Rightarrow> Some (CorsWildcardSuffix (''.'' @ suf))
      | _ \<Rightarrow> None)"
  by (auto simp: cors_rule_def host_kind_def Let_def split: option.splits)

text \<open>The rules of an origin are those of its host entries.\<close>

definition rules_of :: "cors_policy \<Rightarrow> string \<Rightarrow> cors_host_rule list" where
  "rules_of policy i = (case bt_get policy i of Some rs \<Rightarrow> rs | None \<Rightarrow> [])"

lemma rules_of_add:
  "rules_of (add_cors_host p (h, c)) i =
     rules_of p i @ (if host_origin c = i then (case cors_rule h of Some r \<Rightarrow> [r] | None \<Rightarrow> []) else [])"
  by (cases "cors_rule h") (simp_all add: rules_of_def add_cors_host_def split: option.split)

definition host_rule :: "string \<times> host_config \<Rightarrow> (string \<times> cors_host_rule) option" where
  "host_rule entry = map_option (\<lambda>r. (host_origin (snd entry), r)) (cors_rule (fst entry))"

lemma rules_of_fold:
  "r \<in> set (rules_of (foldl add_cors_host p hs) i) \<longleftrightarrow>
     r \<in> set (rules_of p i) \<or> (\<exists>e \<in> set hs. host_rule e = Some (i, r))"
proof (induction hs arbitrary: p)
  case Nil
  then show ?case by simp
next
  case (Cons e hs)
  obtain h c where e: "e = (h, c)" by (cases e)
  have "r \<in> set (rules_of (add_cors_host p e) i) \<longleftrightarrow>
      r \<in> set (rules_of p i) \<or> host_rule e = Some (i, r)"
  proof (cases "cors_rule h")
    case None
    then have "host_rule e = None" and "rules_of (add_cors_host p e) i = rules_of p i"
      by (simp_all add: e rules_of_add host_rule_def)
    then show ?thesis by simp
  next
    case (Some x)
    then have "host_rule e = Some (host_origin c, x)" by (simp add: e host_rule_def)
    moreover have "rules_of (add_cors_host p e) i = rules_of p i @ (if host_origin c = i then [x] else [])"
      using Some by (simp add: e rules_of_add)
    ultimately show ?thesis by (cases "host_origin c = i") auto
  qed
  with Cons.IH [of "add_cors_host p e"] show ?case by simp
qed

lemma rules_of_manifest:
  "r \<in> set (rules_of (cors_from_manifest m) i) \<longleftrightarrow> (\<exists>e \<in> set (hosts m). host_rule e = Some (i, r))"
proof -
  have "rules_of [] i = []" by (simp add: rules_of_def)
  then show ?thesis by (simp add: cors_from_manifest_def rules_of_fold)
qed

lemma cors_rule_matches_kind:
  assumes "is_valid_host host" and "cors_rule h = Some rule"
  shows "cors_rule_matches host rule \<longleftrightarrow> covers (host_kind h) host"
proof -
  have "\<not> is_valid_host (''.'' @ suf)" for suf by (simp add: is_valid_host_def)
  then show ?thesis using assms
    by (auto simp: cors_rule_kind suffix_def split: host_kind.splits)
qed

lemma allowed_origin_for_Some:
  "allowed_origin_for parse_url policy i origin = Some v \<longleftrightarrow>
     v = origin \<and> (\<exists>host. parse_https_origin_host parse_url origin = Some host \<and>
       (\<exists>rule \<in> set (rules_of policy i). cors_rule_matches host rule))"
  by (auto simp: allowed_origin_for_def rules_of_def split: option.splits)

lemma parse_https_origin_host_Some:
  "parse_https_origin_host parse_url origin = Some host \<longleftrightarrow>
     (\<exists>u name. parse_url origin = Inr u \<and> url_scheme u = ''https'' \<and> url_path u = ''/'' \<and>
        url_query u = None \<and> url_fragment u = None \<and> url_username u = [] \<and> url_password u = None \<and>
        url_port u \<in> {None, Some 443} \<and> url_host_str u = Some name \<and> normalize_host name = Some host)"
  by (auto simp: parse_https_origin_host_def result_simps bind_eq_Some_conv split: option.splits)

text \<open>Exactly the hosts of an origin's own entries are allowed, the global wildcard aside.\<close>

definition cors_covered :: "manifest \<Rightarrow> string \<Rightarrow> string \<Rightarrow> bool" where
  "cors_covered m i host \<longleftrightarrow>
     (\<exists>(h, c) \<in> set (hosts m). host_origin c = i \<and> host_kind h \<noteq> AnyHost \<and> covers (host_kind h) host)"

lemma host_rule_covers:
  assumes "is_valid_host host"
  shows "(\<exists>rule. host_rule (h, c) = Some (i, rule) \<and> cors_rule_matches host rule) \<longleftrightarrow>
     host_origin c = i \<and> host_kind h \<noteq> AnyHost \<and> covers (host_kind h) host"
proof (cases "cors_rule h")
  case None
  then have "host_kind h = AnyHost \<or> host_kind h = BadHost"
    by (auto simp: cors_rule_kind split: host_kind.splits)
  then show ?thesis using None by (auto simp: host_rule_def)
next
  case (Some rule)
  then have "host_kind h \<noteq> AnyHost" by (auto simp: cors_rule_kind)
  then show ?thesis using Some cors_rule_matches_kind [OF assms Some] by (auto simp: host_rule_def)
qed

lemma cors_allows:
  "allowed_origin_for parse_url (cors_from_manifest m) i origin = Some v \<longleftrightarrow>
     v = origin \<and> (\<exists>host. parse_https_origin_host parse_url origin = Some host \<and> cors_covered m i host)"
proof -
  have "(\<exists>rule \<in> set (rules_of (cors_from_manifest m) i). cors_rule_matches host rule) \<longleftrightarrow>
      cors_covered m i host"
    if "parse_https_origin_host parse_url origin = Some host" for host
  proof -
    have v: "is_valid_host host"
      using that normalize_host_valid by (auto simp: parse_https_origin_host_Some)
    have "(\<exists>rule \<in> set (rules_of (cors_from_manifest m) i). cors_rule_matches host rule) \<longleftrightarrow>
        (\<exists>e \<in> set (hosts m). \<exists>rule. host_rule e = Some (i, rule) \<and> cors_rule_matches host rule)"
      unfolding Bex_def rules_of_manifest by blast
    also have "\<dots> \<longleftrightarrow> cors_covered m i host"
      using host_rule_covers [OF v] by (simp add: cors_covered_def case_prod_beta' Bex_def)
    finally show ?thesis .
  qed
  then show ?thesis by (auto simp: allowed_origin_for_Some)
qed

section \<open>Properties\<close>

text \<open>C39: An origin is allowed exactly when it is a plain HTTPS origin whose host one of the host entries of
the site's own origin covers, the global wildcard entry aside.\<close>

theorem cors_allows_exactly:
  "allowed_origin_for parse_url (cors_from_manifest m) i origin = Some v \<longleftrightarrow>
     v = origin \<and> (\<exists>host. parse_https_origin_host parse_url origin = Some host \<and> cors_covered m i host)"
  by (rule cors_allows)

end
