(* ===== verification/Render_Gateway.thy ===== *)
theory Render_Gateway
  imports Template_Store Static_Rules Cors
begin

text \<open>
  The gateway (\<open>src/services/render_gateway.rs\<close>, \<open>src/dto/render.rs\<close>): from a request to
  a response. What the gateway calls outside the repository is collected in a record: the
  HTTP calls to the hooks, by their position in the chain, the digest, the parsers and the
  template renderer. The files are read in the world of the file system.
\<close>

section \<open>Requests and responses\<close>

record render_request =
  rq_method :: string
  rq_host :: string
  rq_path :: string
  rq_query :: "string option"
  rq_scheme :: string
  rq_client_ip :: "string option"
  rq_headers :: "(string \<times> string) list"
  rq_body :: string

type_synonym headers = "(string, string) btree"

record render_response =
  rs_status :: u16
  rs_headers :: headers
  rs_body :: string

definition empty_response :: "u16 \<Rightarrow> render_response" where
  "empty_response status = \<lparr>rs_status = status, rs_headers = [], rs_body = []\<rparr>"

text \<open>Services of other packages and of the network.\<close>

record 't gateway_env =
  env_sha256 :: "string \<Rightarrow> string"
  env_parse_metadata :: "string \<Rightarrow> string + object_metadata"
  env_render :: "'t registry \<Rightarrow> string \<Rightarrow> json \<Rightarrow> string + string"
  env_parse_url :: "string \<Rightarrow> string + url"
  env_parse_query :: "string \<Rightarrow> (string \<times> string) list"
  env_edge_call :: "nat \<Rightarrow> string \<Rightarrow> u64 \<Rightarrow> edge_hook_request \<Rightarrow> edge_call_error + edge_http_response"

record 't gateway =
  gw_resolver :: host_resolver
  gw_cors :: cors_policy
  gw_root :: pathbuf
  gw_edge_configs :: edge_config_store
  gw_templates :: "'t template_store"
  gw_origin_buckets :: "(string, string) btree"
  gw_edge_contexts :: "(string, json) btree"

datatype access = PublicAccess | InternalAccess

definition bucket_for_origin :: "'t gateway \<Rightarrow> string \<Rightarrow> string" where
  "bucket_for_origin gw i = (case bt_get (gw_origin_buckets gw) i of Some b \<Rightarrow> b | None \<Rightarrow> i)"

definition edge_context_for_origin :: "'t gateway \<Rightarrow> string \<Rightarrow> json option" where
  "edge_context_for_origin gw i = bt_get (gw_edge_contexts gw) i"

section \<open>Headers\<close>

definition insert_header :: "headers \<Rightarrow> string \<Rightarrow> string \<Rightarrow> headers" where
  "insert_header hs name v = bt_insert (to_ascii_lowercase name) v hs"

definition apply_headers :: "headers \<Rightarrow> headers \<Rightarrow> headers" where
  "apply_headers target hs = foldl (\<lambda>t (name, v). insert_header t name v) target hs"

definition unsafe_edge_headers :: "string list" where
  "unsafe_edge_headers =
     [''connection'', ''content-encoding'', ''content-length'', ''host'', ''keep-alive'',
      ''proxy-authenticate'', ''proxy-authorization'', ''te'', ''trailer'', ''transfer-encoding'',
      ''upgrade'']"

definition is_unsafe_edge_header :: "string \<Rightarrow> bool" where
  "is_unsafe_edge_header name \<longleftrightarrow> to_ascii_lowercase name \<in> set unsafe_edge_headers"

definition filtered_headers :: "headers \<Rightarrow> headers" where
  "filtered_headers hs =
     bt_collect (map (\<lambda>(name, v). (to_ascii_lowercase name, v))
       (filter (\<lambda>(name, _). \<not> is_unsafe_edge_header name) hs))"

definition combined_response_headers :: "headers \<Rightarrow> headers \<Rightarrow> headers" where
  "combined_response_headers edge_headers cors_headers = apply_headers edge_headers cors_headers"

definition headers_from_metadata :: "object_metadata \<Rightarrow> headers" where
  "headers_from_metadata m =
     (let put = (\<lambda>name v hs. case v of Some x \<Rightarrow> insert_header hs name x | None \<Rightarrow> hs) in
      put ''last-modified'' (meta_last_modified m)
        (put ''etag'' (meta_etag m)
          (put ''cache-control'' (meta_cache_control m)
            (put ''content-type'' (meta_content_type m) []))))"

definition not_found_text :: "headers \<Rightarrow> render_response" where
  "not_found_text cors_headers =
     \<lparr>rs_status = 404, rs_headers = apply_headers [] cors_headers, rs_body = ''not found''\<rparr>"

text \<open>\<open>HeaderValue::to_str\<close>: visible ASCII, spaces and tabs only.\<close>

definition header_to_str :: "string \<Rightarrow> string option" where
  "header_to_str v = (if \<forall>c \<in> set v. byte c = 9 \<or> (32 \<le> byte c \<and> byte c < 127) then Some v else None)"

text \<open>\<open>HeaderMap::get\<close> is the first value of the name; header names are in lower case.\<close>

definition request_header :: "render_request \<Rightarrow> string \<Rightarrow> string option" where
  "request_header request name = Option.bind (map_of (rq_headers request) name) header_to_str"

definition cors_headers :: "'t gateway_env \<Rightarrow> 't gateway \<Rightarrow> string \<Rightarrow> render_request \<Rightarrow> headers" where
  "cors_headers env gw origin_id request =
     (case request_header request ''origin'' of
        None \<Rightarrow> []
      | Some origin \<Rightarrow>
          (case allowed_origin_for (env_parse_url env) (gw_cors gw) origin_id origin of
             None \<Rightarrow> []
           | Some allowed_origin \<Rightarrow>
               bt_collect [(''access-control-allow-origin'', allowed_origin), (''vary'', ''Origin'')]))"

definition finalize_response :: "render_response \<Rightarrow> render_request \<Rightarrow> render_response" where
  "finalize_response response request =
     (if rq_method request = ''HEAD'' then response\<lparr>rs_body := []\<rparr> else response)"

section \<open>What a hook is sent\<close>

definition full_request_url :: "render_request \<Rightarrow> string" where
  "full_request_url request =
     (let url = rq_scheme request @ ''://'' @ rq_host request @ rq_path request in
      case rq_query request of
        Some q \<Rightarrow> if q \<noteq> [] then url @ ''?'' @ q else url
      | None \<Rightarrow> url)"

definition request_headers_map :: "render_request \<Rightarrow> headers" where
  "request_headers_map request =
     bt_collect (filter_map (\<lambda>(name, v).
       map_option (\<lambda>s. (to_ascii_lowercase name, s)) (header_to_str v)) (rq_headers request))"

definition query_params_map :: "(string \<Rightarrow> (string \<times> string) list) \<Rightarrow> string option \<Rightarrow> headers" where
  "query_params_map parse_query query =
     bt_collect (parse_query (case query of Some q \<Rightarrow> q | None \<Rightarrow> []))"

definition edge_hook_request ::
    "(string \<Rightarrow> (string \<times> string) list) \<Rightarrow> render_request \<Rightarrow> resolved_host \<Rightarrow> string \<Rightarrow> json option \<Rightarrow>
     edge_hook_request" where
  "edge_hook_request parse_query request resolved bucket edge_context =
     \<lparr>hook_context =
        \<lparr>ctx_bucket = bucket, ctx_ip = rq_client_ip request, ctx_origin = rh_origin_id resolved,
         ctx_edge_context = edge_context\<rparr>,
      hook_request =
        \<lparr>req_url = full_request_url request, req_path = rq_path request,
         req_querystring = (case rq_query request of Some q \<Rightarrow> q | None \<Rightarrow> []),
         req_queryparams = query_params_map parse_query (rq_query request),
         req_method = rq_method request, req_headers = request_headers_map request,
         req_body = []\<rparr>\<rparr>"

definition edge_failure_status :: "edge_call_error \<Rightarrow> u16" where
  "edge_failure_status e =
     (case e of ReqwestError timeout _ \<Rightarrow> if timeout then 504 else 502 | OtherCallError _ \<Rightarrow> 502)"

section \<open>Serving objects\<close>

definition is_reserved_rendermesh_path :: "string \<Rightarrow> bool" where
  "is_reserved_rendermesh_path path =
     (let p = trim_start_matches CHR ''/'' path in
      p = ''.rendermesh'' \<or> starts_with p ''.rendermesh/'' \<or>
      p = ''_rendermesh'' \<or> starts_with p ''_rendermesh/'')"

definition gateway_read ::
    "'t gateway_env \<Rightarrow> 't gateway \<Rightarrow> string \<Rightarrow> string \<Rightarrow> access \<Rightarrow> (anyhow, local_object option) io" where
  "gateway_read env gw origin_id path access =
     (if access = PublicAccess \<and> is_reserved_rendermesh_path path then io_return None
      else case mirror_object_path (gw_root gw) origin_id path of
        Inl _ \<Rightarrow> io_return None
      | Inr p \<Rightarrow>
          io_match (io_stat p) (\<lambda>r.
            if r = Inr DirNode then io_return None
            else read_object (env_sha256 env) (env_parse_metadata env) (gw_root gw) origin_id path))"

definition object_response ::
    "'t gateway_env \<Rightarrow> 't gateway \<Rightarrow> string \<Rightarrow> string \<Rightarrow> u16 \<Rightarrow> json option \<Rightarrow> headers \<Rightarrow> local_object \<Rightarrow>
     render_response" where
  "object_response env gw origin_id path status params cors obj =
     (let hs = apply_headers (headers_from_metadata (object_metadata obj)) cors in
      case params of
        Some ps \<Rightarrow>
          (case render_template (env_render env) (gw_templates gw) origin_id path ps of
             Inr body \<Rightarrow> \<lparr>rs_status = status, rs_headers = hs, rs_body = body\<rparr>
           | Inl NotHtml \<Rightarrow> \<lparr>rs_status = 415, rs_headers = hs, rs_body = []\<rparr>
           | Inl (RenderFailed _) \<Rightarrow> \<lparr>rs_status = 502, rs_headers = hs, rs_body = []\<rparr>)
      | None \<Rightarrow> \<lparr>rs_status = status, rs_headers = hs, rs_body = object_body obj\<rparr>)"

definition serve_object_with_options ::
    "'t gateway_env \<Rightarrow> 't gateway \<Rightarrow> string \<Rightarrow> string \<Rightarrow> u16 \<Rightarrow> json option \<Rightarrow> headers \<Rightarrow> access \<Rightarrow>
     (anyhow, render_response option) io" where
  "serve_object_with_options env gw origin_id path status params cors access =
     io_then (gateway_read env gw origin_id path access) (\<lambda>found.
     io_return (map_option (object_response env gw origin_id path status params cors) found))"

definition serve_object ::
    "'t gateway_env \<Rightarrow> 't gateway \<Rightarrow> string \<Rightarrow> string \<Rightarrow> u16 \<Rightarrow> json option \<Rightarrow> headers \<Rightarrow>
     (anyhow, render_response option) io" where
  "serve_object env gw origin_id path status params cors =
     serve_object_with_options env gw origin_id path status params cors PublicAccess"

definition serve_static_path_with_options ::
    "'t gateway_env \<Rightarrow> 't gateway \<Rightarrow> string \<Rightarrow> edge_config \<Rightarrow> string \<Rightarrow> u16 \<Rightarrow> json option \<Rightarrow> headers \<Rightarrow>
     access \<Rightarrow> (anyhow, render_response option) io" where
  "serve_static_path_with_options env gw origin_id config path status params cors access =
     io_then (serve_object_with_options env gw origin_id path status params cors access) (\<lambda>found.
     case found of
       Some response \<Rightarrow> io_return (Some response)
     | None \<Rightarrow>
         if auto_rewrite_index (edge config)
         then serve_object_with_options env gw origin_id (auto_index_candidate path) status params
                cors access
         else io_return None)"

definition serve_static_path ::
    "'t gateway_env \<Rightarrow> 't gateway \<Rightarrow> string \<Rightarrow> edge_config \<Rightarrow> string \<Rightarrow> u16 \<Rightarrow> json option \<Rightarrow> headers \<Rightarrow>
     (anyhow, render_response option) io" where
  "serve_static_path env gw origin_id config path status params cors =
     serve_static_path_with_options env gw origin_id config path status params cors PublicAccess"

definition resolve_request_target :: "edge_config \<Rightarrow> string \<Rightarrow> string" where
  "resolve_request_target config request_path =
     resolve_root_object config (resolve_rewrite config request_path)"

section \<open>Missing objects\<close>

definition handle_missing ::
    "'t gateway_env \<Rightarrow> 't gateway \<Rightarrow> string \<Rightarrow> edge_config \<Rightarrow> headers \<Rightarrow>
     (anyhow, render_response option) io" where
  "handle_missing env gw origin_id config cors =
     (case missing_action (missing config) of
        MissingNotFound \<Rightarrow>
          (case missing_page (missing config) of
             Some page \<Rightarrow>
               io_then (serve_object env gw origin_id page 404 None cors) (\<lambda>found.
               case found of
                 Some response \<Rightarrow> io_return (Some (response\<lparr>rs_status := 404\<rparr>))
               | None \<Rightarrow> io_return (Some (not_found_text cors)))
           | None \<Rightarrow> io_return (Some (not_found_text cors)))
      | MissingServe \<Rightarrow>
          (case missing_path (missing config) of
             None \<Rightarrow> io_return (Some (not_found_text cors))
           | Some path \<Rightarrow> serve_object env gw origin_id path 200 None cors)
      | MissingRedirect \<Rightarrow>
          io_then (io_lift (transpose (map_option status_from_u16 (missing_status (missing config)))))
            (\<lambda>status.
          let response = empty_response (case status of Some s \<Rightarrow> s | None \<Rightarrow> 302);
              located = (case missing_to (missing config) of
                           Some to \<Rightarrow> insert_header (rs_headers response) ''location'' to
                         | None \<Rightarrow> rs_headers response)
          in io_return (Some (response\<lparr>rs_headers := apply_headers located cors\<rparr>))))"

section \<open>The chain of hooks\<close>

type_synonym edge_chain_result = "render_response option \<times> headers"

definition terminal_edge_response :: "render_response \<Rightarrow> edge_chain_result" where
  "terminal_edge_response response = (Some response, [])"

definition with_edge_headers ::
    "render_response \<Rightarrow> headers \<Rightarrow> headers \<Rightarrow> render_request \<Rightarrow> render_response" where
  "with_edge_headers response edge_headers cors request =
     finalize_response
       (response\<lparr>rs_headers := apply_headers (apply_headers (rs_headers response)
          (filtered_headers edge_headers)) cors\<rparr>) request"

text \<open>What the outcome of one hook makes of the request; \<open>None\<close> goes on with the chain.\<close>

definition apply_outcome ::
    "'t gateway_env \<Rightarrow> 't gateway \<Rightarrow> render_request \<Rightarrow> resolved_host \<Rightarrow> edge_config \<Rightarrow> headers \<Rightarrow>
     edge_payload_outcome \<Rightarrow> headers \<Rightarrow> (anyhow, render_response option) io" where
  "apply_outcome env gw request resolved config cors outcome edge_headers =
     (case outcome of
        Continue \<Rightarrow> io_return None
      | RespondDirect status body \<Rightarrow>
          io_return (Some (finalize_response
            \<lparr>rs_status = status,
             rs_headers = apply_headers (apply_headers [] (filtered_headers edge_headers)) cors,
             rs_body = body\<rparr> request))
      | ServeFile status file_path params \<Rightarrow>
          io_then (serve_static_path_with_options env gw (rh_origin_id resolved) config file_path status
              params cors InternalAccess) (\<lambda>found.
          case found of
            None \<Rightarrow>
              let response_headers = combined_response_headers (filtered_headers edge_headers) cors in
              io_then (handle_missing env gw (rh_origin_id resolved) config response_headers) (\<lambda>missing_response.
              io_return (Some (finalize_response
                (case missing_response of Some r \<Rightarrow> r | None \<Rightarrow> not_found_text response_headers) request)))
          | Some response \<Rightarrow> io_return (Some (with_edge_headers response edge_headers cors request)))
      | RenderTarget status params \<Rightarrow>
          let target = resolve_request_target config (rq_path request) in
          io_then (serve_static_path env gw (rh_origin_id resolved) config target status (Some params) cors)
            (\<lambda>found.
          case found of
            None \<Rightarrow> io_return (Some (finalize_response ((not_found_text cors)\<lparr>rs_status := 404\<rparr>) request))
          | Some response \<Rightarrow> io_return (Some (with_edge_headers response edge_headers cors request))))"

fun run_hooks ::
    "'t gateway_env \<Rightarrow> 't gateway \<Rightarrow> render_request \<Rightarrow> resolved_host \<Rightarrow> edge_config \<Rightarrow> headers \<Rightarrow>
     nat \<Rightarrow> edge_hook_config list \<Rightarrow> headers \<Rightarrow> (anyhow, edge_chain_result) io" where
  "run_hooks env gw request resolved config cors n [] edge_headers =
     io_return (None, filtered_headers edge_headers)"
| "run_hooks env gw request resolved config cors n (hook # hooks) edge_headers =
     (let edge_request = edge_hook_request (env_parse_query env) request resolved
            (bucket_for_origin gw (rh_origin_id resolved))
            (edge_context_for_origin gw (rh_origin_id resolved)) in
      case env_edge_call env n (hook_url hook) (hook_timeout_ms hook) edge_request of
        Inl e \<Rightarrow>
          io_return (terminal_edge_response (finalize_response
            ((empty_response (edge_failure_status e))\<lparr>rs_headers := apply_headers [] cors\<rparr>) request))
      | Inr answer \<Rightarrow>
          (case apply_edge_payload edge_headers (edge_status answer) (edge_payload answer) of
             Inl _ \<Rightarrow>
               io_return (terminal_edge_response (finalize_response
                 ((empty_response 502)\<lparr>rs_headers := apply_headers [] cors\<rparr>) request))
           | Inr (outcome, edge_headers') \<Rightarrow>
               io_then (apply_outcome env gw request resolved config cors outcome edge_headers')
                 (\<lambda>response.
               case response of
                 Some r \<Rightarrow> io_return (terminal_edge_response r)
               | None \<Rightarrow>
                   run_hooks env gw request resolved config cors (Suc n) hooks edge_headers')))"

definition handle_edge_chain ::
    "'t gateway_env \<Rightarrow> 't gateway \<Rightarrow> render_request \<Rightarrow> resolved_host \<Rightarrow> edge_config \<Rightarrow> headers \<Rightarrow>
     (anyhow, edge_chain_result) io" where
  "handle_edge_chain env gw request resolved config cors =
     run_hooks env gw request resolved config cors 0 (edges config) []"

section \<open>The request\<close>

definition preflight_response :: "headers \<Rightarrow> render_request \<Rightarrow> render_response" where
  "preflight_response cors request =
     (let hs = insert_header (apply_headers [] cors) ''access-control-allow-methods'' ''GET, HEAD, OPTIONS'' in
      (empty_response 204)\<lparr>rs_headers :=
         (case request_header request ''access-control-request-headers'' of
            Some requested \<Rightarrow> insert_header hs ''access-control-allow-headers'' requested
          | None \<Rightarrow> hs)\<rparr>)"

text \<open>The part of \<open>handle_inner\<close> after the hooks: redirect, static object, missing.\<close>

definition serve_request ::
    "'t gateway_env \<Rightarrow> 't gateway \<Rightarrow> render_request \<Rightarrow> resolved_host \<Rightarrow> edge_config \<Rightarrow> headers \<Rightarrow>
     (anyhow, render_response) io" where
  "serve_request env gw request resolved config response_headers =
     (case find_redirect config (rq_path request) (rq_query request) of
        Some redirect \<Rightarrow>
          io_then (io_lift (status_from_u16 (decision_status redirect))) (\<lambda>status.
          io_return (finalize_response
            ((empty_response status)\<lparr>rs_headers :=
               apply_headers (insert_header [] ''location'' (decision_location redirect)) response_headers\<rparr>)
            request))
      | None \<Rightarrow>
          io_then (serve_static_path env gw (rh_origin_id resolved) config
              (resolve_request_target config (rq_path request)) 200 None response_headers) (\<lambda>found.
          case found of
            Some response \<Rightarrow> io_return (finalize_response response request)
          | None \<Rightarrow>
              io_then (handle_missing env gw (rh_origin_id resolved) config response_headers)
                (\<lambda>missing_response.
              io_return (finalize_response
                (case missing_response of Some r \<Rightarrow> r | None \<Rightarrow> not_found_text response_headers) request))))"

definition handle ::
    "'t gateway_env \<Rightarrow> 't gateway \<Rightarrow> render_request \<Rightarrow> (anyhow, render_response) io" where
  "handle env gw request =
     (case resolve (gw_resolver gw) (rq_host request) of
        None \<Rightarrow> io_return (empty_response 421)
      | Some resolved \<Rightarrow>
          let cors = cors_headers env gw (rh_origin_id resolved) request in
          if rq_method request = ''OPTIONS'' then io_return (preflight_response cors request)
          else if rq_method request \<noteq> ''GET'' \<and> rq_method request \<noteq> ''HEAD'' then
            io_return ((empty_response 405)\<lparr>rs_headers := apply_headers [] cors\<rparr>)
          else
            (case config_store_get (gw_edge_configs gw) (rh_origin_id resolved) of
               Inl _ \<Rightarrow> io_return ((empty_response 500)\<lparr>rs_headers := apply_headers [] cors\<rparr>)
             | Inr config \<Rightarrow>
                 io_then (handle_edge_chain env gw request resolved config cors) (\<lambda>(response, edge_headers).
                 case response of
                   Some r \<Rightarrow> io_return r
                 | None \<Rightarrow>
                     serve_request env gw request resolved config
                       (combined_response_headers edge_headers cors))))"

end
