(* ===== verification/Gateway_Facts.thy ===== *)
theory Gateway_Facts
  imports Render_Gateway
begin

text \<open>
  What holds of every response of the gateway: its headers, where its body comes from, and
  that answering a request changes no file.
\<close>

section \<open>Headers of responses\<close>

text \<open>
  The headers the gateway builds are sorted maps with names in lower case, none of them a
  name that a hook must not set.
\<close>

definition proper :: "headers \<Rightarrow> bool" where
  "proper hs \<longleftrightarrow> bt_ok hs \<and>
     (\<forall>name \<in> set (bt_keys hs). to_ascii_lowercase name = name \<and> \<not> is_unsafe_edge_header name)"

lemma is_unsafe_lowercase [simp]: "is_unsafe_edge_header (to_ascii_lowercase s) = is_unsafe_edge_header s"
  by (simp add: is_unsafe_edge_header_def)

lemma proper_Nil [simp]: "proper []"
  by (simp add: proper_def)

lemma proper_insert: "proper hs \<Longrightarrow> \<not> is_unsafe_edge_header name \<Longrightarrow> proper (insert_header hs name v)"
  by (simp add: proper_def insert_header_def bt_keys_insert del: set_map)

lemma apply_headers_Cons:
  "apply_headers t ((name, v) # hs) = apply_headers (insert_header t name v) hs"
  by (simp add: apply_headers_def)

lemma apply_headers_Nil [simp]: "apply_headers t [] = t"
  by (simp add: apply_headers_def)

lemma proper_apply_aux:
  "proper t \<Longrightarrow> \<forall>(name, v) \<in> set hs. \<not> is_unsafe_edge_header name \<Longrightarrow> proper (apply_headers t hs)"
  by (induction hs arbitrary: t) (auto simp: apply_headers_Cons proper_insert)

lemma proper_apply: "proper t \<Longrightarrow> proper hs \<Longrightarrow> proper (apply_headers t hs)"
  by (rule proper_apply_aux) (auto simp: proper_def)

lemma get_apply_aux:
  "\<forall>(name, v) \<in> set hs. to_ascii_lowercase name = name \<Longrightarrow>
   bt_get (apply_headers t hs) = bt_get t ++ map_of (rev hs)"
  by (induction hs arbitrary: t)
    (auto simp: apply_headers_Cons insert_header_def map_add_def fun_eq_iff split: option.split)

lemma get_apply: "proper hs \<Longrightarrow> bt_get (apply_headers t hs) = bt_get t ++ bt_get hs"
proof -
  assume hs: "proper hs"
  then have "map_of (rev hs) = map_of hs"
    by (intro map_of_inject_set [THEN iffD2]) (simp_all add: proper_def bt_ok_distinct rev_map [symmetric])
  moreover have "\<forall>(name, v) \<in> set hs. to_ascii_lowercase name = name" using hs by (auto simp: proper_def)
  ultimately show ?thesis using get_apply_aux [of hs t] by simp
qed

lemma proper_collect:
  "\<forall>(name, v) \<in> set kvs. to_ascii_lowercase name = name \<and> \<not> is_unsafe_edge_header name \<Longrightarrow>
   proper (bt_collect kvs)"
  unfolding proper_def bt_keys_extend by (auto simp del: set_map)

lemma proper_filtered: "proper (filtered_headers hs)"
  unfolding filtered_headers_def by (rule proper_collect) auto

lemma safe_names:
  "\<not> is_unsafe_edge_header ''content-type''" "\<not> is_unsafe_edge_header ''cache-control''"
  "\<not> is_unsafe_edge_header ''etag''" "\<not> is_unsafe_edge_header ''last-modified''"
  "\<not> is_unsafe_edge_header ''location''" "\<not> is_unsafe_edge_header ''access-control-allow-origin''"
  "\<not> is_unsafe_edge_header ''vary''" "\<not> is_unsafe_edge_header ''access-control-allow-methods''"
  "\<not> is_unsafe_edge_header ''access-control-allow-headers''"
  by (simp_all add: is_unsafe_edge_header_def unsafe_edge_headers_def str_eval)

lemma proper_cors: "proper (cors_headers env gw i request)"
  unfolding cors_headers_def
  by (auto simp: safe_names str_eval intro!: proper_collect split: option.split)

lemma proper_metadata: "proper (headers_from_metadata m)"
  by (auto simp: headers_from_metadata_def Let_def safe_names proper_insert split: option.split)

text \<open>The headers given for the answer have the last word.\<close>

definition answers :: "headers \<Rightarrow> render_response \<Rightarrow> bool" where
  "answers hs r \<longleftrightarrow> proper (rs_headers r) \<and> bt_get hs \<subseteq>\<^sub>m bt_get (rs_headers r)"

lemma answers_apply: "proper t \<Longrightarrow> proper hs \<Longrightarrow> rs_headers r = apply_headers t hs \<Longrightarrow> answers hs r"
  by (simp add: answers_def proper_apply get_apply map_le_map_add)

lemma answers_more: "answers hs r \<Longrightarrow> bt_get gs \<subseteq>\<^sub>m bt_get hs \<Longrightarrow> answers gs r"
  using map_le_trans by (auto simp: answers_def)

lemma answers_finalize [simp]: "answers hs (finalize_response r request) = answers hs r"
  by (simp add: answers_def finalize_response_def)

lemma answers_status [simp]: "answers hs (r\<lparr>rs_status := s\<rparr>) = answers hs r"
  by (simp add: answers_def)

section \<open>The headers of every answer\<close>

text \<open>What is known of an optional answer.\<close>

abbreviation answered :: "headers \<Rightarrow> filesystem \<Rightarrow> render_response option \<Rightarrow> bool" where
  "answered hs \<equiv> \<lambda>_. pred_option (answers hs)"

lemma answers_make:
  "proper t \<Longrightarrow> proper hs \<Longrightarrow> answers hs \<lparr>rs_status = s, rs_headers = apply_headers t hs, rs_body = b\<rparr>"
  "proper t \<Longrightarrow> proper hs \<Longrightarrow> answers hs (r\<lparr>rs_headers := apply_headers t hs\<rparr>)"
  by (simp_all add: answers_apply)

lemma rs_headers_empty [simp]: "rs_headers (empty_response s) = []"
  by (simp add: empty_response_def)

lemma pred_option_map [simp]: "pred_option P (map_option f x) = pred_option (\<lambda>y. P (f y)) x"
  by (cases x) simp_all

lemma answers_object: "proper hs \<Longrightarrow> answers hs (object_response env gw i p s params hs obj)"
  by (auto simp: object_response_def Let_def proper_metadata answers_make
      split: option.split sum.split template_error.split)

lemma answers_not_found: "proper hs \<Longrightarrow> answers hs (not_found_text hs)"
  by (simp add: not_found_text_def answers_make)

lemma answers_empty: "proper hs \<Longrightarrow> answers hs ((empty_response s)\<lparr>rs_headers := apply_headers [] hs\<rparr>)"
  by (simp add: answers_make)

lemma ensures_gateway_read: "ensures (gateway_read env gw i p access) (\<lambda>_ _. True)"
  unfolding gateway_read_def io_stat_def
  by (auto intro!: ensures_intros ensures_match_op ensures_reads [OF reads_read_object] split: sum.split)

lemma ensures_serve_object:
  "proper hs \<Longrightarrow> ensures (serve_object_with_options env gw i p s params hs access) (answered hs)"
  unfolding serve_object_with_options_def
  by (rule ensures_then [OF ensures_gateway_read])
    (auto intro!: ensures_intros simp: answers_object option.pred_True)

lemma ensures_serve_static:
  assumes "proper hs"
  shows "ensures (serve_static_path_with_options env gw i config p s params hs access) (answered hs)"
  unfolding serve_static_path_with_options_def
  by (rule ensures_then [OF ensures_serve_object [OF assms]])
    (auto intro!: ensures_intros ensures_weaken [OF ensures_serve_object [OF assms]] split: option.split)

lemma ensures_handle_missing:
  assumes "proper hs"
  shows "ensures (handle_missing env gw i config hs) (answered hs)"
proof -
  have page: "ensures (io_then (serve_object env gw i page 404 None hs) (\<lambda>found.
        case found of
          Some response \<Rightarrow> io_return (Some (response\<lparr>rs_status := 404\<rparr>))
        | None \<Rightarrow> io_return (Some (not_found_text hs)))) (answered hs)" for page
    unfolding serve_object_def
    by (rule ensures_then [OF ensures_serve_object [OF assms]])
      (auto intro!: ensures_intros simp: answers_not_found assms split: option.split)
  show ?thesis
  proof (cases "missing_action (missing config)")
    case MissingNotFound
    then show ?thesis
      using page by (auto simp: handle_missing_def answers_not_found assms intro!: ensures_intros split: option.split)
  next
    case MissingServe
    then show ?thesis
      by (auto simp: handle_missing_def answers_not_found assms serve_object_def
          intro!: ensures_intros ensures_serve_object split: option.split)
  next
    case MissingRedirect
    show ?thesis
      unfolding handle_missing_def MissingRedirect missing_action.case
      by (rule ensures_then [OF ensures_lift, where P = "\<lambda>_ _. True"])
        (auto simp: Let_def safe_names proper_insert assms intro!: ensures_intros answers_make split: option.split)
  qed
qed


lemma answers_default:
  "proper hs \<Longrightarrow> pred_option (answers hs) x \<Longrightarrow>
   answers hs (case x of Some r \<Rightarrow> r | None \<Rightarrow> not_found_text hs)"
  by (cases x) (simp_all add: answers_not_found)

lemma proper_combined: "proper hs \<Longrightarrow> proper gs \<Longrightarrow> proper (combined_response_headers hs gs)"
  by (simp add: combined_response_headers_def proper_apply)

lemma answers_combined:
  "proper hs \<Longrightarrow> proper gs \<Longrightarrow> answers (combined_response_headers hs gs) r \<Longrightarrow> answers gs r"
  by (erule answers_more) (simp add: combined_response_headers_def get_apply map_le_map_add)

lemma answers_edge:
  "proper cors \<Longrightarrow> answers cors r \<Longrightarrow> answers cors (with_edge_headers r edge_headers cors request)"
  by (simp add: with_edge_headers_def answers_make proper_apply proper_filtered answers_def [of cors r])

lemma ensures_apply_outcome:
  assumes cors: "proper cors"
  shows "ensures (apply_outcome env gw request resolved config cors outcome eh) (answered cors)"
proof (cases outcome)
  case Continue
  then show ?thesis by (auto simp: apply_outcome_def intro!: ensures_intros)
next
  case (RespondDirect s body)
  then show ?thesis using cors
    by (auto simp: apply_outcome_def answers_make proper_apply proper_filtered intro!: ensures_intros)
next
  case (ServeFile s p params)
  let ?hs = "combined_response_headers (filtered_headers eh) cors"
  have hs: "proper ?hs" using cors by (intro proper_combined proper_filtered)
  have missing: "ensures (io_then (handle_missing env gw (rh_origin_id resolved) config ?hs) (\<lambda>missing_response.
      io_return (Some (finalize_response
        (case missing_response of Some r \<Rightarrow> r | None \<Rightarrow> not_found_text ?hs) request)))) (answered cors)"
    by (rule ensures_then [OF ensures_handle_missing [OF hs]])
      (auto intro!: ensures_intros answers_combined [OF proper_filtered cors] answers_default hs)
  show ?thesis
    unfolding ServeFile apply_outcome_def edge_payload_outcome.case
    by (rule ensures_then [OF ensures_serve_static [OF cors]])
      (auto intro!: ensures_intros ensures_weaken [OF missing] answers_edge cors simp: Let_def split: option.split)
next
  case (RenderTarget s params)
  show ?thesis
    unfolding RenderTarget apply_outcome_def edge_payload_outcome.case Let_def serve_static_path_def
    by (rule ensures_then [OF ensures_serve_static [OF cors]])
      (auto intro!: ensures_intros answers_edge cors answers_not_found split: option.split)
qed

definition chain_answers :: "headers \<Rightarrow> edge_chain_result \<Rightarrow> bool" where
  "chain_answers cors r \<longleftrightarrow> pred_option (answers cors) (fst r) \<and> proper (snd r)"

lemma ensures_hooks_step:
  assumes cors: "proper cors"
    and rest: "\<And>eh'. ensures (run_hooks env gw request resolved config cors (Suc n) hooks eh') (\<lambda>_. chain_answers cors)"
  shows "ensures (io_then (apply_outcome env gw request resolved config cors outcome eh) (\<lambda>response.
      case response of
        Some r \<Rightarrow> io_return (terminal_edge_response r)
      | None \<Rightarrow> run_hooks env gw request resolved config cors (Suc n) hooks eh)) (\<lambda>_. chain_answers cors)"
  by (rule ensures_then [OF ensures_apply_outcome [OF cors]])
    (auto intro!: ensures_intros ensures_weaken [OF rest] simp: chain_answers_def terminal_edge_response_def
      split: option.split)

lemma ensures_hook_failure:
  "proper cors \<Longrightarrow> ensures (io_return (terminal_edge_response
     (finalize_response ((empty_response s)\<lparr>rs_headers := apply_headers [] cors\<rparr>) request))) (\<lambda>_. chain_answers cors)"
  by (auto intro!: ensures_intros simp: chain_answers_def terminal_edge_response_def answers_empty)

lemma ensures_run_hooks:
  assumes cors: "proper cors"
  shows "ensures (run_hooks env gw request resolved config cors n hooks eh) (\<lambda>_. chain_answers cors)"
proof (induction hooks arbitrary: n eh)
  case Nil
  then show ?case by (auto simp: chain_answers_def proper_filtered intro!: ensures_intros)
next
  case (Cons hook hooks)
  show ?case
    by (auto simp: Let_def ensures_hook_failure ensures_hooks_step cors Cons.IH split: sum.split)
qed

lemma ensures_serve_request:
  assumes hs: "proper hs"
  shows "ensures (serve_request env gw request resolved config hs) (\<lambda>_. answers hs)"
proof (cases "find_redirect config (rq_path request) (rq_query request)")
  case None
  have missing: "ensures (io_then (handle_missing env gw (rh_origin_id resolved) config hs) (\<lambda>missing_response.
      io_return (finalize_response
        (case missing_response of Some r \<Rightarrow> r | None \<Rightarrow> not_found_text hs) request))) (\<lambda>_. answers hs)"
    by (rule ensures_then [OF ensures_handle_missing [OF hs]])
      (auto intro!: ensures_intros answers_default hs)
  show ?thesis
    unfolding serve_request_def None option.case serve_static_path_def
    by (rule ensures_then [OF ensures_serve_static [OF hs]])
      (auto intro!: ensures_intros ensures_weaken [OF missing] split: option.split)
next
  case (Some redirect)
  show ?thesis
    unfolding serve_request_def Some option.case
    by (rule ensures_then [OF ensures_lift, where P = "\<lambda>_ _. True"])
      (auto intro!: ensures_intros answers_make proper_insert safe_names hs)
qed

text \<open>Every answer to a known host is proper and carries the headers for the requesting origin.\<close>

lemma ensures_preflight:
  "answers (cors_headers env gw i request) (preflight_response (cors_headers env gw i request) request)"
proof -
  define cors where "cors = cors_headers env gw i request"
  have cors: "proper cors" unfolding cors_def by (rule proper_cors)
  have keys: "dom (bt_get cors) \<subseteq> {''access-control-allow-origin'', ''vary''}"
    by (auto simp: cors_def cors_headers_def map_of_bt_extend split: option.splits)
  have "bt_get cors \<subseteq>\<^sub>m bt_get (insert_header hs name v)"
    if "bt_get cors \<subseteq>\<^sub>m bt_get hs" and "to_ascii_lowercase name \<notin> {''access-control-allow-origin'', ''vary''}" for hs name v
    using that keys by (auto simp: insert_header_def map_le_def)
  then have "bt_get cors \<subseteq>\<^sub>m bt_get (rs_headers (preflight_response cors request))"
    using cors by (auto simp: preflight_response_def Let_def get_apply str_eval split: option.split)
  moreover have "proper (rs_headers (preflight_response cors request))"
    using cors by (auto simp: preflight_response_def Let_def proper_insert safe_names proper_apply split: option.split)
  ultimately show ?thesis by (simp add: answers_def cors_def)
qed

lemma ensures_handle:
  assumes "resolve (gw_resolver gw) (rq_host request) = Some resolved"
  shows "ensures (handle env gw request)
    (\<lambda>_. answers (cors_headers env gw (rh_origin_id resolved) request))"
proof -
  define cors where "cors = cors_headers env gw (rh_origin_id resolved) request"
  have cors: "proper cors" unfolding cors_def by (rule proper_cors)
  have after: "ensures (case fst p of
          Some r \<Rightarrow> io_return r
        | None \<Rightarrow> serve_request env gw request resolved config (combined_response_headers (snd p) cors))
       (\<lambda>_. answers cors)" if p: "chain_answers cors p" for p config
  proof (cases "fst p")
    case None
    have hs: "proper (snd p)" using p by (simp add: chain_answers_def)
    show ?thesis unfolding None option.case
      by (rule ensures_weaken [OF ensures_serve_request [OF proper_combined [OF hs cors]]])
        (use answers_combined [OF hs cors] in blast)
  qed (use p in \<open>auto intro!: ensures_intros simp: chain_answers_def\<close>)
  have chain: "ensures (io_then (handle_edge_chain env gw request resolved config cors) (\<lambda>(response, edge_headers).
        case response of
          Some r \<Rightarrow> io_return r
        | None \<Rightarrow> serve_request env gw request resolved config (combined_response_headers edge_headers cors)))
       (\<lambda>_. answers cors)" for config
    unfolding handle_edge_chain_def case_prod_unfold
    by (rule ensures_bind [OF ensures_run_hooks [OF cors] after])
  show ?thesis
    using chain ensures_preflight [of env gw "rh_origin_id resolved" request]
    by (auto simp: handle_def assms Let_def cors_def [symmetric] answers_empty cors intro!: ensures_intros split: sum.split)
qed

section \<open>Answering changes no file\<close>

lemma keeps_gateway_read [keeps_intros]: "keeps K (gateway_read env gw i p access)"
  unfolding gateway_read_def by (auto intro!: keeps_intros split: sum.split)

lemma keeps_serve [keeps_intros]:
  "keeps K (serve_object_with_options env gw i p s params hs access)"
  "keeps K (serve_object env gw i p s params hs)"
  "keeps K (serve_static_path_with_options env gw i config p s params hs access)"
  "keeps K (serve_static_path env gw i config p s params hs)"
  unfolding serve_static_path_def serve_static_path_with_options_def serve_object_def serve_object_with_options_def
  by (auto intro!: keeps_intros split: option.split)

lemma keeps_handle_missing [keeps_intros]: "keeps K (handle_missing env gw i config hs)"
  unfolding handle_missing_def
  by (auto intro!: keeps_intros simp: Let_def split: missing_action.split option.split)

lemma keeps_apply_outcome [keeps_intros]:
  "keeps K (apply_outcome env gw request resolved config hs outcome eh)"
  unfolding apply_outcome_def
  by (auto intro!: keeps_intros simp: Let_def split: edge_payload_outcome.split option.split)

lemma keeps_run_hooks [keeps_intros]:
  "keeps K (run_hooks env gw request resolved config cors n hooks eh)"
  by (induction hooks arbitrary: n eh)
    (auto intro!: keeps_intros simp: Let_def split: sum.split option.split)

lemma keeps_serve_request [keeps_intros]:
  "keeps K (serve_request env gw request resolved config hs)"
  unfolding serve_request_def by (auto intro!: keeps_intros simp: Let_def split: option.split)

lemma keeps_handle: "keeps K (handle env gw request)"
  unfolding handle_def handle_edge_chain_def
  by (auto intro!: keeps_intros simp: Let_def split: option.split sum.split)

section \<open>Where bodies come from\<close>

text \<open>A file below the directory of the origin, reached by plain names only.\<close>

definition file_of_origin :: "'t gateway \<Rightarrow> string \<Rightarrow> filesystem \<Rightarrow> string \<Rightarrow> bool" where
  "file_of_origin gw i fs body \<longleftrightarrow>
     (\<exists>names. ''..'' \<notin> set names \<and>
        fs_lookup fs (fs_key (gw_root gw) @ Normal i # map Normal names) = Some (FileNode body))"

definition rendered_for :: "'t gateway_env \<Rightarrow> 't gateway \<Rightarrow> string \<Rightarrow> string \<Rightarrow> bool" where
  "rendered_for env gw i body \<longleftrightarrow>
     (\<exists>registry key params. bt_get (gw_templates gw) i = Some registry \<and>
        env_render env registry key params = Inr body)"

definition said_by_hook :: "'t gateway_env \<Rightarrow> string \<Rightarrow> bool" where
  "said_by_hook env body \<longleftrightarrow>
     (\<exists>n url timeout request answer. env_edge_call env n url timeout request = Inr answer \<and>
        payload_body (edge_payload answer) = Some body)"

lemma said_by_hookI:
  "env_edge_call env n url timeout request = Inr answer \<Longrightarrow> payload_body (edge_payload answer) = Some body \<Longrightarrow>
   said_by_hook env body"
  unfolding said_by_hook_def by blast

definition body_of_origin :: "'t gateway_env \<Rightarrow> 't gateway \<Rightarrow> string \<Rightarrow> filesystem \<Rightarrow> string \<Rightarrow> bool" where
  "body_of_origin env gw i fs body \<longleftrightarrow>
     body \<in> {[], ''not found''} \<or> file_of_origin gw i fs body \<or> rendered_for env gw i body \<or>
     said_by_hook env body"

lemma mirror_path_key:
  assumes "root \<noteq> []" and "mirror_object_path root i op = Inr p"
  shows "fs_key p = fs_key root @ Normal i # map Normal (key_names (requested_key op))"
proof -
  have "filter (\<lambda>c. c \<noteq> CurDir) (map Normal names) = map Normal names" for names
    by (induction names) simp_all
  then show ?thesis by (simp add: fs_key_def mirror_path_components [OF assms])
qed

lemma stored_object_file:
  assumes "gw_root gw \<noteq> []" and "stored_object sha256 parse (gw_root gw) i p fs = Inr (Some obj)"
  shows "file_of_origin gw i fs (object_body obj)"
proof -
  obtain q where q: "mirror_object_path (gw_root gw) i (requested_key p) = Inr q"
      "fs_lookup fs (fs_key q) = Some (FileNode (object_body obj))"
    using stored_object_Some [OF assms(2)] by blast
  have "readable_key (requested_key (requested_key p))"
    using q(1) by (simp add: mirror_object_path_Inr [OF assms(1)])
  then have "''..'' \<notin> set (key_names (requested_key (requested_key p)))"
    by (auto simp: readable_key_def key_names_def)
  then show ?thesis
    unfolding file_of_origin_def using q(2) mirror_path_key [OF assms(1) q(1)] by metis
qed

lemma gateway_read_file:
  assumes "gw_root gw \<noteq> []"
  shows "ensures (gateway_read env gw i p access)
    (\<lambda>fs. pred_option (\<lambda>obj. file_of_origin gw i fs (object_body obj)))"
proof -
  have read: "ensures (read_object (env_sha256 env) (env_parse_metadata env) (gw_root gw) i p)
      (\<lambda>fs. pred_option (\<lambda>obj. file_of_origin gw i fs (object_body obj)))"
  proof (rule ensures_reads [OF reads_read_object])
    fix fs x
    assume "stored_object (env_sha256 env) (env_parse_metadata env) (gw_root gw) i p fs = Inr x"
    then show "pred_option (\<lambda>obj. file_of_origin gw i fs (object_body obj)) x"
      by (cases x) (simp_all add: stored_object_file [OF assms])
  qed
  show ?thesis
    unfolding gateway_read_def io_stat_def
    by (auto intro!: ensures_intros ensures_match_op read split: sum.split)
qed

abbreviation body_answered :: "'t gateway_env \<Rightarrow> 't gateway \<Rightarrow> string \<Rightarrow> filesystem \<Rightarrow> render_response option \<Rightarrow> bool" where
  "body_answered env gw i fs \<equiv> pred_option (\<lambda>r. body_of_origin env gw i fs (rs_body r))"

lemma body_object_response:
  assumes "file_of_origin gw i fs (object_body obj)"
  shows "body_of_origin env gw i fs (rs_body (object_response env gw i p s params hs obj))"
proof (cases params)
  case None
  with assms show ?thesis by (simp add: object_response_def Let_def body_of_origin_def)
next
  case (Some ps)
  show ?thesis
  proof (cases "render_template (env_render env) (gw_templates gw) i p ps")
    case (Inl e)
    then show ?thesis
      by (cases e) (simp_all add: object_response_def Let_def body_of_origin_def Some)
  next
    case (Inr out)
    then have "rendered_for env gw i out" by (auto simp: render_template_Inr rendered_for_def)
    with Inr Some show ?thesis by (simp add: object_response_def Let_def body_of_origin_def)
  qed
qed

lemma body_finalize: "body_of_origin env gw i fs (rs_body r) \<Longrightarrow> body_of_origin env gw i fs (rs_body (finalize_response r request))"
  by (simp add: finalize_response_def body_of_origin_def)

lemma body_edge: "body_of_origin env gw i fs (rs_body r) \<Longrightarrow> body_of_origin env gw i fs (rs_body (with_edge_headers r eh cors request))"
  by (simp add: with_edge_headers_def body_finalize)

lemma body_fixed [simp]: "body_of_origin env gw i fs []" "body_of_origin env gw i fs (rs_body (not_found_text hs))"
   "body_of_origin env gw i fs (rs_body (empty_response s))"
  by (simp_all add: body_of_origin_def not_found_text_def empty_response_def)


lemma body_serve_object:
  assumes "gw_root gw \<noteq> []"
  shows "ensures (serve_object_with_options env gw i p s params hs access) (body_answered env gw i)"
  unfolding serve_object_with_options_def
  by (rule ensures_then [OF gateway_read_file [OF assms]])
    (auto intro!: ensures_intros body_object_response simp: option.pred_set)

lemma body_serve_static:
  assumes "gw_root gw \<noteq> []"
  shows "ensures (serve_static_path_with_options env gw i config p s params hs access) (body_answered env gw i)"
  unfolding serve_static_path_with_options_def
  by (rule ensures_then [OF body_serve_object [OF assms]])
    (auto intro!: ensures_intros ensures_weaken [OF body_serve_object [OF assms]] split: option.split)

lemma body_handle_missing:
  assumes "gw_root gw \<noteq> []"
  shows "ensures (handle_missing env gw i config hs) (body_answered env gw i)"
proof (cases "missing_action (missing config)")
  case MissingNotFound
  have "ensures (io_then (serve_object env gw i page 404 None hs) (\<lambda>found.
        case found of
          Some response \<Rightarrow> io_return (Some (response\<lparr>rs_status := 404\<rparr>))
        | None \<Rightarrow> io_return (Some (not_found_text hs)))) (body_answered env gw i)" for page
    unfolding serve_object_def
    by (rule ensures_then [OF body_serve_object [OF assms]]) (auto intro!: ensures_intros split: option.split)
  then show ?thesis
    using MissingNotFound by (auto simp: handle_missing_def intro!: ensures_intros split: option.split)
next
  case MissingServe
  then show ?thesis
    by (auto simp: handle_missing_def serve_object_def
        intro!: ensures_intros body_serve_object assms split: option.split)
next
  case MissingRedirect
  show ?thesis
    unfolding handle_missing_def MissingRedirect missing_action.case
    by (rule ensures_then [OF ensures_lift, where P = "\<lambda>_ _. True"])
      (auto simp: Let_def intro!: ensures_intros)
qed

lemma body_default:
  "body_answered env gw i fs x \<Longrightarrow>
   body_of_origin env gw i fs (rs_body (finalize_response
     (case x of Some r \<Rightarrow> r | None \<Rightarrow> not_found_text hs) request))"
  by (cases x) (simp_all add: body_finalize)

lemma body_missing:
  assumes "gw_root gw \<noteq> []"
  shows "ensures (io_then (handle_missing env gw i config hs) (\<lambda>missing_response.
      io_return (f (finalize_response
        (case missing_response of Some r \<Rightarrow> r | None \<Rightarrow> not_found_text hs) request))))
     (\<lambda>fs y. \<exists>r. y = f r \<and> body_of_origin env gw i fs (rs_body r))"
  by (rule ensures_then [OF body_handle_missing [OF assms]])
    (auto intro!: ensures_intros body_default)

lemma body_apply_outcome:
  assumes root: "gw_root gw \<noteq> []"
    and said: "\<And>s body. outcome = RespondDirect s body \<Longrightarrow> said_by_hook env body"
  shows "ensures (apply_outcome env gw request resolved config cors outcome eh)
     (body_answered env gw (rh_origin_id resolved))"
proof (cases outcome)
  case Continue
  then show ?thesis by (auto simp: apply_outcome_def intro!: ensures_intros)
next
  case (RespondDirect s body)
  then have "body_of_origin env gw i fs body" for i fs using said by (simp add: body_of_origin_def)
  then show ?thesis using RespondDirect
    by (auto simp: apply_outcome_def intro!: ensures_intros body_finalize)
next
  case (ServeFile s p params)
  show ?thesis
    unfolding ServeFile apply_outcome_def edge_payload_outcome.case Let_def
    by (rule ensures_then [OF body_serve_static [OF root]])
      (auto intro!: ensures_intros ensures_weaken [OF body_missing [OF root, where f = Some]] body_edge
        split: option.split)
next
  case (RenderTarget s params)
  show ?thesis
    unfolding RenderTarget apply_outcome_def edge_payload_outcome.case Let_def serve_static_path_def
    by (rule ensures_then [OF body_serve_static [OF root]])
      (auto intro!: ensures_intros body_edge body_finalize split: option.split)
qed

lemma body_run_hooks:
  assumes root: "gw_root gw \<noteq> []"
  shows "ensures (run_hooks env gw request resolved config cors n hooks eh)
     (\<lambda>fs r. body_answered env gw (rh_origin_id resolved) fs (fst r))"
proof (induction hooks arbitrary: n eh)
  case Nil
  then show ?case by (auto intro!: ensures_intros)
next
  case (Cons hook hooks)
  let ?req = "edge_hook_request (env_parse_query env) request resolved
        (bucket_for_origin gw (rh_origin_id resolved)) (edge_context_for_origin gw (rh_origin_id resolved))"
  show ?case
  proof (cases "env_edge_call env n (hook_url hook) (hook_timeout_ms hook) ?req")
    case (Inl e)
    then show ?thesis
      by (auto simp: Let_def terminal_edge_response_def intro!: ensures_intros body_finalize)
  next
    case (Inr answer)
    show ?thesis
    proof (cases "apply_edge_payload eh (edge_status answer) (edge_payload answer)")
      case (Inl e)
      then show ?thesis using Inr
        by (auto simp: Let_def terminal_edge_response_def intro!: ensures_intros body_finalize)
    next
      case payload: (Inr out)
      have "said_by_hook env body" if "fst out = RespondDirect s body" for s body
        using payload that by (cases out) (auto simp: apply_edge_payload_Inr split: option.splits intro: said_by_hookI [OF Inr])
      then have "ensures (apply_outcome env gw request resolved config cors (fst out) (snd out))
          (body_answered env gw (rh_origin_id resolved))"
        by (rule body_apply_outcome [OF root])
      then have "ensures (io_then (apply_outcome env gw request resolved config cors (fst out) (snd out))
          (\<lambda>response. case response of
             Some r \<Rightarrow> io_return (terminal_edge_response r)
           | None \<Rightarrow> run_hooks env gw request resolved config cors (Suc n) hooks (snd out)))
         (\<lambda>fs r. body_answered env gw (rh_origin_id resolved) fs (fst r))"
        by (rule ensures_then)
          (auto intro!: ensures_intros ensures_weaken [OF Cons.IH] simp: terminal_edge_response_def
            split: option.split)
      then show ?thesis using Inr payload by (simp add: Let_def case_prod_unfold)
    qed
  qed
qed

lemma body_serve_request:
  assumes "gw_root gw \<noteq> []"
  shows "ensures (serve_request env gw request resolved config hs)
     (\<lambda>fs r. body_of_origin env gw (rh_origin_id resolved) fs (rs_body r))"
proof (cases "find_redirect config (rq_path request) (rq_query request)")
  case None
  show ?thesis
    unfolding serve_request_def None option.case serve_static_path_def
    by (rule ensures_then [OF body_serve_static [OF assms]])
      (auto intro!: ensures_intros body_finalize ensures_weaken [OF body_missing [OF assms, where f = "\<lambda>r. r"]]
        split: option.split)
next
  case (Some redirect)
  show ?thesis
    unfolding serve_request_def Some option.case
    by (rule ensures_then [OF ensures_lift, where P = "\<lambda>_ _. True"])
      (auto intro!: ensures_intros body_finalize)
qed

lemma body_handle:
  assumes "resolve (gw_resolver gw) (rq_host request) = Some resolved" and root: "gw_root gw \<noteq> []"
  shows "ensures (handle env gw request)
    (\<lambda>fs r. body_of_origin env gw (rh_origin_id resolved) fs (rs_body r))"
proof -
  have chain: "ensures (io_then (handle_edge_chain env gw request resolved config cors) (\<lambda>(response, edge_headers).
        case response of
          Some r \<Rightarrow> io_return r
        | None \<Rightarrow> serve_request env gw request resolved config (combined_response_headers edge_headers cors)))
       (\<lambda>fs r. body_of_origin env gw (rh_origin_id resolved) fs (rs_body r))" for config cors
    unfolding handle_edge_chain_def case_prod_unfold
    by (rule ensures_then [OF body_run_hooks [OF root]])
      (auto intro!: ensures_intros ensures_weaken [OF body_serve_request [OF root]] split: option.split)
  then show ?thesis
    by (auto simp: handle_def assms(1) Let_def preflight_response_def intro!: ensures_intros split: sum.split)
qed


section \<open>HEAD\<close>

text \<open>A request for the headers only is answered like the request for the object, the body left out.\<close>

definition bodiless :: "render_response \<Rightarrow> render_response" where
  "bodiless r = r\<lparr>rs_body := []\<rparr>"

lemma bodiless_simps [simp]:
  "bodiless (r\<lparr>rs_headers := hs\<rparr>) = (bodiless r)\<lparr>rs_headers := hs\<rparr>"
  "bodiless (empty_response s) = empty_response s"
  "bodiless (finalize_response r request) = bodiless r"
  by (simp_all add: bodiless_def empty_response_def finalize_response_def)

lemma finalize_head: "rq_method request = ''HEAD'' \<Longrightarrow> finalize_response r request = bodiless r"
  by (simp add: finalize_response_def bodiless_def)

lemma serve_request_head:
  "serve_request env gw (request\<lparr>rq_method := ''HEAD''\<rparr>) resolved config hs =
     io_then (serve_request env gw request resolved config hs) (\<lambda>r. io_return (bodiless r))"
proof (cases "find_redirect config (rq_path request) (rq_query request)")
  case None
  show ?thesis
    unfolding serve_request_def io_then_assoc
    by (simp add: None io_then_assoc, rule io_then_cong)
      (simp add: io_then_assoc io_then_return finalize_head split: option.split)
next
  case (Some redirect)
  then show ?thesis by (simp add: serve_request_def io_then_assoc io_then_return finalize_head)
qed

lemma handle_head:
  assumes "rq_method request = ''GET''"
    and "\<And>i config. config_store_get (gw_edge_configs gw) i = Inr config \<Longrightarrow> edges config = []"
  shows "handle env gw (request\<lparr>rq_method := ''HEAD''\<rparr>) =
     io_then (handle env gw request) (\<lambda>r. io_return (bodiless r))"
proof (cases "resolve (gw_resolver gw) (rq_host request)")
  case None
  then show ?thesis by (simp add: handle_def io_then_return)
next
  case (Some resolved)
  have cors: "cors_headers env gw i (request\<lparr>rq_method := ''HEAD''\<rparr>) = cors_headers env gw i request" for i
    by (simp add: cors_headers_def request_header_def)
  show ?thesis
  proof (cases "config_store_get (gw_edge_configs gw) (rh_origin_id resolved)")
    case (Inl e)
    then show ?thesis using Some assms(1) by (simp add: handle_def Let_def cors io_then_return)
  next
    case (Inr config)
    then show ?thesis using Some assms
      by (simp add: handle_def Let_def cors handle_edge_chain_def io_then_assoc io_then_return serve_request_head)
  qed
qed

section \<open>The chain of hooks\<close>

text \<open>What a hook is sent, and what a hook says that lets the chain go on.\<close>

definition sent_to_hooks :: "'t gateway_env \<Rightarrow> 't gateway \<Rightarrow> render_request \<Rightarrow> resolved_host \<Rightarrow> edge_hook_request" where
  "sent_to_hooks env gw request resolved =
     edge_hook_request (env_parse_query env) request resolved
       (bucket_for_origin gw (rh_origin_id resolved)) (edge_context_for_origin gw (rh_origin_id resolved))"

definition hook_continues :: "'t gateway_env \<Rightarrow> edge_hook_request \<Rightarrow> nat \<Rightarrow> edge_hook_config \<Rightarrow> headers \<Rightarrow> bool" where
  "hook_continues env sent n hook hs \<longleftrightarrow>
     (\<exists>status. env_edge_call env n (hook_url hook) (hook_timeout_ms hook) sent =
        Inr \<lparr>edge_status = status,
             edge_payload = \<lparr>payload_headers = hs, payload_body = None, payload_file_path = None, payload_params = None\<rparr>\<rparr>)"

fun hooks_continue :: "'t gateway_env \<Rightarrow> edge_hook_request \<Rightarrow> nat \<Rightarrow> edge_hook_config list \<Rightarrow> headers list \<Rightarrow> bool" where
  "hooks_continue env sent n [] hss \<longleftrightarrow> hss = []"
| "hooks_continue env sent n (hook # hooks) hss \<longleftrightarrow>
     (case hss of [] \<Rightarrow> False
      | hs # hss' \<Rightarrow> hook_continues env sent n hook hs \<and> hooks_continue env sent (Suc n) hooks hss')"

lemma run_hooks_continue:
  "hooks_continue env (sent_to_hooks env gw request resolved) n before hss \<Longrightarrow>
   run_hooks env gw request resolved config cors n (before @ hooks) eh =
   run_hooks env gw request resolved config cors (n + length before) hooks (foldl bt_extend eh hss)"
proof (induction before arbitrary: n hss eh)
  case Nil
  then show ?case by simp
next
  case (Cons hook before)
  then obtain hs hss' where hss: "hss = hs # hss'"
      and hook: "hook_continues env (sent_to_hooks env gw request resolved) n hook hs"
      and rest: "hooks_continue env (sent_to_hooks env gw request resolved) (Suc n) before hss'"
    by (auto split: list.splits)
  obtain status where "env_edge_call env n (hook_url hook) (hook_timeout_ms hook) (sent_to_hooks env gw request resolved) =
      Inr \<lparr>edge_status = status,
             edge_payload = \<lparr>payload_headers = hs, payload_body = None, payload_file_path = None, payload_params = None\<rparr>\<rparr>"
    using hook unfolding hook_continues_def by blast
  then have "run_hooks env gw request resolved config cors n ((hook # before) @ hooks) eh =
      run_hooks env gw request resolved config cors (Suc n) (before @ hooks) (bt_extend eh hs)"
    by (simp add: Let_def sent_to_hooks_def [symmetric] apply_edge_payload_def apply_outcome_def io_then_return)
  then show ?case using Cons.IH [OF rest] hss by simp
qed

text \<open>The first hook that does not let the chain go on decides, whatever comes after it.\<close>

lemma run_hooks_failure:
  assumes "hooks_continue env (sent_to_hooks env gw request resolved) 0 before hss"
    and "env_edge_call env (length before) (hook_url hook) (hook_timeout_ms hook)
           (sent_to_hooks env gw request resolved) = Inl e"
  shows "run_hooks env gw request resolved config cors 0 (before @ hook # after) eh =
     io_return (terminal_edge_response (finalize_response
       ((empty_response (edge_failure_status e))\<lparr>rs_headers := apply_headers [] cors\<rparr>) request))"
  using assms(2) by (simp add: run_hooks_continue [OF assms(1)] Let_def sent_to_hooks_def [symmetric])

lemma run_hooks_direct:
  assumes "hooks_continue env (sent_to_hooks env gw request resolved) 0 before hss"
    and "env_edge_call env (length before) (hook_url hook) (hook_timeout_ms hook)
           (sent_to_hooks env gw request resolved) = Inr answer"
    and "payload_body (edge_payload answer) = Some body"
  shows "run_hooks env gw request resolved config cors 0 (before @ hook # after) [] =
     io_return (terminal_edge_response (finalize_response
       \<lparr>rs_status = edge_status answer,
        rs_headers = apply_headers (apply_headers []
          (filtered_headers (bt_extend (foldl bt_extend [] hss) (payload_headers (edge_payload answer))))) cors,
        rs_body = body\<rparr> request))"
  using assms(2,3)
  by (simp add: run_hooks_continue [OF assms(1)] Let_def sent_to_hooks_def [symmetric]
      apply_edge_payload_def apply_outcome_def io_then_return)

section \<open>A stored object is served\<close>

lemma gateway_read_stored:
  assumes calm: "calm w" and root: "gw_root gw \<noteq> []"
    and stable: "requested_key (requested_key path) = requested_key path"
    and open_path: "access = PublicAccess \<longrightarrow> \<not> is_reserved_rendermesh_path path"
    and stored: "stored_object (env_sha256 env) (env_parse_metadata env) (gw_root gw) i path (world_fs w) = Inr (Some obj)"
  shows "\<exists>v. gateway_read env gw i path access w = (Inr (Some obj), v)"
proof -
  obtain p where p: "mirror_object_path (gw_root gw) i (requested_key path) = Inr p"
      "readable_key (requested_key path)" "fs_lookup (world_fs w) (fs_key p) = Some (FileNode (object_body obj))"
    using stored_object_Some [OF stored] by blast
  have path: "mirror_object_path (gw_root gw) i path = Inr p"
    using p(1) stable by (simp add: mirror_object_path_Inr [OF root])
  obtain r u where stat: "io_stat p w = (r, u)" by (cases "io_stat p w")
  have r: "r \<noteq> Inr DirNode" "world_fs u = world_fs w" "calm u"
    using readsD(1,2,3) [OF reads_simple(1) stat] calm p(3) by (auto simp: fs_stat_def)
  obtain s v where read: "read_object (env_sha256 env) (env_parse_metadata env) (gw_root gw) i path u = (s, v)"
    by (cases "read_object (env_sha256 env) (env_parse_metadata env) (gw_root gw) i path u")
  have "s = Inr (Some obj)" using readsD(3) [OF reads_read_object read r(3)] stored r(2) by simp
  then show ?thesis using path open_path stat r(1) read
    by (auto simp: gateway_read_def io_match_def)
qed

lemma handle_stored:
  assumes "calm w" and "gw_root gw \<noteq> []" and get: "rq_method request = ''GET''"
    and host: "resolve (gw_resolver gw) (rq_host request) = Some resolved"
    and conf: "config_store_get (gw_edge_configs gw) (rh_origin_id resolved) = Inr config" "edges config = []"
      "find_redirect config (rq_path request) (rq_query request) = None"
    and target: "target = resolve_request_target config (rq_path request)"
      "requested_key (requested_key target) = requested_key target" "\<not> is_reserved_rendermesh_path target"
    and stored: "stored_object (env_sha256 env) (env_parse_metadata env) (gw_root gw) (rh_origin_id resolved) target
       (world_fs w) = Inr (Some obj)"
  shows "fst (handle env gw request w) = Inr \<lparr>rs_status = 200,
     rs_headers = apply_headers (headers_from_metadata (object_metadata obj))
       (combined_response_headers [] (cors_headers env gw (rh_origin_id resolved) request)),
     rs_body = object_body obj\<rparr>"
proof -
  obtain v where read: "gateway_read env gw (rh_origin_id resolved) target PublicAccess w = (Inr (Some obj), v)"
    using gateway_read_stored [OF assms(1,2) target(2) _ stored] target(3) by blast
  have "filtered_headers [] = []" by (simp add: filtered_headers_def)
  then show ?thesis
    using read get conf
    by (simp add: handle_def host Let_def handle_edge_chain_def io_then_return serve_request_def
        target(1) [symmetric] serve_static_path_def serve_static_path_with_options_def
        serve_object_with_options_def io_then_assoc io_then_def io_return_def object_response_def
        finalize_response_def)
qed


lemma map_le_Some: "f \<subseteq>\<^sub>m g \<Longrightarrow> f k = Some v \<Longrightarrow> g k = Some v"
  by (metis domI map_le_def)

section \<open>An example gateway\<close>

text \<open>One origin with one hook and one without, on a mirror with a page; used by the examples below.\<close>

definition example_hook :: edge_hook_config where
  "example_hook = \<lparr>hook_name = ''h'', hook_url = ''http://hook/'', hook_timeout_ms = 50\<rparr>"

definition example_payload :: edge_hook_payload where
  "example_payload = \<lparr>payload_headers = [(''Connection'', ''close''), (''x-a'', ''1'')],
     payload_body = Some ''hi'', payload_file_path = None, payload_params = None\<rparr>"

definition example_env :: "unit gateway_env" where
  "example_env =
     \<lparr>env_sha256 = (\<lambda>_. ''h''), env_parse_metadata = (\<lambda>_. Inl ''bad''),
      env_render = (\<lambda>_ _ _. Inr ''page''),
      env_parse_url = (\<lambda>_. Inr \<lparr>url_scheme = ''https'', url_username = [], url_password = None,
        url_host_str = Some ''b.io'', url_port = None, url_path = ''/'', url_query = None,
        url_fragment = None\<rparr>),
      env_parse_query = (\<lambda>_. []),
      env_edge_call = (\<lambda>n url timeout req. if n = 0
        then Inr \<lparr>edge_status = 200, edge_payload = example_payload\<rparr>
        else Inl (ReqwestError True ''timeout''))\<rparr>"

definition example_gateway :: "unit gateway" where
  "example_gateway =
     \<lparr>gw_resolver = \<lparr>hr_exact = [(''a.io'', ''web''), (''b.io'', ''hooked'')], hr_wildcards = [], hr_fallback = None\<rparr>,
      gw_cors = [(''web'', [CorsExact ''b.io''])], gw_root = ''m'',
      gw_edge_configs = [(''hooked'', ValidConfig (default_edge_config\<lparr>edges := [example_hook, example_hook]\<rparr>)),
        (''web'', ValidConfig default_edge_config)],
      gw_templates = [], gw_origin_buckets = [], gw_edge_contexts = []\<rparr>"

definition example_files :: filesystem where
  "example_files = [([Normal ''m'', Normal ''web'', Normal ''p''], FileNode ''page''),
     ([Normal ''m'', Normal ''web''], DirNode), ([Normal ''m''], DirNode)]"

definition example_request :: "string \<Rightarrow> string \<Rightarrow> render_request" where
  "example_request host path = \<lparr>rq_method = ''GET'', rq_host = host, rq_path = path, rq_query = None,
     rq_scheme = ''https'', rq_client_ip = None, rq_headers = [(''origin'', ''https://b.io'')], rq_body = []\<rparr>"

lemmas example_defs = example_env_def example_gateway_def example_files_def example_request_def
  example_payload_def example_hook_def

lemma example_resolve:
  "resolve (gw_resolver example_gateway) ''a.io'' = Some \<lparr>normalized_host = ''a.io'', matched_host = ''a.io'', rh_origin_id = ''web''\<rparr>"
  "resolve (gw_resolver example_gateway) ''b.io'' = Some \<lparr>normalized_host = ''b.io'', matched_host = ''b.io'', rh_origin_id = ''hooked''\<rparr>"
  by (simp_all add: resolve_def example_gateway_def normalize_host_def str_eval Let_def is_valid_host_def
      is_valid_host_label_def)

lemma example_hook_answer:
  "handle example_env example_gateway (example_request ''b.io'' ''/'') (world_on example_files) =
     (Inr \<lparr>rs_status = 200, rs_headers = [(''x-a'', ''1'')], rs_body = ''hi''\<rparr>, world_on example_files)"
proof -
  have r: "resolve (gw_resolver example_gateway) (rq_host (example_request ''b.io'' ''/'')) =
      Some \<lparr>normalized_host = ''b.io'', matched_host = ''b.io'', rh_origin_id = ''hooked''\<rparr>"
    using example_resolve(2) by (simp add: example_request_def)
  show ?thesis
  unfolding handle_def r
  by (simp add: example_defs config_store_get_def cors_headers_def request_header_def header_to_str_def
      allowed_origin_for_def parse_https_origin_host_def normalize_host_def is_valid_host_def
      is_valid_host_label_def str_eval Let_def default_edge_config_def handle_edge_chain_def
      apply_edge_payload_def apply_outcome_def filtered_headers_def is_unsafe_edge_header_def unsafe_edge_headers_def
      bt_extend_def list_less_def apply_headers_def insert_header_def io_then_def io_return_def
      terminal_edge_response_def finalize_response_def)
qed


lemma example_not_resolved: "resolve (gw_resolver example_gateway) ''c.io'' = None"
  by (simp add: resolve_def example_gateway_def normalize_host_def str_eval Let_def is_valid_host_def
      is_valid_host_label_def)

lemma example_no_hooks: "edges default_edge_config = []"
  by (simp add: default_edge_config_def)

lemma example_allowed:
  "allowed_origin_for (env_parse_url example_env) (gw_cors example_gateway) ''web'' ''https://b.io'' = Some ''https://b.io''"
  by (simp add: example_env_def example_gateway_def allowed_origin_for_def parse_https_origin_host_def
      normalize_host_def str_eval Let_def is_valid_host_def is_valid_host_label_def)

lemma example_origin: "request_header (example_request h p) ''origin'' = Some ''https://b.io''"
  by (simp add: request_header_def example_request_def header_to_str_def byte_def)

lemma example_cors:
  "cors_headers example_env example_gateway ''web'' (example_request ''a.io'' ''/p'') =
     [(''access-control-allow-origin'', ''https://b.io''), (''vary'', ''Origin'')]"
  by (simp add: cors_headers_def example_origin example_allowed bt_extend_def list_less_def byte_eval)

lemma example_target:
  "find_redirect default_edge_config ''/p'' q = None"
  "resolve_request_target default_edge_config ''/p'' = ''/p''"
  "requested_key ''/p'' = ''p''" "requested_key ''p'' = ''p''" "\<not> is_reserved_rendermesh_path ''/p''"
  "config_store_get (gw_edge_configs example_gateway) ''web'' = Inr default_edge_config"
  by (simp_all add: find_redirect_def resolve_request_target_def default_edge_config_def best_rule_def max_by_key_def
      resolve_rewrite_def resolve_root_object_def requested_key_def str_eval is_reserved_rendermesh_path_def
      config_store_get_def example_gateway_def)

lemma example_paths:
  "origin_dir ''m'' ''web'' = Inr ''m/web''"
  "normalize_object_path ''/p'' = Inr ''p''" "normalize_object_path ''p'' = Inr ''p''"
  "mirror_object_path ''m'' ''web'' ''p'' = Inr ''m/web/p''"
  "metadata_sidecar_path (\<lambda>_. ''h'') ''m/web'' ''p'' = Inr ''m/web/.rendermesh-meta/68/68.json''"
proof -
  show dir: "origin_dir ''m'' ''web'' = Inr ''m/web''"
    by (simp add: origin_dir_def validate_origin_id_def fail_if_def str_eval join_path_def is_absolute_def)
  have keys: "requested_key ''/p'' = ''p''" "requested_key ''p'' = ''p''" by (rule example_target)+
  have readable: "readable_key ''p''"
    by (simp add: readable_key_def is_reserved_metadata_key_def METADATA_DIR_NAME_def path_components_def
        component_of_def is_absolute_def byte_eval)
  show n: "normalize_object_path ''/p'' = Inr ''p''" "normalize_object_path ''p'' = Inr ''p''"
    using keys readable by (simp_all add: normalize_object_path_Inr)
  show "mirror_object_path ''m'' ''web'' ''p'' = Inr ''m/web/p''"
    by (simp add: mirror_object_path_def dir n Let_def join_path_def is_absolute_def path_starts_with_def
        path_components_def component_of_def str_eval)
  show "metadata_sidecar_path (\<lambda>_. ''h'') ''m/web'' ''p'' = Inr ''m/web/.rendermesh-meta/68/68.json''"
    by (simp add: metadata_sidecar_path_def n Let_def stable_key_hash_def hex_digits_def str_eval
        join_path_def is_absolute_def METADATA_DIR_NAME_def)
qed

lemma example_stored:
  "stored_object (env_sha256 example_env) (env_parse_metadata example_env) (gw_root example_gateway) ''web'' ''/p'' example_files =
     Inr (Some \<lparr>object_body = ''page'', object_metadata = default_metadata\<rparr>)"
proof -
  have "fs_read example_files ''m/web/p'' = Inr ''page''"
    by (simp add: example_files_def io_eval)
  moreover have "fs_read example_files ''m/web/.rendermesh-meta/68/68.json'' = Inl NotFound"
    by (simp add: example_files_def io_eval upt_rec)
  moreover have "env_sha256 example_env = (\<lambda>_. ''h'')" "gw_root example_gateway = ''m''"
    by (simp_all add: example_env_def example_gateway_def)
  ultimately show ?thesis
    by (simp add: stored_object_def stored_metadata_def fs_read_to_string_def example_paths)
qed

lemma example_headers:
  "apply_headers (headers_from_metadata default_metadata) (combined_response_headers [] 
     [(''access-control-allow-origin'', ''https://b.io''), (''vary'', ''Origin'')]) =
   [(''access-control-allow-origin'', ''https://b.io''), (''vary'', ''Origin'')]"
  by (simp add: headers_from_metadata_def default_metadata_def combined_response_headers_def apply_headers_def
      insert_header_def str_eval list_less_def Let_def)

lemma example_request_simps [simp]:
  "rq_method (example_request h p) = ''GET''" "rq_host (example_request h p) = h" "rq_path (example_request h p) = p"
  "rq_query (example_request h p) = None" "gw_root example_gateway = ''m''" "world_fs (world_on fs) = fs"
  "calm (world_on fs)"
  by (simp_all add: example_request_def example_gateway_def world_on_def calm_def)

lemma example_static:
  "\<exists>w. handle example_env example_gateway (example_request ''a.io'' ''/p'') (world_on example_files) =
     (Inr \<lparr>rs_status = 200,
        rs_headers = [(''access-control-allow-origin'', ''https://b.io''), (''vary'', ''Origin'')],
        rs_body = ''page''\<rparr>, w)"
proof -
  have "fst (handle example_env example_gateway (example_request ''a.io'' ''/p'') (world_on example_files)) =
     Inr \<lparr>rs_status = 200,
        rs_headers = [(''access-control-allow-origin'', ''https://b.io''), (''vary'', ''Origin'')],
        rs_body = ''page''\<rparr>"
    using handle_stored [where w = "world_on example_files" and gw = example_gateway and env = example_env
        and request = "example_request ''a.io'' ''/p''" and config = default_edge_config and target = "''/p''"
        and resolved = "\<lparr>normalized_host = ''a.io'', matched_host = ''a.io'', rh_origin_id = ''web''\<rparr>"
        and obj = "\<lparr>object_body = ''page'', object_metadata = default_metadata\<rparr>"]
    using example_stored example_resolve(1) example_no_hooks
    by (simp add: example_target example_cors example_headers)
  then show ?thesis by (metis prod.collapse)
qed

section \<open>Properties\<close>

text \<open>Answering a request, whatever it asks and whatever fails, changes nothing in the file system.\<close>

theorem gateway_changes_no_file: "keeps UNIV (handle env gw request)"
  by (rule keeps_handle)

text \<open>C2: No answer has a header that belongs to the connection (such as \<open>connection\<close>,
\<open>content-length\<close> or \<open>transfer-encoding\<close>), whatever headers the hooks set.\<close>

theorem gateway_safe_headers:
  assumes "handle env gw request w = (Inr r, w')" and "name \<in> set (bt_keys (rs_headers r))"
  shows "\<not> is_unsafe_edge_header name"
proof (cases "resolve (gw_resolver gw) (rq_host request)")
  case None
  with assms show ?thesis by (auto simp: handle_def io_return_def empty_response_def)
next
  case (Some resolved)
  have "proper (rs_headers r)" using ensuresD [OF ensures_handle [OF Some] assms(1)] by (simp add: answers_def)
  with assms(2) show ?thesis by (auto simp: proper_def)
qed

theorem gateway_safe_headers_witness: "\<not> is_unsafe_edge_header ''x-a''"
  using gateway_safe_headers [OF example_hook_answer] by simp

text \<open>C3: The answer to a known host allows the requesting origin when the policy allows it for the
host's origin, and then no hook and no stored metadata can say otherwise.\<close>

theorem gateway_cors_decides:
  assumes "resolve (gw_resolver gw) (rq_host request) = Some resolved"
    and "request_header request ''origin'' = Some origin"
    and "allowed_origin_for (env_parse_url env) (gw_cors gw) (rh_origin_id resolved) origin = Some allowed"
    and "handle env gw request w = (Inr r, w')"
  shows "bt_get (rs_headers r) ''access-control-allow-origin'' = Some allowed"
proof -
  have "bt_get (cors_headers env gw (rh_origin_id resolved) request) ''access-control-allow-origin'' = Some allowed"
    using assms(2,3) by (simp add: cors_headers_def map_of_bt_extend)
  then show ?thesis
    using ensuresD [OF ensures_handle [OF assms(1)] assms(4)] by (auto simp: answers_def intro: map_le_Some)
qed

theorem gateway_cors_decides_witness:
  "bt_get [(''access-control-allow-origin'', ''https://b.io''), (''vary'', ''Origin'')]
     ''access-control-allow-origin'' = Some ''https://b.io''"
proof -
  obtain w where "handle example_env example_gateway (example_request ''a.io'' ''/p'') (world_on example_files) =
     (Inr \<lparr>rs_status = 200, rs_headers = [(''access-control-allow-origin'', ''https://b.io''), (''vary'', ''Origin'')],
        rs_body = ''page''\<rparr>, w)"
    using example_static ..
  from gateway_cors_decides [OF _ example_origin _ this] show ?thesis
    using example_resolve(1) example_allowed by simp
qed

text \<open>C1: The body of every answer to a known host is empty, the fixed text, the content of a file below
the directory of the host's origin, what a template of that origin renders, or what a hook said;
nothing of another origin is ever served.\<close>

theorem gateway_isolates_origins:
  assumes "resolve (gw_resolver gw) (rq_host request) = Some resolved" and "gw_root gw \<noteq> []"
    and "handle env gw request w = (Inr r, w')"
  shows "body_of_origin env gw (rh_origin_id resolved) (world_fs w) (rs_body r)"
  using ensuresD [OF body_handle [OF assms(1,2)] assms(3)] by blast

theorem gateway_isolates_origins_witness:
  "body_of_origin example_env example_gateway ''web'' example_files ''page''"
proof -
  obtain w where "handle example_env example_gateway (example_request ''a.io'' ''/p'') (world_on example_files) =
     (Inr \<lparr>rs_status = 200, rs_headers = [(''access-control-allow-origin'', ''https://b.io''), (''vary'', ''Origin'')],
        rs_body = ''page''\<rparr>, w)"
    using example_static ..
  from gateway_isolates_origins [OF _ _ this] show ?thesis using example_resolve(1) by simp
qed



text \<open>C5: On gateways whose origins have no hooks, HEAD is answered exactly like GET, the body left out.\<close>

theorem gateway_head_like_get:
  assumes "rq_method request = ''GET''"
    and "\<And>i config. config_store_get (gw_edge_configs gw) i = Inr config \<Longrightarrow> edges config = []"
  shows "handle env gw (request\<lparr>rq_method := ''HEAD''\<rparr>) =
     io_then (handle env gw request) (\<lambda>r. io_return (r\<lparr>rs_body := []\<rparr>))"
  using handle_head [OF assms] by (simp add: bodiless_def)

theorem gateway_head_like_get_witness:
  "handle example_env (example_gateway\<lparr>gw_edge_configs := [(''web'', ValidConfig default_edge_config)]\<rparr>)
       ((example_request ''a.io'' ''/p'')\<lparr>rq_method := ''HEAD''\<rparr>) =
     io_then (handle example_env (example_gateway\<lparr>gw_edge_configs := [(''web'', ValidConfig default_edge_config)]\<rparr>)
       (example_request ''a.io'' ''/p'')) (\<lambda>r. io_return (r\<lparr>rs_body := []\<rparr>))"
proof (rule gateway_head_like_get)
  fix i config
  assume "config_store_get (gw_edge_configs (example_gateway
     \<lparr>gw_edge_configs := [(''web'', ValidConfig default_edge_config)]\<rparr>)) i = Inr config"
  then show "edges config = []" by (auto simp: config_store_get_def example_no_hooks split: if_splits)
qed simp

text \<open>C6: When the hooks before it only set headers and the call of a hook fails, the chain ends there: 504 for
a timeout and 502 otherwise, without the collected headers, no file read, and the later hooks
not called.\<close>

theorem gateway_failing_hook_decides:
  assumes "hooks_continue env (sent_to_hooks env gw request resolved) 0 before hss"
    and "env_edge_call env (length before) (hook_url hook) (hook_timeout_ms hook)
           (sent_to_hooks env gw request resolved) = Inl e"
  shows "run_hooks env gw request resolved config cors 0 (before @ hook # after) [] =
     io_return (Some (finalize_response
       \<lparr>rs_status = (if \<exists>msg. e = ReqwestError True msg then 504 else 502),
        rs_headers = apply_headers [] cors, rs_body = []\<rparr> request), [])"
proof -
  have "edge_failure_status e = (if \<exists>msg. e = ReqwestError True msg then 504 else 502)"
    by (cases e) (auto simp: edge_failure_status_def)
  then show ?thesis
    using run_hooks_failure [OF assms] by (simp add: terminal_edge_response_def empty_response_def)
qed


theorem gateway_failing_hook_decides_witness:
  "run_hooks (example_env\<lparr>env_edge_call := (\<lambda>n url timeout req.
       if n = 0 then Inr \<lparr>edge_status = 200, edge_payload = \<lparr>payload_headers = [(''x-a'', ''1'')],
         payload_body = None, payload_file_path = None, payload_params = None\<rparr>\<rparr>
       else Inl (ReqwestError True ''timeout''))\<rparr>) example_gateway (example_request ''b.io'' ''/'')
     \<lparr>normalized_host = ''b.io'', matched_host = ''b.io'', rh_origin_id = ''hooked''\<rparr> default_edge_config [] 0
     [example_hook, example_hook, example_hook] [] =
   io_return (Some \<lparr>rs_status = 504, rs_headers = [], rs_body = []\<rparr>, [])"
  (is "run_hooks ?env _ ?request ?resolved _ _ _ _ _ = _")
proof -
  have "hooks_continue ?env (sent_to_hooks ?env example_gateway ?request ?resolved) 0 [example_hook] [[(''x-a'', ''1'')]]"
    by (simp add: hook_continues_def)
  from gateway_failing_hook_decides [OF this, of example_hook "ReqwestError True ''timeout''" default_edge_config
      "[]" "[example_hook]"]
  show ?thesis by (simp add: finalize_response_def apply_headers_def del: run_hooks.simps)
qed

text \<open>The check for reserved paths compares the beginning of the path only: with a dot segment in front, the
edge configuration of an origin is not reserved, though it is the same file of the mirror.\<close>

theorem gateway_reserved_path_bypass:
  assumes "root \<noteq> []" and "validate_origin_id i = Inr ()"
  shows "is_reserved_rendermesh_path ''/.rendermesh/edge.yaml'' \<and>
     \<not> is_reserved_rendermesh_path ''/./.rendermesh/edge.yaml'' \<and>
     (\<exists>p q. mirror_object_path root i ''/.rendermesh/edge.yaml'' = Inr p \<and>
        mirror_object_path root i ''/./.rendermesh/edge.yaml'' = Inr q \<and> fs_key p = fs_key q)"
proof -
  have keys: "requested_key ''/.rendermesh/edge.yaml'' = ''.rendermesh/edge.yaml''"
      "requested_key ''/./.rendermesh/edge.yaml'' = ''./.rendermesh/edge.yaml''"
    by (simp_all add: requested_key_def str_eval)
  have "readable_key ''.rendermesh/edge.yaml''" "readable_key ''./.rendermesh/edge.yaml''"
    by (simp_all add: readable_key_def is_reserved_metadata_key_def METADATA_DIR_NAME_def path_components_def
        component_of_def is_absolute_def byte_eval)
  then obtain p q where pq: "mirror_object_path root i ''/.rendermesh/edge.yaml'' = Inr p"
      "mirror_object_path root i ''/./.rendermesh/edge.yaml'' = Inr q"
    using assms keys by (simp add: mirror_object_path_Inr)
  moreover have "fs_key p = fs_key q"
    by (simp add: mirror_path_key [OF assms(1) pq(1)] mirror_path_key [OF assms(1) pq(2)] keys key_names_def)
  ultimately show ?thesis by (simp add: is_reserved_rendermesh_path_def str_eval)
qed

theorem gateway_reserved_path_bypass_witness:
  "\<exists>p q. mirror_object_path ''m'' ''web'' ''/.rendermesh/edge.yaml'' = Inr p \<and>
     mirror_object_path ''m'' ''web'' ''/./.rendermesh/edge.yaml'' = Inr q \<and> fs_key p = fs_key q"
  using gateway_reserved_path_bypass [of "''m''" "''web''"]
  by (simp add: validate_origin_id_def fail_if_def str_eval)

end
