(* ===== verification/Mirror_Sync.thy ===== *)
theory Mirror_Sync
  imports Template_Store
begin

text \<open>
  Bringing the mirror of an origin up to date (\<open>src/repositories/sync.rs\<close>): a staging
  directory is made from the mirror, the changed objects are downloaded into it, what the
  remote no longer has is removed, and the staging directory takes the place of the mirror.
  The remote storage is a pair of computations, the digest, serde's encoder and parser of the
  sidecars are parameters, and so are the process id and the clock readings.
\<close>

record remote_object =
  obj_key :: string
  obj_body :: string
  obj_etag :: "string option"
  obj_last_modified :: "string option"
  obj_content_type :: "string option"
  obj_cache_control :: "string option"

text \<open>The trait \<open>RemoteStorage\<close>.\<close>

record remote_storage =
  list_objects :: "(anyhow, remote_object_summary list) io"
  get_object :: "string \<Rightarrow> (anyhow, remote_object) io"

text \<open>What the sidecars need of other packages: SHA-256 and serde.\<close>

record sidecar_codec =
  codec_sha256 :: "string \<Rightarrow> string"
  codec_parse :: "string \<Rightarrow> string + object_metadata"
  codec_encode :: "object_metadata \<Rightarrow> string + string"

record staged_origin_sync =
  staged_origin_id :: string
  staged_dir :: pathbuf
  staged_index :: origin_freshness_index
  staged_diff :: origin_freshness_diff
  staged_downloaded :: nat

section \<open>Directories\<close>

definition remove_dir_if_exists :: "pathbuf \<Rightarrow> (anyhow, unit) io" where
  "remove_dir_if_exists p =
     io_match (io_remove_dir_all p) (\<lambda>r.
       case r of
         Inr _ \<Rightarrow> io_return ()
       | Inl NotFound \<Rightarrow> io_return ()
       | Inl e \<Rightarrow> io_fail (ErrorContext (''remove dir '' @ p) (io_anyhow e)))"

fun copy_entries ::
    "pathbuf \<Rightarrow> pathbuf \<Rightarrow> (string \<times> fs_node) list \<Rightarrow> (pathbuf \<times> pathbuf) list \<Rightarrow>
     (anyhow, (pathbuf \<times> pathbuf) list) io" where
  "copy_entries source_dir target_dir [] pushed =
     io_then (io_try io_next_entry) (\<lambda>_. io_return pushed)"
| "copy_entries source_dir target_dir ((name, node) # entries) pushed =
     io_then (io_try io_next_entry) (\<lambda>_.
     io_then (io_try io_file_type) (\<lambda>_.
     let target_path = join_path target_dir name in
     case node of
       DirNode \<Rightarrow>
         io_then (io_context (''create staging dir '' @ target_path) (io_create_dir_all target_path)) (\<lambda>_.
         copy_entries source_dir target_dir entries (pushed @ [(join_path source_dir name, target_path)]))
     | FileNode _ \<Rightarrow>
         io_then (io_context (''copy staging file '' @ target_path)
           (io_copy (join_path source_dir name) target_path)) (\<lambda>_.
         copy_entries source_dir target_dir entries pushed)))"

definition copy_dir :: "pathbuf \<times> pathbuf \<Rightarrow> unit \<Rightarrow> (anyhow, unit \<times> (pathbuf \<times> pathbuf) list) io" where
  "copy_dir dirs _ =
     (case dirs of (source_dir, target_dir) \<Rightarrow>
        io_then (io_context (''read mirror dir '' @ source_dir) (io_read_dir source_dir)) (\<lambda>entries.
        io_then (copy_entries source_dir target_dir entries []) (\<lambda>pushed. io_return ((), pushed))))"

definition copy_dir_contents :: "pathbuf \<Rightarrow> pathbuf \<Rightarrow> (anyhow, unit) io" where
  "copy_dir_contents from to =
     io_then (io_context (''create staging mirror '' @ to) (io_create_dir_all to)) (\<lambda>_.
     walk_dirs copy_dir [(from, to)] ())"

definition prepare_staging_dir :: "pathbuf \<Rightarrow> pathbuf \<Rightarrow> (anyhow, unit) io" where
  "prepare_staging_dir dir staging =
     io_then (remove_dir_if_exists staging) (\<lambda>_.
     io_match (io_stat dir) (\<lambda>r.
       case r of
         Inr _ \<Rightarrow> copy_dir_contents dir staging
       | Inl _ \<Rightarrow> io_context (''create staging mirror '' @ staging) (io_create_dir_all staging)))"

text \<open>The staging directory is renamed to the mirror; the old mirror is kept until that is done.\<close>

definition backup_dir :: "pathbuf \<Rightarrow> nat \<Rightarrow> pathbuf" where
  "backup_dir dir nanos = with_extension dir (''rendermesh-backup-'' @ show_nat nanos)"

definition swap_origin_dir :: "pathbuf \<Rightarrow> pathbuf \<Rightarrow> nat \<Rightarrow> (anyhow, unit) io" where
  "swap_origin_dir dir staging nanos =
     io_then
       (case path_parent dir of
          Some parent \<Rightarrow> io_context (''create mirror root '' @ parent) (io_create_dir_all parent)
        | None \<Rightarrow> io_return ()) (\<lambda>_.
     let backup = backup_dir dir nanos in
     io_match (io_stat dir) (\<lambda>found.
     let had_origin = \<not> isl found in
     io_then
       (if had_origin then io_context (''move old mirror to '' @ backup) (io_rename dir backup)
        else io_return ()) (\<lambda>_.
     io_match (io_rename staging dir) (\<lambda>moved.
       case moved of
         Inl e \<Rightarrow>
           io_then
             (if had_origin then io_context (''restore old mirror '' @ dir) (io_rename backup dir)
              else io_return ()) (\<lambda>_.
           io_fail (ErrorContext (''activate mirror '' @ dir) (io_anyhow e)))
       | Inr _ \<Rightarrow> remove_dir_if_exists backup))))"

section \<open>Objects\<close>

definition validate_downloaded_object ::
    "string \<Rightarrow> origin_file_state \<Rightarrow> remote_object \<Rightarrow> unit res" where
  "validate_downloaded_object key summary object =
     try_then (normalize_remote_key (obj_key object)) (\<lambda>downloaded_key.
     try_then (fail_if (downloaded_key \<noteq> key) (ErrorMsg (''downloaded object key '' @ downloaded_key @
        '' does not match listed key '' @ key))) (\<lambda>_.
     try_then (fail_if ((of_nat (length (obj_body object)) :: u64) \<noteq> fs_size summary)
       (ErrorMsg (''downloaded object '' @ key @ '' changed size after it was listed''))) (\<lambda>_.
     try_then (fail_if (fs_etag summary \<noteq> None \<and> obj_etag object \<noteq> fs_etag summary)
       (ErrorMsg (''downloaded object '' @ key @ '' changed etag after it was listed''))) (\<lambda>_.
     fail_if (fs_last_modified summary \<noteq> None \<and> obj_last_modified object \<noteq> fs_last_modified summary)
       (ErrorMsg (''downloaded object '' @ key @ '' changed last-modified after it was listed''))))))"

definition write_object :: "sidecar_codec \<Rightarrow> pathbuf \<Rightarrow> remote_object \<Rightarrow> (anyhow, unit) io" where
  "write_object codec dir object =
     io_then (io_lift (normalize_remote_key (obj_key object))) (\<lambda>key.
     io_then (io_lift (sync_object_path dir key)) (\<lambda>p.
     io_then
       (case path_parent p of
          Some parent \<Rightarrow> io_context (''create object parent '' @ parent) (io_create_dir_all parent)
        | None \<Rightarrow> io_return ()) (\<lambda>_.
     io_then (io_context (''write local object '' @ p) (io_write p (obj_body object))) (\<lambda>_.
     let metadata = \<lparr>meta_content_type = obj_content_type object, meta_etag = obj_etag object,
           meta_last_modified = obj_last_modified object, meta_cache_control = obj_cache_control object\<rparr> in
     io_then (io_lift (metadata_sidecar_path (codec_sha256 codec) dir key)) (\<lambda>sidecar.
     io_then
       (case path_parent sidecar of
          Some parent \<Rightarrow> io_context (''create metadata parent '' @ parent) (io_create_dir_all parent)
        | None \<Rightarrow> io_return ()) (\<lambda>_.
     io_then (io_lift (map_err ErrorMsg (codec_encode codec metadata))) (\<lambda>content.
     io_context (''write local object metadata '' @ sidecar) (io_write sidecar content))))))))"

definition read_sidecar_metadata ::
    "sidecar_codec \<Rightarrow> pathbuf \<Rightarrow> string \<Rightarrow> (anyhow, object_metadata) io" where
  "read_sidecar_metadata codec dir key =
     io_then (io_lift (metadata_sidecar_path (codec_sha256 codec) dir key)) (\<lambda>p.
     io_match (io_read_to_string p) (\<lambda>r.
       case r of
         Inr content \<Rightarrow>
           io_lift (with_context (''parse local object metadata '' @ p)
             (map_err ErrorMsg (codec_parse codec content)))
       | Inl NotFound \<Rightarrow> io_return default_metadata
       | Inl e \<Rightarrow> io_fail (ErrorContext (''read local object metadata '' @ p) (io_anyhow e))))"

definition optional_field_matches :: "string option \<Rightarrow> string option \<Rightarrow> bool" where
  "optional_field_matches local remote = (case remote of Some v \<Rightarrow> local = Some v | None \<Rightarrow> True)"

definition local_object_matches_summary ::
    "sidecar_codec \<Rightarrow> pathbuf \<Rightarrow> string \<Rightarrow> remote_object_summary \<Rightarrow> (anyhow, bool) io" where
  "local_object_matches_summary codec dir key summary =
     io_then (io_lift (sync_object_path dir key)) (\<lambda>p.
     io_match (io_stat p) (\<lambda>r.
       case r of
         Inr (FileNode content) \<Rightarrow>
           if (of_nat (length content) :: u64) \<noteq> sum_size summary then io_return False
           else
             io_then (read_sidecar_metadata codec dir key) (\<lambda>metadata.
             io_return
               (optional_field_matches (meta_etag metadata) (sum_etag summary) \<and>
                optional_field_matches (meta_last_modified metadata) (sum_last_modified summary) \<and>
                optional_field_matches (meta_content_type metadata) (sum_content_type summary) \<and>
                optional_field_matches (meta_cache_control metadata) (sum_cache_control summary)))
       | Inr DirNode \<Rightarrow> io_return False
       | Inl NotFound \<Rightarrow> io_return False
       | Inl e \<Rightarrow> io_fail (ErrorContext (''read local object metadata '' @ p) (io_anyhow e))))"

section \<open>Removing what the remote no longer has\<close>

fun removal_entries ::
    "sidecar_codec \<Rightarrow> string bset \<Rightarrow> pathbuf \<Rightarrow> pathbuf \<Rightarrow> (string \<times> fs_node) list \<Rightarrow> pathbuf list \<Rightarrow>
     (anyhow, pathbuf list) io" where
  "removal_entries codec remote_keys base dir [] pushed =
     io_then (io_try io_next_entry) (\<lambda>_. io_return pushed)"
| "removal_entries codec remote_keys base dir ((name, node) # entries) pushed =
     io_then (io_try io_next_entry) (\<lambda>_.
     let p = join_path dir name in
     io_then (io_try io_file_type) (\<lambda>_.
     case node of
       DirNode \<Rightarrow>
         if same_path p (join_path base METADATA_DIR_NAME)
         then removal_entries codec remote_keys base dir entries pushed
         else removal_entries codec remote_keys base dir entries (pushed @ [p])
     | FileNode _ \<Rightarrow>
         io_then (io_lift (relative_key base p)) (\<lambda>key.
         if key \<in> set remote_keys then removal_entries codec remote_keys base dir entries pushed
         else
           io_then (io_context (''remove deleted local object '' @ p) (io_remove_file p)) (\<lambda>_.
           io_then (io_lift (metadata_sidecar_path (codec_sha256 codec) base key)) (\<lambda>sidecar.
           io_match (io_remove_file sidecar) (\<lambda>r.
             case r of
               Inr _ \<Rightarrow> removal_entries codec remote_keys base dir entries pushed
             | Inl NotFound \<Rightarrow> removal_entries codec remote_keys base dir entries pushed
             | Inl e \<Rightarrow>
                 io_fail (ErrorContext (''remove deleted local object metadata '' @ sidecar)
                   (io_anyhow e))))))))"

definition removal_dir ::
    "sidecar_codec \<Rightarrow> string bset \<Rightarrow> pathbuf \<Rightarrow> pathbuf \<Rightarrow> unit \<Rightarrow> (anyhow, unit \<times> pathbuf list) io" where
  "removal_dir codec remote_keys base dir _ =
     io_match (io_read_dir dir) (\<lambda>r.
       case r of
         Inr entries \<Rightarrow>
           io_then (removal_entries codec remote_keys base dir entries []) (\<lambda>pushed.
           io_return ((), pushed))
       | Inl NotFound \<Rightarrow> io_return ((), [])
       | Inl e \<Rightarrow> io_fail (ErrorContext (''read mirror dir '' @ dir) (io_anyhow e)))"

definition remove_deleted_objects ::
    "sidecar_codec \<Rightarrow> pathbuf \<Rightarrow> string bset \<Rightarrow> (anyhow, unit) io" where
  "remove_deleted_objects codec dir remote_keys =
     walk_dirs (removal_dir codec remote_keys dir) [dir] ()"

fun orphan_entries ::
    "pathbuf list \<Rightarrow> pathbuf \<Rightarrow> (string \<times> fs_node) list \<Rightarrow> pathbuf list \<Rightarrow> (anyhow, pathbuf list) io" where
  "orphan_entries expected dir [] pushed = io_then (io_try io_next_entry) (\<lambda>_. io_return pushed)"
| "orphan_entries expected dir ((name, node) # entries) pushed =
     io_then (io_try io_next_entry) (\<lambda>_.
     let p = join_path dir name in
     io_then (io_try io_file_type) (\<lambda>_.
     case node of
       DirNode \<Rightarrow> orphan_entries expected dir entries (pushed @ [p])
     | FileNode _ \<Rightarrow>
         if \<exists>e \<in> set expected. same_path e p then orphan_entries expected dir entries pushed
         else
           io_then (io_context (''remove orphan metadata sidecar '' @ p) (io_remove_file p)) (\<lambda>_.
           orphan_entries expected dir entries pushed)))"

definition orphan_dir ::
    "pathbuf list \<Rightarrow> pathbuf \<Rightarrow> unit \<Rightarrow> (anyhow, unit \<times> pathbuf list) io" where
  "orphan_dir expected dir _ =
     io_match (io_read_dir dir) (\<lambda>r.
       case r of
         Inr entries \<Rightarrow>
           io_then (orphan_entries expected dir entries []) (\<lambda>pushed. io_return ((), pushed))
       | Inl NotFound \<Rightarrow> io_return ((), [])
       | Inl e \<Rightarrow> io_fail (ErrorContext (''read metadata mirror dir '' @ dir) (io_anyhow e)))"

definition remove_orphan_metadata_sidecars ::
    "sidecar_codec \<Rightarrow> pathbuf \<Rightarrow> string bset \<Rightarrow> (anyhow, unit) io" where
  "remove_orphan_metadata_sidecars codec dir remote_keys =
     io_then (io_lift (try_map (metadata_sidecar_path (codec_sha256 codec) dir) remote_keys)) (\<lambda>expected.
     walk_dirs (orphan_dir expected) [join_path dir METADATA_DIR_NAME] ())"

section \<open>Filling the staging directory\<close>

fun download_changed ::
    "sidecar_codec \<Rightarrow> remote_storage \<Rightarrow> pathbuf \<Rightarrow> origin_freshness_index \<Rightarrow> string list \<Rightarrow> nat \<Rightarrow>
     (anyhow, nat) io" where
  "download_changed codec storage dir index [] downloaded = io_return downloaded"
| "download_changed codec storage dir index (key # keys) downloaded =
     io_then (get_object storage key) (\<lambda>object.
     io_then (io_lift (ok_or (bt_get (index_files index) key)
        (ErrorMsg (''listed object '' @ key @ '' is missing from the freshness index'')))) (\<lambda>summary.
     io_then (io_lift (validate_downloaded_object key summary object)) (\<lambda>_.
     io_then (write_object codec dir object) (\<lambda>_.
     download_changed codec storage dir index keys (Suc downloaded)))))"

definition stage_origin_dir ::
    "sidecar_codec \<Rightarrow> remote_storage \<Rightarrow> string \<Rightarrow> string \<Rightarrow> pathbuf \<Rightarrow> origin_freshness_index option \<Rightarrow>
     (anyhow, origin_freshness_index \<times> origin_freshness_diff \<times> nat) io" where
  "stage_origin_dir codec storage now origin_id dir previous_index =
     io_then (io_context (''create origin mirror '' @ dir) (io_create_dir_all dir)) (\<lambda>_.
     io_then (list_objects storage) (\<lambda>summaries.
     io_then (io_lift (build_origin_index origin_id summaries now)) (\<lambda>index.
     let d = diff_origin_indexes previous_index index; remote_keys = bt_keys (index_files index) in
     io_then (download_changed codec storage dir index (diff_changed_paths d) 0) (\<lambda>downloaded.
     io_then (remove_deleted_objects codec dir remote_keys) (\<lambda>_.
     io_then (remove_orphan_metadata_sidecars codec dir remote_keys) (\<lambda>_.
     io_return (index, d, downloaded)))))))"

fun sync_objects ::
    "sidecar_codec \<Rightarrow> remote_storage \<Rightarrow> pathbuf \<Rightarrow> remote_object_summary list \<Rightarrow> string bset \<Rightarrow> nat \<Rightarrow>
     (anyhow, string bset \<times> nat) io" where
  "sync_objects codec storage dir [] remote_keys downloaded = io_return (remote_keys, downloaded)"
| "sync_objects codec storage dir (summary # summaries) remote_keys downloaded =
     io_then (io_lift (normalize_remote_key (sum_key summary))) (\<lambda>key.
     let keys = bset_insert key remote_keys in
     io_then (local_object_matches_summary codec dir key summary) (\<lambda>matches.
     if matches then sync_objects codec storage dir summaries keys downloaded
     else
       io_then (get_object storage (sum_key summary)) (\<lambda>object.
       io_then (write_object codec dir object) (\<lambda>_.
       sync_objects codec storage dir summaries keys (Suc downloaded)))))"

definition sync_origin_dir :: "sidecar_codec \<Rightarrow> remote_storage \<Rightarrow> pathbuf \<Rightarrow> (anyhow, nat) io" where
  "sync_origin_dir codec storage dir =
     io_then (io_context (''create origin mirror '' @ dir) (io_create_dir_all dir)) (\<lambda>_.
     io_then (list_objects storage) (\<lambda>summaries.
     io_then (sync_objects codec storage dir summaries [] 0) (\<lambda>(remote_keys, downloaded).
     io_then (remove_deleted_objects codec dir remote_keys) (\<lambda>_.
     io_then (remove_orphan_metadata_sidecars codec dir remote_keys) (\<lambda>_.
     io_return downloaded)))))"

section \<open>The service\<close>

definition staging_name :: "string \<Rightarrow> nat \<Rightarrow> nat \<Rightarrow> string" where
  "staging_name origin_id pid nanos = origin_id @ ''-'' @ show_nat pid @ ''-'' @ show_nat nanos"

definition staging_dir :: "pathbuf \<Rightarrow> string \<Rightarrow> nat \<Rightarrow> nat \<Rightarrow> pathbuf res" where
  "staging_dir root origin_id pid nanos =
     try_then (origin_dir root origin_id) (\<lambda>_.
     Inr (join_path (join_path root ''.rendermesh-sync'') (staging_name origin_id pid nanos)))"

text \<open>On an error the staging directory is removed and the error is passed on.\<close>

definition or_remove :: "pathbuf \<Rightarrow> (anyhow, 'a) io \<Rightarrow> (anyhow, 'a) io" where
  "or_remove staging m =
     io_match m (\<lambda>r.
       case r of
         Inr x \<Rightarrow> io_return x
       | Inl e \<Rightarrow> io_then (remove_dir_if_exists staging) (\<lambda>_. io_fail e))"

definition sync_origin ::
    "sidecar_codec \<Rightarrow> remote_storage \<Rightarrow> pathbuf \<Rightarrow> nat \<Rightarrow> nat \<Rightarrow> nat \<Rightarrow> string \<Rightarrow> (anyhow, nat) io" where
  "sync_origin codec storage root pid nanos swap_nanos origin_id =
     io_then (io_lift (origin_dir root origin_id)) (\<lambda>dir.
     io_then (io_lift (staging_dir root origin_id pid nanos)) (\<lambda>staging.
     io_then (prepare_staging_dir dir staging) (\<lambda>_.
     io_then (or_remove staging (sync_origin_dir codec storage staging)) (\<lambda>downloaded.
     io_then (or_remove staging (swap_origin_dir dir staging swap_nanos)) (\<lambda>_.
     io_return downloaded)))))"

definition stage_origin_sync ::
    "sidecar_codec \<Rightarrow> remote_storage \<Rightarrow> pathbuf \<Rightarrow> nat \<Rightarrow> nat \<Rightarrow> string \<Rightarrow> string \<Rightarrow> origin_freshness_index option \<Rightarrow>
     (anyhow, staged_origin_sync) io" where
  "stage_origin_sync codec storage root pid nanos now origin_id previous_index =
     io_then (io_lift (origin_dir root origin_id)) (\<lambda>dir.
     io_then (io_lift (staging_dir root origin_id pid nanos)) (\<lambda>staging.
     io_then (prepare_staging_dir dir staging) (\<lambda>_.
     io_then (or_remove staging (stage_origin_dir codec storage now origin_id staging previous_index))
       (\<lambda>(index, d, downloaded).
     io_return \<lparr>staged_origin_id = origin_id, staged_dir = staging, staged_index = index,
       staged_diff = d, staged_downloaded = downloaded\<rparr>))))"

definition activate_staged_origin :: "pathbuf \<Rightarrow> nat \<Rightarrow> staged_origin_sync \<Rightarrow> (anyhow, unit) io" where
  "activate_staged_origin root nanos staged =
     io_then (io_lift (origin_dir root (staged_origin_id staged))) (\<lambda>dir.
     or_remove (staged_dir staged) (swap_origin_dir dir (staged_dir staged) nanos))"

definition discard_staged_origin :: "staged_origin_sync \<Rightarrow> (anyhow, unit) io" where
  "discard_staged_origin staged = remove_dir_if_exists (staged_dir staged)"

section \<open>Evaluation\<close>

text \<open>Code equations with the sequencing unfolded, so that a continuation is evaluated once its argument is known.\<close>

lemmas remove_dir_if_exists_code [code] = remove_dir_if_exists_def [THEN fun_cong, unfolded sequencing]
lemmas copy_entries_code [code] = copy_entries.simps [THEN fun_cong, unfolded sequencing]
lemmas copy_dir_code [code] = copy_dir_def [THEN fun_cong, unfolded sequencing]
lemmas copy_dir_contents_code [code] = copy_dir_contents_def [THEN fun_cong, unfolded sequencing]
lemmas prepare_staging_dir_code [code] = prepare_staging_dir_def [THEN fun_cong, unfolded sequencing]
lemmas swap_origin_dir_code [code] = swap_origin_dir_def [THEN fun_cong, unfolded sequencing]
lemmas write_object_code [code] = write_object_def [THEN fun_cong, unfolded sequencing]
lemmas read_sidecar_metadata_code [code] = read_sidecar_metadata_def [THEN fun_cong, unfolded sequencing]
lemmas local_object_matches_summary_code [code] = local_object_matches_summary_def [THEN fun_cong, unfolded sequencing]
lemmas removal_entries_code [code] = removal_entries.simps [THEN fun_cong, unfolded sequencing]
lemmas removal_dir_code [code] = removal_dir_def [THEN fun_cong, unfolded sequencing]
lemmas remove_deleted_objects_code [code] = remove_deleted_objects_def [THEN fun_cong, unfolded sequencing]
lemmas orphan_entries_code [code] = orphan_entries.simps [THEN fun_cong, unfolded sequencing]
lemmas orphan_dir_code [code] = orphan_dir_def [THEN fun_cong, unfolded sequencing]
lemmas remove_orphan_metadata_sidecars_code [code] = remove_orphan_metadata_sidecars_def [THEN fun_cong, unfolded sequencing]
lemmas download_changed_code [code] = download_changed.simps [THEN fun_cong, unfolded sequencing]
lemmas stage_origin_dir_code [code] = stage_origin_dir_def [THEN fun_cong, unfolded sequencing]
lemmas or_remove_code [code] = or_remove_def [THEN fun_cong, unfolded sequencing]
lemmas stage_origin_sync_code [code] = stage_origin_sync_def [THEN fun_cong, unfolded sequencing]
lemmas activate_staged_origin_code [code] = activate_staged_origin_def [THEN fun_cong, unfolded sequencing]
lemmas discard_staged_origin_code [code] = discard_staged_origin_def [THEN fun_cong, unfolded sequencing]

end
