(* ===== verification/Origin_Runtime.thy ===== *)
theory Origin_Runtime
  imports Ordered_Map
begin

text \<open>
  The status of the origins shown by the debug interface
  (\<open>src/services/origin_runtime.rs\<close>). The clock reading of a result is an argument.
\<close>

record origin_snapshot =
  snap_origin_id :: string
  generation :: u64
  activated_at :: string
  captured_at :: string
  known_files :: nat
  added_files :: nat
  modified_files :: nat
  removed_files :: nat
  unchanged_files :: nat
  downloaded_files :: nat
  last_error :: "string option"
  last_cdn_provider :: "string option"
  last_cdn_status :: "string option"
  last_cdn_request_id :: "string option"
  last_cdn_request_ids :: "string list"
  last_cdn_refreshed_at :: "string option"
  last_cdn_submitted_items :: "nat option"
  last_cdn_error :: "string option"
  last_cdn_domain_provider :: "string option"
  last_cdn_domain_status :: "string option"
  last_cdn_domain_reconciled_at :: "string option"
  last_cdn_domain_added :: "nat option"
  last_cdn_domain_updated :: "nat option"
  last_cdn_domain_removed :: "nat option"
  last_cdn_domain_unchanged :: "nat option"
  last_cdn_domain_error :: "string option"

type_synonym origin_runtime_store = "(string, origin_snapshot) btree"

definition keep_cdn_history :: "origin_snapshot \<Rightarrow> origin_snapshot \<Rightarrow> origin_snapshot" where
  "keep_cdn_history previous s =
     s\<lparr>last_cdn_provider := last_cdn_provider previous,
       last_cdn_status := last_cdn_status previous,
       last_cdn_request_id := last_cdn_request_id previous,
       last_cdn_request_ids := last_cdn_request_ids previous,
       last_cdn_refreshed_at := last_cdn_refreshed_at previous,
       last_cdn_submitted_items := last_cdn_submitted_items previous,
       last_cdn_error := last_cdn_error previous,
       last_cdn_domain_provider := last_cdn_domain_provider previous,
       last_cdn_domain_status := last_cdn_domain_status previous,
       last_cdn_domain_reconciled_at := last_cdn_domain_reconciled_at previous,
       last_cdn_domain_added := last_cdn_domain_added previous,
       last_cdn_domain_updated := last_cdn_domain_updated previous,
       last_cdn_domain_removed := last_cdn_domain_removed previous,
       last_cdn_domain_unchanged := last_cdn_domain_unchanged previous,
       last_cdn_domain_error := last_cdn_domain_error previous\<rparr>"

definition set_snapshot :: "origin_snapshot \<Rightarrow> origin_runtime_store \<Rightarrow> origin_runtime_store" where
  "set_snapshot s store =
     (let s' = (case bt_get store (snap_origin_id s) of
                  Some previous \<Rightarrow> keep_cdn_history previous s
                | None \<Rightarrow> s)
      in bt_insert (snap_origin_id s') s' store)"

definition blank_snapshot :: "string \<Rightarrow> origin_snapshot" where
  "blank_snapshot i =
     \<lparr>snap_origin_id = i, generation = 0, activated_at = [], captured_at = [], known_files = 0,
      added_files = 0, modified_files = 0, removed_files = 0, unchanged_files = 0,
      downloaded_files = 0, last_error = None, last_cdn_provider = None, last_cdn_status = None,
      last_cdn_request_id = None, last_cdn_request_ids = [], last_cdn_refreshed_at = None,
      last_cdn_submitted_items = None, last_cdn_error = None, last_cdn_domain_provider = None,
      last_cdn_domain_status = None, last_cdn_domain_reconciled_at = None,
      last_cdn_domain_added = None, last_cdn_domain_updated = None, last_cdn_domain_removed = None,
      last_cdn_domain_unchanged = None, last_cdn_domain_error = None\<rparr>"

definition set_error :: "string \<Rightarrow> string \<Rightarrow> origin_runtime_store \<Rightarrow> origin_runtime_store" where
  "set_error i e store =
     (case bt_get store i of
        Some s \<Rightarrow> bt_insert i (s\<lparr>last_error := Some e\<rparr>) store
      | None \<Rightarrow> bt_insert i ((blank_snapshot i)\<lparr>last_error := Some e\<rparr>) store)"

text \<open>\<open>get_mut\<close> and an update of what it returns.\<close>

definition modify_snapshot ::
    "string \<Rightarrow> (origin_snapshot \<Rightarrow> origin_snapshot) \<Rightarrow> origin_runtime_store \<Rightarrow> origin_runtime_store" where
  "modify_snapshot i f store =
     (case bt_get store i of Some s \<Rightarrow> bt_insert i (f s) store | None \<Rightarrow> store)"

definition set_cdn_result ::
    "string \<Rightarrow> string \<Rightarrow> string \<Rightarrow> string \<Rightarrow> string option \<Rightarrow> string list \<Rightarrow> nat \<Rightarrow>
     origin_runtime_store \<Rightarrow> origin_runtime_store" where
  "set_cdn_result now i provider status request_id request_ids submitted_items =
     modify_snapshot i (\<lambda>s. s
       \<lparr>last_cdn_provider := Some provider,
        last_cdn_status := Some status,
        last_cdn_request_id := request_id,
        last_cdn_request_ids := request_ids,
        last_cdn_refreshed_at := Some now,
        last_cdn_submitted_items := Some submitted_items,
        last_cdn_error := None\<rparr>)"

definition set_cdn_error :: "string \<Rightarrow> string \<Rightarrow> origin_runtime_store \<Rightarrow> origin_runtime_store" where
  "set_cdn_error i e = modify_snapshot i (\<lambda>s. s\<lparr>last_cdn_error := Some e\<rparr>)"

definition set_cdn_domain_result ::
    "string \<Rightarrow> string \<Rightarrow> string \<Rightarrow> string \<Rightarrow> nat \<Rightarrow> nat \<Rightarrow> nat \<Rightarrow> nat \<Rightarrow>
     origin_runtime_store \<Rightarrow> origin_runtime_store" where
  "set_cdn_domain_result now i provider status added updated removed unchanged =
     modify_snapshot i (\<lambda>s. s
       \<lparr>last_cdn_domain_provider := Some provider,
        last_cdn_domain_status := Some status,
        last_cdn_domain_reconciled_at := Some now,
        last_cdn_domain_added := Some added,
        last_cdn_domain_updated := Some updated,
        last_cdn_domain_removed := Some removed,
        last_cdn_domain_unchanged := Some unchanged,
        last_cdn_domain_error := None\<rparr>)"

definition set_cdn_domain_error :: "string \<Rightarrow> string \<Rightarrow> origin_runtime_store \<Rightarrow> origin_runtime_store" where
  "set_cdn_domain_error i e = modify_snapshot i (\<lambda>s. s\<lparr>last_cdn_domain_error := Some e\<rparr>)"

definition list_origins :: "origin_runtime_store \<Rightarrow> origin_snapshot list" where
  "list_origins store = map snd store"

definition get_snapshot :: "origin_runtime_store \<Rightarrow> string \<Rightarrow> origin_snapshot option" where
  "get_snapshot store i = bt_get store i"

section \<open>Facts\<close>

text \<open>Every entry is stored under its own origin id.\<close>

definition runtime_store_ok :: "origin_runtime_store \<Rightarrow> bool" where
  "runtime_store_ok store \<longleftrightarrow>
     bt_ok store \<and> (\<forall>i s. bt_get store i = Some s \<longrightarrow> snap_origin_id s = i)"

lemma keep_cdn_history_sel [simp]:
  "snap_origin_id (keep_cdn_history p s) = snap_origin_id s"
  "generation (keep_cdn_history p s) = generation s"
  "last_error (keep_cdn_history p s) = last_error s"
  "last_cdn_error (keep_cdn_history p s) = last_cdn_error p"
  "last_cdn_request_ids (keep_cdn_history p s) = last_cdn_request_ids p"
  by (simp_all add: keep_cdn_history_def)

lemma runtime_store_ok_set_snapshot [simp, intro]:
  "runtime_store_ok store \<Longrightarrow> runtime_store_ok (set_snapshot s store)"
  by (auto simp: runtime_store_ok_def set_snapshot_def Let_def split: option.splits)

lemma runtime_store_ok_set_error [simp, intro]:
  "runtime_store_ok store \<Longrightarrow> runtime_store_ok (set_error i e store)"
  by (auto simp: runtime_store_ok_def set_error_def blank_snapshot_def split: option.splits)

lemma runtime_store_ok_modify:
  "(\<And>s. snap_origin_id (f s) = snap_origin_id s) \<Longrightarrow> runtime_store_ok store \<Longrightarrow>
   runtime_store_ok (modify_snapshot i f store)"
  by (auto simp: runtime_store_ok_def modify_snapshot_def split: option.splits)

lemma runtime_store_ok_cdn [simp, intro]:
  "runtime_store_ok store \<Longrightarrow> runtime_store_ok (set_cdn_result now i p st r rs n store)"
  "runtime_store_ok store \<Longrightarrow> runtime_store_ok (set_cdn_error i e store)"
  "runtime_store_ok store \<Longrightarrow> runtime_store_ok (set_cdn_domain_result now i p st a u r' n store)"
  "runtime_store_ok store \<Longrightarrow> runtime_store_ok (set_cdn_domain_error i e store)"
  by (simp_all add: set_cdn_result_def set_cdn_error_def set_cdn_domain_result_def
      set_cdn_domain_error_def runtime_store_ok_modify)

lemma get_set_snapshot:
  "get_snapshot (set_snapshot s store) i =
     (if i = snap_origin_id s
      then Some (case get_snapshot store i of Some p \<Rightarrow> keep_cdn_history p s | None \<Rightarrow> s)
      else get_snapshot store i)"
  by (auto simp: get_snapshot_def set_snapshot_def Let_def split: option.splits)

lemma get_set_error:
  "get_snapshot (set_error i e store) j =
     (if j = i then Some ((case get_snapshot store i of Some s \<Rightarrow> s | None \<Rightarrow> blank_snapshot i)\<lparr>last_error := Some e\<rparr>)
      else get_snapshot store j)"
  by (auto simp: get_snapshot_def set_error_def split: option.splits)

lemma get_modify_snapshot:
  "get_snapshot (modify_snapshot i f store) j =
     (if j = i then map_option f (get_snapshot store i) else get_snapshot store j)"
  by (auto simp: get_snapshot_def modify_snapshot_def split: option.splits)

section \<open>Properties\<close>

text \<open>The operations of the store.\<close>

inductive runtime_step :: "origin_runtime_store \<Rightarrow> origin_runtime_store \<Rightarrow> bool" where
  "runtime_step store (set_snapshot s store)"
| "runtime_step store (set_error i e store)"
| "runtime_step store (set_cdn_result now i provider status request ids n store)"
| "runtime_step store (set_cdn_error i e store)"
| "runtime_step store (set_cdn_domain_result now i provider status added updated removed unchanged store)"
| "runtime_step store (set_cdn_domain_error i e store)"

text \<open>Whatever sequence of updates it sees, the runtime store keeps every snapshot under the id of its
origin, once.\<close>

theorem runtime_store_invariant:
  assumes "runtime_step\<^sup>*\<^sup>* [] store"
  shows "runtime_store_ok store"
  using assms
proof (induction rule: rtranclp_induct)
  case base
  then show ?case by (simp add: runtime_store_ok_def)
next
  case (step store store')
  from step(2,3) show ?case by (cases rule: runtime_step.cases) auto
qed

theorem runtime_store_invariant_witness: "runtime_store_ok (set_error ''web'' ''x'' [])"
  by (rule runtime_store_invariant) (auto intro: runtime_step.intros)

text \<open>A new snapshot replaces the content of the old one but keeps what the store knows of the CDN, and
touches no other origin.\<close>

theorem snapshot_keeps_cdn_history:
  "get_snapshot (set_snapshot s store) i =
     (if i = snap_origin_id s
      then Some (case get_snapshot store i of Some p \<Rightarrow> keep_cdn_history p s | None \<Rightarrow> s)
      else get_snapshot store i)"
  by (rule get_set_snapshot)

end
