(* ===== verification/Cdn_Refresh.thy ===== *)
theory Cdn_Refresh
  imports Freshness Manifest
begin

text \<open>
  Purging a CDN after an activation (\<open>src/services/cdn_refresh.rs\<close>, the request and
  result types of \<open>src/repositories/cdn.rs\<close>). A repository is the function that sends
  its purge; it reads and changes the outside world, the type variable \<open>'w\<close>.
\<close>

section \<open>Requests, results, failures\<close>

datatype purge_mode = PurgeAll | PurgePaths "string list" | PurgeUrls "string list"

record purge_request =
  purge_origin_id :: string
  purge_generation :: u64
  purge_mode :: purge_mode

record purge_result =
  purge_provider :: string
  purge_request_ids :: "string list"
  purge_status :: string
  purge_submitted_items :: nat

record purge_failure =
  failure_provider :: string
  failure_request_ids :: "string list"
  failure_submitted_items :: nat
  failure_message :: string

definition purge_failure_display :: "purge_failure \<Rightarrow> string" where
  "purge_failure_display f =
     (if failure_request_ids f = [] then failure_message f
      else failure_message f @ ''; completed invalidation request ids: ['' @
             join_with '', '' (failure_request_ids f) @ '']'')"

text \<open>An \<open>anyhow::Error\<close> that may hold a purge failure to downcast to.\<close>

datatype purge_error = PurgeFailed purge_failure | OtherPurgeError anyhow

type_synonym 'w purge = "purge_request \<Rightarrow> 'w \<Rightarrow> (purge_error + purge_result) \<times> 'w"

datatype cloudflare_payload = PurgeEverything | PurgeFiles "string list"

fun ensure_paths_mode :: "purge_mode \<Rightarrow> string \<Rightarrow> string list res" where
  "ensure_paths_mode PurgeAll provider = Inr [''/*'']"
| "ensure_paths_mode (PurgePaths paths) provider = Inr paths"
| "ensure_paths_mode (PurgeUrls urls) provider =
     Inl (ErrorMsg (provider @ '' CDN purge requires paths''))"

fun ensure_cloudflare_mode :: "purge_mode \<Rightarrow> cloudflare_payload res" where
  "ensure_cloudflare_mode PurgeAll = Inr PurgeEverything"
| "ensure_cloudflare_mode (PurgeUrls urls) = Inr (PurgeFiles urls)"
| "ensure_cloudflare_mode (PurgePaths paths) =
     Inl (ErrorMsg ''Cloudflare CDN purge requires full URLs'')"

section \<open>The plan of a refresh\<close>

datatype refresh_mode = ModeAll | ModePaths "string list" | ModeUrls "string list"

record refresh_plan =
  plan_mode :: refresh_mode
  plan_changed_count :: nat

definition format_cdn_path :: "string \<Rightarrow> string" where
  "format_cdn_path path = (if starts_with path ''/'' then path else ''/'' @ path)"

definition format_url :: "string \<Rightarrow> string \<Rightarrow> string" where
  "format_url prefix_url path = trim_end_matches CHR ''/'' prefix_url @ format_cdn_path path"

definition changed_paths :: "origin_freshness_diff \<Rightarrow> string list" where
  "changed_paths d =
     bset_of (map format_cdn_path (diff_added d @ diff_modified d @ diff_removed d))"

definition diff_changed_count :: "origin_freshness_diff \<Rightarrow> nat" where
  "diff_changed_count d = length (diff_added d) + length (diff_modified d) + length (diff_removed d)"

definition build_cdn_refresh_plan ::
    "refresh_strategy \<Rightarrow> origin_freshness_diff \<Rightarrow> string list \<Rightarrow> refresh_plan option" where
  "build_cdn_refresh_plan strategy d url_prefixes =
     (let paths = changed_paths d in
      if paths = [] then None
      else case strategy of
        RefreshAll \<Rightarrow> Some \<lparr>plan_mode = ModeAll, plan_changed_count = length paths\<rparr>
      | ChangedPaths \<Rightarrow>
          if url_prefixes = [] then
            Some \<lparr>plan_mode = ModePaths paths, plan_changed_count = diff_changed_count d\<rparr>
          else
            Some \<lparr>plan_mode = ModeUrls (concat (map (\<lambda>p. map (format_url p) paths) url_prefixes)),
                  plan_changed_count = diff_changed_count d\<rparr>)"

fun purge_mode_from_refresh_mode :: "refresh_mode \<Rightarrow> purge_mode" where
  "purge_mode_from_refresh_mode ModeAll = PurgeAll"
| "purge_mode_from_refresh_mode (ModePaths paths) = PurgePaths paths"
| "purge_mode_from_refresh_mode (ModeUrls urls) = PurgeUrls urls"

section \<open>The refresh of an origin\<close>

record 'w cdn_refresh =
  refresh_repository :: "'w purge"
  refresh_strategy :: refresh_strategy
  refresh_url_prefixes :: "string list"

record refresh_outcome =
  outcome_provider :: string
  outcome_request_ids :: "string list"
  outcome_status :: string
  outcome_submitted_items :: nat
  outcome_changed_count :: nat

text \<open>\<open>CdnRefreshFailure\<close> keeps what the repository had done; its message shows it too.\<close>

datatype refresh_error = RefreshFailed purge_failure | OtherRefreshError anyhow

fun refresh_error_display :: "refresh_error \<Rightarrow> string" where
  "refresh_error_display (RefreshFailed f) = failure_message f"
| "refresh_error_display (OtherRefreshError e) = error_display e"

fun translate_purge_error :: "purge_error \<Rightarrow> refresh_error" where
  "translate_purge_error (PurgeFailed f) =
     RefreshFailed (f\<lparr>failure_message := purge_failure_display f\<rparr>)"
| "translate_purge_error (OtherPurgeError e) = OtherRefreshError e"

text \<open>
  \<open>from_config\<close>: the constructors of the repositories, which read the environment, are
  parameters.
\<close>

definition refresh_from_config ::
    "(string \<Rightarrow> 'w purge res) \<Rightarrow> (cloudflare_config \<Rightarrow> 'w purge res) \<Rightarrow> cdn_config \<Rightarrow> string list \<Rightarrow>
     'w cdn_refresh res" where
  "refresh_from_config cloudfront cloudflare config derived_url_prefixes =
     (case config of
        CloudFront c \<Rightarrow>
          try_then (cloudfront (cf_distribution_id_env c)) (\<lambda>repository.
          Inr \<lparr>refresh_repository = repository, refresh_strategy = cf_strategy c,
               refresh_url_prefixes = []\<rparr>)
      | Cloudflare c \<Rightarrow>
          let url_prefixes = (if fl_url_prefixes c = [] then derived_url_prefixes else fl_url_prefixes c) in
          try_then (fail_if (fl_strategy c = ChangedPaths \<and> url_prefixes = [])
            (ErrorMsg ''Cloudflare changed_paths CDN refresh requires url_prefixes or at least one exact host for the origin'')) (\<lambda>_.
          try_then (cloudflare c) (\<lambda>repository.
          Inr \<lparr>refresh_repository = repository, refresh_strategy = fl_strategy c,
               refresh_url_prefixes = url_prefixes\<rparr>))
      | CloudFrontSaas c \<Rightarrow> Inl (ErrorMsg ''CloudFront SaaS CDN refresh is not implemented''))"

definition refresh_from_cloudfront_saas :: "'w purge \<Rightarrow> refresh_strategy \<Rightarrow> 'w cdn_refresh" where
  "refresh_from_cloudfront_saas repository strategy =
     \<lparr>refresh_repository = repository, refresh_strategy = strategy, refresh_url_prefixes = []\<rparr>"

definition refresh_after_activation ::
    "'w cdn_refresh \<Rightarrow> string \<Rightarrow> u64 \<Rightarrow> origin_freshness_diff \<Rightarrow> 'w \<Rightarrow>
     (refresh_error + refresh_outcome option) \<times> 'w" where
  "refresh_after_activation r origin_id gen d w =
     (case build_cdn_refresh_plan (refresh_strategy r) d (refresh_url_prefixes r) of
        None \<Rightarrow> (Inr None, w)
      | Some plan \<Rightarrow>
          (case refresh_repository r
                  \<lparr>purge_origin_id = origin_id, purge_generation = gen,
                   purge_mode = purge_mode_from_refresh_mode (plan_mode plan)\<rparr> w of
             (Inl e, w') \<Rightarrow> (Inl (translate_purge_error e), w')
           | (Inr result, w') \<Rightarrow>
               (Inr (Some \<lparr>outcome_provider = purge_provider result,
                           outcome_request_ids = purge_request_ids result,
                           outcome_status = purge_status result,
                           outcome_submitted_items = purge_submitted_items result,
                           outcome_changed_count = plan_changed_count plan\<rparr>), w')))"

section \<open>Facts\<close>

lemma format_cdn_path_inject:
  "accepted_key p \<Longrightarrow> accepted_key q \<Longrightarrow> format_cdn_path p = format_cdn_path q \<longleftrightarrow> p = q"
  by (auto simp: format_cdn_path_def accepted_key_def is_absolute_def)

lemma set_changed_paths:
  "set (changed_paths d) =
     format_cdn_path ` (set (diff_added d) \<union> set (diff_modified d) \<union> set (diff_removed d))"
  by (auto simp: changed_paths_def)

lemma changed_paths_Nil:
  "changed_paths d = [] \<longleftrightarrow> diff_added d = [] \<and> diff_modified d = [] \<and> diff_removed d = []"
proof -
  have "changed_paths d = [] \<longleftrightarrow> set (changed_paths d) = {}" by simp
  then show ?thesis by (simp only: set_changed_paths image_is_empty Un_empty set_empty conj_assoc)
qed

lemma changed_paths_ok: "bset_ok (changed_paths d)"
  by (simp add: changed_paths_def)

lemma build_cdn_refresh_plan_None:
  "build_cdn_refresh_plan strategy d urls = None \<longleftrightarrow>
     diff_added d = [] \<and> diff_modified d = [] \<and> diff_removed d = []"
  by (auto simp: build_cdn_refresh_plan_def Let_def changed_paths_Nil [symmetric]
      split: refresh_strategy.splits)

lemma length_changed_paths:
  assumes "diff_ok d"
    and "distinct (diff_added d @ diff_modified d @ diff_removed d)"
    and "\<forall>p \<in> set (diff_added d @ diff_modified d @ diff_removed d). accepted_key p"
  shows "length (changed_paths d) = diff_changed_count d"
proof -
  let ?ks = "diff_added d @ diff_modified d @ diff_removed d"
  have "inj_on format_cdn_path (set ?ks)"
    using assms(3) by (auto intro!: inj_onI simp: format_cdn_path_inject)
  then have "card (format_cdn_path ` set ?ks) = length ?ks"
    using distinct_card [OF assms(2)] by (simp only: card_image)
  then show ?thesis
    unfolding changed_paths_def length_bset_of set_map diff_changed_count_def
    by (simp only: length_append add.assoc)
qed

lemma length_concat_map_const: "length (concat (map (\<lambda>p. map (g p) xs) ps)) = length ps * length xs"
  by (induction ps) auto

lemma plan_mode_accepted:
  assumes "build_cdn_refresh_plan strategy d urls = Some plan"
  shows "urls = [] \<Longrightarrow> \<exists>paths. ensure_paths_mode (purge_mode_from_refresh_mode (plan_mode plan)) p = Inr paths"
    and "strategy = ChangedPaths \<Longrightarrow> urls \<noteq> [] \<Longrightarrow>
      \<exists>payload. ensure_cloudflare_mode (purge_mode_from_refresh_mode (plan_mode plan)) = Inr payload"
    and "strategy = RefreshAll \<Longrightarrow>
      \<exists>payload. ensure_cloudflare_mode (purge_mode_from_refresh_mode (plan_mode plan)) = Inr payload"
  using assms by (auto simp: build_cdn_refresh_plan_def Let_def split: refresh_strategy.splits if_splits)

section \<open>Properties\<close>

text \<open>A CDN refresh is planned exactly when some file was added, modified or removed.\<close>

theorem cdn_plan_iff_changes:
  "build_cdn_refresh_plan strategy d urls = None \<longleftrightarrow>
     diff_added d = [] \<and> diff_modified d = [] \<and> diff_removed d = []"
  by (rule build_cdn_refresh_plan_None)

text \<open>C40: The purge request of a configured refresh is one that its provider accepts: paths for CloudFront,
everything or URLs for Cloudflare.\<close>

theorem cdn_plan_suits_provider:
  assumes "refresh_from_config cloudfront cloudflare config derived = Inr r"
    and "build_cdn_refresh_plan (refresh_strategy r) d (refresh_url_prefixes r) = Some plan"
  shows "case config of
     CloudFront _ \<Rightarrow> \<exists>paths. ensure_paths_mode (purge_mode_from_refresh_mode (plan_mode plan)) p = Inr paths
   | Cloudflare _ \<Rightarrow> \<exists>payload. ensure_cloudflare_mode (purge_mode_from_refresh_mode (plan_mode plan)) = Inr payload
   | CloudFrontSaas _ \<Rightarrow> False"
proof (cases config)
  case (CloudFront c)
  then show ?thesis using assms(1) plan_mode_accepted(1) [OF assms(2)]
    by (auto simp: refresh_from_config_def result_simps)
next
  case (CloudFrontSaas c)
  then show ?thesis using assms(1) by (simp add: refresh_from_config_def)
next
  case (Cloudflare c)
  then show ?thesis using assms(1) plan_mode_accepted(2,3) [OF assms(2)]
    by (cases "refresh_strategy r") (auto simp: refresh_from_config_def result_simps Let_def)
qed

theorem cdn_plan_suits_provider_witness:
  "\<exists>paths. ensure_paths_mode (purge_mode_from_refresh_mode (ModePaths [''/a''])) ''cloudfront'' = Inr paths"
  using cdn_plan_suits_provider [where config = "CloudFront \<lparr>cf_distribution_id_env = ''D'', cf_strategy = ChangedPaths, cf_domains = None\<rparr>"
      and cloudfront = "\<lambda>_. Inr (\<lambda>_ w. (Inr \<lparr>purge_provider = ''cloudfront'', purge_request_ids = [], purge_status = [], purge_submitted_items = 1\<rparr>, w :: unit))"
      and cloudflare = "\<lambda>_. Inl (ErrorMsg [])" and derived = "[]" and p = "''cloudfront''"
      and d = "\<lparr>diff_added = [''a''], diff_modified = [], diff_removed = [], diff_unchanged = []\<rparr>"]
  by (simp add: refresh_from_config_def build_cdn_refresh_plan_def changed_paths_def format_cdn_path_def byte_eval bset_of_def)

end
