(* ===== verification/Origin_Refresh.thy ===== *)
theory Origin_Refresh
  imports Mirror_Sync Edge_Config Origin_Runtime Cdn_Refresh
begin

text \<open>
  Refreshing an origin (\<open>src/services/origin_refresh.rs\<close>, \<open>src/dto/origin_sync.rs\<close>): the mirror is
  staged, the edge configuration and the templates of the staged mirror are prepared, the
  mirror is activated, then the stores are updated and the CDN is purged. The state holds the
  file system with its faults, the four stores, the locks, and the outside world \<open>'w\<close> of the
  CDN repositories.
\<close>

section \<open>What the refresh takes from outside\<close>

text \<open>
  Parsers, the template compiler, the process id and the readings of the clock during one
  refresh. A reading that is turned into text by \<open>to_rfc3339\<close> is given as that text.
\<close>

record 't refresh_env =
  ren_codec :: sidecar_codec
  ren_compile :: "string \<Rightarrow> string + 't"
  ren_parse_url :: "string \<Rightarrow> string + url"
  ren_parse_yaml :: "string \<Rightarrow> string + edge_config"
  ren_parse_json :: "string \<Rightarrow> string + edge_config"
  ren_pid :: nat
  ren_staging_nanos :: nat
  ren_swap_nanos :: nat
  ren_listed_at :: string
  ren_activated_at :: string
  ren_purged_at :: string

record ('t, 'w) refresh_state =
  rf_world :: world
  rf_configs :: edge_config_store
  rf_templates :: "'t template_store"
  rf_indexes :: "(string, origin_freshness_index) btree"
  rf_runtime :: origin_runtime_store
  rf_outside :: 'w
  rf_locks :: "string bset"

definition on_files :: "(anyhow, 'a) io \<Rightarrow> ('t, 'w) refresh_state \<Rightarrow> 'a res \<times> ('t, 'w) refresh_state" where
  "on_files m s = (case m (rf_world s) of (r, w) \<Rightarrow> (r, s\<lparr>rf_world := w\<rparr>))"

section \<open>Responses\<close>

record origin_sync_cdn_response =
  ocr_provider :: string
  ocr_status :: string
  ocr_request_id :: "string option"
  ocr_request_ids :: "string list"
  ocr_submitted_items :: nat

record origin_sync_response =
  osr_origin_id :: string
  osr_generation :: u64
  osr_activated_at :: string
  osr_captured_at :: string
  osr_known_files :: nat
  osr_added_files :: nat
  osr_modified_files :: nat
  osr_removed_files :: nat
  osr_unchanged_files :: nat
  osr_downloaded_files :: nat
  osr_cdn :: "origin_sync_cdn_response option"

section \<open>Preparing the staged mirror\<close>

text \<open>The places of an edge configuration; the last three are deprecated.\<close>

definition EDGE_CONFIG_PATHS :: "(string \<times> bool) list" where
  "EDGE_CONFIG_PATHS =
     [(''/.rendermesh/edge.yaml'', False), (''/.rendermesh/edge.yml'', False),
      (''/.rendermesh/edge.json'', False), (''/_rendermesh/edge.yaml'', True),
      (''/_rendermesh/edge.yml'', True), (''/_rendermesh/edge.json'', True)]"

definition parse_edge_object :: "'t refresh_env \<Rightarrow> string \<Rightarrow> edge_config res" where
  "parse_edge_object env body =
     try_then (if valid_utf8 body then Inr body else Inl (ErrorMsg ''invalid utf-8 sequence''))
       (parse_edge_config (ren_parse_url env) (ren_parse_yaml env) (ren_parse_json env))"

fun load_edge_config_at ::
    "'t refresh_env \<Rightarrow> pathbuf \<Rightarrow> string \<Rightarrow> (string \<times> bool) list \<Rightarrow> (anyhow, edge_config) io" where
  "load_edge_config_at env root origin_id [] = io_return default_edge_config"
| "load_edge_config_at env root origin_id (candidate # candidates) =
     io_then (read_object (codec_sha256 (ren_codec env)) (codec_parse (ren_codec env)) root origin_id
       (fst candidate)) (\<lambda>found.
     case found of
       Some obj \<Rightarrow> io_lift (parse_edge_object env (object_body obj))
     | None \<Rightarrow> load_edge_config_at env root origin_id candidates)"

definition load_origin_edge_config :: "'t refresh_env \<Rightarrow> pathbuf \<Rightarrow> string \<Rightarrow> (anyhow, edge_config) io" where
  "load_origin_edge_config env root origin_id = load_edge_config_at env root origin_id EDGE_CONFIG_PATHS"

text \<open>\<open>Path::file_name\<close>: the last component when it is a plain name.\<close>

definition path_file_name :: "pathbuf \<Rightarrow> string option" where
  "path_file_name p =
     (if path_components p = [] then None
      else case last (path_components p) of Normal name \<Rightarrow> Some name | _ \<Rightarrow> None)"

definition staged_origin_mirror :: "pathbuf \<Rightarrow> (pathbuf \<times> string) res" where
  "staged_origin_mirror staging =
     try_then (ok_or (path_parent staging) (ErrorMsg ''staging dir has no parent'')) (\<lambda>root.
     try_then (ok_or (path_file_name staging) (ErrorMsg ''staging dir has invalid origin id'')) (\<lambda>i.
     Inr (root, i)))"

definition validate_activation_barrier ::
    "string \<Rightarrow> origin_freshness_index option \<Rightarrow> origin_freshness_index \<Rightarrow> origin_freshness_diff \<Rightarrow>
     string option \<Rightarrow> unit res" where
  "validate_activation_barrier origin_id previous next_index d barrier =
     (case barrier of
        None \<Rightarrow> Inr ()
      | Some path \<Rightarrow>
          let has_changes = diff_added d \<noteq> [] \<or> diff_modified d \<noteq> [] \<or> diff_removed d \<noteq> [] in
          if \<not> has_changes then Inr ()
          else
            let previous_has_barrier =
                  (case previous of Some p \<Rightarrow> bt_contains (index_files p) path | None \<Rightarrow> False);
                next_has_barrier = bt_contains (index_files next_index) path;
                barrier_changed = (path \<in> set (diff_added d) \<or> path \<in> set (diff_modified d))
            in
            try_then (fail_if (\<not> next_has_barrier)
              (ErrorMsg (''origin '' @ origin_id @ '' activation barrier '' @ path @ '' is missing''))) (\<lambda>_.
            fail_if (previous_has_barrier \<and> \<not> barrier_changed)
              (ErrorMsg (''origin '' @ origin_id @ '' activation barrier '' @ path @
                 '' did not change with the deployment''))))"

definition prepare_refresh ::
    "'t refresh_env \<Rightarrow> 't template_store \<Rightarrow> origin_freshness_index option \<Rightarrow> string option \<Rightarrow> string \<Rightarrow>
     staged_origin_sync \<Rightarrow> (anyhow, edge_config \<times> 't registry) io" where
  "prepare_refresh env templates previous barrier origin_id staged =
     io_then (io_lift (validate_activation_barrier origin_id previous (staged_index staged)
       (staged_diff staged) barrier)) (\<lambda>_.
     io_then (io_lift (staged_origin_mirror (staged_dir staged))) (\<lambda>(stage_root, stage_id).
     io_then (load_origin_edge_config env stage_root stage_id) (\<lambda>config.
     io_then (compile_template_update_from_mirror (codec_sha256 (ren_codec env)) (codec_parse (ren_codec env))
       (ren_compile env) templates origin_id stage_id stage_root (staged_diff staged)) (\<lambda>registry.
     io_return (config, registry)))))"

text \<open>A staged origin that is not accepted is discarded.\<close>

definition reject_staged :: "staged_origin_sync \<Rightarrow> anyhow \<Rightarrow> (anyhow, 'a) io" where
  "reject_staged staged e =
     io_match (discard_staged_origin staged) (\<lambda>r.
       case r of
         Inl cleanup_error \<Rightarrow>
           io_fail (ErrorContext
             (''failed to discard rejected staged origin: '' @ error_display cleanup_error) e)
       | Inr _ \<Rightarrow> io_fail e)"

definition prepare_or_reject ::
    "'t refresh_env \<Rightarrow> 't template_store \<Rightarrow> origin_freshness_index option \<Rightarrow> string option \<Rightarrow> string \<Rightarrow>
     staged_origin_sync \<Rightarrow> (anyhow, edge_config \<times> 't registry) io" where
  "prepare_or_reject env templates previous barrier origin_id staged =
     io_match (prepare_refresh env templates previous barrier origin_id staged) (\<lambda>r.
       case r of Inr prepared \<Rightarrow> io_return prepared | Inl e \<Rightarrow> reject_staged staged e)"

section \<open>After the activation\<close>

definition next_generation :: "origin_runtime_store \<Rightarrow> string \<Rightarrow> u64" where
  "next_generation snapshots origin_id =
     (case get_snapshot snapshots origin_id of Some snapshot \<Rightarrow> generation snapshot + 1 | None \<Rightarrow> 1)"

definition refresh_snapshot ::
    "'t refresh_env \<Rightarrow> string \<Rightarrow> u64 \<Rightarrow> staged_origin_sync \<Rightarrow> origin_snapshot" where
  "refresh_snapshot env origin_id gen staged =
     (blank_snapshot origin_id)
       \<lparr>generation := gen,
        activated_at := ren_activated_at env,
        captured_at := index_captured_at (staged_index staged),
        known_files := length (index_files (staged_index staged)),
        added_files := length (diff_added (staged_diff staged)),
        modified_files := length (diff_modified (staged_diff staged)),
        removed_files := length (diff_removed (staged_diff staged)),
        unchanged_files := length (diff_unchanged (staged_diff staged)),
        downloaded_files := staged_downloaded staged\<rparr>"

definition activate_stores ::
    "string \<Rightarrow> edge_config \<Rightarrow> 't registry \<Rightarrow> origin_freshness_index \<Rightarrow> origin_snapshot \<Rightarrow>
     ('t, 'w) refresh_state \<Rightarrow> ('t, 'w) refresh_state" where
  "activate_stores origin_id config registry index snapshot s =
     s\<lparr>rf_configs := config_store_set_valid origin_id config (rf_configs s),
       rf_templates := set_origin_registry origin_id registry (rf_templates s),
       rf_indexes := bt_insert origin_id index (rf_indexes s),
       rf_runtime := set_snapshot snapshot (rf_runtime s)\<rparr>"

definition refresh_cdn ::
    "'t refresh_env \<Rightarrow> 'w cdn_refresh option \<Rightarrow> string \<Rightarrow> u64 \<Rightarrow> origin_freshness_diff \<Rightarrow>
     ('t, 'w) refresh_state \<Rightarrow> origin_sync_cdn_response option \<times> ('t, 'w) refresh_state" where
  "refresh_cdn env cdn origin_id gen d s =
     (case cdn of
        None \<Rightarrow> (None, s)
      | Some r \<Rightarrow>
          (case refresh_after_activation r origin_id gen d (rf_outside s) of
             (Inr (Some outcome), w) \<Rightarrow>
               let request_id = (case outcome_request_ids outcome of [] \<Rightarrow> None | x # _ \<Rightarrow> Some x) in
               (Some \<lparr>ocr_provider = outcome_provider outcome, ocr_status = outcome_status outcome,
                  ocr_request_id = request_id, ocr_request_ids = outcome_request_ids outcome,
                  ocr_submitted_items = outcome_submitted_items outcome\<rparr>,
                s\<lparr>rf_outside := w,
                  rf_runtime := set_cdn_result (ren_purged_at env) origin_id (outcome_provider outcome)
                    (outcome_status outcome) request_id (outcome_request_ids outcome)
                    (outcome_submitted_items outcome) (rf_runtime s)\<rparr>)
           | (Inr None, w) \<Rightarrow> (None, s\<lparr>rf_outside := w\<rparr>)
           | (Inl e, w) \<Rightarrow>
               let snapshots =
                 (case e of
                    RefreshFailed f \<Rightarrow>
                      (case failure_request_ids f of
                         [] \<Rightarrow> rf_runtime s
                       | x # _ \<Rightarrow>
                           set_cdn_result (ren_purged_at env) origin_id (failure_provider f) ''partial_failure''
                             (Some x) (failure_request_ids f) (failure_submitted_items f) (rf_runtime s))
                  | OtherRefreshError _ \<Rightarrow> rf_runtime s)
               in (None, s\<lparr>rf_outside := w,
                    rf_runtime := set_cdn_error origin_id (refresh_error_display e) snapshots\<rparr>)))"

definition sync_response :: "origin_snapshot \<Rightarrow> origin_sync_cdn_response option \<Rightarrow> origin_sync_response" where
  "sync_response snapshot cdn =
     \<lparr>osr_origin_id = snap_origin_id snapshot, osr_generation = generation snapshot,
      osr_activated_at = activated_at snapshot, osr_captured_at = captured_at snapshot,
      osr_known_files = known_files snapshot, osr_added_files = added_files snapshot,
      osr_modified_files = modified_files snapshot, osr_removed_files = removed_files snapshot,
      osr_unchanged_files = unchanged_files snapshot, osr_downloaded_files = downloaded_files snapshot,
      osr_cdn = cdn\<rparr>"

section \<open>One refresh\<close>

definition refresh_origin_snapshot ::
    "'t refresh_env \<Rightarrow> pathbuf \<Rightarrow> string \<Rightarrow> remote_storage \<Rightarrow> 'w cdn_refresh option \<Rightarrow> string option \<Rightarrow>
     ('t, 'w) refresh_state \<Rightarrow> origin_sync_response res \<times> ('t, 'w) refresh_state" where
  "refresh_origin_snapshot env root origin_id storage cdn barrier s0 =
     (let previous = bt_get (rf_indexes s0) origin_id in
      case on_files (stage_origin_sync (ren_codec env) storage root (ren_pid env) (ren_staging_nanos env)
             (ren_listed_at env) origin_id previous) s0 of
        (Inl e, s1) \<Rightarrow> (Inl e, s1)
      | (Inr staged, s1) \<Rightarrow>
          (case on_files (prepare_or_reject env (rf_templates s1) previous barrier origin_id staged) s1 of
             (Inl e, s2) \<Rightarrow> (Inl e, s2)
           | (Inr (config, registry), s2) \<Rightarrow>
               let gen = next_generation (rf_runtime s2) origin_id;
                   snapshot = refresh_snapshot env origin_id gen staged in
               (case on_files (activate_staged_origin root (ren_swap_nanos env) staged) s2 of
                  (Inl e, s3) \<Rightarrow> (Inl e, s3)
                | (Inr _, s3) \<Rightarrow>
                    let s4 = activate_stores origin_id config registry (staged_index staged) snapshot s3 in
                    (case refresh_cdn env cdn origin_id gen (staged_diff staged) s4 of
                       (response, s5) \<Rightarrow> (Inr (sync_response snapshot response), s5)))))"

section \<open>The service\<close>

record 'w refresh_service =
  srv_root :: pathbuf
  srv_storage :: "(string, remote_storage) btree"
  srv_barrier :: "(string, string) btree"
  srv_cdn :: "(string, 'w cdn_refresh) btree"

datatype refresh_origin_error = OriginNotFound | AlreadyRunning | OriginRefreshFailed anyhow

fun refresh_origin_error_display :: "refresh_origin_error \<Rightarrow> string" where
  "refresh_origin_error_display OriginNotFound = ''origin not found''"
| "refresh_origin_error_display AlreadyRunning = ''origin sync already running''"
| "refresh_origin_error_display (OriginRefreshFailed e) = error_display e"

text \<open>\<open>OriginRefreshLocks\<close>: the origins with a guard; the guard removes its origin when it is dropped.\<close>

definition try_acquire :: "string \<Rightarrow> string bset \<Rightarrow> string bset option" where
  "try_acquire origin_id active =
     (if origin_id \<in> set active then None else Some (bset_insert origin_id active))"

definition drop_guard :: "string \<Rightarrow> string bset \<Rightarrow> string bset" where
  "drop_guard origin_id active = filter (\<lambda>i. i \<noteq> origin_id) active"

definition has_origin :: "'w refresh_service \<Rightarrow> string \<Rightarrow> bool" where
  "has_origin service origin_id \<longleftrightarrow> bt_contains (srv_storage service) origin_id"

definition refresh_origin ::
    "'t refresh_env \<Rightarrow> 'w refresh_service \<Rightarrow> string \<Rightarrow> ('t, 'w) refresh_state \<Rightarrow>
     (refresh_origin_error + origin_sync_response) \<times> ('t, 'w) refresh_state" where
  "refresh_origin env service origin_id s =
     (case bt_get (srv_storage service) origin_id of
        None \<Rightarrow> (Inl OriginNotFound, s)
      | Some storage \<Rightarrow>
          (case try_acquire origin_id (rf_locks s) of
             None \<Rightarrow> (Inl AlreadyRunning, s)
           | Some active \<Rightarrow>
               (case refresh_origin_snapshot env (srv_root service) origin_id storage
                       (bt_get (srv_cdn service) origin_id) (bt_get (srv_barrier service) origin_id)
                       (s\<lparr>rf_locks := active\<rparr>) of
                  (Inr outcome, s') \<Rightarrow> (Inr outcome, s'\<lparr>rf_locks := drop_guard origin_id (rf_locks s')\<rparr>)
                | (Inl e, s') \<Rightarrow>
                    (Inl (OriginRefreshFailed e),
                     s'\<lparr>rf_runtime := set_error origin_id (error_display e) (rf_runtime s'),
                        rf_locks := drop_guard origin_id (rf_locks s')\<rparr>))))"

section \<open>Evaluation\<close>

text \<open>Code equations with the sequencing unfolded, so that a continuation is evaluated once its argument is known.\<close>

lemmas load_edge_config_at_code [code] = load_edge_config_at.simps [THEN fun_cong, unfolded sequencing]
lemmas prepare_refresh_code [code] = prepare_refresh_def [THEN fun_cong, unfolded sequencing]
lemmas reject_staged_code [code] = reject_staged_def [THEN fun_cong, unfolded sequencing]
lemmas prepare_or_reject_code [code] = prepare_or_reject_def [THEN fun_cong, unfolded sequencing]

end
