(* ===== verification/Sync_Walks.thy ===== *)
theory Sync_Walks
  imports Mirror_Sync
begin

text \<open>
  The three walks of the synchronisation as instances of \<open>dir_walk\<close> and \<open>dir_sweep\<close>: the
  copy of the mirror, the removal of objects the remote no longer has, and the removal of
  sidecars no listed key has. What they leave alone, that they end, and that they finish
  their work.
\<close>

section \<open>Removing deleted objects\<close>

text \<open>
  Below the mirror and outside the metadata directory, under a key that is not listed.
\<close>

definition unlisted :: "string bset \<Rightarrow> pathbuf \<Rightarrow> fs_key \<Rightarrow> bool" where
  "unlisted remote_keys base k \<longleftrightarrow>
     (\<exists>names. names \<noteq> [] \<and> hd names \<noteq> METADATA_DIR_NAME \<and> k = fs_key base @ map Normal names \<and>
        join_with ''/'' names \<notin> set remote_keys)"

definition in_metadata :: "pathbuf \<Rightarrow> fs_key \<Rightarrow> bool" where
  "in_metadata base k \<longleftrightarrow> prefix (fs_key base @ [Normal METADATA_DIR_NAME]) k"

lemma relative_key_unlisted:
  assumes "below_path base p names" and "relative_key base p = Inr key" and "key \<notin> set remote_keys"
  shows "unlisted remote_keys base (fs_key p)"
proof -
  have key: "key = join_with ''/'' names" "accepted_key (join_with ''/'' names)"
    using assms(2) unfolding below_path_relative [OF assms(1)] normalize_remote_key_Inr by simp_all
  have "names \<noteq> []" using key(2) by (auto simp: accepted_key_def)
  moreover have "hd names \<noteq> METADATA_DIR_NAME"
  proof
    assume "hd names = METADATA_DIR_NAME"
    then have "names = METADATA_DIR_NAME # tl names" using \<open>names \<noteq> []\<close> by (metis list.collapse)
    then have "reserved_key (join_with ''/'' names)" using reserved_join by metis
    then show False using key(2) by (simp add: accepted_key_def)
  qed
  ultimately show ?thesis
    using below_path_key [OF assms(1)] assms(3) key(1) unfolding unlisted_def by blast
qed

lemma keeps_removal_entries:
  assumes "base \<noteq> []" and sha: "\<And>k. codec_sha256 codec k \<noteq> []" and dir: "below_path base dir names"
  shows "entries_ok entries \<Longrightarrow>
    keeps {k. \<not> unlisted keys base k \<and> \<not> in_metadata base k} (removal_entries codec keys base dir entries pushed)"
proof (induction entries arbitrary: pushed)
  case Nil
  show ?case by (auto intro!: keeps_intros)
next
  case (Cons e entries)
  let ?K = "{k. \<not> unlisted keys base k \<and> \<not> in_metadata base k}"
  obtain name node where e: "e = (name, node)" by (cases e)
  have p: "below_path base (join_path dir name) (names @ [name])"
    using Cons.prems dir e by (simp add: below_path_join)
  have rest: "keeps ?K (removal_entries codec keys base dir entries pushed)" for pushed
    using Cons e by simp
  have object: "relative_key base (join_path dir name) = Inr key \<Longrightarrow> key \<notin> set keys \<Longrightarrow>
      fs_key (join_path dir name) \<notin> ?K" for key
    using relative_key_unlisted [OF p] by blast
  have sidecar: "metadata_sidecar_path (codec_sha256 codec) base key = Inr s \<Longrightarrow> fs_key s \<notin> ?K" for key s
    using sidecar_fs_key(2) [OF assms(1) _ sha] by (simp add: in_metadata_def)
  show ?case
    by (auto simp: e Let_def intro!: keeps_intros keeps_lift_then rest split: fs_node.split sum.split io_error.split
        dest: object sidecar)
qed

lemma keeps_removal_dir:
  assumes "base \<noteq> []" and "\<And>k. codec_sha256 codec k \<noteq> []" and "below_path base dir names"
  shows "keeps {k. \<not> unlisted keys base k \<and> \<not> in_metadata base k} (removal_dir codec keys base dir acc)"
  unfolding removal_dir_def
  by (rule keeps_match_read_dir)
    (auto intro!: keeps_intros keeps_removal_entries [OF assms] split: io_error.split)

lemma shrinks_removal_entries [shrinks_intros]:
  "shrinks (removal_entries codec keys base dir entries pushed)"
proof (induction entries arbitrary: pushed)
  case (Cons e entries)
  then show ?case
    by (cases e) (auto simp: Let_def intro!: shrinks_intros split: fs_node.split sum.split io_error.split)
qed (auto intro!: shrinks_intros)

lemma shrinks_removal_dir [shrinks_intros]: "shrinks (removal_dir codec keys base dir acc)"
  unfolding removal_dir_def by (auto intro!: shrinks_intros split: sum.split io_error.split)

lemma ok_removal_entries [ok_intros]: "io_ok (removal_entries codec keys base dir entries pushed)"
proof (induction entries arbitrary: pushed)
  case (Cons e entries)
  then show ?case
    by (cases e) (auto simp: Let_def intro!: ok_intros split: fs_node.split sum.split io_error.split)
qed (auto intro!: ok_intros)

lemma ok_removal_dir [ok_intros]: "io_ok (removal_dir codec keys base dir acc)"
  unfolding removal_dir_def by (auto intro!: ok_intros split: sum.split io_error.split)

lemma removal_entries_Inr:
  "removal_entries codec keys base dir entries pushed w = (Inr ps, v) \<Longrightarrow>
   entries_swept (\<lambda>p. same_path p (join_path base METADATA_DIR_NAME))
     (\<lambda>n c. \<exists>key. relative_key base (join_path dir n) = Inr key \<and>
        (key \<in> set keys \<or> fs_lookup (world_fs v) (fs_key (join_path dir n)) = None))
     (join_path dir) dir entries pushed ps"
proof (induction entries arbitrary: pushed w)
  case Nil
  then show ?case by (auto simp: io_then_Inr io_return_def intro: entries_swept_Nil)
next
  case (Cons e entries)
  obtain name node where e: "e = (name, node)" by (cases e)
  show ?case
  proof (cases node)
    case DirNode
    show ?thesis
    proof (cases "same_path (join_path dir name) (join_path base METADATA_DIR_NAME)")
      case True
      with Cons.prems show ?thesis using DirNode e
        by (auto simp: io_then_Inr Let_def intro!: entries_swept_skip dest: Cons.IH)
    next
      case False
      with Cons.prems show ?thesis using DirNode e
        by (auto simp: io_then_Inr Let_def intro!: entries_swept_push dest: Cons.IH)
    qed
  next
    case (FileNode content)
    define resume where "resume = (\<lambda>sidecar (r :: io_error + unit). case r of
               Inr _ \<Rightarrow> removal_entries codec keys base dir entries pushed
             | Inl NotFound \<Rightarrow> removal_entries codec keys base dir entries pushed
             | Inl e \<Rightarrow>
                 io_fail (ErrorContext (''remove deleted local object metadata '' @ sidecar)
                   (io_anyhow e)))"
    define follow where "follow = (\<lambda>key. io_then (io_lift (metadata_sidecar_path (codec_sha256 codec) base key)) (\<lambda>sidecar.
           io_match (io_remove_file sidecar) (resume sidecar)))"
    have step: "removal_entries codec keys base dir ((name, FileNode content) # entries) pushed =
        io_then (io_try io_next_entry) (\<lambda>_. io_then (io_try io_file_type) (\<lambda>_.
        io_then (io_lift (relative_key base (join_path dir name))) (\<lambda>key.
        if key \<in> set keys then removal_entries codec keys base dir entries pushed
        else
          io_then (io_context (''remove deleted local object '' @ join_path dir name)
            (io_remove_file (join_path dir name))) (\<lambda>_. follow key))))"
      by (simp only: removal_entries.simps Let_def fs_node.case follow_def resume_def)
    from Cons.prems[unfolded e FileNode step] obtain u key where key: "relative_key base (join_path dir name) = Inr key"
        and run: "(if key \<in> set keys then removal_entries codec keys base dir entries pushed
         else
           io_then (io_context (''remove deleted local object '' @ join_path dir name)
             (io_remove_file (join_path dir name))) (\<lambda>_. follow key)) u = (Inr ps, v)"
      unfolding io_then_Inr io_lift_def by blast
    show ?thesis
    proof (cases "key \<in> set keys")
      case True
      with run key show ?thesis using e FileNode by (auto intro!: entries_swept_file dest: Cons.IH)
    next
      case False
      with run obtain u' where gone: "io_remove_file (join_path dir name) u = (Inr (), u')"
          and after: "follow key u' = (Inr ps, v)"
        by (auto simp: io_then_Inr io_map_err_Inr)
      from after obtain sidecar where "io_match (io_remove_file sidecar) (resume sidecar) u' = (Inr ps, v)"
        unfolding follow_def by (auto simp: io_then_Inr io_lift_def)
      then obtain s x where second: "io_remove_file sidecar u' = (s, x)" and go: "resume sidecar s x = (Inr ps, v)"
        by (rule io_match_cases)
      from go have last: "removal_entries codec keys base dir entries pushed x = (Inr ps, v)"
        by (auto simp: resume_def io_fail_def split: sum.splits io_error.splits)
      have shrunk: "fs_lookup (world_fs u') k = None \<Longrightarrow> fs_lookup (world_fs x) k = None" for k
        using shrinksD [OF shrinks_remove_file second] by metis
      have "fs_lookup (world_fs v) (fs_key (join_path dir name)) = None"
        using shrinksD [OF shrinks_removal_entries last] shrunk [OF io_remove_file_Inr [OF gone]] by metis
      then show ?thesis using Cons.IH [OF last] key e FileNode by (auto intro!: entries_swept_file)
    qed
  qed
qed

lemma removal_dir_Inr:
  assumes "removal_dir codec keys base dir acc w = (Inr (acc', ps), v)"
  shows "ps = [] \<and> world_fs v = world_fs w \<and> fs_lookup (world_fs w) (fs_key dir) = None \<or>
     is_dir (world_fs w) (fs_key dir) \<and>
     entries_swept (\<lambda>p. same_path p (join_path base METADATA_DIR_NAME))
       (\<lambda>n c. \<exists>key. relative_key base (join_path dir n) = Inr key \<and>
          (key \<in> set keys \<or> fs_lookup (world_fs v) (fs_key (join_path dir n)) = None))
       (join_path dir) dir (fs_children (world_fs w) (fs_key dir)) [] ps"
proof -
  define go where "go = (\<lambda>r. case r of
         Inr entries \<Rightarrow>
           io_then (removal_entries codec keys base dir entries []) (\<lambda>pushed.
           io_return ((), pushed))
       | Inl NotFound \<Rightarrow> io_return ((), [])
       | Inl e \<Rightarrow> io_fail (ErrorContext (''read mirror dir '' @ dir) (io_anyhow e)))"
  from assms have "io_match (io_read_dir dir) go w = (Inr (acc', ps), v)"
    unfolding removal_dir_def go_def .
  then obtain s u where read: "io_read_dir dir w = (s, u)" and run: "go s u = (Inr (acc', ps), v)"
    by (rule io_match_cases)
  have same: "world_fs u = world_fs w" using readsD(1) [OF reads_simple(3) read] .
  show ?thesis
  proof (cases s)
    case (Inl e)
    with run have "e = NotFound" "ps = []" "v = u"
      by (auto simp: go_def io_return_def io_fail_def split: io_error.splits)
    moreover have "fs_lookup (world_fs w) (fs_key dir) = None"
      using read Inl \<open>e = NotFound\<close> by (rule io_read_dir_NotFound [of dir w])
    ultimately show ?thesis using same by simp
  next
    case (Inr entries)
    with run have "removal_entries codec keys base dir entries [] u = (Inr ps, v)"
      by (auto simp: go_def io_then_Inr io_return_def)
    from removal_entries_Inr [OF this] show ?thesis
      using io_read_dir_Inr read Inr by blast
  qed
qed

definition removal_todo :: "string bset \<Rightarrow> pathbuf \<Rightarrow> filesystem \<Rightarrow> fs_key \<Rightarrow> bool" where
  "removal_todo keys base fs k \<longleftrightarrow> is_file fs k \<and> unlisted keys base k"

interpretation removal_walk: dir_sweep "removal_dir codec keys base" fs_key "fs_key base"
    "\<lambda>d. base \<noteq> [] \<and> (\<exists>names. below_path base d names)" "removal_todo keys base" for codec keys base
proof
  fix d acc
  show "io_ok (removal_dir codec keys base d acc)" by (rule ok_intros)
next
  fix d acc and w :: world and r w' k
  assume "removal_dir codec keys base d acc w = (r, w')" "is_dir (world_fs w') k"
  then show "is_dir (world_fs w) k"
    using shrinks_Some [OF shrinks_removal_dir] by (simp add: is_dir_def)
next
  fix d acc and w :: world and acc' pushed w'
  assume good: "base \<noteq> [] \<and> (\<exists>names. below_path base d names)"
    and run: "removal_dir codec keys base d acc w = (Inr (acc', pushed), w')" and ok: "fs_ok (world_fs w)"
  from good obtain names where names: "below_path base d names" by blast
  from removal_dir_Inr [OF run]
  show "distinct (map fs_key pushed) \<and>
      (\<forall>p \<in> set pushed. (base \<noteq> [] \<and> (\<exists>names. below_path base p names)) \<and>
         (\<exists>name. fs_key p = fs_key d @ [Normal name] \<and> is_dir (world_fs w) (fs_key p)))"
  proof (elim disjE conjE)
    assume swept: "entries_swept (\<lambda>p. same_path p (join_path base METADATA_DIR_NAME))
       (\<lambda>n c. \<exists>key. relative_key base (join_path d n) = Inr key \<and>
          (key \<in> set keys \<or> fs_lookup (world_fs w') (fs_key (join_path d n)) = None))
       (join_path d) d (fs_children (world_fs w) (fs_key d)) [] pushed"
    from swept_pushed [OF swept ok fs_key_join] show ?thesis
      using good below_path_join [OF names] by blast
  qed simp
next
  fix d acc and w :: world and r w' k
  assume run: "removal_dir codec keys base d acc w = (Inr r, w')" and todo: "removal_todo keys base (world_fs w') k"
  then show "removal_todo keys base (world_fs w) k"
    using shrinks_Some [OF shrinks_removal_dir run]
    by (auto simp: removal_todo_def is_file_def split: option.splits fs_node.splits)
next
  fix d acc and w :: world and acc' pushed w' k
  assume good: "base \<noteq> [] \<and> (\<exists>names. below_path base d names)"
    and run: "removal_dir codec keys base d acc w = (Inr (acc', pushed), w')" and ok: "fs_ok (world_fs w)"
    and below: "prefix (fs_key d) k" and todo: "removal_todo keys base (world_fs w') k"
    and reach: "reachable_from (world_fs w') (fs_key d) k"
  from good obtain names where names: "base \<noteq> []" "below_path base d names" by blast
  from todo obtain c where c': "fs_lookup (world_fs w') k = Some (FileNode c)" and un: "unlisted keys base k"
    by (auto simp: removal_todo_def is_file_def split: option.splits fs_node.splits)
  have c: "fs_lookup (world_fs w) k = Some (FileNode c)" using shrinks_Some [OF shrinks_removal_dir run c'] .
  have before: "reachable_from (world_fs w) (fs_key d) k"
    using reach shrinks_Some [OF shrinks_removal_dir run] by (simp add: reachable_from_def is_dir_def)
  from un obtain ks where ks: "ks \<noteq> []" "hd ks \<noteq> METADATA_DIR_NAME" "k = fs_key base @ map Normal ks"
      "join_with ''/'' ks \<notin> set keys" by (auto simp: unlisted_def)
  from removal_dir_Inr [OF run]
  show "\<exists>p \<in> set pushed. prefix (fs_key p) k"
  proof (elim disjE conjE)
    assume gone: "fs_lookup (world_fs w) (fs_key d) = None"
    then have "k \<noteq> fs_key d" using c by auto
    then have "is_dir (world_fs w) (fs_key d)" using before below unfolding reachable_from_def
      by (metis append_eq_conv_conj le_refl prefix_def prefix_length_less prefix_order.less_le)
    then show ?thesis using gone by (simp add: is_dir_def)
  next
    assume dir: "is_dir (world_fs w) (fs_key d)"
    assume swept: "entries_swept (\<lambda>p. same_path p (join_path base METADATA_DIR_NAME))
       (\<lambda>n c. \<exists>key. relative_key base (join_path d n) = Inr key \<and>
          (key \<in> set keys \<or> fs_lookup (world_fs w') (fs_key (join_path d n)) = None))
       (join_path d) d (fs_children (world_fs w) (fs_key d)) [] pushed"
    show ?thesis
    proof (rule below_swept [OF swept ok fs_key_join names(2) ks(3) below c dir before])
      fix n rest assume "ks = names @ n # rest" "below_path base (join_path d n) (names @ [n])"
      then show "\<not> same_path (join_path d n) (join_path base METADATA_DIR_NAME)"
        using below_path_metadata [OF names(1), of "join_path d n" "names @ [n]"] ks(2) by (cases names) auto
    next
      fix n assume n: "ks = names @ [n]" "below_path base (join_path d n) (names @ [n])" "fs_key (join_path d n) = k"
      then show "\<not> (\<exists>key. relative_key base (join_path d n) = Inr key \<and>
          (key \<in> set keys \<or> fs_lookup (world_fs w') (fs_key (join_path d n)) = None))"
        using ks(4) c' below_path_relative [OF n(2)] by (auto simp: normalize_remote_key_Inr)
    qed
  qed
qed

section \<open>Removing orphan sidecars\<close>

lemma keeps_orphan_entries:
  assumes "below_path base dir names"
  shows "entries_ok entries \<Longrightarrow> keeps {k. \<not> prefix (fs_key base) k} (orphan_entries expected dir entries pushed)"
proof (induction entries arbitrary: pushed)
  case Nil
  show ?case by (auto intro!: keeps_intros)
next
  case (Cons e entries)
  obtain name node where e: "e = (name, node)" by (cases e)
  have p: "prefix (fs_key base) (fs_key (join_path dir name))"
    using Cons.prems below_path_key [OF below_path_join [OF assms]] e by simp
  have "keeps {k. \<not> prefix (fs_key base) k} (orphan_entries expected dir entries pushed)" for pushed
    using Cons e by simp
  then show ?case using p by (auto simp: e Let_def intro!: keeps_intros split: fs_node.split)
qed

lemma keeps_orphan_dir:
  assumes "below_path base dir names"
  shows "keeps {k. \<not> prefix (fs_key base) k} (orphan_dir expected dir acc)"
  unfolding orphan_dir_def
  by (rule keeps_match_read_dir)
    (auto intro!: keeps_intros keeps_orphan_entries [OF assms] split: io_error.split)

lemma shrinks_orphan_entries [shrinks_intros]: "shrinks (orphan_entries expected dir entries pushed)"
proof (induction entries arbitrary: pushed)
  case (Cons e entries)
  then show ?case by (cases e) (auto simp: Let_def intro!: shrinks_intros split: fs_node.split)
qed (auto intro!: shrinks_intros)

lemma shrinks_orphan_dir [shrinks_intros]: "shrinks (orphan_dir expected dir acc)"
  unfolding orphan_dir_def by (auto intro!: shrinks_intros split: sum.split io_error.split)

lemma ok_orphan_entries [ok_intros]: "io_ok (orphan_entries expected dir entries pushed)"
proof (induction entries arbitrary: pushed)
  case (Cons e entries)
  then show ?case by (cases e) (auto simp: Let_def intro!: ok_intros split: fs_node.split)
qed (auto intro!: ok_intros)

lemma ok_orphan_dir [ok_intros]: "io_ok (orphan_dir expected dir acc)"
  unfolding orphan_dir_def by (auto intro!: ok_intros split: sum.split io_error.split)

lemma orphan_entries_Inr:
  "orphan_entries expected dir entries pushed w = (Inr ps, v) \<Longrightarrow>
   entries_swept (\<lambda>_. False)
     (\<lambda>n c. (\<exists>e \<in> set expected. same_path e (join_path dir n)) \<or>
        fs_lookup (world_fs v) (fs_key (join_path dir n)) = None)
     (join_path dir) dir entries pushed ps"
proof (induction entries arbitrary: pushed w)
  case Nil
  then show ?case by (auto simp: io_then_Inr io_return_def intro: entries_swept_Nil)
next
  case (Cons e entries)
  obtain name node where e: "e = (name, node)" by (cases e)
  show ?case
  proof (cases node)
    case DirNode
    with Cons.prems show ?thesis using e
      by (auto simp: io_then_Inr Let_def intro!: entries_swept_push dest: Cons.IH)
  next
    case (FileNode content)
    show ?thesis
    proof (cases "\<exists>e \<in> set expected. same_path e (join_path dir name)")
      case True
      with Cons.prems show ?thesis using e FileNode
        by (auto simp: io_then_Inr Let_def intro!: entries_swept_file dest: Cons.IH)
    next
      case False
      with Cons.prems obtain u u' where gone: "io_remove_file (join_path dir name) u = (Inr (), u')"
          and last: "orphan_entries expected dir entries pushed u' = (Inr ps, v)"
        by (auto simp: e FileNode io_then_Inr io_map_err_Inr Let_def)
      have "fs_lookup (world_fs v) (fs_key (join_path dir name)) = None"
        using shrinksD [OF shrinks_orphan_entries last] io_remove_file_Inr [OF gone] by metis
      then show ?thesis using Cons.IH [OF last] e FileNode by (auto intro!: entries_swept_file)
    qed
  qed
qed

lemma orphan_dir_Inr:
  assumes "orphan_dir expected dir acc w = (Inr (acc', ps), v)"
  shows "ps = [] \<and> fs_lookup (world_fs w) (fs_key dir) = None \<or>
     is_dir (world_fs w) (fs_key dir) \<and>
     entries_swept (\<lambda>_. False)
       (\<lambda>n c. (\<exists>e \<in> set expected. same_path e (join_path dir n)) \<or>
          fs_lookup (world_fs v) (fs_key (join_path dir n)) = None)
       (join_path dir) dir (fs_children (world_fs w) (fs_key dir)) [] ps"
proof -
  define go where "go = (\<lambda>r. case r of
         Inr entries \<Rightarrow> io_then (orphan_entries expected dir entries []) (\<lambda>pushed. io_return ((), pushed))
       | Inl NotFound \<Rightarrow> io_return ((), [])
       | Inl e \<Rightarrow> io_fail (ErrorContext (''read metadata mirror dir '' @ dir) (io_anyhow e)))"
  from assms have "io_match (io_read_dir dir) go w = (Inr (acc', ps), v)"
    unfolding orphan_dir_def go_def .
  then obtain s u where read: "io_read_dir dir w = (s, u)" and run: "go s u = (Inr (acc', ps), v)"
    by (rule io_match_cases)
  show ?thesis
  proof (cases s)
    case (Inl e)
    with run have "e = NotFound" "ps = []"
      by (auto simp: go_def io_return_def io_fail_def split: io_error.splits)
    then show ?thesis using io_read_dir_NotFound [OF read Inl] by simp
  next
    case (Inr entries)
    with run have "orphan_entries expected dir entries [] u = (Inr ps, v)"
      by (auto simp: go_def io_then_Inr io_return_def)
    from orphan_entries_Inr [OF this] show ?thesis
      using io_read_dir_Inr read Inr by blast
  qed
qed

definition orphan_todo :: "pathbuf list \<Rightarrow> pathbuf \<Rightarrow> filesystem \<Rightarrow> fs_key \<Rightarrow> bool" where
  "orphan_todo expected base fs k \<longleftrightarrow> is_file fs k \<and>
     (\<exists>names. k = fs_key base @ map Normal names \<and>
        (\<forall>e \<in> set expected. path_components e \<noteq> path_components base @ map Normal names))"

interpretation orphan_walk: dir_sweep "orphan_dir expected" fs_key "fs_key base"
    "\<lambda>d. \<exists>names. below_path base d names" "orphan_todo expected base" for expected base
proof
  fix d acc
  show "io_ok (orphan_dir expected d acc)" by (rule ok_intros)
next
  fix d acc and w :: world and r w' k
  assume "orphan_dir expected d acc w = (r, w')" "is_dir (world_fs w') k"
  then show "is_dir (world_fs w) k"
    using shrinks_Some [OF shrinks_orphan_dir] by (simp add: is_dir_def)
next
  fix d acc and w :: world and acc' pushed w'
  assume good: "\<exists>names. below_path base d names"
    and run: "orphan_dir expected d acc w = (Inr (acc', pushed), w')" and ok: "fs_ok (world_fs w)"
  from good obtain names where names: "below_path base d names" by blast
  from orphan_dir_Inr [OF run]
  show "distinct (map fs_key pushed) \<and>
      (\<forall>p \<in> set pushed. (\<exists>names. below_path base p names) \<and>
         (\<exists>name. fs_key p = fs_key d @ [Normal name] \<and> is_dir (world_fs w) (fs_key p)))"
  proof (elim disjE conjE)
    assume swept: "entries_swept (\<lambda>_. False)
       (\<lambda>n c. (\<exists>e \<in> set expected. same_path e (join_path d n)) \<or>
          fs_lookup (world_fs w') (fs_key (join_path d n)) = None)
       (join_path d) d (fs_children (world_fs w) (fs_key d)) [] pushed"
    from swept_pushed [OF swept ok fs_key_join] show ?thesis
      using below_path_join [OF names] by blast
  qed simp
next
  fix d acc and w :: world and r w' k
  assume run: "orphan_dir expected d acc w = (Inr r, w')" and todo: "orphan_todo expected base (world_fs w') k"
  then show "orphan_todo expected base (world_fs w) k"
    using shrinks_Some [OF shrinks_orphan_dir run]
    by (auto simp: orphan_todo_def is_file_def split: option.splits fs_node.splits)
next
  fix d acc and w :: world and acc' pushed w' k
  assume good: "\<exists>names. below_path base d names"
    and run: "orphan_dir expected d acc w = (Inr (acc', pushed), w')" and ok: "fs_ok (world_fs w)"
    and below: "prefix (fs_key d) k" and todo: "orphan_todo expected base (world_fs w') k"
    and reach: "reachable_from (world_fs w') (fs_key d) k"
  from good obtain names where names: "below_path base d names" by blast
  from todo obtain c ks where c': "fs_lookup (world_fs w') k = Some (FileNode c)"
      and ks: "k = fs_key base @ map Normal ks"
        "\<forall>e \<in> set expected. path_components e \<noteq> path_components base @ map Normal ks"
    by (auto simp: orphan_todo_def is_file_def split: option.splits fs_node.splits)
  have c: "fs_lookup (world_fs w) k = Some (FileNode c)" using shrinks_Some [OF shrinks_orphan_dir run c'] .
  have before: "reachable_from (world_fs w) (fs_key d) k"
    using reach shrinks_Some [OF shrinks_orphan_dir run] by (simp add: reachable_from_def is_dir_def)
  from orphan_dir_Inr [OF run]
  show "\<exists>p \<in> set pushed. prefix (fs_key p) k"
  proof (elim disjE conjE)
    assume "fs_lookup (world_fs w) (fs_key d) = None"
    then show ?thesis using reachable_top [OF before below] c by (auto simp: is_dir_def)
  next
    assume dir: "is_dir (world_fs w) (fs_key d)"
    assume swept: "entries_swept (\<lambda>_. False)
       (\<lambda>n c. (\<exists>e \<in> set expected. same_path e (join_path d n)) \<or>
          fs_lookup (world_fs w') (fs_key (join_path d n)) = None)
       (join_path d) d (fs_children (world_fs w) (fs_key d)) [] pushed"
    show ?thesis
    proof (rule below_swept [OF swept ok fs_key_join names ks(1) below c dir before])
      fix n assume n: "ks = names @ [n]" "below_path base (join_path d n) (names @ [n])" "fs_key (join_path d n) = k"
      then show "\<not> ((\<exists>e \<in> set expected. same_path e (join_path d n)) \<or>
          fs_lookup (world_fs w') (fs_key (join_path d n)) = None)"
        using ks(2) c' by (auto simp: same_path_def below_path_def)
    qed auto
  qed
qed

section \<open>Copying the mirror\<close>

lemma keeps_copy_entries:
  "entries_ok entries \<Longrightarrow>
   keeps {k. \<forall>e \<in> set entries. \<not> prefix k (fs_key t @ [Normal (fst e)])} (copy_entries s t entries pushed)"
proof (induction entries arbitrary: pushed)
  case Nil
  show ?case by (auto intro!: keeps_intros)
next
  case (Cons e entries)
  let ?K = "{k. \<forall>e' \<in> set (e # entries). \<not> prefix k (fs_key t @ [Normal (fst e')])}"
  obtain name node where e: "e = (name, node)" by (cases e)
  have key: "fs_key (join_path t name) = fs_key t @ [Normal name]" using Cons.prems e by (simp add: fs_key_join)
  have rest: "keeps ?K (copy_entries s t entries pushed)" for pushed
    using Cons e by (auto intro: keeps_subset)
  have here: "\<not> prefix k (fs_key t @ [Normal name])" if "k \<in> ?K" for k using that e by simp
  then have "fs_key t @ [Normal name] \<notin> ?K" by blast
  then show ?case using here rest unfolding e
    by (auto simp: Let_def key intro!: keeps_intros split: fs_node.split)
qed

lemma keeps_nodes_copy_entries:
  "entries_ok entries \<Longrightarrow>
   keeps_nodes {k. \<forall>e \<in> set entries. k \<noteq> fs_key t @ [Normal (fst e)]} (copy_entries s t entries pushed)"
proof (induction entries arbitrary: pushed)
  case Nil
  show ?case by (auto intro!: nodes_intros)
next
  case (Cons e entries)
  let ?K = "{k. \<forall>e' \<in> set (e # entries). k \<noteq> fs_key t @ [Normal (fst e')]}"
  obtain name node where e: "e = (name, node)" by (cases e)
  have key: "fs_key (join_path t name) = fs_key t @ [Normal name]" using Cons.prems e by (simp add: fs_key_join)
  have rest: "keeps_nodes ?K (copy_entries s t entries pushed)" for pushed
    using Cons e unfolding keeps_nodes_def by auto
  have "fs_key t @ [Normal name] \<notin> ?K" using e by simp
  then show ?case using rest unfolding e
    by (auto simp: Let_def key intro!: nodes_intros split: fs_node.split)
qed

lemma ok_copy_entries [ok_intros]: "io_ok (copy_entries s t entries pushed)"
proof (induction entries arbitrary: pushed)
  case (Cons e entries)
  then show ?case by (cases e) (auto simp: Let_def intro!: ok_intros split: fs_node.split)
qed (auto intro!: ok_intros)

lemma ok_copy_dir [ok_intros]: "io_ok (copy_dir dirs acc)"
  unfolding copy_dir_def by (auto intro!: ok_intros split: prod.split)

definition apart :: "fs_key \<Rightarrow> fs_key \<Rightarrow> bool" where
  "apart j k \<longleftrightarrow> \<not> prefix j k \<and> \<not> prefix k j"

lemma apart_below: "apart j k \<Longrightarrow> prefix j i \<Longrightarrow> prefix k l \<Longrightarrow> apart i l"
  unfolding apart_def by (meson prefix_order.trans prefix_same_cases)

lemma apart_sym: "apart j k \<Longrightarrow> apart k j"
  by (simp add: apart_def)

lemma copy_entries_Inr:
  assumes apart: "apart (fs_key s) (fs_key t)"
  shows "copy_entries s t entries pushed w = (Inr ps, v) \<Longrightarrow> entries_ok entries \<Longrightarrow> distinct (map fst entries) \<Longrightarrow>
   entries_swept (\<lambda>_. False)
     (\<lambda>n c. fs_lookup (world_fs v) (fs_key t @ [Normal n]) = fs_lookup (world_fs v) (fs_key s @ [Normal n]))
     (\<lambda>n. (join_path s n, join_path t n)) s entries pushed ps"
proof (induction entries arbitrary: pushed w)
  case Nil
  then show ?case by (auto simp: io_then_Inr io_return_def intro: entries_swept_Nil)
next
  case (Cons e entries)
  obtain name node where e: "e = (name, node)" by (cases e)
  have rest: "entries_ok entries" "distinct (map fst entries)" "segment_ok name" "name \<notin> fst ` set entries"
    using Cons.prems e by simp_all
  show ?case
  proof (cases node)
    case DirNode
    with Cons.prems show ?thesis using e
      by (auto simp: io_then_Inr Let_def intro!: entries_swept_push dest: Cons.IH)
  next
    case (FileNode content)
    with Cons.prems obtain u u' where copied: "io_copy (join_path s name) (join_path t name) u = (Inr (), u')"
        and last: "copy_entries s t entries pushed u' = (Inr ps, v)"
      by (auto simp: e io_then_Inr io_map_err_Inr Let_def)
    let ?to = "fs_key t @ [Normal name]" and ?from = "fs_key s @ [Normal name]"
    have far: "apart (fs_key s @ xs) (fs_key t @ ys)" for xs ys
      using apart_below [OF apart] by simp
    have other: "\<not> prefix ?to (fs_key t @ [Normal n])" "\<not> prefix ?from (fs_key t @ [Normal n])"
      if "n \<in> fst ` set entries" for n
      using that rest(4) far [of "[Normal name]" "[Normal n]"] by (auto simp: apart_def)
    have same: "fs_lookup (world_fs v) k = fs_lookup (world_fs u') k" if "k = ?to \<or> k = ?from" for k
      by (rule keepsD [OF keeps_copy_entries [OF rest(1)] last]) (use that other in auto)
    have "fs_lookup (world_fs u') ?to = fs_lookup (world_fs u') ?from"
      using io_copy_Inr [OF copied] rest(3) far [of "[Normal name]" "[Normal name]"]
      by (simp add: fs_key_join apart_def)
    then show ?thesis using Cons.IH [OF last rest(1,2)] same e FileNode by (auto intro!: entries_swept_file)
  qed
qed

definition copy_pair :: "pathbuf \<Rightarrow> pathbuf \<Rightarrow> pathbuf \<times> pathbuf \<Rightarrow> bool" where
  "copy_pair src dst dirs \<longleftrightarrow>
     apart (fs_key src) (fs_key dst) \<and>
     (\<exists>names. below_path src (fst dirs) names \<and> below_path dst (snd dirs) names)"

definition copy_todo :: "pathbuf \<Rightarrow> pathbuf \<Rightarrow> filesystem \<Rightarrow> fs_key \<Rightarrow> bool" where
  "copy_todo src dst fs k \<longleftrightarrow>
     is_file fs k \<and> (\<exists>names. k = fs_key src @ map Normal names \<and>
       fs_lookup fs (fs_key dst @ map Normal names) \<noteq> fs_lookup fs k)"

lemma copy_dir_Inr:
  assumes "copy_dir (s, t) acc w = (Inr (acc', ps), v)" and "apart (fs_key s) (fs_key t)" and "fs_ok (world_fs w)"
  shows "is_dir (world_fs w) (fs_key s) \<and>
     entries_swept (\<lambda>_. False)
     (\<lambda>n c. fs_lookup (world_fs v) (fs_key t @ [Normal n]) = fs_lookup (world_fs v) (fs_key s @ [Normal n]))
     (\<lambda>n. (join_path s n, join_path t n)) s (fs_children (world_fs w) (fs_key s)) [] ps"
    and "k \<notin> {fs_key t @ [Normal n] |n. n \<in> fst ` set (fs_children (world_fs w) (fs_key s))} \<Longrightarrow>
      fs_lookup (world_fs w) k = Some node \<Longrightarrow> fs_lookup (world_fs v) k = Some node"
proof -
  from assms(1) obtain entries u u' where read: "io_read_dir s w = (Inr entries, u)"
      and run: "copy_entries s t entries [] u = (Inr ps, v)"
    by (auto simp: copy_dir_def io_then_Inr io_return_def io_map_err_Inr)
  have facts: "world_fs u = world_fs w" "is_dir (world_fs w) (fs_key s)" "entries = fs_children (world_fs w) (fs_key s)"
    using io_read_dir_Inr [OF read] by simp_all
  have entries: "entries_ok entries" "distinct (map fst entries)"
    using facts(3) entries_ok_children fs_children_distinct [OF assms(3)] by simp_all
  show "is_dir (world_fs w) (fs_key s) \<and>
     entries_swept (\<lambda>_. False)
     (\<lambda>n c. fs_lookup (world_fs v) (fs_key t @ [Normal n]) = fs_lookup (world_fs v) (fs_key s @ [Normal n]))
     (\<lambda>n. (join_path s n, join_path t n)) s (fs_children (world_fs w) (fs_key s)) [] ps"
    using copy_entries_Inr [OF assms(2) run entries] facts by simp
  show "k \<notin> {fs_key t @ [Normal n] |n. n \<in> fst ` set (fs_children (world_fs w) (fs_key s))} \<Longrightarrow>
      fs_lookup (world_fs w) k = Some node \<Longrightarrow> fs_lookup (world_fs v) k = Some node"
    by (rule keeps_nodesD [OF keeps_nodes_copy_entries [OF entries(1)] run]) (use facts in auto)
qed

lemma keeps_copy_dir:
  assumes "copy_pair src dst dirs"
  shows "keeps {k. apart k (fs_key dst)} (copy_dir dirs acc)"
proof -
  obtain s t where dirs: "dirs = (s, t)" by (cases dirs)
  have t: "prefix (fs_key dst) (fs_key t)" using assms dirs below_path_key by (auto simp: copy_pair_def)
  have sub: "{k. apart k (fs_key dst)} \<subseteq> {k. \<forall>e \<in> set entries. \<not> prefix k (fs_key t @ [Normal (fst e)])}"
    for entries :: "(string \<times> fs_node) list"
  proof clarify
    fix k n and node :: fs_node
    assume "apart k (fs_key dst)" "prefix k (fs_key t @ [Normal (fst (n, node))])"
    then have "apart (fs_key t @ [Normal n]) (fs_key t @ [Normal n])"
      using apart_below [of k "fs_key dst"] t by simp
    then show False by (simp add: apart_def)
  qed
  show ?thesis
    unfolding copy_dir_def dirs prod.case
    by (rule keeps_then_read_dir)
      (auto intro!: keeps_intros keeps_subset [OF keeps_copy_entries sub])
qed

interpretation copy_walk: dir_sweep copy_dir "\<lambda>d. fs_key (fst d)" "fs_key src" "copy_pair src dst" "copy_todo src dst"
  for src dst
proof
  fix d acc
  show "io_ok (copy_dir d acc)" by (rule ok_intros)
next
  fix d acc and w :: world and r w' k
  assume good: "copy_pair src dst d" and run: "copy_dir d acc w = (r, w')" and "prefix (fs_key src) k"
    and dir: "is_dir (world_fs w') k"
  then have "apart k (fs_key dst)" using apart_below by (auto simp: copy_pair_def)
  then show "is_dir (world_fs w) k"
    using keepsD [OF keeps_copy_dir [OF good] run] dir by (simp add: is_dir_def)
next
  fix d acc and w :: world and acc' pushed w'
  assume good: "copy_pair src dst d" and run: "copy_dir d acc w = (Inr (acc', pushed), w')" and ok: "fs_ok (world_fs w)"
  obtain s t where d: "d = (s, t)" by (cases d)
  from good obtain names where names: "below_path src s names" "below_path dst t names" "apart (fs_key src) (fs_key dst)"
    by (auto simp: copy_pair_def d)
  have far: "apart (fs_key s) (fs_key t)"
    using apart_below [OF names(3)] names(1,2) by (simp add: below_path_key)
  note facts = copy_dir_Inr [OF run [unfolded d] far ok]
  have pushed: "copy_pair src dst p" if "p = (join_path s n, join_path t n)" "segment_ok n" for p n
    using below_path_join [OF names(1) that(2)] below_path_join [OF names(2) that(2)] names(3) that(1)
    by (auto simp: copy_pair_def)
  show "distinct (map (\<lambda>d. fs_key (fst d)) pushed) \<and>
      (\<forall>p \<in> set pushed. copy_pair src dst p \<and>
         (\<exists>name. fs_key (fst p) = fs_key (fst d) @ [Normal name] \<and> is_dir (world_fs w) (fs_key (fst p))))"
    using swept_pushed [OF conjunct2 [OF facts(1)] ok, of "\<lambda>d. fs_key (fst d)"] pushed d
    by (simp add: fs_key_join) blast
next
  fix d acc and w :: world and r w' k
  assume good: "copy_pair src dst d" and run: "copy_dir d acc w = (Inr r, w')" and ok: "fs_ok (world_fs w)"
    and top: "prefix (fs_key src) k" and todo: "copy_todo src dst (world_fs w') k"
  obtain s t where d: "d = (s, t)" by (cases d)
  from good obtain names where names: "below_path src s names" "below_path dst t names" "apart (fs_key src) (fs_key dst)"
    by (auto simp: copy_pair_def d)
  have far: "apart (fs_key s) (fs_key t)"
    using apart_below [OF names(3)] names(1,2) by (simp add: below_path_key)
  obtain acc' ps where r: "r = (acc', ps)" by (cases r)
  note facts = copy_dir_Inr [OF run [unfolded d r] far ok]
  have same: "fs_lookup (world_fs w') k = fs_lookup (world_fs w) k"
    by (rule keepsD [OF keeps_copy_dir [OF good] run]) (use apart_below [OF names(3) top] in simp)
  from todo obtain c ks where c: "fs_lookup (world_fs w') k = Some (FileNode c)" and ks: "k = fs_key src @ map Normal ks"
      "fs_lookup (world_fs w') (fs_key dst @ map Normal ks) \<noteq> fs_lookup (world_fs w') k"
    by (auto simp: copy_todo_def is_file_def split: option.splits fs_node.splits)
  have "fs_lookup (world_fs w) (fs_key dst @ map Normal ks) \<noteq> fs_lookup (world_fs w) k"
  proof
    assume equal: "fs_lookup (world_fs w) (fs_key dst @ map Normal ks) = fs_lookup (world_fs w) k"
    let ?made = "{fs_key t @ [Normal n] |n. n \<in> fst ` set (fs_children (world_fs w) (fs_key s))}"
    have "fs_key dst @ map Normal ks \<in> ?made"
      using facts(2) [of "fs_key dst @ map Normal ks" "FileNode c"] equal same c ks(2) by auto
    then obtain n node where n: "(n, node) \<in> set (fs_children (world_fs w) (fs_key s))"
        "fs_key dst @ map Normal ks = fs_key t @ [Normal n]" by auto
    then have "map Normal ks = map Normal names @ [Normal n]" by (simp add: below_path_key [OF names(2)])
    then have k: "k = fs_key s @ [Normal n]" using ks(1) below_path_key [OF names(1)] by simp
    then have "node = FileNode c" using fs_children_lookup [OF ok n(1)] same c by simp
    then have "fs_lookup (world_fs w') (fs_key t @ [Normal n]) = fs_lookup (world_fs w') (fs_key s @ [Normal n])"
      using facts(1) n(1) unfolding entries_swept_def by blast
    then show False using ks(2) n(2) k by simp
  qed
  then show "copy_todo src dst (world_fs w) k" using ks(1) same c by (auto simp: copy_todo_def is_file_def)
next
  fix d acc and w :: world and acc' pushed w' k
  assume good: "copy_pair src dst d" and run: "copy_dir d acc w = (Inr (acc', pushed), w')" and ok: "fs_ok (world_fs w)"
    and top: "prefix (fs_key src) k" and below: "prefix (fs_key (fst d)) k" and todo: "copy_todo src dst (world_fs w') k"
    and reach: "reachable_from (world_fs w') (fs_key (fst d)) k"
  obtain s t where d: "d = (s, t)" by (cases d)
  from good obtain names where names: "below_path src s names" "below_path dst t names" "apart (fs_key src) (fs_key dst)"
    by (auto simp: copy_pair_def d)
  have far: "apart (fs_key s) (fs_key t)"
    using apart_below [OF names(3)] names(1,2) by (simp add: below_path_key)
  note facts = copy_dir_Inr [OF run [unfolded d] far ok]
  have same: "fs_lookup (world_fs w') j = fs_lookup (world_fs w) j" if "prefix (fs_key src) j" for j
    by (rule keepsD [OF keeps_copy_dir [OF good] run]) (use apart_below [OF names(3) that] in simp)
  have inside: "prefix (fs_key src) (take m k)" if "length (fs_key s) \<le> m" for m
    using that below d below_path_key [OF names(1)] by (auto simp: prefix_def)
  have before: "reachable_from (world_fs w) (fs_key s) k"
    using reach same inside d by (simp add: reachable_from_def is_dir_def)
  from todo obtain c ks where c: "fs_lookup (world_fs w') k = Some (FileNode c)" and ks: "k = fs_key src @ map Normal ks"
      "fs_lookup (world_fs w') (fs_key dst @ map Normal ks) \<noteq> fs_lookup (world_fs w') k"
    by (auto simp: copy_todo_def is_file_def split: option.splits fs_node.splits)
  show "\<exists>p \<in> set pushed. prefix (fs_key (fst p)) k"
  proof (rule below_swept [OF conjunct2 [OF facts(1)] ok, where key = "\<lambda>d. fs_key (fst d)"])
    show "fs_key (fst (join_path s n, join_path t n)) = fs_key s @ [Normal n]" if "segment_ok n" for n
      using that by (simp add: fs_key_join)
    show "below_path src s names" "k = fs_key src @ map Normal ks" "reachable_from (world_fs w) (fs_key s) k"
      "is_dir (world_fs w) (fs_key s)" "fs_lookup (world_fs w) k = Some (FileNode c)" "prefix (fs_key s) k"
      using names(1) ks(1) before facts(1) same [OF top] c below d by simp_all
    fix n assume n: "ks = names @ [n]" "fs_key (join_path s n) = k"
    then show "fs_lookup (world_fs w') (fs_key t @ [Normal n]) \<noteq> fs_lookup (world_fs w') (fs_key s @ [Normal n])"
      using ks below_path_key [OF names(1)] below_path_key [OF names(2)] by simp
  qed simp
qed

lemma swept_members:
  assumes "entries_swept skip handled push dir (fs_children fs k) [] ps" and "p \<in> set ps"
  shows "\<exists>n. p = push n \<and> segment_ok n"
  using assms subseq_facts children_segment_ok unfolding entries_swept_def dir_names_def by fastforce

lemma below_pushed:
  assumes "entries_swept skip handled (join_path d) d (fs_children fs k) [] ps" and "p \<in> set ps"
    and "\<exists>names. below_path base d names"
  shows "\<exists>names. below_path base p names"
  using swept_members [OF assms(1,2)] assms(3) below_path_join by blast

lemma copy_entries_pushed:
  "copy_entries s t entries pushed w = (Inr ps, v) \<Longrightarrow> entries_ok entries \<Longrightarrow>
   p \<in> set ps \<Longrightarrow> p \<in> set pushed \<or> (\<exists>n. p = (join_path s n, join_path t n) \<and> segment_ok n)"
proof (induction entries arbitrary: pushed w)
  case Nil
  then show ?case by (auto simp: io_then_Inr io_return_def)
next
  case (Cons e entries)
  obtain name node where e: "e = (name, node)" by (cases e)
  show ?case
  proof (cases node)
    case DirNode
    with Cons.prems(1) obtain u where
        "copy_entries s t entries (pushed @ [(join_path s name, join_path t name)]) u = (Inr ps, v)"
      by (auto simp: e io_then_Inr Let_def)
    from Cons.IH [OF this] show ?thesis using Cons.prems(2,3) e by auto
  next
    case (FileNode c)
    with Cons.prems(1) obtain u where "copy_entries s t entries pushed u = (Inr ps, v)"
      by (auto simp: e io_then_Inr Let_def)
    from Cons.IH [OF this] show ?thesis using Cons.prems(2,3) e by auto
  qed
qed

section \<open>What the walks leave alone, and that they end\<close>

lemma keeps_remove_deleted_objects:
  assumes "base \<noteq> []" and "\<And>k. codec_sha256 codec k \<noteq> []"
  shows "keeps {k. \<not> unlisted keys base k \<and> \<not> in_metadata base k} (remove_deleted_objects codec base keys)"
  unfolding remove_deleted_objects_def
proof (rule keeps_walk_good [where good = "\<lambda>d. \<exists>names. below_path base d names"])
  show "\<exists>names. below_path base d names \<Longrightarrow>
      keeps {k. \<not> unlisted keys base k \<and> \<not> in_metadata base k} (removal_dir codec keys base d acc)" for d acc
    using keeps_removal_dir assms by blast
next
  fix d acc and w :: world and acc' pushed v
  assume d: "\<exists>names. below_path base d names" and run: "removal_dir codec keys base d acc w = (Inr (acc', pushed), v)"
  show "\<forall>p \<in> set pushed. \<exists>names. below_path base p names"
  proof
    fix p assume p: "p \<in> set pushed"
    from removal_dir_Inr [OF run] show "\<exists>names. below_path base p names"
      by (elim disjE conjE) (use p below_pushed [OF _ p d] in auto)
  qed
qed (use assms below_path_refl in auto)

lemma keeps_orphan_walk:
  assumes "base \<noteq> []"
  shows "keeps {k. \<not> prefix (fs_key base) k} (walk_dirs (orphan_dir expected) [base] ())"
proof (rule keeps_walk_good [where good = "\<lambda>d. \<exists>names. below_path base d names"])
  show "\<exists>names. below_path base d names \<Longrightarrow> keeps {k. \<not> prefix (fs_key base) k} (orphan_dir expected d acc)" for d acc
    using keeps_orphan_dir by blast
next
  fix d acc and w :: world and acc' pushed v
  assume d: "\<exists>names. below_path base d names" and run: "orphan_dir expected d acc w = (Inr (acc', pushed), v)"
  show "\<forall>p \<in> set pushed. \<exists>names. below_path base p names"
  proof
    fix p assume p: "p \<in> set pushed"
    from orphan_dir_Inr [OF run] show "\<exists>names. below_path base p names"
      by (elim disjE conjE) (use p below_pushed [OF _ p d] in auto)
  qed
qed (use assms below_path_refl in auto)

lemma keeps_remove_orphans:
  assumes "base \<noteq> []"
  shows "keeps {k. \<not> in_metadata base k} (remove_orphan_metadata_sidecars codec base keys)"
proof -
  have "keeps {k. \<not> in_metadata base k} (walk_dirs (orphan_dir expected) [join_path base METADATA_DIR_NAME] ())"
    for expected
    using keeps_orphan_walk [of "join_path base METADATA_DIR_NAME" expected] assms
    by (simp add: join_path_neq_Nil fs_key_metadata in_metadata_def)
  then show ?thesis unfolding remove_orphan_metadata_sidecars_def by (intro keeps_then keeps_lift)
qed

lemma copy_pair_join:
  assumes "copy_pair src dst (s, t)" and "segment_ok n"
  shows "copy_pair src dst (join_path s n, join_path t n)"
  using assms below_path_join [OF _ assms(2)] unfolding copy_pair_def fst_conv snd_conv by blast

lemma copy_pair_refl: "src \<noteq> [] \<Longrightarrow> dst \<noteq> [] \<Longrightarrow> apart (fs_key src) (fs_key dst) \<Longrightarrow> copy_pair src dst (src, dst)"
  using below_path_refl by (auto simp: copy_pair_def)

lemma keeps_copy_walk:
  assumes "copy_pair src dst (src, dst)"
  shows "keeps {k. apart k (fs_key dst)} (walk_dirs copy_dir [(src, dst)] ())"
proof (rule keeps_walk_good [where good = "copy_pair src dst"])
  show "copy_pair src dst d \<Longrightarrow> keeps {k. apart k (fs_key dst)} (copy_dir d acc)" for d acc
    by (rule keeps_copy_dir)
next
  fix d acc and w :: world and acc' pushed v
  assume d: "copy_pair src dst d" and run: "copy_dir d acc w = (Inr (acc', pushed), v)"
  obtain s t where st: "d = (s, t)" by (cases d)
  from run obtain entries u u' where read: "io_read_dir s w = (Inr entries, u)"
      and go: "copy_entries s t entries [] u = (Inr pushed, v)"
    by (auto simp: copy_dir_def io_then_Inr io_return_def io_map_err_Inr st)
  have "entries_ok entries" using io_read_dir_Inr [OF read] entries_ok_children by simp
  note new = copy_entries_pushed [OF go this]
  show "\<forall>p \<in> set pushed. copy_pair src dst p"
  proof
    fix p assume "p \<in> set pushed"
    then have "\<exists>n. p = (join_path s n, join_path t n) \<and> segment_ok n" using new by simp
    then show "copy_pair src dst p" using d copy_pair_join st by blast
  qed
qed (use assms in auto)

end
