(* ===== verification/Sync_Facts.thy ===== *)
theory Sync_Facts
  imports Sync_Walks
begin

text \<open>
  What the synchronisation of an origin guarantees: staging touches nothing outside its
  staging directory whatever fails, the staged tree is the mirror brought up to date, and
  the swap leaves the old mirror, the new one, or a backup of the old one.
\<close>

section \<open>Staging touches only the staging directory\<close>

text \<open>A storage that changes no local file.\<close>

definition remote_only :: "remote_storage \<Rightarrow> bool" where
  "remote_only storage \<longleftrightarrow>
     (\<forall>w. world_fs (snd (list_objects storage w)) = world_fs w) \<and>
     (\<forall>key w. world_fs (snd (get_object storage key w)) = world_fs w)"

definition outside :: "pathbuf \<Rightarrow> fs_key set" where
  "outside staging = {k. apart k (fs_key staging)}"

lemma remote_keeps:
  assumes "remote_only storage"
  shows "keeps K (list_objects storage)" and "keeps K (get_object storage key)"
  using assms by (simp_all add: remote_only_def keeps_def)

lemma remote_ok:
  assumes "remote_only storage"
  shows "io_ok (list_objects storage)" and "io_ok (get_object storage key)"
  using assms by (simp_all add: remote_only_def io_ok_def)

lemma outside_create:
  assumes "prefix (fs_key staging) (fs_key p) \<or> prefix (fs_key p) (fs_key staging)"
  shows "keeps (outside staging) (io_create_dir_all p)"
proof (rule keeps_create_dir_all)
  fix k assume k: "k \<in> outside staging"
  show "\<not> prefix k (fs_key p)"
  proof
    assume "prefix k (fs_key p)"
    then have "prefix k (fs_key staging) \<or> prefix (fs_key staging) k"
      using assms prefix_same_cases prefix_order.trans by metis
    then show False using k by (auto simp: outside_def apart_def)
  qed
qed

lemma outside_parent:
  assumes "prefix (fs_key staging) (fs_key p)"
  shows "keeps (outside staging)
    (case path_parent p of Some parent \<Rightarrow> io_map_err (c parent) (io_create_dir_all parent) | None \<Rightarrow> io_return ())"
proof (cases "path_parent p")
  case (Some q)
  have "prefix (fs_key staging) (fs_key q) \<or> prefix (fs_key q) (fs_key staging)"
    using prefix_same_cases [OF assms fs_key_parent [OF Some]] by blast
  then show ?thesis using Some by (simp add: keeps_map_err outside_create)
qed (simp add: keeps_return)

lemma outside_below: "prefix (fs_key staging) k \<Longrightarrow> k \<notin> outside staging"
  by (simp add: outside_def apart_def)

lemma outside_remove: "keeps (outside staging) (remove_dir_if_exists staging)"
  unfolding remove_dir_if_exists_def
  by (auto intro!: keeps_intros simp: outside_def apart_def split: sum.split io_error.split)

lemma outside_write_object:
  assumes "staging \<noteq> []" and "\<And>k. codec_sha256 codec k \<noteq> []"
  shows "keeps (outside staging) (write_object codec staging object)"
proof -
  have object: "prefix (fs_key staging) (fs_key p)" if "sync_object_path staging key = Inr p" for key p
    using sync_path_components [OF assms(1) that] by (simp add: fs_key_def)
  have sidecar: "prefix (fs_key staging) (fs_key p)"
    if "metadata_sidecar_path (codec_sha256 codec) staging key = Inr p" for key p
    using sidecar_fs_key(1) [OF assms(1) that assms(2)] by simp
  show ?thesis
    unfolding write_object_def Let_def
    by (intro keeps_lift_then keeps_then keeps_lift outside_parent keeps_map_err keeps_write outside_below)
      (simp_all add: object sidecar)
qed

lemma outside_removals:
  assumes "staging \<noteq> []" and "\<And>k. codec_sha256 codec k \<noteq> []"
  shows "keeps (outside staging) (remove_deleted_objects codec staging keys)"
    and "keeps (outside staging) (remove_orphan_metadata_sidecars codec staging keys)"
proof -
  have "k \<in> outside staging \<Longrightarrow> \<not> unlisted keys staging k \<and> \<not> in_metadata staging k" for k
    using append_prefixD [of "fs_key staging" _ k]
    by (auto simp: outside_def apart_def unlisted_def in_metadata_def)
  then have sub: "outside staging \<subseteq> {k. \<not> unlisted keys staging k \<and> \<not> in_metadata staging k}"
      "outside staging \<subseteq> {k. \<not> in_metadata staging k}" by auto
  show "keeps (outside staging) (remove_deleted_objects codec staging keys)"
    using keeps_subset [OF keeps_remove_deleted_objects [OF assms] sub(1)] .
  show "keeps (outside staging) (remove_orphan_metadata_sidecars codec staging keys)"
    using keeps_subset [OF keeps_remove_orphans [OF assms(1)] sub(2)] .
qed

lemma outside_download:
  assumes "remote_only storage" and "staging \<noteq> []" and "\<And>k. codec_sha256 codec k \<noteq> []"
  shows "keeps (outside staging) (download_changed codec storage staging index keys n)"
proof (induction keys arbitrary: n)
  case (Cons key keys)
  then show ?case
    by (auto intro!: keeps_then keeps_lift remote_keeps [OF assms(1)] outside_write_object [OF assms(2,3)])
qed (simp add: keeps_return)

lemma outside_stage_dir:
  assumes "remote_only storage" and "staging \<noteq> []" and "\<And>k. codec_sha256 codec k \<noteq> []"
  shows "keeps (outside staging) (stage_origin_dir codec storage now i staging previous)"
  unfolding stage_origin_dir_def Let_def
  by (intro keeps_then keeps_lift keeps_map_err keeps_return outside_create remote_keeps [OF assms(1)]
      outside_download [OF assms] outside_removals [OF assms(2,3)]) simp

lemma outside_prepare:
  assumes "staging \<noteq> []" and "dir \<noteq> []" and "apart (fs_key dir) (fs_key staging)"
  shows "keeps (outside staging) (prepare_staging_dir dir staging)"
proof -
  have "keeps (outside staging) (walk_dirs copy_dir [(dir, staging)] ())"
    unfolding outside_def using keeps_copy_walk [OF copy_pair_refl [OF assms(2,1,3)]] .
  then show ?thesis
    unfolding prepare_staging_dir_def copy_dir_contents_def
    by (auto intro!: keeps_then keeps_match keeps_map_err keeps_reads outside_remove outside_create split: sum.split)
qed

lemma outside_or_remove:
  "keeps (outside staging) m \<Longrightarrow> keeps (outside staging) (or_remove staging m)"
  unfolding or_remove_def
  by (auto intro!: keeps_then keeps_match keeps_return keeps_fail outside_remove split: sum.split)

text \<open>Where the staging directory is.\<close>

lemma sync_dir_segment: "segment_ok ''.rendermesh-sync''"
  by (simp add: segment_ok_def)

lemma show_nat_digits: "set (show_nat n) \<subseteq> set ''0123456789''"
proof (induction n rule: show_nat.induct)
  case (1 n)
  define digits where "digits = ''0123456789''"
  have "digits ! m \<in> set digits" if "m < 10" for m :: nat
    using that by (intro nth_mem) (simp add: digits_def)
  then show ?case
    using 1 unfolding digits_def [symmetric] show_nat.simps [of n] by simp
qed

lemma staging_name_ok:
  assumes "validate_origin_id i = Inr u"
  shows "segment_ok (staging_name i pid nanos)"
proof -
  have no: "CHR ''/'' \<notin> set (show_nat n)" "CHR ''.'' \<notin> set (show_nat n)" for n
    using show_nat_digits [of n] by auto
  have "CHR ''-'' \<in> set (staging_name i pid nanos)" by (simp add: staging_name_def)
  then have "staging_name i pid nanos \<notin> {[], ''.'', ''..''}" by auto
  moreover have "CHR ''/'' \<notin> set (staging_name i pid nanos)"
    using no valid_origin_id_no_sep [OF assms] by (simp add: staging_name_def)
  ultimately show ?thesis by (simp add: segment_ok_def)
qed

lemma staging_dir_key:
  assumes "root \<noteq> []" and "staging_dir root i pid nanos = Inr staging"
  shows "staging \<noteq> []"
    and "fs_key staging = fs_key root @ [Normal ''.rendermesh-sync'', Normal (staging_name i pid nanos)]"
    and "validate_origin_id i = Inr ()"
proof -
  have v: "validate_origin_id i = Inr ()" and s: "staging = join_path (join_path root ''.rendermesh-sync'') (staging_name i pid nanos)"
    using assms(2) by (auto simp: staging_dir_def result_simps origin_dir_Inr)
  show "validate_origin_id i = Inr ()" by (rule v)
  show "staging \<noteq> []" unfolding s using assms(1) by (simp add: join_path_neq_Nil)
  show "fs_key staging = fs_key root @ [Normal ''.rendermesh-sync'', Normal (staging_name i pid nanos)]"
    unfolding s using fs_key_join [OF sync_dir_segment] fs_key_join [OF staging_name_ok [OF v]] by simp
qed

lemma origin_dir_key:
  assumes "root \<noteq> []" and "origin_dir root i = Inr dir"
  shows "fs_key dir = fs_key root @ [Normal i]" and "dir \<noteq> []" and "i \<noteq> ''.rendermesh-sync''"
    and "validate_origin_id i = Inr ()"
proof -
  show "fs_key dir = fs_key root @ [Normal i]" "dir \<noteq> []"
    using origin_dir_components [OF assms] by (simp_all add: fs_key_def)
  have "validate_origin_id i = Inr ()" using assms(2) by (simp add: origin_dir_Inr)
  then show "validate_origin_id i = Inr ()" "i \<noteq> ''.rendermesh-sync''"
    using valid_origin_id_no_sep by fastforce+
qed

lemma mirror_outside_staging:
  assumes "root \<noteq> []" and "staging_dir root i pid nanos = Inr staging" and "origin_dir root j = Inr dir"
  shows "apart (fs_key dir) (fs_key staging)"
  using staging_dir_key [OF assms(1,2)] origin_dir_key [OF assms(1,3)] by (simp add: apart_def)

lemma outside_stage_origin_sync:
  assumes "root \<noteq> []" and "remote_only storage" and "\<And>k. codec_sha256 codec k \<noteq> []"
    and "staging_dir root i pid nanos = Inr staging"
  shows "keeps (outside staging) (stage_origin_sync codec storage root pid nanos now i previous)"
proof -
  obtain dir where dir: "origin_dir root i = Inr dir"
    using staging_dir_key(3) [OF assms(1,4)] by (auto simp: origin_dir_def)
  note s = staging_dir_key(1) [OF assms(1,4)] and d = origin_dir_key(2) [OF assms(1) dir]
  show ?thesis
    unfolding stage_origin_sync_def
    using outside_prepare [OF s d mirror_outside_staging [OF assms(1,4) dir]]
      outside_or_remove [OF outside_stage_dir [OF assms(2) s assms(3)]]
    by (auto intro!: keeps_lift_then keeps_then keeps_return simp: dir assms(4))
qed

section \<open>The swap\<close>

definition subtree :: "filesystem \<Rightarrow> fs_key \<Rightarrow> fs_key \<Rightarrow> fs_node option" where
  "subtree fs k = (\<lambda>x. fs_lookup fs (k @ x))"

text \<open>The places of a swap: apart from each other and none of them the root.\<close>

definition places_ok :: "fs_key \<Rightarrow> fs_key \<Rightarrow> fs_key \<Rightarrow> bool" where
  "places_ok d s b \<longleftrightarrow> apart d s \<and> apart d b \<and> apart s b \<and>
     (\<forall>k \<in> {d, s, b}. k \<noteq> [] \<and> k \<noteq> [RootDir])"

lemma io_rename_cases:
  assumes "io_rename p q w = (r, v)" and "fs_key p \<noteq> fs_key q"
  obtains (moved) "r = Inr ()" and "world_fs v = move_tree (fs_key p) (fs_key q) (world_fs w)"
  | (failed) e where "r = Inl e" and "world_fs v = world_fs w"
proof (cases "world_faults w (world_step w)")
  case None
  obtain r' fs where act: "fs_rename p q (world_fs w) = (r', fs)" by (cases "fs_rename p q (world_fs w)")
  have run: "r = r'" "world_fs v = fs" using assms(1) None act by (auto simp: io_rename_def io_op_def)
  show thesis
  proof (cases r')
    case (Inl e)
    then show thesis using failed run fs_rename_Inl [of p q "world_fs w" e fs] act by simp
  next
    case (Inr u)
    then show thesis using moved run fs_rename_Inr(1) [of p q "world_fs w" fs] act assms(2) by simp
  qed
next
  case (Some fault)
  then show thesis using failed assms(1) by (cases fault) (auto simp: io_rename_def io_op_def)
qed

lemma subtree_move:
  assumes "apart src dst" and "src \<noteq> []" "src \<noteq> [RootDir]" "dst \<noteq> []" "dst \<noteq> [RootDir]"
  shows "subtree (move_tree src dst fs) dst = subtree fs src"
    and "subtree (move_tree src dst fs) src = (\<lambda>_. None)"
    and "apart k src \<Longrightarrow> apart k dst \<Longrightarrow> subtree (move_tree src dst fs) k = subtree fs k"
proof -
  have move: "fs_lookup (move_tree src dst fs) k =
     (if prefix dst k then fs_lookup fs (src @ drop (length dst) k)
      else if prefix src k then None
      else fs_lookup fs k)" for k
    by (rule fs_lookup_move_tree) (use assms in \<open>auto simp: apart_def\<close>)
  have far: "\<not> prefix j (i @ x)" if "apart i j" for i j x
    using apart_below [OF that, of "i @ x" j] by (auto simp: apart_def)
  show "subtree (move_tree src dst fs) dst = subtree fs src"
    by (rule ext) (simp add: subtree_def move)
  show "subtree (move_tree src dst fs) src = (\<lambda>_. None)"
    by (rule ext) (use far [OF assms(1)] in \<open>simp add: subtree_def move\<close>)
  show "subtree (move_tree src dst fs) k = subtree fs k" if "apart k src" "apart k dst"
    by (rule ext) (use far [OF that(1)] far [OF that(2)] in \<open>simp add: subtree_def move\<close>)
qed

lemma subtree_keeps:
  assumes "keeps K m" and "m w = (r, v)" and "\<And>x. k @ x \<in> K"
  shows "subtree (world_fs v) k = subtree (world_fs w) k"
  using keepsD [OF assms(1,2) assms(3)] by (auto simp: subtree_def)

lemma subtree_remove:
  assumes "remove_dir_if_exists p w = (r, v)" and "apart k (fs_key p)"
  shows "subtree (world_fs v) k = subtree (world_fs w) k"
proof -
  have "keeps (outside p) (remove_dir_if_exists p)" by (rule outside_remove)
  moreover have "k @ x \<in> outside p" for x
    using apart_below [OF assms(2), of "k @ x" "fs_key p"] by (simp add: outside_def)
  ultimately show ?thesis using subtree_keeps assms(1) by blast
qed

lemma swap_renames:
  assumes run: "io_match (io_rename staging dir) (\<lambda>moved.
       case moved of
         Inl e \<Rightarrow>
           io_then
             (if had_origin then io_context c (io_rename backup dir) else io_return ()) (\<lambda>_.
           io_fail (failure e))
       | Inr _ \<Rightarrow> remove_dir_if_exists backup) w = (r, v)"
    and places: "places_ok (fs_key dir) (fs_key staging) (fs_key backup)"
  shows "subtree (world_fs v) (fs_key dir) = subtree (world_fs w) (fs_key staging) \<or>
    isl r \<and> (if had_origin then subtree (world_fs v) (fs_key dir) = subtree (world_fs w) (fs_key backup) \<or>
           subtree (world_fs v) (fs_key dir) = subtree (world_fs w) (fs_key dir) \<and>
           subtree (world_fs v) (fs_key backup) = subtree (world_fs w) (fs_key backup)
         else subtree (world_fs v) (fs_key dir) = subtree (world_fs w) (fs_key dir))"
proof -
  have far: "apart (fs_key dir) (fs_key staging)" "apart (fs_key dir) (fs_key backup)"
      "fs_key staging \<noteq> fs_key dir" "fs_key backup \<noteq> fs_key dir"
    using places by (auto simp: places_ok_def apart_def)
  note move = subtree_move [of "fs_key staging" "fs_key dir"] subtree_move [of "fs_key backup" "fs_key dir"]
  from run obtain s u where first: "io_rename staging dir w = (s, u)" and go: "(case s of
         Inl e \<Rightarrow>
           io_then
             (if had_origin then io_context c (io_rename backup dir) else io_return ()) (\<lambda>_.
           io_fail (failure e))
       | Inr _ \<Rightarrow> remove_dir_if_exists backup) u = (r, v)"
    by (rule io_match_cases)
  from first far(3) show ?thesis
  proof (cases rule: io_rename_cases)
    case moved
    then have "subtree (world_fs u) (fs_key dir) = subtree (world_fs w) (fs_key staging)"
      using move(1) places far by (auto simp: places_ok_def apart_sym)
    moreover have "subtree (world_fs v) (fs_key dir) = subtree (world_fs u) (fs_key dir)"
      using subtree_remove [of backup u r v] go moved far(2) by simp
    ultimately show ?thesis by simp
  next
    case (failed e)
    have err: "isl r"
      using go failed by (auto simp: io_then_def io_fail_def split: prod.splits sum.splits)
    show ?thesis
    proof (cases had_origin)
      case False
      then have "v = u" using go failed by (simp add: io_then_def io_return_def io_fail_def)
      then show ?thesis using failed err False by simp
    next
      case True
      from go failed True obtain t where second: "io_rename backup dir u = (t, v)"
        by (auto simp: io_then_def io_map_err_def io_fail_def split: prod.splits sum.splits)
      from second far(4) show ?thesis
      proof (cases rule: io_rename_cases)
        case moved
        then have "subtree (world_fs v) (fs_key dir) = subtree (world_fs w) (fs_key backup)"
          using move(4) places far failed by (auto simp: places_ok_def apart_sym)
        then show ?thesis using err True by simp
      next
        case (failed e')
        then show ?thesis using err True \<open>world_fs u = world_fs w\<close> by simp
      qed
    qed
  qed
qed


lemma swap_origin_dir_cases:
  assumes run: "swap_origin_dir dir staging nanos w = (r, v)"
    and places: "places_ok (fs_key dir) (fs_key staging) (fs_key (backup_dir dir nanos))"
    and parent: "\<And>q. path_parent dir = Some q \<Longrightarrow>
      \<not> prefix (fs_key dir) (fs_key q) \<and> \<not> prefix (fs_key staging) (fs_key q) \<and>
      \<not> prefix (fs_key (backup_dir dir nanos)) (fs_key q)"
  shows "subtree (world_fs v) (fs_key dir) = subtree (world_fs w) (fs_key staging) \<or>
    isl r \<and> subtree (world_fs v) (fs_key dir) = subtree (world_fs w) (fs_key dir) \<or>
    isl r \<and> subtree (world_fs v) (fs_key dir) = (\<lambda>_. None) \<and>
      subtree (world_fs v) (fs_key (backup_dir dir nanos)) = subtree (world_fs w) (fs_key dir)"
proof -
  let ?d = "fs_key dir" and ?s = "fs_key staging" and ?b = "fs_key (backup_dir dir nanos)"
  define parents where "parents = (case path_parent dir of
          Some parent \<Rightarrow> io_context (''create mirror root '' @ parent) (io_create_dir_all parent)
        | None \<Rightarrow> io_return ())"
  define activate where "activate = (\<lambda>had_origin. io_match (io_rename staging dir) (\<lambda>moved.
       case moved of
         Inl e \<Rightarrow>
           io_then
             (if had_origin then io_context (''restore old mirror '' @ dir) (io_rename (backup_dir dir nanos) dir)
              else io_return ()) (\<lambda>_.
           io_fail (ErrorContext (''activate mirror '' @ dir) (io_anyhow e)))
       | Inr _ \<Rightarrow> remove_dir_if_exists (backup_dir dir nanos)))"
  have swap: "swap_origin_dir dir staging nanos = io_then parents (\<lambda>_.
      io_match (io_stat dir) (\<lambda>found.
      io_then
        (if \<not> isl found then io_context (''move old mirror to '' @ backup_dir dir nanos)
             (io_rename dir (backup_dir dir nanos)) else io_return ()) (\<lambda>_.
      activate (\<not> isl found))))"
    unfolding swap_origin_dir_def parents_def activate_def Let_def ..
  have keep: "subtree (world_fs u) k = subtree (world_fs w) k"
    if "parents w = (x, u)" "k \<in> {?d, ?s, ?b}" for x u k
  proof (rule subtree_keeps [where m = parents, OF _ that(1)])
    show "keeps {k. \<forall>q. path_parent dir = Some q \<longrightarrow> \<not> prefix k (fs_key q)} parents"
      unfolding parents_def by (auto intro!: keeps_intros split: option.split)
    show "k @ x \<in> {k. \<forall>q. path_parent dir = Some q \<longrightarrow> \<not> prefix k (fs_key q)}" for x
      using that(2) parent by (auto dest: append_prefixD)
  qed
  from run [unfolded swap] show ?thesis
  proof (cases rule: io_then_cases)
    case (fails e)
    then show ?thesis using keep by simp
  next
    case (goes_on x u)
    note same = keep [OF goes_on(1)]
    from goes_on(2) obtain found u1 where stat: "io_stat dir u = (found, u1)" and go: "io_then
        (if \<not> isl found then io_context (''move old mirror to '' @ backup_dir dir nanos)
             (io_rename dir (backup_dir dir nanos)) else io_return ()) (\<lambda>_.
      activate (\<not> isl found)) u1 = (r, v)"
      by (rule io_match_cases)
    have u1: "world_fs u1 = world_fs u" using readsD(1) [OF reads_simple(1) stat] .
    show ?thesis
    proof (cases "isl found")
      case True
      then have "activate False u1 = (r, v)" using go by (simp add: io_then_def io_return_def)
      from swap_renames [OF this [unfolded activate_def] places] show ?thesis
        using u1 same by auto
    next
      case False
      have neq: "?d \<noteq> ?b" "apart ?d ?b" "apart ?s ?d" "apart ?s ?b"
        using places by (auto simp: places_ok_def apart_def)
      from go False have "io_then (io_context (''move old mirror to '' @ backup_dir dir nanos)
             (io_rename dir (backup_dir dir nanos))) (\<lambda>_. activate True) u1 = (r, v)" by simp
      then show ?thesis
      proof (cases rule: io_then_cases)
        case (fails e)
        from fails(1) obtain t where t: "io_rename dir (backup_dir dir nanos) u1 = (t, v)" "isl t"
          by (cases "io_rename dir (backup_dir dir nanos) u1"; cases "fst (io_rename dir (backup_dir dir nanos) u1)")
            (auto simp: io_map_err_def)
        then obtain e' where "t = Inl e'" by (cases t) simp_all
        from t(1) neq(1) this have "world_fs v = world_fs u1" by (cases rule: io_rename_cases) auto
        then show ?thesis using fails(2) u1 same by simp
      next
        case (goes_on y u2)
        then have "io_rename dir (backup_dir dir nanos) u1 = (Inr y, u2)" by (simp add: io_map_err_Inr)
        from this neq(1) have "world_fs u2 = move_tree ?d ?b (world_fs u1)" by (cases rule: io_rename_cases) auto
        then have moved: "subtree (world_fs u2) ?b = subtree (world_fs w) ?d"
            "subtree (world_fs u2) ?d = (\<lambda>_. None)" "subtree (world_fs u2) ?s = subtree (world_fs w) ?s"
          using subtree_move [of ?d ?b] neq places u1 same by (auto simp: places_ok_def)
        from swap_renames [OF goes_on(2) [unfolded activate_def] places] show ?thesis using moved by auto
      qed
    qed
  qed
qed


lemma with_extension_segment:
  assumes "CHR ''/'' \<notin> set i" and "CHR ''.'' \<notin> set i" and "root \<noteq> []" and "i \<noteq> []"
  shows "with_extension (join_path root i) ext = join_path root (i @ ''.'' @ ext)"
proof -
  obtain q where q: "join_path root s = q @ CHR ''/'' # s" if "\<not> is_absolute s" for s
  proof (cases "ends_with root ''/''")
    case True
    then obtain q where "root = q @ ''/''" by (auto simp: suffix_def)
    then show thesis using that [of q] True by (simp add: join_path_def)
  next
    case False
    then show thesis using that [of root] assms(3) by (simp add: join_path_def)
  qed
  have rel: "\<not> is_absolute i" "\<not> is_absolute (i @ ''.'' @ ext)"
    using assms(1,4) segment_relative by (cases i; simp add: is_absolute_def)+
  have segs: "split_on CHR ''/'' (join_path root i) = split_on CHR ''/'' q @ [i]"
    unfolding q [OF rel(1)] split_on_append_sep using split_on_single [OF assms(1)] by simp
  have "rsplit_once CHR ''.'' i = None" using assms(2) by (simp add: rsplit_once_None)
  then have "with_extension (join_path root i) ext = join_with ''/'' (split_on CHR ''/'' q @ [i @ ''.'' @ ext])"
    by (simp add: with_extension_def segs Let_def)
  also have "\<dots> = q @ ''/'' @ (i @ ''.'' @ ext)" by (rule join_split_snoc)
  finally show ?thesis using q [OF rel(2)] by simp
qed

lemma backup_dir_key:
  assumes "root \<noteq> []" and "origin_dir root i = Inr dir"
  shows "fs_key (backup_dir dir nanos) = fs_key root @ [Normal (i @ ''.rendermesh-backup-'' @ show_nat nanos)]"
proof -
  have v: "validate_origin_id i = Inr ()" "dir = join_path root i" using assms(2) by (auto simp: origin_dir_Inr)
  note i = valid_origin_id_no_sep [OF v(1)]
  have "CHR ''/'' \<notin> set (show_nat nanos)" using show_nat_digits [of nanos] by auto
  then have "segment_ok (i @ ''.rendermesh-backup-'' @ show_nat nanos)" using i by (auto simp: segment_ok_def)
  moreover have "backup_dir dir nanos = join_path root (i @ ''.rendermesh-backup-'' @ show_nat nanos)"
    using with_extension_segment [of i root] i assms(1) v(2) by (simp add: backup_dir_def)
  ultimately show ?thesis by (simp add: fs_key_join)
qed

lemma swap_places:
  assumes "root \<noteq> []" and "origin_dir root i = Inr dir" and "staging_dir root j pid nanos = Inr staging"
  shows "places_ok (fs_key dir) (fs_key staging) (fs_key (backup_dir dir n))"
    and "path_parent dir = Some q \<Longrightarrow>
      \<not> prefix (fs_key dir) (fs_key q) \<and> \<not> prefix (fs_key staging) (fs_key q) \<and>
      \<not> prefix (fs_key (backup_dir dir n)) (fs_key q)"
proof -
  note d = origin_dir_key [OF assms(1,2)] and s = staging_dir_key [OF assms(1,3)]
    and b = backup_dir_key [OF assms(1,2), of n]
  have i: "CHR ''.'' \<notin> set i" "i \<noteq> []" using valid_origin_id_no_sep [OF d(4)] by simp_all
  then have "i @ ''.rendermesh-backup-'' @ show_nat n \<noteq> ''.rendermesh-sync''"
    by (cases i) auto
  then show "places_ok (fs_key dir) (fs_key staging) (fs_key (backup_dir dir n))"
    using d s b by (simp add: places_ok_def apart_def)
  assume q: "path_parent dir = Some q"
  have "path_components dir = path_components root @ [Normal i]" using origin_dir_components [OF assms(1,2)] by simp
  then have "fs_key q = fs_key root" using path_components_parent [OF q] by (simp add: fs_key_def)
  then show "\<not> prefix (fs_key dir) (fs_key q) \<and> \<not> prefix (fs_key staging) (fs_key q) \<and>
      \<not> prefix (fs_key (backup_dir dir n)) (fs_key q)"
    unfolding d s b by (auto dest: prefix_length_le)
qed

section \<open>What is written\<close>

lemma canonical_names:
  assumes "canonical_key key"
  shows "key_names key \<noteq> []" and "hd (key_names key) \<noteq> METADATA_DIR_NAME"
    and "\<not> in_metadata base (fs_key base @ map Normal (key_names key))"
proof -
  have key: "join_with ''/'' (key_names key) = key" "accepted_key key"
    using canonical_key_names assms by (auto simp: canonical_key_def)
  show 1: "key_names key \<noteq> []" using key by (auto simp: accepted_key_def)
  show 2: "hd (key_names key) \<noteq> METADATA_DIR_NAME"
  proof
    assume "hd (key_names key) = METADATA_DIR_NAME"
    then have "key_names key = METADATA_DIR_NAME # tl (key_names key)" using 1 by (metis list.collapse)
    then have "reserved_key key" using reserved_join key(1) by metis
    then show False using key(2) by (simp add: accepted_key_def)
  qed
  show "\<not> in_metadata base (fs_key base @ map Normal (key_names key))"
    using 1 2 by (cases "key_names key") (auto simp: in_metadata_def)
qed

lemma canonical_names_inject:
  "canonical_key j \<Longrightarrow> canonical_key k \<Longrightarrow> map Normal (key_names j) = map Normal (key_names k) \<Longrightarrow> j = k"
  using canonical_key_names by (metis inj_map_eq_map inj_def component.inject)

definition object_place :: "pathbuf \<Rightarrow> string \<Rightarrow> fs_key" where
  "object_place dir key = fs_key dir @ map Normal (key_names key)"

lemma sync_object_key: "dir \<noteq> [] \<Longrightarrow> sync_object_path dir key = Inr p \<Longrightarrow> fs_key p = object_place dir key"
  using sync_path_components by (simp add: fs_key_def object_place_def)

lemma nodes_lift_then:
  "(\<And>x. r = Inr x \<Longrightarrow> keeps_nodes K (f x)) \<Longrightarrow> keeps_nodes K (io_then (io_lift r) f)"
  by (cases r) (auto simp: keeps_nodes_def io_then_def io_lift_def)

lemma nodes_parent:
  "keeps_nodes K (case path_parent p of Some parent \<Rightarrow> io_map_err (c parent) (io_create_dir_all parent) | None \<Rightarrow> io_return ())"
  by (auto intro!: nodes_intros split: option.split)

lemma nodes_write: "fs_key p \<notin> K \<Longrightarrow> keeps_nodes K (io_write p content)"
  by (intro keeps_nodes_keeps keeps_intros)

lemma nodes_write_object:
  assumes "dir \<noteq> []" and "\<And>k. codec_sha256 codec k \<noteq> []"
  shows "keeps_nodes {k. k \<noteq> object_place dir (obj_key object) \<and> \<not> in_metadata dir k} (write_object codec dir object)"
  unfolding write_object_def Let_def
  by (intro nodes_lift_then nodes_then nodes_simple nodes_parent nodes_map_err nodes_write)
    (auto simp: normalize_remote_key_Inr sync_object_key [OF assms(1)] in_metadata_def
      dest: sidecar_fs_key(2) [OF assms(1) _ assms(2)])

lemma write_object_Inr:
  assumes "write_object codec dir object w = (Inr u, v)" and "dir \<noteq> []" and "\<And>k. codec_sha256 codec k \<noteq> []"
    and "canonical_key (obj_key object)"
  shows "fs_lookup (world_fs v) (object_place dir (obj_key object)) = Some (FileNode (obj_body object))"
proof -
  from assms(1) obtain p sidecar content w1 w2 w3 w4 where
      p: "sync_object_path dir (obj_key object) = Inr p"
      and wrote: "io_write p (obj_body object) w1 = (Inr (), w2)"
      and sidecar: "metadata_sidecar_path (codec_sha256 codec) dir (obj_key object) = Inr sidecar"
      and parent: "(case path_parent sidecar of
          Some parent \<Rightarrow> io_context (''create metadata parent '' @ parent) (io_create_dir_all parent)
        | None \<Rightarrow> io_return ()) w2 = (Inr (), w3)"
      and meta: "io_write sidecar content w3 = (Inr (), v)"
    unfolding write_object_def Let_def
    by (auto simp: io_then_Inr io_lift_def io_map_err_Inr normalize_remote_key_Inr)
  have place: "fs_key p = object_place dir (obj_key object)" using sync_object_key [OF assms(2) p] .
  have "fs_lookup (world_fs w2) (fs_key p) = Some (FileNode (obj_body object))" using io_write_Inr [OF wrote] .
  then have "fs_lookup (world_fs w3) (fs_key p) = Some (FileNode (obj_body object))"
    using keeps_nodesD [OF nodes_parent [of UNIV] parent] by simp
  moreover have "fs_key p \<noteq> fs_key sidecar"
    using canonical_names(3) [OF assms(4), of dir] sidecar_fs_key(2) [OF assms(2) sidecar assms(3)]
    unfolding place object_place_def in_metadata_def by metis
  ultimately have "fs_lookup (world_fs v) (fs_key p) = Some (FileNode (obj_body object))"
    using keepsD [OF keeps_write [of sidecar "- {fs_key sidecar}"] meta] by simp
  then show ?thesis using place by simp
qed

text \<open>A download that agrees with what was listed, made while the file system had a property.\<close>

definition downloaded_when ::
    "(filesystem \<Rightarrow> bool) \<Rightarrow> remote_storage \<Rightarrow> origin_freshness_index \<Rightarrow> string \<Rightarrow> remote_object \<Rightarrow> bool" where
  "downloaded_when P storage index key object \<longleftrightarrow>
     (\<exists>w v state. P (world_fs w) \<and> get_object storage key w = (Inr object, v) \<and>
        bt_get (index_files index) key = Some state \<and> validate_downloaded_object key state object = Inr ())"

definition downloaded_as ::
    "remote_storage \<Rightarrow> origin_freshness_index \<Rightarrow> string \<Rightarrow> remote_object \<Rightarrow> bool" where
  "downloaded_as = downloaded_when (\<lambda>_. True)"

lemma downloaded_whenD: "downloaded_when P storage index key object \<Longrightarrow> downloaded_as storage index key object"
  by (auto simp: downloaded_when_def downloaded_as_def)

text \<open>Outside a staging directory nothing is different.\<close>

definition same_outside :: "pathbuf \<Rightarrow> filesystem \<Rightarrow> filesystem \<Rightarrow> bool" where
  "same_outside staging fs0 fs \<longleftrightarrow> (\<forall>k \<in> outside staging. fs_lookup fs k = fs_lookup fs0 k)"

lemma same_outside_refl [simp]: "same_outside staging fs fs"
  by (simp add: same_outside_def)

lemma same_outside_step:
  "keeps (outside staging) m \<Longrightarrow> m w = (r, v) \<Longrightarrow> same_outside staging fs0 (world_fs w) \<Longrightarrow> same_outside staging fs0 (world_fs v)"
  using keepsD by (fastforce simp: same_outside_def)

lemma validated_key: "validate_downloaded_object key state object = Inr () \<Longrightarrow> obj_key object = key"
  by (auto simp: validate_downloaded_object_def result_simps normalize_remote_key_Inr)

lemma nodes_download:
  assumes "remote_only storage" and "dir \<noteq> []" and "\<And>k. codec_sha256 codec k \<noteq> []"
  shows "keeps_nodes {k. (\<forall>key \<in> set keys. k \<noteq> object_place dir key) \<and> \<not> in_metadata dir k}
    (download_changed codec storage dir index keys n)"
proof (induction keys arbitrary: n)
  case Nil
  then show ?case by (simp add: nodes_simple)
next
  case (Cons key keys)
  let ?K = "{k. (\<forall>key \<in> set (key # keys). k \<noteq> object_place dir key) \<and> \<not> in_metadata dir k}"
  have "keeps_nodes ?K (write_object codec dir object)"
    if "validate_downloaded_object key state object = Inr ()" for state object
    using nodes_write_object [OF assms(2,3), of object] validated_key [OF that]
    unfolding keeps_nodes_def by simp
  moreover have "keeps_nodes ?K (download_changed codec storage dir index keys n)" for n
    using Cons [of n] unfolding keeps_nodes_def by simp
  ultimately show ?case
    by (auto intro!: nodes_then nodes_lift_then keeps_nodes_keeps [OF remote_keeps(2) [OF assms(1)]])
qed

lemma download_changed_Inr:
  "download_changed codec storage dir index keys n w = (Inr m, v) \<Longrightarrow> remote_only storage \<Longrightarrow> dir \<noteq> [] \<Longrightarrow>
   (\<And>k. codec_sha256 codec k \<noteq> []) \<Longrightarrow> \<forall>key \<in> set keys. canonical_key key \<Longrightarrow>
   same_outside dir fs0 (world_fs w) \<Longrightarrow>
   m = n + length keys \<and>
   (\<forall>key \<in> set keys. \<exists>object. downloaded_when (same_outside dir fs0) storage index key object \<and>
      fs_lookup (world_fs v) (object_place dir key) = Some (FileNode (obj_body object)))"
proof (induction keys arbitrary: n w)
  case Nil
  then show ?case by (simp add: io_return_def)
next
  case (Cons key keys)
  from Cons.prems(1) obtain object state w1 w2 where
      got: "get_object storage key w = (Inr object, w1)"
      and state: "bt_get (index_files index) key = Some state"
      and valid: "validate_downloaded_object key state object = Inr ()"
      and wrote: "write_object codec dir object w1 = (Inr (), w2)"
      and rest: "download_changed codec storage dir index keys (Suc n) w2 = (Inr m, v)"
    by (auto simp: io_then_Inr io_lift_def ok_or_Inr)
  have later: "same_outside dir fs0 (world_fs w2)"
    using same_outside_step [OF outside_write_object [OF Cons.prems(3,4)] wrote]
      same_outside_step [OF remote_keeps(2) [OF Cons.prems(2)] got Cons.prems(6)] by blast
  have IH: "m = Suc n + length keys" "\<forall>key \<in> set keys. \<exists>object. downloaded_when (same_outside dir fs0) storage index key object \<and>
      fs_lookup (world_fs v) (object_place dir key) = Some (FileNode (obj_body object))"
    using Cons.IH [OF rest Cons.prems(2-4)] Cons.prems(5) later by auto
  have here: "downloaded_when (same_outside dir fs0) storage index key object" using got state valid Cons.prems(6) by (auto simp: downloaded_when_def)
  have key: "canonical_key key" "obj_key object = key" using Cons.prems(5) validated_key [OF valid] by simp_all
  have file_w2: "fs_lookup (world_fs w2) (object_place dir key) = Some (FileNode (obj_body object))"
    using write_object_Inr [OF wrote Cons.prems(3,4)] key by simp
  have "\<exists>object. downloaded_when (same_outside dir fs0) storage index key object \<and>
      fs_lookup (world_fs v) (object_place dir key) = Some (FileNode (obj_body object))"
  proof (cases "key \<in> set keys")
    case True
    then show ?thesis using IH(2) by blast
  next
    case False
    have "object_place dir key \<noteq> object_place dir k" if "k \<in> set keys" for k
      using canonical_names_inject [OF key(1), of k] Cons.prems(5) that False by (auto simp: object_place_def)
    then have "fs_lookup (world_fs v) (object_place dir key) = Some (FileNode (obj_body object))"
      using keeps_nodesD [OF nodes_download [OF Cons.prems(2-4)] rest _ file_w2] canonical_names(3) [OF key(1)]
      by (simp add: object_place_def)
    then show ?thesis using here by blast
  qed
  then show ?case using IH by simp
qed


text \<open>After the removals every file the mirror can reach is listed, and the listed ones are untouched.\<close>

lemma remove_deleted_Inr:
  assumes "remove_deleted_objects codec base keys w = (Inr u, v)" and "base \<noteq> []" and "fs_ok (world_fs w)"
    and "reachable_from (world_fs v) (fs_key base) k" and "is_file (world_fs v) k"
  shows "\<not> unlisted keys base k"
proof
  assume un: "unlisted keys base k"
  then have "prefix (fs_key base) k" by (auto simp: unlisted_def)
  moreover have "base \<noteq> [] \<and> (\<exists>names. below_path base base names)" using assms(2) below_path_refl by blast
  ultimately have "\<not> removal_todo keys base (world_fs v) k"
    using removal_walk.walk_dirs_sweeps [of codec keys base base "()" w u v] assms
    by (simp add: remove_deleted_objects_def)
  then show False using un assms(5) by (simp add: removal_todo_def)
qed

lemma object_place_listed:
  assumes "canonical_key key" and "key \<in> set keys"
  shows "\<not> unlisted keys dir (object_place dir key)" and "\<not> in_metadata dir (object_place dir key)"
proof -
  show "\<not> in_metadata dir (object_place dir key)"
    using canonical_names(3) [OF assms(1)] by (simp add: object_place_def)
  show "\<not> unlisted keys dir (object_place dir key)"
  proof
    assume "unlisted keys dir (object_place dir key)"
    then obtain names where "map Normal names = map Normal (key_names key)" "join_with ''/'' names \<notin> set keys"
      by (auto simp: unlisted_def object_place_def)
    then show False using canonical_key_names [OF assms(1)] assms(2)
      by (metis inj_map_eq_map inj_def component.inject)
  qed
qed

lemma shrinks_remove_deleted: "shrinks (remove_deleted_objects codec base keys)"
  unfolding remove_deleted_objects_def by (rule shrinks_walk_dirs) (rule shrinks_intros)

lemma shrinks_remove_orphans: "shrinks (remove_orphan_metadata_sidecars codec base keys)"
  unfolding remove_orphan_metadata_sidecars_def
  by (intro shrinks_intros shrinks_walk_dirs)

lemma shrinks_reachable:
  "shrinks m \<Longrightarrow> m w = (r, v) \<Longrightarrow> reachable_from (world_fs v) j k \<Longrightarrow> reachable_from (world_fs w) j k"
  using shrinks_Some unfolding reachable_from_def is_dir_def by blast

lemma ok_write_object [ok_intros]: "io_ok (write_object codec dir object)"
  unfolding write_object_def Let_def by (auto intro!: ok_intros split: option.split)

lemma ok_download: "remote_only storage \<Longrightarrow> io_ok (download_changed codec storage dir index keys n)"
proof (induction keys arbitrary: n)
  case (Cons key keys)
  then show ?case by (auto intro!: ok_intros remote_ok)
qed (simp add: ok_intros)

lemma stage_origin_dir_Inr:
  assumes run: "stage_origin_dir codec storage now i dir previous w = (Inr (index, d, m), v)"
    and env: "remote_only storage" "dir \<noteq> []" "\<And>k. codec_sha256 codec k \<noteq> []" and ok: "fs_ok (world_fs w)"
    and canonical: "\<forall>key \<in> set (bt_keys (index_files index)). canonical_key key"
    and unmoved: "same_outside dir fs0 (world_fs w)"
  shows "d = diff_origin_indexes previous index"
    and "m = length (diff_changed_paths d)"
    and "\<forall>key \<in> set (diff_changed_paths d). \<exists>object. downloaded_when (same_outside dir fs0) storage index key object \<and>
      fs_lookup (world_fs v) (object_place dir key) = Some (FileNode (obj_body object))"
    and "\<forall>key \<in> set (bt_keys (index_files index)) - set (diff_changed_paths d). \<forall>node.
      fs_lookup (world_fs w) (object_place dir key) = Some node \<longrightarrow>
      fs_lookup (world_fs v) (object_place dir key) = Some node"
    and "\<forall>k. is_file (world_fs v) k \<and> reachable_from (world_fs v) (fs_key dir) k \<longrightarrow>
      \<not> unlisted (bt_keys (index_files index)) dir k"
proof -
  let ?keys = "bt_keys (index_files index)"
  from run obtain summaries w1 w2 w3 w4 where
      made: "io_create_dir_all dir w = (Inr (), w1)"
      and listed: "list_objects storage w1 = (Inr summaries, w2)"
      and built: "build_origin_index i summaries now = Inr index"
      and d: "d = diff_origin_indexes previous index"
      and down: "download_changed codec storage dir index (diff_changed_paths d) 0 w2 = (Inr m, w3)"
      and removed: "remove_deleted_objects codec dir ?keys w3 = (Inr (), w4)"
      and orphans: "remove_orphan_metadata_sidecars codec dir ?keys w4 = (Inr (), v)"
    unfolding stage_origin_dir_def Let_def
    by (auto simp: io_then_Inr io_lift_def io_map_err_Inr io_return_def)
  show "d = diff_origin_indexes previous index" by (rule d)
  have changed: "set (diff_changed_paths d) \<subseteq> set ?keys"
    using diff_changed_listed [OF build_origin_index_Inr(1) [OF built]] d by blast
  have w2: "world_fs w2 = world_fs w1" using env(1) listed unfolding remote_only_def by (metis snd_conv)
  have same2: "same_outside dir fs0 (world_fs w2)"
    using same_outside_step [OF outside_create made unmoved] w2 by simp
  have dl: "m = 0 + length (diff_changed_paths d) \<and>
     (\<forall>key \<in> set (diff_changed_paths d). \<exists>object. downloaded_when (same_outside dir fs0) storage index key object \<and>
        fs_lookup (world_fs w3) (object_place dir key) = Some (FileNode (obj_body object)))"
    by (rule download_changed_Inr [OF down env]) (use changed canonical same2 in auto)
  have ok3: "fs_ok (world_fs w3)"
    using io_okD [OF ok_download [OF env(1)] down] io_okD [OF io_ok_create_dir_all made ok] w2 by simp
  have kept: "fs_lookup (world_fs v) (object_place dir key) = fs_lookup (world_fs w3) (object_place dir key)"
    if "key \<in> set ?keys" for key
  proof -
    note place = object_place_listed [of key ?keys dir] canonical that
    have "fs_lookup (world_fs w4) (object_place dir key) = fs_lookup (world_fs w3) (object_place dir key)"
      using keepsD [OF keeps_remove_deleted_objects [OF env(2,3)] removed] place by simp
    moreover have "fs_lookup (world_fs v) (object_place dir key) = fs_lookup (world_fs w4) (object_place dir key)"
      using keepsD [OF keeps_remove_orphans [OF env(2)] orphans] place by simp
    ultimately show ?thesis by simp
  qed
  show "m = length (diff_changed_paths d)" using dl by simp
  show "\<forall>key \<in> set (diff_changed_paths d). \<exists>object. downloaded_when (same_outside dir fs0) storage index key object \<and>
      fs_lookup (world_fs v) (object_place dir key) = Some (FileNode (obj_body object))"
    using dl kept changed by (auto simp: subset_iff)
  show "\<forall>key \<in> set ?keys - set (diff_changed_paths d). \<forall>node.
      fs_lookup (world_fs w) (object_place dir key) = Some node \<longrightarrow>
      fs_lookup (world_fs v) (object_place dir key) = Some node"
  proof (intro ballI allI impI)
    fix key node
    assume key: "key \<in> set ?keys - set (diff_changed_paths d)" and before: "fs_lookup (world_fs w) (object_place dir key) = Some node"
    have "fs_lookup (world_fs w2) (object_place dir key) = Some node"
      using keeps_nodesD [OF nodes_create_dir_all [of UNIV] made _ before] w2 by simp
    moreover have "object_place dir key \<noteq> object_place dir k" if "k \<in> set (diff_changed_paths d)" for k
    proof
      assume "object_place dir key = object_place dir k"
      moreover have "canonical_key key" "canonical_key k" using canonical changed key that by blast+
      ultimately have "key = k" using canonical_names_inject [of key k] by (simp add: object_place_def)
      then show False using key that by simp
    qed
    moreover have "\<not> in_metadata dir (object_place dir key)"
      using canonical_names(3) [of key dir] canonical key unfolding object_place_def by blast
    ultimately have "fs_lookup (world_fs w3) (object_place dir key) = Some node"
      using keeps_nodesD [OF nodes_download [OF env] down, of "object_place dir key"] by blast
    then show "fs_lookup (world_fs v) (object_place dir key) = Some node" using kept key by simp
  qed
  show "\<forall>k. is_file (world_fs v) k \<and> reachable_from (world_fs v) (fs_key dir) k \<longrightarrow> \<not> unlisted ?keys dir k"
  proof (intro allI impI)
    fix k assume k: "is_file (world_fs v) k \<and> reachable_from (world_fs v) (fs_key dir) k"
    have "is_file (world_fs w4) k"
      using k shrinks_Some [OF shrinks_remove_orphans orphans, of k]
      by (auto simp: is_file_def split: option.splits fs_node.splits)
    then show "\<not> unlisted ?keys dir k"
      using remove_deleted_Inr [OF removed env(2) ok3] shrinks_reachable [OF shrinks_remove_orphans orphans] k by blast
  qed
qed

lemma ok_remove_dir: "io_ok (remove_dir_if_exists p)"
  unfolding remove_dir_if_exists_def by (auto intro!: ok_intros split: sum.split io_error.split)

lemma ok_prepare_staging: "io_ok (prepare_staging_dir dir staging)"
  unfolding prepare_staging_dir_def copy_dir_contents_def
  by (auto intro!: ok_intros ok_remove_dir split: sum.split)

section \<open>Staging and activating\<close>

lemma prepare_staging_Inr:
  assumes "prepare_staging_dir dir staging w = (Inr u, v)" and "calm w" and "fs_ok (world_fs w)"
    and "dir \<noteq> []" "staging \<noteq> []" and "apart (fs_key dir) (fs_key staging)"
    and body: "fs_lookup (world_fs w) (fs_key dir @ map Normal names) = Some (FileNode body)"
    and reach: "reachable_from (world_fs w) (fs_key dir) (fs_key dir @ map Normal names)" and "names \<noteq> []"
  shows "fs_lookup (world_fs v) (fs_key staging @ map Normal names) = Some (FileNode body)"
proof -
  let ?k = "fs_key dir @ map Normal names"
  have K: "j \<in> outside staging" if "prefix (fs_key dir) j" for j
    using apart_below [OF assms(6) that, of "fs_key staging"] by (simp add: outside_def)
  define go where "go = (\<lambda>r :: io_error + fs_node. case r of
         Inr _ \<Rightarrow> copy_dir_contents dir staging
       | Inl _ \<Rightarrow> io_context (''create staging mirror '' @ staging) (io_create_dir_all staging))"
  have model: "prepare_staging_dir dir staging =
      io_then (remove_dir_if_exists staging) (\<lambda>_. io_match (io_stat dir) go)"
    unfolding prepare_staging_dir_def go_def ..
  from assms(1) obtain w1 where cleared: "remove_dir_if_exists staging w = (Inr (), w1)"
      and "io_match (io_stat dir) go w1 = (Inr u, v)"
    unfolding model io_then_Inr by auto
  from this(2) obtain found w2 where stat: "io_stat dir w1 = (found, w2)" and copied: "go found w2 = (Inr u, v)"
    by (rule io_match_cases)
  have "calm w1" using assms(2) cleared
    by (auto simp: remove_dir_if_exists_def io_match_def io_remove_dir_all_def io_op_def calm_def io_return_def
        io_fail_def split: prod.splits sum.splits io_error.splits option.splits)
  have same: "fs_lookup (world_fs w1) j = fs_lookup (world_fs w) j" if "prefix (fs_key dir) j" for j
    using keepsD [OF outside_remove cleared K [OF that]] .
  have "is_dir (world_fs w) (fs_key dir)" using reachable_top [OF reach] \<open>names \<noteq> []\<close> by simp
  then have "fs_stat (world_fs w1) dir = Inr DirNode" using same [of "fs_key dir"] by (simp add: fs_stat_def is_dir_def)
  then have "found = Inr DirNode" "world_fs w2 = world_fs w1"
    using readsD(3) [OF reads_simple(1) stat \<open>calm w1\<close>] readsD(1) [OF reads_simple(1) stat] by simp_all
  with copied obtain w3 where made: "io_create_dir_all staging w2 = (Inr (), w3)"
      and walked: "walk_dirs copy_dir [(dir, staging)] () w3 = (Inr u, v)"
    unfolding copy_dir_contents_def go_def by (auto simp: io_then_Inr io_map_err_Inr)
  have ok: "fs_ok (world_fs w3)"
    using io_okD [OF io_ok_create_dir_all made] io_okD [OF ok_remove_dir cleared assms(3)]
      \<open>world_fs w2 = world_fs w1\<close> by simp
  have pair: "copy_pair dir staging (dir, staging)" using copy_pair_refl assms(4-6) by blast
  have v: "fs_lookup (world_fs v) j = fs_lookup (world_fs w) j" if j: "prefix (fs_key dir) j" for j
  proof -
    have "fs_lookup (world_fs w3) j = fs_lookup (world_fs w1) j"
      using keepsD [OF outside_create made K [OF j]] \<open>world_fs w2 = world_fs w1\<close> by simp
    moreover have "fs_lookup (world_fs v) j = fs_lookup (world_fs w3) j"
      using keepsD [OF keeps_copy_walk [OF pair] walked] K [OF j] by (simp add: outside_def)
    ultimately show ?thesis using same [OF j] by simp
  qed
  have "reachable_from (world_fs v) (fs_key dir) ?k"
    unfolding reachable_from_def
  proof (intro allI impI)
    fix n assume n: "length (fs_key dir) \<le> n \<and> n < length ?k"
    then have "prefix (fs_key dir) (take n ?k)" by simp
    then show "is_dir (world_fs v) (take n ?k)" using v reach n unfolding reachable_from_def is_dir_def by metis
  qed
  then have "\<not> copy_todo dir staging (world_fs v) ?k"
    using copy_walk.walk_dirs_sweeps [OF walked _ pair ok, of ?k] by simp
  then show ?thesis using v [of ?k] body by (auto simp: copy_todo_def is_file_def)
qed

lemma or_remove_cases:
  assumes "or_remove staging m w = (r, v)"
  obtains (good) x where "m w = (Inr x, v)" and "r = Inr x"
  | (bad) e u where "m w = (Inl e, u)" and "isl r" and "\<And>k. apart k (fs_key staging) \<Longrightarrow> subtree (world_fs v) k = subtree (world_fs u) k"
proof -
  from assms obtain s u where m: "m w = (s, u)" and go: "(case s of
         Inr x \<Rightarrow> io_return x
       | Inl e \<Rightarrow> io_then (remove_dir_if_exists staging) (\<lambda>_. io_fail e)) u = (r, v)"
    unfolding or_remove_def by (rule io_match_cases)
  show thesis
  proof (cases s)
    case (Inr x)
    then show thesis using good m go by (simp add: io_return_def)
  next
    case (Inl e)
    obtain t v' where removed: "remove_dir_if_exists staging u = (t, v')" by (cases "remove_dir_if_exists staging u")
    then have "v' = v" "isl r" using go Inl by (cases t; auto simp: io_then_def io_fail_def)+
    then show thesis using bad m Inl subtree_remove removed by blast
  qed
qed

section \<open>What stays\<close>

text \<open>Well-formed file systems stay so.\<close>

lemma ok_or_remove [ok_intros]: "io_ok m \<Longrightarrow> io_ok (or_remove staging m)"
  unfolding or_remove_def by (auto intro!: ok_intros ok_remove_dir split: sum.split)

lemma ok_parent [ok_intros]:
  "io_ok (case q of Some parent \<Rightarrow> io_map_err (c parent) (io_create_dir_all parent) | None \<Rightarrow> io_return ())"
  by (auto intro!: ok_intros split: option.split)

lemma ok_remove_deleted [ok_intros]: "io_ok (remove_deleted_objects codec dir keys)"
  unfolding remove_deleted_objects_def by (intro io_ok_walk_dirs ok_intros)

lemma ok_remove_orphans [ok_intros]: "io_ok (remove_orphan_metadata_sidecars codec dir keys)"
  unfolding remove_orphan_metadata_sidecars_def by (intro io_ok_walk_dirs ok_intros)

lemma ok_stage_origin_sync:
  assumes "remote_only storage"
  shows "io_ok (stage_origin_sync codec storage root pid nanos now i previous)"
  using ok_download [OF assms] remote_ok [OF assms] unfolding stage_origin_sync_def stage_origin_dir_def Let_def
  by (auto intro!: ok_intros ok_prepare_staging split: prod.split)

lemma ok_activate: "io_ok (activate_staged_origin root nanos staged)"
  unfolding activate_staged_origin_def swap_origin_dir_def Let_def
  by (auto intro!: ok_intros ok_remove_dir split: sum.split)

text \<open>A directory stays when objects are written and removed.\<close>

lemma dir_stays [preserves_intros]:
  "preserves (\<lambda>w. is_dir (world_fs w) k) (io_write p content)"
  "preserves (\<lambda>w. is_dir (world_fs w) k) (io_remove_file p)"
  "preserves (\<lambda>w. is_dir (world_fs w) k) (io_create_dir_all p)"
  "preserves (\<lambda>w. is_dir (world_fs w) k) (io_read_dir p)"
  "preserves (\<lambda>w. is_dir (world_fs w) k) io_next_entry" "preserves (\<lambda>w. is_dir (world_fs w) k) io_file_type"
proof -
  have written: "is_dir fs k \<Longrightarrow> is_dir (snd (fs_write p content fs)) k" for content fs
    by (auto simp: fs_write_def Let_def is_dir_def fs_lookup_put split: option.split fs_node.split)
  then show "preserves (\<lambda>w. is_dir (world_fs w) k) (io_write p content)"
    by (auto simp: preserves_def io_write_def io_op_def split: option.split prod.split) (metis snd_conv)
  have removing: "is_dir fs k \<Longrightarrow> is_dir (snd (fs_remove_file p fs)) k" for fs
    by (auto simp: fs_remove_file_def fs_stat_def is_dir_def fs_lookup_delete split: option.splits fs_node.splits sum.split if_splits)
  then show "preserves (\<lambda>w. is_dir (world_fs w) k) (io_remove_file p)"
    by (auto simp: preserves_def io_remove_file_def io_op_def split: option.split prod.split) (metis snd_conv)
  show "preserves (\<lambda>w. is_dir (world_fs w) k) (io_create_dir_all p)"
    using nodes_create_dir_all [of UNIV p] by (simp add: keeps_nodes_def preserves_def is_dir_def)
qed (auto simp: preserves_def io_read_dir_def io_next_entry_def io_file_type_def io_op_def split: option.split prod.split)

lemma dir_stays_write_object: "preserves (\<lambda>w. is_dir (world_fs w) k) (write_object codec dir object)"
  unfolding write_object_def Let_def by (auto intro!: preserves_intros split: option.split)

lemma dir_stays_download:
  "remote_only storage \<Longrightarrow> preserves (\<lambda>w. is_dir (world_fs w) k) (download_changed codec storage dir index keys n)"
proof (induction keys arbitrary: n)
  case (Cons key keys)
  then have "preserves (\<lambda>w. is_dir (world_fs w) k) (get_object storage key)" by (simp add: remote_only_def preserves_def)
  with Cons show ?case by (auto intro!: preserves_intros dir_stays_write_object)
qed (simp add: preserves_intros)

lemma dir_stays_removals:
  "preserves (\<lambda>w. is_dir (world_fs w) k) (removal_entries codec keys base dir entries pushed)"
  "preserves (\<lambda>w. is_dir (world_fs w) k) (orphan_entries expected dir entries pushed)"
proof -
  show "preserves (\<lambda>w. is_dir (world_fs w) k) (removal_entries codec keys base dir entries pushed)"
  proof (induction codec keys base dir entries pushed rule: removal_entries.induct)
    case (2 codec keys base dir name node entries pushed)
    then show ?case by (cases node) (auto simp: Let_def intro!: preserves_intros split: sum.split io_error.split)
  qed (auto intro!: preserves_intros)
  show "preserves (\<lambda>w. is_dir (world_fs w) k) (orphan_entries expected dir entries pushed)"
  proof (induction expected dir entries pushed rule: orphan_entries.induct)
    case (2 expected dir name node entries pushed)
    then show ?case by (cases node) (auto simp: Let_def intro!: preserves_intros)
  qed (auto intro!: preserves_intros)
qed

lemma create_dir_all_makes:
  assumes "io_create_dir_all p w = (Inr (), v)"
  shows "is_dir (world_fs v) (fs_key p)"
proof -
  have "fs_create_dir_all p (world_fs w) = (Inr (), world_fs v)"
    using assms by (auto simp: io_create_dir_all_def io_op_def split: option.splits prod.splits)
  then show ?thesis
  proof (cases "fs_lookup (world_fs w) (fs_key p)")
    case None
    then have "fs_key p \<noteq> []" "fs_key p \<noteq> [RootDir]" by (auto simp: fs_lookup_def)
    moreover have "fs_key p \<in> set (missing_dirs (world_fs w) (fs_key p))"
      unfolding missing_dirs_mem using None \<open>fs_key p \<noteq> []\<close> by (intro conjI exI [of _ "length (fs_key p)"]) (auto simp: Suc_le_eq)
    moreover have "world_fs v = foldl (\<lambda>fs j. fs_put j DirNode fs) (world_fs w) (missing_dirs (world_fs w) (fs_key p))"
      using \<open>fs_create_dir_all p (world_fs w) = _\<close> None by (auto simp: fs_create_dir_all_def Let_def split: if_splits)
    ultimately show ?thesis by (simp add: is_dir_def fs_lookup_put_dirs)
  qed (auto simp: fs_create_dir_all_def Let_def is_dir_def split: fs_node.splits)
qed

lemma staging_is_dir:
  assumes "stage_origin_dir codec storage now i dir previous w = (Inr r, v)" and "remote_only storage"
  shows "is_dir (world_fs v) (fs_key dir)"
proof -
  let ?P = "\<lambda>w. is_dir (world_fs w) (fs_key dir)"
  have listed: "preserves ?P (list_objects storage)" using assms(2) by (simp add: remote_only_def preserves_def)
  have removed: "preserves ?P (remove_deleted_objects codec dir keys)" "preserves ?P (remove_orphan_metadata_sidecars codec dir keys)" for keys
    unfolding remove_deleted_objects_def remove_orphan_metadata_sidecars_def removal_dir_def orphan_dir_def
    by (auto intro!: preserves_intros preserves_walk_dirs dir_stays_removals split: sum.split io_error.split)
  from assms(1) obtain summaries index d m w1 w2 w3 w4 where made: "io_create_dir_all dir w = (Inr (), w1)"
      and steps: "list_objects storage w1 = (Inr summaries, w2)" "download_changed codec storage dir index d 0 w2 = (Inr m, w3)"
        "remove_deleted_objects codec dir (bt_keys (index_files index)) w3 = (Inr (), w4)"
        "remove_orphan_metadata_sidecars codec dir (bt_keys (index_files index)) w4 = (Inr (), v)"
    unfolding stage_origin_dir_def Let_def by (auto simp: io_then_Inr io_lift_def io_map_err_Inr io_return_def)
  note kept = preservesD [where I = ?P, OF listed steps(1)] preservesD [where I = ?P, OF dir_stays_download [OF assms(2)] steps(2)]
    preservesD [where I = ?P, OF removed(1) steps(3)] preservesD [where I = ?P, OF removed(2) steps(4)]
  show ?thesis using create_dir_all_makes [OF made] kept by blast
qed

lemma stage_origin_sync_is_dir:
  assumes "stage_origin_sync codec storage root pid nanos now i previous w = (Inr staged, v)" and "remote_only storage"
  shows "is_dir (world_fs v) (fs_key (staged_dir staged))"
proof -
  from assms(1) obtain w1 where
      "or_remove (staged_dir staged) (stage_origin_dir codec storage now i (staged_dir staged) previous) w1 =
        (Inr (staged_index staged, staged_diff staged, staged_downloaded staged), v)"
    unfolding stage_origin_sync_def by (auto simp: io_then_Inr io_lift_def io_return_def)
  then have "stage_origin_dir codec storage now i (staged_dir staged) previous w1 =
      (Inr (staged_index staged, staged_diff staged, staged_downloaded staged), v)"
    by (cases rule: or_remove_cases) auto
  then show ?thesis using staging_is_dir assms(2) by blast
qed

section \<open>A small example\<close>

definition example_codec :: sidecar_codec where
  "example_codec = \<lparr>codec_sha256 = (\<lambda>_. ''h''), codec_parse = (\<lambda>_. Inr default_metadata),
     codec_encode = (\<lambda>_. Inr ''{}'')\<rparr>"

text \<open>A storage that lists one object.\<close>

definition example_remote :: "string \<Rightarrow> remote_storage" where
  "example_remote key = \<lparr>list_objects = io_return [\<lparr>sum_key = key, sum_created_at = None, sum_last_modified = None,
      sum_size = 1, sum_etag = Some ''e'', sum_content_type = None, sum_cache_control = None\<rparr>],
    get_object = (\<lambda>_. io_return \<lparr>obj_key = key, obj_body = ''x'', obj_etag = Some ''e'', obj_last_modified = None,
      obj_content_type = None, obj_cache_control = None\<rparr>)\<rparr>"

lemma example_remote_facts: "remote_only (example_remote key)" "codec_sha256 example_codec k \<noteq> []"
  by (simp_all add: remote_only_def example_remote_def io_return_def example_codec_def)

text \<open>The mirror of an origin with one file, and a world in which one step fails.\<close>

definition example_mirror :: filesystem where
  "example_mirror = [([Normal ''m''], DirNode), ([Normal ''m'', Normal ''w''], DirNode),
     ([Normal ''m'', Normal ''w'', Normal ''a''], FileNode ''x'')]"

definition failing_at :: "nat \<Rightarrow> filesystem \<Rightarrow> world" where
  "failing_at n fs = \<lparr>world_fs = fs, world_step = 0,
     world_faults = (\<lambda>k. if k = n then Some (''Input/output error (os error 5)'', 0) else None)\<rparr>"

definition example_index :: "origin_freshness_index option" where
  "example_index = (case list_objects (example_remote ''a'') (world_on []) of
     (Inr summaries, _) \<Rightarrow> result_ok (build_origin_index ''w'' summaries ''t'') | _ \<Rightarrow> None)"

definition example_stage :: "world \<Rightarrow> (anyhow + staged_origin_sync) \<times> world" where
  "example_stage = stage_origin_sync example_codec (example_remote ''a'') ''m'' 1 2 ''t'' ''w'' example_index"

definition example_staged :: staged_origin_sync where
  "example_staged = \<lparr>staged_origin_id = ''w'', staged_dir = ''m/.rendermesh-sync/w-1-2'',
     staged_index = \<lparr>index_origin_id = ''w'', index_captured_at = ''t'', index_files = []\<rparr>,
     staged_diff = empty_diff, staged_downloaded = 0\<rparr>"

definition example_staged_tree :: filesystem where
  "example_staged_tree = example_mirror @
     [([Normal ''m'', Normal ''.rendermesh-sync''], DirNode),
      ([Normal ''m'', Normal ''.rendermesh-sync'', Normal ''w-1-2''], DirNode),
      ([Normal ''m'', Normal ''.rendermesh-sync'', Normal ''w-1-2'', Normal ''b''], FileNode ''y'')]"

lemma example_dirs:
  "origin_dir ''m'' ''w'' = Inr ''m/w''"
  "staging_dir ''m'' ''w'' 1 2 = Inr ''m/.rendermesh-sync/w-1-2''"
  by code_simp+

lemma activation_cases:
  assumes "activate_staged_origin root nanos staged w = (r, v)" and "root \<noteq> []"
    and "origin_dir root (staged_origin_id staged) = Inr dir"
    and "staging_dir root (staged_origin_id staged) pid n = Inr (staged_dir staged)"
  shows "subtree (world_fs v) (fs_key dir) = subtree (world_fs w) (fs_key (staged_dir staged)) \<or>
    isl r \<and> subtree (world_fs v) (fs_key dir) = subtree (world_fs w) (fs_key dir) \<or>
    isl r \<and> subtree (world_fs v) (fs_key dir) = (\<lambda>_. None) \<and>
      subtree (world_fs v) (fs_key (backup_dir dir nanos)) = subtree (world_fs w) (fs_key dir)"
proof -
  note places = swap_places [where n = nanos, OF assms(2,3,4)]
  have far: "apart (fs_key dir) (fs_key (staged_dir staged))"
      "apart (fs_key (backup_dir dir nanos)) (fs_key (staged_dir staged))"
    using places(1) by (auto simp: places_ok_def apart_sym)
  from assms(1,3) have "or_remove (staged_dir staged) (swap_origin_dir dir (staged_dir staged) nanos) w = (r, v)"
    by (simp add: activate_staged_origin_def io_then_def io_lift_def)
  then show ?thesis
  proof (cases rule: or_remove_cases)
    case (good x)
    then show ?thesis using swap_origin_dir_cases [OF good(1) places] by auto
  next
    case (bad e u)
    then show ?thesis using swap_origin_dir_cases [OF bad(1) places] bad(3) far by auto
  qed
qed

lemma keeps_swap:
  assumes "places_ok (fs_key dir) (fs_key staging) (fs_key (backup_dir dir nanos))"
  shows "keeps {k. apart k (fs_key dir) \<and> apart k (fs_key staging) \<and> apart k (fs_key (backup_dir dir nanos)) \<and>
      (\<forall>q. path_parent dir = Some q \<longrightarrow> \<not> prefix k (fs_key q))} (swap_origin_dir dir staging nanos)"
proof -
  let ?K = "{k. apart k (fs_key dir) \<and> apart k (fs_key staging) \<and> apart k (fs_key (backup_dir dir nanos)) \<and>
      (\<forall>q. path_parent dir = Some q \<longrightarrow> \<not> prefix k (fs_key q))}"
  have "keeps ?K (io_rename dir (backup_dir dir nanos))" "keeps ?K (io_rename staging dir)"
      "keeps ?K (io_rename (backup_dir dir nanos) dir)"
    using assms by (auto intro!: keeps_rename simp: places_ok_def apart_def)
  moreover have "keeps ?K (remove_dir_if_exists (backup_dir dir nanos))"
    by (rule keeps_subset [OF outside_remove]) (auto simp: outside_def)
  moreover have "keeps ?K (case path_parent dir of
          Some parent \<Rightarrow> io_context (''create mirror root '' @ parent) (io_create_dir_all parent)
        | None \<Rightarrow> io_return ())"
    by (auto intro!: keeps_intros split: option.split)
  ultimately show ?thesis
    unfolding swap_origin_dir_def Let_def
    by (auto intro!: keeps_then keeps_match keeps_map_err keeps_reads keeps_return keeps_fail split: sum.split)
qed

lemma other_mirror_apart:
  assumes "root \<noteq> []" and "origin_dir root i = Inr dir" "origin_dir root j = Inr other" "i \<noteq> j"
    and "prefix (fs_key other) k"
  shows "apart k (fs_key dir)" and "apart k (fs_key (backup_dir dir n))"
    and "staging_dir root i pid nanos = Inr staging \<Longrightarrow> apart k (fs_key staging)"
    and "path_parent dir = Some q \<Longrightarrow> \<not> prefix k (fs_key q)"
proof -
  note d = origin_dir_key [OF assms(1,2)] and e = origin_dir_key [OF assms(1,3)]
    and b = backup_dir_key [OF assms(1,2), of n]
  have "CHR ''.'' \<notin> set j" using valid_origin_id_no_sep [OF e(4)] by simp
  then have "j \<noteq> i @ ''.rendermesh-backup-'' @ show_nat n" by auto
  then have far: "apart (fs_key other) (fs_key dir)" "apart (fs_key other) (fs_key (backup_dir dir n))"
    using assms(4) d e b by (simp_all add: apart_def)
  show "apart k (fs_key dir)" "apart k (fs_key (backup_dir dir n))"
    using apart_below [OF far(1) assms(5)] apart_below [OF far(2) assms(5)] by simp_all
  show "staging_dir root i pid nanos = Inr staging \<Longrightarrow> apart k (fs_key staging)"
    using apart_below [OF mirror_outside_staging [OF assms(1) _ assms(3)] assms(5)] by simp
  assume q: "path_parent dir = Some q"
  have "fs_key q = fs_key root"
    using path_components_parent [OF q] origin_dir_components [OF assms(1,2)] by (simp add: fs_key_def)
  then show "\<not> prefix k (fs_key q)" using e assms(5) by (auto dest!: prefix_length_le)
qed

lemma activation_keeps_others:
  assumes "activate_staged_origin root nanos staged w = (r, v)" and "root \<noteq> []"
    and "origin_dir root (staged_origin_id staged) = Inr dir"
    and "staging_dir root (staged_origin_id staged) pid n = Inr (staged_dir staged)"
    and "origin_dir root j = Inr other" "staged_origin_id staged \<noteq> j" "prefix (fs_key other) k"
  shows "fs_lookup (world_fs v) k = fs_lookup (world_fs w) k"
proof -
  note far = other_mirror_apart [OF assms(2,3,5,6,7)]
  let ?K = "{k. apart k (fs_key dir) \<and> apart k (fs_key (staged_dir staged)) \<and> apart k (fs_key (backup_dir dir nanos)) \<and>
      (\<forall>q. path_parent dir = Some q \<longrightarrow> \<not> prefix k (fs_key q))}"
  have "keeps ?K (or_remove (staged_dir staged) (swap_origin_dir dir (staged_dir staged) nanos))"
  proof -
    have "keeps ?K (remove_dir_if_exists (staged_dir staged))"
      by (rule keeps_subset [OF outside_remove]) (auto simp: outside_def)
    then show ?thesis unfolding or_remove_def
      using keeps_swap [OF swap_places(1) [OF assms(2,3,4)], of nanos]
      by (auto intro!: keeps_match keeps_then keeps_return keeps_fail split: sum.split)
  qed
  moreover have "k \<in> ?K" using far(1,2,4) far(3) [OF assms(4)] by blast
  moreover have "or_remove (staged_dir staged) (swap_origin_dir dir (staged_dir staged) nanos) w = (r, v)"
    using assms(1,3) by (simp add: activate_staged_origin_def io_then_def io_lift_def)
  ultimately show ?thesis using keepsD by blast
qed

text \<open>A successful staging is a run of \<open>stage_origin_dir\<close> on the prepared directory.\<close>

lemma stage_origin_sync_run:
  assumes "stage_origin_sync codec storage root pid nanos now i previous w = (Inr staged, v)" and "origin_dir root i = Inr dir"
  obtains w1 where "staging_dir root i pid nanos = Inr (staged_dir staged)"
    and "prepare_staging_dir dir (staged_dir staged) w = (Inr (), w1)"
    and "stage_origin_dir codec storage now i (staged_dir staged) previous w1 =
      (Inr (staged_index staged, staged_diff staged, staged_downloaded staged), v)"
proof -
  from assms obtain staging w1 where staging: "staging_dir root i pid nanos = Inr staging"
      and prepared: "prepare_staging_dir dir staging w = (Inr (), w1)"
      and filled: "or_remove staging (stage_origin_dir codec storage now i staging previous) w1 =
        (Inr (staged_index staged, staged_diff staged, staged_downloaded staged), v)"
      and dir: "staged_dir staged = staging"
    unfolding stage_origin_sync_def by (auto simp: io_then_Inr io_lift_def io_return_def)
  from filled have "stage_origin_dir codec storage now i staging previous w1 =
      (Inr (staged_index staged, staged_diff staged, staged_downloaded staged), v)"
    by (cases rule: or_remove_cases) auto
  then show thesis using that staging prepared dir by simp
qed

lemma staged_exact:
  assumes "stage_origin_sync codec storage root pid nanos now i previous w = (Inr staged, v)"
    and "root \<noteq> []" and "remote_only storage" and "\<And>k. codec_sha256 codec k \<noteq> []"
    and "fs_ok (world_fs w)" and "calm w" and "origin_dir root i = Inr dir"
    and "\<forall>key \<in> set (bt_keys (index_files (staged_index staged))). canonical_key key"
  shows "(\<forall>key \<in> set (diff_changed_paths (staged_diff staged)).
       \<exists>object. downloaded_as storage (staged_index staged) key object \<and>
         fs_lookup (world_fs v) (object_place (staged_dir staged) key) = Some (FileNode (obj_body object))) \<and>
    (\<forall>key \<in> set (bt_keys (index_files (staged_index staged))) - set (diff_changed_paths (staged_diff staged)). \<forall>body.
       fs_lookup (world_fs w) (object_place dir key) = Some (FileNode body) \<longrightarrow>
       fs_lookup (world_fs v) (object_place (staged_dir staged) key) = Some (FileNode body)) \<and>
    (\<forall>k. is_file (world_fs v) k \<longrightarrow>
       \<not> unlisted (bt_keys (index_files (staged_index staged))) (staged_dir staged) k)"
proof -
  let ?staging = "staged_dir staged"
  from assms(1,7) obtain w1 where staging: "staging_dir root i pid nanos = Inr ?staging"
      and prepared: "prepare_staging_dir dir ?staging w = (Inr (), w1)"
      and run: "stage_origin_dir codec storage now i ?staging previous w1 =
        (Inr (staged_index staged, staged_diff staged, staged_downloaded staged), v)"
    by (rule stage_origin_sync_run)
  note s = staging_dir_key [OF assms(2) staging] and d = origin_dir_key [OF assms(2,7)]
  have far: "apart (fs_key dir) (fs_key ?staging)" using mirror_outside_staging [OF assms(2) staging assms(7)] .
  have ok: "fs_ok (world_fs w1)"
    using io_okD [OF ok_prepare_staging prepared assms(5)] .
  note exact = stage_origin_dir_Inr [OF run assms(3) s(1) assms(4) ok assms(8) same_outside_refl]
  have copied: "fs_lookup (world_fs w1) (object_place ?staging key) = Some (FileNode body)"
    if key: "canonical_key key" and body: "fs_lookup (world_fs w) (object_place dir key) = Some (FileNode body)" for key body
    unfolding object_place_def
    by (rule prepare_staging_Inr [OF prepared assms(6,5) d(2) s(1) far body [unfolded object_place_def]
        fs_ok_reachable [OF assms(5) body [unfolded object_place_def]] canonical_names(1) [OF key]])
  show ?thesis
  proof (intro conjI)
    show "\<forall>key \<in> set (bt_keys (index_files (staged_index staged))) - set (diff_changed_paths (staged_diff staged)). \<forall>body.
       fs_lookup (world_fs w) (object_place dir key) = Some (FileNode body) \<longrightarrow>
       fs_lookup (world_fs v) (object_place ?staging key) = Some (FileNode body)"
      using exact(4) copied assms(8) by blast
    show "\<forall>key \<in> set (diff_changed_paths (staged_diff staged)). \<exists>object. downloaded_as storage (staged_index staged) key object \<and>
       fs_lookup (world_fs v) (object_place ?staging key) = Some (FileNode (obj_body object))"
      using exact(3) downloaded_whenD by blast
    show "\<forall>k. is_file (world_fs v) k \<longrightarrow> \<not> unlisted (bt_keys (index_files (staged_index staged))) ?staging k"
    proof (intro allI impI)
      fix k assume k: "is_file (world_fs v) k"
      then obtain node where "fs_lookup (world_fs v) k = Some node" by (auto simp: is_file_def split: option.splits)
      from fs_ok_reachable [OF io_okD [OF ok_stage_origin_sync [OF assms(3)] assms(1,5)] this]
      show "\<not> unlisted (bt_keys (index_files (staged_index staged))) ?staging k" using exact(5) k by blast
    qed
  qed
qed

section \<open>Properties\<close>

text \<open>C20: Every walk of the synchronisation ends, with as much fuel as there are nodes, on every file
system and under every schedule of faults: copying the mirror, removing deleted objects, removing
orphan sidecars.\<close>

theorem sync_walks_end:
  assumes "fs_ok (world_fs w)" and "src \<noteq> []" "dst \<noteq> []" and "apart (fs_key src) (fs_key dst)"
  shows "(\<exists>r. walk copy_dir (walk_fuel [(src, dst)] w) [(src, dst)] () w = Some r) \<and>
    (\<exists>r. walk (removal_dir codec keys src) (walk_fuel [src] w) [src] () w = Some r) \<and>
    (\<exists>r. walk (orphan_dir expected) (walk_fuel [src] w) [src] () w = Some r)"
proof (intro conjI)
  have here: "\<exists>names. below_path src src names" using below_path_refl assms(2) by blast
  show "\<exists>r. walk copy_dir (walk_fuel [(src, dst)] w) [(src, dst)] () w = Some r"
    using copy_walk.walk_dirs_returns [where d = "(src, dst)", OF _ copy_pair_refl [OF assms(2-4)] assms(1)] by simp
  show "\<exists>r. walk (removal_dir codec keys src) (walk_fuel [src] w) [src] () w = Some r"
    using removal_walk.walk_dirs_returns [OF refl _ assms(1)] here assms(2) by blast
  show "\<exists>r. walk (orphan_dir expected) (walk_fuel [src] w) [src] () w = Some r"
    using orphan_walk.walk_dirs_returns [OF refl here assms(1)] .
qed

text \<open>C13: Whatever fails and whatever the remote returns, staging an origin changes nothing at or below the
mirror of any origin.\<close>

theorem staging_touches_no_mirror:
  assumes "stage_origin_sync codec storage root pid nanos now i previous w = (r, v)"
    and "root \<noteq> []" and "remote_only storage" and "\<And>k. codec_sha256 codec k \<noteq> []"
    and "origin_dir root j = Inr dir" and "prefix (fs_key dir) k"
  shows "fs_lookup (world_fs v) k = fs_lookup (world_fs w) k"
proof (cases "staging_dir root i pid nanos")
  case (Inr staging)
  have "k \<in> outside staging"
    using apart_below [OF mirror_outside_staging [OF assms(2) Inr assms(5)] assms(6), of "fs_key staging"]
    by (simp add: outside_def)
  then show ?thesis using keepsD [OF outside_stage_origin_sync [OF assms(2-4) Inr] assms(1)] by simp
next
  case (Inl e)
  then show ?thesis using assms(1)
    by (auto simp: stage_origin_sync_def io_then_def io_lift_def staging_dir_def split: sum.splits)
qed


text \<open>C12: Whatever fails, activating a staged origin leaves at the place of the mirror the staged tree or,
with an error, the old mirror; or, with an error, nothing there and the whole old mirror under the
name of the backup.\<close>

theorem activation_atomic:
  assumes "activate_staged_origin root nanos staged w = (r, v)" and "root \<noteq> []"
    and "origin_dir root (staged_origin_id staged) = Inr dir"
    and "staging_dir root (staged_origin_id staged) pid n = Inr (staged_dir staged)"
  shows "subtree (world_fs v) (fs_key dir) = subtree (world_fs w) (fs_key (staged_dir staged)) \<or>
    isl r \<and> subtree (world_fs v) (fs_key dir) = subtree (world_fs w) (fs_key dir) \<or>
    isl r \<and> subtree (world_fs v) (fs_key dir) = (\<lambda>_. None) \<and>
      subtree (world_fs v) (fs_key (backup_dir dir nanos)) = subtree (world_fs w) (fs_key dir)"
  by (rule activation_cases [OF assms])

theorem sync_walks_end_witness:
  "\<exists>r. walk (removal_dir example_codec [] ''a'') (walk_fuel [''a''] (world_on [])) [''a''] () (world_on []) = Some r"
proof -
  have "apart (fs_key ''a'') (fs_key ''b'')"
    by (simp add: apart_def fs_key_def path_components_def component_of_def)
  then show ?thesis
    using sync_walks_end [of "world_on []" "''a''" "''b''" example_codec "[]" "[]"] by (simp add: fs_ok_def world_on_def)
qed

theorem staging_touches_no_mirror_witness:
  "fs_lookup (world_fs (snd (example_stage (failing_at 3 example_mirror)))) [Normal ''m'', Normal ''w'', Normal ''a''] =
     Some (FileNode ''x'')"
proof -
  obtain r v where run: "example_stage (failing_at 3 example_mirror) = (r, v)" by fastforce
  have key: "fs_key ''m/w'' = [Normal ''m'', Normal ''w'']"
    by (simp add: fs_key_def path_components_def component_of_def)
  show ?thesis
    using staging_touches_no_mirror [OF run [unfolded example_stage_def] _ example_remote_facts example_dirs(1),
      of "[Normal ''m'', Normal ''w'', Normal ''a'']"] run key
    by (simp add: failing_at_def example_mirror_def fs_lookup_def)
qed


theorem activation_atomic_witness:
  "(\<exists>node. subtree (world_fs (snd (activate_staged_origin ''m'' 7 example_staged (failing_at 3 example_staged_tree))))
     [Normal ''m'', Normal ''w''] [Normal ''b''] = Some node) \<or>
   isl (fst (activate_staged_origin ''m'' 7 example_staged (failing_at 3 example_staged_tree)))"
proof -
  obtain r v where run: "activate_staged_origin ''m'' 7 example_staged (failing_at 3 example_staged_tree) = (r, v)"
    by fastforce
  have places: "origin_dir ''m'' (staged_origin_id example_staged) = Inr ''m/w''"
    "staging_dir ''m'' (staged_origin_id example_staged) 1 2 = Inr (staged_dir example_staged)"
    using example_dirs by (simp_all add: example_staged_def)
  have keys: "fs_key ''m/w'' = [Normal ''m'', Normal ''w'']"
    "fs_key (staged_dir example_staged) = [Normal ''m'', Normal ''.rendermesh-sync'', Normal ''w-1-2'']"
    by code_simp+
  have "subtree example_staged_tree [Normal ''m'', Normal ''.rendermesh-sync'', Normal ''w-1-2''] [Normal ''b''] \<noteq> None"
    by code_simp
  then obtain node where staged: "subtree example_staged_tree [Normal ''m'', Normal ''.rendermesh-sync'', Normal ''w-1-2''] [Normal ''b''] = Some node"
    by blast
  show ?thesis
    using activation_atomic [OF run _ places] run keys staged by (auto simp: failing_at_def)
qed

text \<open>When the removal of the backup fails, the activation reports an error although the new mirror is in
place.\<close>

theorem activation_error_with_new_mirror:
  "isl (fst (activate_staged_origin ''m'' 7 example_staged (failing_at 4 example_staged_tree))) \<and>
   subtree (world_fs (snd (activate_staged_origin ''m'' 7 example_staged (failing_at 4 example_staged_tree))))
     [Normal ''m'', Normal ''w''] [Normal ''b''] = Some (FileNode ''y'')"
  by code_simp

text \<open>When the look at the mirror fails while a staging directory is prepared, the staging directory starts
empty and, with nothing changed since the last index, the staged mirror lacks the unchanged file that
the index lists; without the failure it has it.\<close>

theorem failed_look_loses_unchanged_files:
  "(case example_stage (failing_at 1 example_mirror) of
      (Inr staged, v) \<Rightarrow> bt_keys (index_files (staged_index staged)) = [''a''] \<and>
        fs_lookup (world_fs v) (fs_key (staged_dir staged) @ [Normal ''a'']) = None
    | (Inl _, _) \<Rightarrow> False) \<and>
   (case example_stage (world_on example_mirror) of
      (Inr staged, v) \<Rightarrow> fs_lookup (world_fs v) (fs_key (staged_dir staged) @ [Normal ''a'']) = Some (FileNode ''x'')
    | (Inl _, _) \<Rightarrow> False)"
  by code_simp

text \<open>An object whose key has an empty segment is accepted, downloaded and then removed again as one the
remote no longer has: the staged mirror does not hold it although the index lists it.\<close>

theorem uncanonical_object_is_removed:
  "(case stage_origin_sync example_codec (example_remote ''a//b'') ''m'' 1 2 ''t'' ''w'' None (world_on []) of
      (Inr staged, v) \<Rightarrow> bt_keys (index_files (staged_index staged)) = [''a//b''] \<and> staged_downloaded staged = 1 \<and>
        fs_lookup (world_fs v) (fs_key (staged_dir staged) @ [Normal ''a'', Normal ''b'']) = None
    | (Inl _, _) \<Rightarrow> False)"
  by code_simp

end
