(* ===== verification/Refresh_Facts.thy ===== *)
theory Refresh_Facts
  imports Origin_Refresh Sync_Facts
begin

text \<open>
  What a refresh guarantees: a failed one leaves the stores as they were, a successful one
  leaves stores that describe the mirror that is served, the CDN cannot undo an activation,
  and no origin is refreshed twice at the same time.
\<close>

section \<open>The steps of a refresh\<close>

lemma on_files_simps:
  "fst (on_files m s) = fst (m (rf_world s))"
  "snd (on_files m s) = s\<lparr>rf_world := snd (m (rf_world s))\<rparr>"
  by (simp_all add: on_files_def split: prod.split)

lemma on_files_eq: "on_files m s = (r, s') \<longleftrightarrow> (\<exists>w. m (rf_world s) = (r, w) \<and> s' = s\<lparr>rf_world := w\<rparr>)"
  by (auto simp: on_files_def split: prod.splits)

lemma refresh_cases:
  assumes "refresh_origin_snapshot env root i storage cdn barrier s = (r, s')"
  obtains
    (not_staged) e w1 where
      "stage_origin_sync (ren_codec env) storage root (ren_pid env) (ren_staging_nanos env) (ren_listed_at env) i
         (bt_get (rf_indexes s) i) (rf_world s) = (Inl e, w1)"
      and "r = Inl e" and "s' = s\<lparr>rf_world := w1\<rparr>"
  | (rejected) staged w1 e w2 where
      "stage_origin_sync (ren_codec env) storage root (ren_pid env) (ren_staging_nanos env) (ren_listed_at env) i
         (bt_get (rf_indexes s) i) (rf_world s) = (Inr staged, w1)"
      and "prepare_or_reject env (rf_templates s) (bt_get (rf_indexes s) i) barrier i staged w1 = (Inl e, w2)"
      and "r = Inl e" and "s' = s\<lparr>rf_world := w2\<rparr>"
  | (not_activated) staged w1 prepared w2 e w3 where
      "stage_origin_sync (ren_codec env) storage root (ren_pid env) (ren_staging_nanos env) (ren_listed_at env) i
         (bt_get (rf_indexes s) i) (rf_world s) = (Inr staged, w1)"
      and "prepare_or_reject env (rf_templates s) (bt_get (rf_indexes s) i) barrier i staged w1 = (Inr prepared, w2)"
      and "activate_staged_origin root (ren_swap_nanos env) staged w2 = (Inl e, w3)"
      and "r = Inl e" and "s' = s\<lparr>rf_world := w3\<rparr>"
  | (activated) staged w1 config registry w2 w3 response where
      "stage_origin_sync (ren_codec env) storage root (ren_pid env) (ren_staging_nanos env) (ren_listed_at env) i
         (bt_get (rf_indexes s) i) (rf_world s) = (Inr staged, w1)"
      and "prepare_or_reject env (rf_templates s) (bt_get (rf_indexes s) i) barrier i staged w1 =
         (Inr (config, registry), w2)"
      and "activate_staged_origin root (ren_swap_nanos env) staged w2 = (Inr (), w3)"
      and "refresh_cdn env cdn i (next_generation (rf_runtime s) i) (staged_diff staged)
         (activate_stores i config registry (staged_index staged)
            (refresh_snapshot env i (next_generation (rf_runtime s) i) staged) (s\<lparr>rf_world := w3\<rparr>)) = (response, s')"
      and "r = Inr (sync_response (refresh_snapshot env i (next_generation (rf_runtime s) i) staged) response)"
proof -
  obtain r1 w1 where stage: "stage_origin_sync (ren_codec env) storage root (ren_pid env) (ren_staging_nanos env)
      (ren_listed_at env) i (bt_get (rf_indexes s) i) (rf_world s) = (r1, w1)" by fastforce
  note model = assms [unfolded refresh_origin_snapshot_def Let_def on_files_def stage prod.case]
  show thesis
  proof (cases r1)
    case (Inl e)
    then show thesis using not_staged stage model by simp
  next
    case (Inr staged)
    obtain r2 w2 where prepared: "prepare_or_reject env (rf_templates s) (bt_get (rf_indexes s) i) barrier i staged w1 = (r2, w2)"
      by fastforce
    show thesis
    proof (cases r2)
      case (Inl e)
      then show thesis using rejected stage prepared model Inr by simp
    next
      case r2: (Inr p)
      obtain config registry where p: "p = (config, registry)" by (cases p)
      obtain r3 w3 where active: "activate_staged_origin root (ren_swap_nanos env) staged w2 = (r3, w3)" by fastforce
      show thesis
      proof (cases r3)
        case (Inl e)
        then show thesis using not_activated stage prepared active model Inr r2 p by simp
      next
        case r3: (Inr u)
        then show thesis using activated stage prepared active model Inr r2 p by (simp split: prod.splits)
      qed
    qed
  qed
qed

lemma refresh_cdn_keeps:
  assumes "refresh_cdn env cdn i gen d s = (response, s')"
  shows "rf_world s' = rf_world s" and "rf_configs s' = rf_configs s" and "rf_templates s' = rf_templates s"
    and "rf_indexes s' = rf_indexes s" and "rf_locks s' = rf_locks s"
    and "j \<noteq> i \<Longrightarrow> get_snapshot (rf_runtime s') j = get_snapshot (rf_runtime s) j"
    and "get_snapshot (rf_runtime s) i = Some snap \<Longrightarrow>
      \<exists>snap'. get_snapshot (rf_runtime s') i = Some snap' \<and> generation snap' = generation snap \<and>
        last_error snap' = last_error snap \<and> known_files snap' = known_files snap"
  using assms
  by (auto simp: refresh_cdn_def Let_def get_modify_snapshot set_cdn_result_def set_cdn_error_def
      split: option.splits prod.splits sum.splits refresh_error.splits list.splits)

text \<open>Preparing and rejecting look at the files; a rejection removes the staging directory.\<close>

lemma keeps_load_edge_config [keeps_intros]: "keeps K (load_edge_config_at env root i candidates)"
  by (induction candidates) (auto intro!: keeps_intros split: option.split)

lemma keeps_prepare: "keeps K (prepare_refresh env templates previous barrier i staged)"
  unfolding prepare_refresh_def load_origin_edge_config_def by (auto intro!: keeps_intros split: prod.split)

lemma outside_prepare_or_reject:
  "keeps (outside (staged_dir staged)) (prepare_or_reject env templates previous barrier i staged)"
  unfolding prepare_or_reject_def reject_staged_def discard_staged_origin_def
  by (auto intro!: keeps_match keeps_prepare keeps_return keeps_fail outside_remove split: sum.split)

lemma stage_origin_sync_dir:
  assumes "stage_origin_sync codec storage root pid nanos now i previous w = (Inr staged, v)"
  shows "staging_dir root i pid nanos = Inr (staged_dir staged)" and "staged_origin_id staged = i"
    and "\<exists>dir. origin_dir root i = Inr dir"
  using assms unfolding stage_origin_sync_def by (auto simp: io_then_Inr io_lift_def io_return_def)

section \<open>The same tree at another place\<close>

text \<open>A file system in which no file stands above a path.\<close>

definition clear_above :: "filesystem \<Rightarrow> fs_key \<Rightarrow> bool" where
  "clear_above fs k \<longleftrightarrow> (\<forall>n < length k. \<not> is_file fs (take n k))"

lemma fs_ok_clear: "fs_ok fs \<Longrightarrow> fs_lookup fs k = Some node \<Longrightarrow> clear_above fs k"
  unfolding clear_above_def using fs_ok_above take_is_prefix
  by (fastforce simp: is_file_def is_dir_def)

lemma moved_lookup:
  assumes "subtree fs' d = subtree fs e" and "fs_key p = e @ ks" and "fs_key q = d @ ks"
  shows "fs_lookup fs' (fs_key q) = fs_lookup fs (fs_key p)"
  using fun_cong [OF assms(1), of ks] assms(2,3) by (simp add: subtree_def)

lemma moved_read:
  assumes tree: "subtree fs' d = subtree fs e" and "clear_above fs' d" and p: "fs_key p = e @ ks" and q: "fs_key q = d @ ks"
    and "wants_dir q = wants_dir p"
    and "fs_read fs p = Inr body \<or> fs_read fs p = Inl NotFound"
  shows "fs_read fs' q = fs_read fs p"
proof -
  note look = moved_lookup [OF tree p q]
  from assms(6) show ?thesis
  proof
    assume "fs_read fs p = Inr body"
    then show ?thesis using look assms(5) by (simp add: fs_read_Inr) (simp add: fs_read_Inr [THEN iffD2])
  next
    assume missing: "fs_read fs p = Inl NotFound"
    then have none: "fs_lookup fs (fs_key p) = None" by (rule fs_read_NotFound)
    then have err: "missing_error fs (e @ ks) = NotFound"
      using missing p by (simp add: fs_read_def fs_stat_def)
    have "\<not> is_file fs' (take n (d @ ks))" if n: "n < length (d @ ks)" for n
    proof (cases "n < length d")
      case True
      then show ?thesis using assms(2) by (simp add: clear_above_def)
    next
      case False
      define m where "m = n - length d"
      have m: "take n (d @ ks) = d @ take m ks" "m < length ks" using False n by (auto simp: m_def)
      have "fs_lookup fs' (d @ take m ks) = fs_lookup fs (e @ take m ks)"
        using fun_cong [OF tree, of "take m ks"] by (simp add: subtree_def)
      moreover have "\<not> is_file fs (take (length e + m) (e @ ks))"
        using err m(2) by (auto simp: missing_error_def split: if_splits dest: bspec [of _ _ "length e + m"])
      ultimately show ?thesis using m by (simp add: is_file_def)
    qed
    then have "missing_error fs' (d @ ks) = NotFound" by (auto simp: missing_error_def)
    then show ?thesis using look none missing q by (simp add: fs_read_def fs_stat_def)
  qed
qed

text \<open>What is read in the staged mirror is read in the mirror that it becomes.\<close>

lemma sidecar_paths:
  assumes "sdir \<noteq> []" "dir \<noteq> []" and sha: "\<And>k. sha256 k \<noteq> []"
    and "metadata_sidecar_path sha256 sdir key = Inr p"
  obtains q where "metadata_sidecar_path sha256 dir key = Inr q" and "wants_dir q = wants_dir p"
proof -
  define hash where "hash = stable_key_hash sha256 (requested_key key)"
  have no: "CHR ''/'' \<notin> set hash" unfolding hash_def stable_key_hash_def by (rule encode_hex_no_dot)
  have rel: "\<not> is_absolute (hash @ ''.json'')" using no segment_relative by simp
  define at where "at = (\<lambda>d. join_path (join_path (join_path d METADATA_DIR_NAME) (take 2 hash)) (hash @ ''.json''))"
  have p: "p = at sdir" "readable_key (requested_key key)"
    using assms(4) by (auto simp: metadata_sidecar_path_def result_simps Let_def hash_def at_def)
  have "metadata_sidecar_path sha256 dir key = Inr (at dir)"
    using p(2) by (simp add: metadata_sidecar_path_def normalize_object_path_Inr [THEN iffD2] Let_def hash_def at_def)
  moreover have "wants_dir (at d) = wants_dir (hash @ ''.json'')" if "d \<noteq> []" for d
    unfolding at_def using that by (intro wants_dir_join join_path_neq_Nil rel)
  ultimately show thesis using that [of "at dir"] assms(1,2) p(1) by simp
qed

lemma moved_metadata:
  assumes tree: "subtree fs' (fs_key dir) = subtree fs (fs_key sdir)" and "clear_above fs' (fs_key dir)"
    and "sdir \<noteq> []" "dir \<noteq> []" and sha: "\<And>k. sha256 k \<noteq> []"
    and "stored_metadata sha256 parse sdir key fs = Inr metadata"
  shows "stored_metadata sha256 parse dir key fs' = Inr metadata"
proof -
  from assms(6) obtain p where p: "metadata_sidecar_path sha256 sdir key = Inr p"
      and found: "(case fs_read_to_string fs p of
       Inr content \<Rightarrow> with_context (''parse local object metadata '' @ p) (map_err ErrorMsg (parse content))
     | Inl NotFound \<Rightarrow> Inr default_metadata
     | Inl e \<Rightarrow> Inl (ErrorContext (''read local object metadata '' @ p) (io_anyhow e))) = Inr metadata"
    by (auto simp: stored_metadata_def try_then_Inr)
  from p obtain q where q: "metadata_sidecar_path sha256 dir key = Inr q" and wants: "wants_dir q = wants_dir p"
    by (rule sidecar_paths [OF assms(3,4) sha])
  have keys: "fs_key p = fs_key sdir @ map Normal (sidecar_names sha256 (requested_key key))"
      "fs_key q = fs_key dir @ map Normal (sidecar_names sha256 (requested_key key))"
    using sidecar_fs_key(1) [OF assms(3) p sha] sidecar_fs_key(1) [OF assms(4) q sha] .
  have "fs_read fs p = Inl NotFound \<or> (\<exists>c. fs_read fs p = Inr c)"
    using found by (cases "fs_read fs p") (auto simp: fs_read_to_string_def split: io_error.splits)
  then have "fs_read fs' q = fs_read fs p"
    using moved_read [OF tree assms(2) keys wants] by blast
  then have same: "fs_read_to_string fs' q = fs_read_to_string fs p" by (simp add: fs_read_to_string_def)
  from found show ?thesis
    unfolding stored_metadata_def q try_then.simps same
    by (cases "fs_read_to_string fs p") (auto simp: result_simps split: io_error.splits)
qed

lemma moved_object:
  assumes tree: "subtree fs' (fs_key dir) = subtree fs (fs_key sdir)" and "clear_above fs' (fs_key dir)"
    and roots: "root \<noteq> []" "sroot \<noteq> []" and dirs: "origin_dir root i = Inr dir" "origin_dir sroot j = Inr sdir"
    and sha: "\<And>k. sha256 k \<noteq> []"
    and "stored_object sha256 parse sroot j key fs = Inr found"
  shows "stored_object sha256 parse root i key fs' = Inr found"
proof -
  from assms(8) obtain n p where n: "normalize_object_path key = Inr n"
      and p: "mirror_object_path sroot j n = Inr p"
      and read: "(case fs_read fs p of
       Inr body \<Rightarrow>
         try_then (stored_metadata sha256 parse sdir n fs) (\<lambda>metadata.
         Inr (Some \<lparr>object_body = body, object_metadata = metadata\<rparr>))
     | Inl NotFound \<Rightarrow> Inr None
     | Inl e \<Rightarrow> Inl (ErrorContext (''read local object '' @ p) (io_anyhow e))) = Inr found"
    unfolding stored_object_def dirs(2) try_then.simps try_then_Inr by blast
  have p': "validate_origin_id j = Inr ()" "readable_key (requested_key n)" "p = join_path (join_path sroot j) (requested_key n)"
    using p mirror_object_path_Inr [OF roots(2)] by auto
  have valid: "validate_origin_id i = Inr ()" using dirs(1) by (simp add: origin_dir_Inr)
  define q where "q = join_path (join_path root i) (requested_key n)"
  have q: "mirror_object_path root i n = Inr q"
    using p'(2) valid mirror_object_path_Inr [OF roots(1)] by (auto simp: q_def)
  have d: "dir = join_path root i" "sdir = join_path sroot j" using dirs by (auto simp: origin_dir_Inr)
  have nonempty: "dir \<noteq> []" "sdir \<noteq> []" using roots d by (simp_all add: join_path_neq_Nil)
  have "wants_dir q = wants_dir (requested_key n)" "wants_dir p = wants_dir (requested_key n)"
    using wants_dir_join nonempty requested_key_relative d unfolding q_def p'(3) by blast+
  then have wants: "wants_dir q = wants_dir p" by simp
  have keys: "fs_key p = fs_key sdir @ map Normal (key_names (requested_key n))"
      "fs_key q = fs_key dir @ map Normal (key_names (requested_key n))"
    using mirror_path_components [OF roots(2) p] mirror_path_components [OF roots(1) q]
      origin_dir_key(1) [OF roots(1) dirs(1)] origin_dir_key(1) [OF roots(2) dirs(2)]
    by (simp_all add: fs_key_def)
  have "fs_read fs p = Inl NotFound \<or> (\<exists>c. fs_read fs p = Inr c)"
    using read by (cases "fs_read fs p") (auto split: io_error.splits)
  then have same: "fs_read fs' q = fs_read fs p"
    using moved_read [OF tree assms(2) keys wants] by blast
  have meta: "stored_metadata sha256 parse sdir n fs = Inr m \<Longrightarrow> stored_metadata sha256 parse dir n fs' = Inr m" for m
    using moved_metadata [OF tree assms(2) nonempty(2,1) sha] .
  from read show ?thesis
    unfolding stored_object_def dirs(1) n q try_then.simps same
    by (cases "fs_read fs p") (auto simp: try_then_Inr meta split: io_error.splits)
qed

section \<open>What is prepared\<close>

text \<open>The edge configuration that a mirror holds.\<close>

fun edge_config_at ::
    "'t refresh_env \<Rightarrow> pathbuf \<Rightarrow> string \<Rightarrow> (string \<times> bool) list \<Rightarrow> filesystem \<Rightarrow> edge_config res" where
  "edge_config_at env root i [] fs = Inr default_edge_config"
| "edge_config_at env root i (c # cs) fs =
     try_then (stored_object (codec_sha256 (ren_codec env)) (codec_parse (ren_codec env)) root i (fst c) fs) (\<lambda>found.
     case found of Some obj \<Rightarrow> parse_edge_object env (object_body obj) | None \<Rightarrow> edge_config_at env root i cs fs)"

definition edge_config_of :: "'t refresh_env \<Rightarrow> pathbuf \<Rightarrow> string \<Rightarrow> filesystem \<Rightarrow> edge_config res" where
  "edge_config_of env root i fs = edge_config_at env root i EDGE_CONFIG_PATHS fs"

lemma reads_load_edge_config: "reads (load_edge_config_at env root i cs) (edge_config_at env root i cs)"
proof (induction cs)
  case Nil
  show ?case by (simp add: reads_return)
next
  case (Cons c cs)
  have "reads (case found of Some obj \<Rightarrow> io_lift (parse_edge_object env (object_body obj))
        | None \<Rightarrow> load_edge_config_at env root i cs)
      (\<lambda>fs. case found of Some obj \<Rightarrow> parse_edge_object env (object_body obj) | None \<Rightarrow> edge_config_at env root i cs fs)"
    for found :: "local_object option"
    using Cons by (cases found) (simp_all add: reads_lift)
  then show ?case
    unfolding load_edge_config_at.simps edge_config_at.simps by (intro reads_then reads_read_object)
qed

lemma moved_edge_config:
  assumes "subtree fs' (fs_key dir) = subtree fs (fs_key sdir)" and "clear_above fs' (fs_key dir)"
    and "root \<noteq> []" "sroot \<noteq> []" and "origin_dir root i = Inr dir" "origin_dir sroot j = Inr sdir"
    and "\<And>k. codec_sha256 (ren_codec env) k \<noteq> []"
  shows "edge_config_at env sroot j cs fs = Inr config \<Longrightarrow> edge_config_at env root i cs fs' = Inr config"
  using moved_object [OF assms] by (induction cs) (auto simp: try_then_Inr split: option.splits)

lemma prepare_or_reject_Inr:
  assumes "prepare_or_reject env templates previous barrier i staged w = (Inr (config, registry), v)"
  obtains sroot j where
    "validate_activation_barrier i previous (staged_index staged) (staged_diff staged) barrier = Inr ()"
    and "staged_origin_mirror (staged_dir staged) = Inr (sroot, j)"
    and "\<And>k. fs_lookup (world_fs v) k = fs_lookup (world_fs w) k"
    and "edge_config_of env sroot j (world_fs w) = Inr config"
    and "\<exists>u1 u2. world_fs u1 = world_fs w \<and> compile_template_update_from_mirror (codec_sha256 (ren_codec env))
      (codec_parse (ren_codec env)) (ren_compile env) templates i j sroot (staged_diff staged) u1 = (Inr registry, u2)"
proof -
  from assms have run: "prepare_refresh env templates previous barrier i staged w = (Inr (config, registry), v)"
    by (auto simp: prepare_or_reject_def reject_staged_def io_match_def io_return_def io_fail_def
        split: prod.splits sum.splits)
  then obtain sroot j w1 where barrier: "validate_activation_barrier i previous (staged_index staged) (staged_diff staged) barrier = Inr ()"
      and mirror: "staged_origin_mirror (staged_dir staged) = Inr (sroot, j)"
      and config: "load_origin_edge_config env sroot j w = (Inr config, w1)"
      and registry: "compile_template_update_from_mirror (codec_sha256 (ren_codec env))
        (codec_parse (ren_codec env)) (ren_compile env) templates i j sroot (staged_diff staged) w1 = (Inr registry, v)"
    by (auto simp: prepare_refresh_def io_then_Inr io_lift_def io_return_def)
  have "world_fs w1 = world_fs w" "edge_config_of env sroot j (world_fs w) = Inr config"
    using readsD(1,4) [OF reads_load_edge_config config [unfolded load_origin_edge_config_def]]
    by (simp_all add: edge_config_of_def)
  moreover have "fs_lookup (world_fs v) k = fs_lookup (world_fs w) k" for k
    using keepsD [OF keeps_prepare [of UNIV] run] by simp
  ultimately show thesis using that barrier mirror registry by blast
qed

text \<open>The root and the id under which a staging directory is read.\<close>

lemma staged_origin_mirror_Inr:
  assumes "root \<noteq> []" and "staging_dir root i pid nanos = Inr staging" and "staged_origin_mirror staging = Inr (sroot, j)"
  shows "sroot \<noteq> []" and "j = staging_name i pid nanos" and "fs_key sroot = fs_key root @ [Normal ''.rendermesh-sync'']"
proof -
  have s: "staging = join_path (join_path root ''.rendermesh-sync'') (staging_name i pid nanos)"
    and v: "validate_origin_id i = Inr ()"
    using assms(2) staging_dir_key(3) [OF assms(1,2)] by (auto simp: staging_dir_def result_simps)
  have comps: "path_components staging =
      path_components root @ [Normal ''.rendermesh-sync'', Normal (staging_name i pid nanos)]"
    unfolding s using assms(1) segment_ok_join [OF sync_dir_segment] segment_ok_join [OF staging_name_ok [OF v]]
    by (simp add: join_path_neq_Nil)
  from assms(3) have parent: "path_parent staging = Some sroot" and name: "path_file_name staging = Some j"
    by (auto simp: staged_origin_mirror_def try_then_Inr ok_or_Inr)
  show "j = staging_name i pid nanos" using name by (simp add: path_file_name_def comps)
  have sroot: "path_components sroot = path_components root @ [Normal ''.rendermesh-sync'']"
    using path_components_parent [OF parent] by (simp add: comps butlast_append)
  show "fs_key sroot = fs_key root @ [Normal ''.rendermesh-sync'']" using sroot by (simp add: fs_key_def)
  show "sroot \<noteq> []" using sroot by (auto simp: path_components_def)
qed

lemma staging_name_valid:
  assumes "validate_origin_id i = Inr u"
  shows "validate_origin_id (staging_name i pid nanos) = Inr ()"
proof -
  have digits: "is_ascii_alphanumeric c" if "c \<in> set (show_nat n)" for c n
    using that show_nat_digits [of n] by (auto simp: is_ascii_alphanumeric_def byte_def)
  show ?thesis using assms digits
    by (auto simp: validate_origin_id_def staging_name_def fail_if_def split: if_splits)
qed

lemma drop_guard_insert: "i \<notin> set active \<Longrightarrow> drop_guard i (bset_insert i active) = active"
  by (induction i active rule: bset_insert.induct) (auto simp: drop_guard_def filter_id_conv)

lemma stage_origin_sync_diff:
  assumes "stage_origin_sync codec storage root pid nanos now i previous w = (Inr staged, v)"
  shows "staged_diff staged = diff_origin_indexes previous (staged_index staged)"
proof -
  from assms obtain staging w1 where
      "or_remove staging (stage_origin_dir codec storage now i staging previous) w1 =
        (Inr (staged_index staged, staged_diff staged, staged_downloaded staged), v)"
    unfolding stage_origin_sync_def by (auto simp: io_then_Inr io_lift_def io_return_def)
  then have "stage_origin_dir codec storage now i staging previous w1 =
        (Inr (staged_index staged, staged_diff staged, staged_downloaded staged), v)"
    by (cases rule: or_remove_cases) auto
  then show ?thesis
    unfolding stage_origin_dir_def Let_def by (auto simp: io_then_Inr io_return_def)
qed

section \<open>The stores after a refresh\<close>

text \<open>The stores without the files and the outside world.\<close>

lemma refresh_failed:
  assumes "refresh_origin_snapshot env root i storage cdn barrier s = (Inl e, s')"
  shows "\<exists>w. s' = s\<lparr>rf_world := w\<rparr>"
  using assms by (cases rule: refresh_cases) auto

lemma refresh_others:
  assumes "refresh_origin_snapshot env root i storage cdn barrier s = (r, s')" and "root \<noteq> []" and "remote_only storage"
    and "\<And>k. codec_sha256 (ren_codec env) k \<noteq> []" and "origin_dir root j = Inr other" and "i \<noteq> j"
    and "prefix (fs_key other) k"
  shows "fs_lookup (world_fs (rf_world s')) k = fs_lookup (world_fs (rf_world s)) k"
proof -
  have staged_at: "k \<in> outside staging" if "staging_dir root i pid nanos = Inr staging" for pid nanos staging
    using apart_below [OF mirror_outside_staging [OF assms(2) that assms(5)] assms(7), of "fs_key staging"]
    by (simp add: outside_def)
  have stage: "fs_lookup (world_fs w1) k = fs_lookup (world_fs w) k"
    if "stage_origin_sync (ren_codec env) storage root pid nanos now i previous w = (x, w1)" for pid nanos now previous w x w1
  proof (cases "staging_dir root i pid nanos")
    case (Inr staging)
    show ?thesis
      by (rule keepsD [OF outside_stage_origin_sync [OF assms(2-4) Inr] that staged_at [OF Inr]])
  next
    case (Inl e)
    then show ?thesis using that
      by (auto simp: stage_origin_sync_def io_then_def io_lift_def staging_dir_def split: sum.splits)
  qed
  have prepare: "fs_lookup (world_fs w2) k = fs_lookup (world_fs w1) k"
    if "stage_origin_sync (ren_codec env) storage root pid nanos now i previous w = (Inr staged, w1)"
      and "prepare_or_reject env templates previous barrier i staged w1 = (x, w2)"
    for pid nanos now previous w staged w1 templates x w2
    by (rule keepsD [OF outside_prepare_or_reject that(2) staged_at [OF stage_origin_sync_dir(1) [OF that(1)]]])
  have activate: "fs_lookup (world_fs w3) k = fs_lookup (world_fs w2) k"
    if "stage_origin_sync (ren_codec env) storage root pid nanos now i previous w = (Inr staged, w1)"
      and "activate_staged_origin root n staged w2 = (x, w3)"
    for pid nanos now previous w staged w1 n w2 x w3
  proof -
    note d = stage_origin_sync_dir [OF that(1)]
    then obtain dir where "origin_dir root (staged_origin_id staged) = Inr dir" by auto
    then show ?thesis
      using activation_keeps_others [OF that(2) assms(2) _ _ assms(5) _ assms(7)] d assms(6) by simp
  qed
  from assms(1) show ?thesis
  proof (cases rule: refresh_cases)
    case (not_staged e w1)
    then show ?thesis using stage by simp
  next
    case (rejected staged w1 e w2)
    then show ?thesis using stage [OF rejected(1)] prepare [OF rejected(1,2)] by simp
  next
    case (not_activated staged w1 prepared w2 e w3)
    then show ?thesis using stage [OF not_activated(1)] prepare [OF not_activated(1,2)]
      activate [OF not_activated(1,3)] by simp
  next
    case (activated staged w1 config registry w2 w3 response)
    then show ?thesis using stage [OF activated(1)] prepare [OF activated(1,2)] activate [OF activated(1,3)]
      refresh_cdn_keeps(1) [OF activated(4)] by (simp add: activate_stores_def)
  qed
qed

lemma activate_stores_sel:
  "rf_world (activate_stores i config registry index snapshot s) = rf_world s"
  "rf_configs (activate_stores i config registry index snapshot s) = config_store_set_valid i config (rf_configs s)"
  "rf_templates (activate_stores i config registry index snapshot s) = bt_insert i registry (rf_templates s)"
  "rf_indexes (activate_stores i config registry index snapshot s) = bt_insert i index (rf_indexes s)"
  "rf_runtime (activate_stores i config registry index snapshot s) = set_snapshot snapshot (rf_runtime s)"
  "rf_outside (activate_stores i config registry index snapshot s) = rf_outside s"
  "rf_locks (activate_stores i config registry index snapshot s) = rf_locks s"
  by (simp_all add: activate_stores_def set_origin_registry_def)

lemma refresh_snapshot_sel:
  "snap_origin_id (refresh_snapshot env i gen staged) = i" "generation (refresh_snapshot env i gen staged) = gen"
  "last_error (refresh_snapshot env i gen staged) = None"
  "known_files (refresh_snapshot env i gen staged) = length (index_files (staged_index staged))"
  by (simp_all add: refresh_snapshot_def blank_snapshot_def)

lemma snapshot_after_activation:
  assumes "refresh_cdn env cdn i gen d
     (activate_stores i config registry index (refresh_snapshot env i gen staged) s) = (response, s')"
  shows "\<exists>snap. get_snapshot (rf_runtime s') i = Some snap \<and> generation snap = gen \<and> last_error snap = None \<and>
      known_files snap = length (index_files (staged_index staged))"
    and "j \<noteq> i \<Longrightarrow> get_snapshot (rf_runtime s') j = get_snapshot (rf_runtime s) j"
proof -
  let ?new = "refresh_snapshot env i gen staged"
  obtain snap where snap: "get_snapshot (set_snapshot ?new (rf_runtime s)) i = Some snap"
      and facts: "generation snap = gen" "last_error snap = None" "known_files snap = length (index_files (staged_index staged))"
    by (cases "get_snapshot (rf_runtime s) i")
      (simp_all add: get_set_snapshot refresh_snapshot_sel keep_cdn_history_def)
  show "\<exists>snap. get_snapshot (rf_runtime s') i = Some snap \<and> generation snap = gen \<and> last_error snap = None \<and>
      known_files snap = length (index_files (staged_index staged))"
    using refresh_cdn_keeps(7) [OF assms, unfolded activate_stores_sel, OF snap] facts by auto
  show "j \<noteq> i \<Longrightarrow> get_snapshot (rf_runtime s') j = get_snapshot (rf_runtime s) j"
    using refresh_cdn_keeps(6) [OF assms] by (simp add: activate_stores_sel get_set_snapshot refresh_snapshot_sel)
qed

lemma activation_succeeded:
  assumes "stage_origin_sync codec storage root pid nanos now i previous w = (Inr staged, w1)"
    and "activate_staged_origin root n staged w2 = (Inr (), w3)" and "root \<noteq> []" and "origin_dir root i = Inr dir"
  shows "subtree (world_fs w3) (fs_key dir) = subtree (world_fs w2) (fs_key (staged_dir staged))"
  using activation_cases [OF assms(2,3)] stage_origin_sync_dir [OF assms(1)] assms(4) by fastforce

lemma stage_origin_sync_index:
  assumes "stage_origin_sync codec storage root pid nanos now i previous w = (Inr staged, v)"
  shows "bt_ok (index_files (staged_index staged))"
proof -
  from assms obtain staging w1 where
      "or_remove staging (stage_origin_dir codec storage now i staging previous) w1 =
        (Inr (staged_index staged, staged_diff staged, staged_downloaded staged), v)"
    unfolding stage_origin_sync_def by (auto simp: io_then_Inr io_lift_def io_return_def)
  then have "stage_origin_dir codec storage now i staging previous w1 =
        (Inr (staged_index staged, staged_diff staged, staged_downloaded staged), v)"
    by (cases rule: or_remove_cases) auto
  then obtain summaries where "build_origin_index i summaries now = Inr (staged_index staged)"
    unfolding stage_origin_dir_def Let_def by (auto simp: io_then_Inr io_return_def io_lift_def)
  then show ?thesis by (rule build_origin_index_Inr(1))
qed

lemma refresh_without_cdn:
  assumes "refresh_origin_snapshot env root i storage cdn barrier s = (r, s')"
  shows "\<exists>r0 s0. refresh_origin_snapshot env root i storage None barrier s = (r0, s0) \<and> isl r0 = isl r \<and>
    rf_world s0 = rf_world s' \<and> rf_configs s0 = rf_configs s' \<and> rf_templates s0 = rf_templates s' \<and>
    rf_indexes s0 = rf_indexes s'"
  using assms
proof (cases rule: refresh_cases)
  case (activated staged w1 config registry w2 w3 response)
  note model = refresh_origin_snapshot_def Let_def on_files_def
  show ?thesis
    using activated refresh_cdn_keeps(1-4) [OF activated(4)] by (simp add: model refresh_cdn_def)
qed (simp_all add: refresh_origin_snapshot_def Let_def on_files_def)

text \<open>What every look preserves, the preparation preserves.\<close>

lemma preserves_update_templates:
  "(\<And>key. preserves I (read_object sha256 parse root j key)) \<Longrightarrow>
   preserves I (update_templates sha256 parse compile root i j keys registry)"
proof (induction keys arbitrary: registry)
  case (Cons key keys)
  then show ?case by (auto simp: update_templates.simps intro!: preserves_intros split: option.split)
qed (simp add: update_templates.simps preserves_intros)

lemma preserves_prepare_refresh:
  assumes "\<And>(m :: (anyhow, edge_config) io) f. reads m f \<Longrightarrow> preserves I m"
    and "\<And>(m :: (anyhow, local_object option) io) f. reads m f \<Longrightarrow> preserves I m"
  shows "preserves I (prepare_refresh env templates previous barrier i staged)"
  using assms(1) [OF reads_load_edge_config] assms(2) [OF reads_read_object]
  unfolding prepare_refresh_def load_origin_edge_config_def compile_template_update_from_mirror_def Let_def
  by (auto intro!: preserves_intros preserves_update_templates split: prod.split)

lemma ok_prepare_or_reject: "io_ok (prepare_or_reject env templates previous barrier i staged)"
proof -
  have "preserves (\<lambda>w. world_fs w = fs) (prepare_refresh env templates previous barrier i staged)" for fs
    by (rule preserves_prepare_refresh) (erule preserves_reads)+
  then have "io_ok (prepare_refresh env templates previous barrier i staged)"
    by (simp add: io_ok_def preserves_def)
  then show ?thesis
    unfolding prepare_or_reject_def reject_staged_def discard_staged_origin_def
    by (auto intro!: ok_intros ok_remove_dir split: sum.split)
qed

lemma refresh_ok:
  assumes "refresh_origin_snapshot env root i storage cdn barrier s = (r, s')" and "remote_only storage"
    and "fs_ok (world_fs (rf_world s))"
  shows "fs_ok (world_fs (rf_world s'))"
  using assms(1)
proof (cases rule: refresh_cases)
  case (not_staged e w1)
  then show ?thesis using io_okD [OF ok_stage_origin_sync [OF assms(2)] _ assms(3)] by simp
next
  case (rejected staged w1 e w2)
  show ?thesis using io_okD [OF ok_prepare_or_reject rejected(2)]
      io_okD [OF ok_stage_origin_sync [OF assms(2)] rejected(1) assms(3)] rejected(4) by simp
next
  case (not_activated staged w1 prepared w2 e w3)
  show ?thesis using io_okD [OF ok_activate not_activated(3)] io_okD [OF ok_prepare_or_reject not_activated(2)]
      io_okD [OF ok_stage_origin_sync [OF assms(2)] not_activated(1) assms(3)] not_activated(5) by simp
next
  case (activated staged w1 config registry w2 w3 response)
  show ?thesis using io_okD [OF ok_activate activated(3)] io_okD [OF ok_prepare_or_reject activated(2)]
      io_okD [OF ok_stage_origin_sync [OF assms(2)] activated(1) assms(3)] refresh_cdn_keeps(1) [OF activated(4)]
    by (simp add: activate_stores_sel)
qed

section \<open>Locks\<close>

text \<open>
  Tasks that ask for the lock of an origin and drop their guards, in any interleaving: the
  set behind the mutex and the guards that are alive.
\<close>

inductive lock_step :: "string bset \<times> (nat \<times> string) list \<Rightarrow> string bset \<times> (nat \<times> string) list \<Rightarrow> bool" where
  acquire: "try_acquire i active = Some active' \<Longrightarrow> lock_step (active, guards) (active', (task, i) # guards)"
| refuse: "try_acquire i active = None \<Longrightarrow> lock_step (active, guards) (active, guards)"
| drop: "(task, i) \<in> set guards \<Longrightarrow> lock_step (active, guards) (drop_guard i active, remove1 (task, i) guards)"

inductive_cases lock_stepE: "lock_step (active, guards) state"

definition locks_ok :: "string bset \<times> (nat \<times> string) list \<Rightarrow> bool" where
  "locks_ok state \<longleftrightarrow> distinct (map snd (snd state)) \<and> set (fst state) = snd ` set (snd state)"

lemma locks_ok_step:
  assumes "lock_step state state'" and "locks_ok state"
  shows "locks_ok state'"
  using assms
proof (cases rule: lock_step.cases)
  case (acquire i active active' guards task)
  then have "i \<notin> set active" "active' = bset_insert i active" by (simp_all add: try_acquire_def split: if_splits)
  then show ?thesis using assms(2) acquire by (simp add: locks_ok_def)
next
  case (refuse i active guards)
  then show ?thesis using assms(2) by simp
next
  case (drop task i guards active)
  have distinct: "distinct (map snd guards)" and active: "set active = snd ` set guards"
    using assms(2) drop by (simp_all add: locks_ok_def)
  from split_list [OF drop(3)] obtain before after where guards: "guards = before @ (task, i) # after" by blast
  have "(task, i) \<notin> set before" using distinct guards by force
  then have removed: "remove1 (task, i) guards = before @ after" by (simp add: guards remove1_append)
  have "set (drop_guard i active) = snd ` set (before @ after)"
    using active distinct by (auto simp: drop_guard_def guards)
  then show ?thesis using drop distinct removed by (auto simp: locks_ok_def guards)
qed

section \<open>An example\<close>

definition example_refresh_env :: "string refresh_env" where
  "example_refresh_env = \<lparr>ren_codec = example_codec, ren_compile = Inr, ren_parse_url = (\<lambda>_. Inl ''no url''),
     ren_parse_yaml = (\<lambda>_. Inr default_edge_config), ren_parse_json = (\<lambda>_. Inl ''no json''), ren_pid = 1,
     ren_staging_nanos = 2, ren_swap_nanos = 7, ren_listed_at = ''t'', ren_activated_at = ''t'', ren_purged_at = ''t''\<rparr>"

definition example_refresh_state :: "world \<Rightarrow> (string, nat) refresh_state" where
  "example_refresh_state w = \<lparr>rf_world = w, rf_configs = [], rf_templates = [], rf_indexes = [], rf_runtime = [],
     rf_outside = 0, rf_locks = []\<rparr>"

definition example_service :: "nat refresh_service" where
  "example_service = \<lparr>srv_root = ''m'', srv_storage = [(''w'', example_remote ''a'')], srv_barrier = [], srv_cdn = []\<rparr>"

definition example_refresh ::
    "string option \<Rightarrow> world \<Rightarrow> origin_sync_response res \<times> (string, nat) refresh_state" where
  "example_refresh barrier w =
     refresh_origin_snapshot example_refresh_env ''m'' ''w'' (example_remote ''.rendermesh/edge.yaml'') None barrier (example_refresh_state w)"

lemma example_refresh_succeeds:
  "case example_refresh (Some ''.rendermesh/edge.yaml'') (world_on []) of
     (Inr response, s') \<Rightarrow> osr_added_files response = 1
   | (Inl _, _) \<Rightarrow> False"
  by code_simp

text \<open>What a prepared directory says, the mirror says once the directory is activated.\<close>

lemma prepared_describes_mirror:
  assumes "stage_origin_sync (ren_codec env) storage root pid nanos now i previous w = (Inr staged, w1)"
    and "prepare_or_reject env templates previous barrier i staged w1 = (Inr (config, registry), w2)"
    and "activate_staged_origin root n staged w2 = (Inr (), w3)"
    and "root \<noteq> []" and "\<And>k. codec_sha256 (ren_codec env) k \<noteq> []" and "origin_dir root i = Inr dir"
    and "remote_only storage" and "fs_ok (world_fs w3)" and "\<And>registry. bt_get templates i = Some registry \<Longrightarrow> bt_ok registry"
  shows "edge_config_of env root i (world_fs w3) = Inr config"
    and "bt_get registry k =
      (if k \<in> set (diff_changed_paths (staged_diff staged))
       then (case stored_object (codec_sha256 (ren_codec env)) (codec_parse (ren_codec env)) root i k (world_fs w3) of
               Inr found \<Rightarrow> template_for (ren_compile env) k found | Inl _ \<Rightarrow> None)
       else if k \<in> set (diff_removed (staged_diff staged)) then None
       else case bt_get templates i of Some old \<Rightarrow> bt_get old k | None \<Rightarrow> None)"
proof -
  let ?fs = "world_fs w3"
  note dirs = stage_origin_sync_dir [OF assms(1)]
  from assms(2) obtain sroot j u1 u2 where
      mirror: "staged_origin_mirror (staged_dir staged) = Inr (sroot, j)"
      and same: "\<And>k. fs_lookup (world_fs w2) k = fs_lookup (world_fs w1) k"
      and config: "edge_config_of env sroot j (world_fs w1) = Inr config"
      and u1: "world_fs u1 = world_fs w1"
      and compiled: "compile_template_update_from_mirror (codec_sha256 (ren_codec env)) (codec_parse (ren_codec env))
        (ren_compile env) templates i j sroot (staged_diff staged) u1 = (Inr registry, u2)"
    by (rule prepare_or_reject_Inr) blast
  note at = staged_origin_mirror_Inr [OF assms(4) dirs(1) mirror]
  have "validate_origin_id i = Inr ()" using origin_dir_key(4) [OF assms(4,6)] .
  then obtain sdir where sdir: "origin_dir sroot j = Inr sdir"
    using staging_name_valid at(2) by (simp add: origin_dir_def)
  have key: "fs_key sdir = fs_key (staged_dir staged)"
    using origin_dir_key(1) [OF at(1) sdir] at(2,3) staging_dir_key(2) [OF assms(4) dirs(1)] by simp
  have tree: "subtree ?fs (fs_key dir) = subtree (world_fs w1) (fs_key sdir)"
    using activation_succeeded [OF assms(1,3,4,6)] same by (simp add: key subtree_def)
  have "fs_lookup ?fs (fs_key dir) = Some DirNode"
    using fun_cong [OF tree, of "[]"] stage_origin_sync_is_dir [OF assms(1,7)]
    by (simp add: subtree_def key is_dir_def)
  then have clear: "clear_above ?fs (fs_key dir)" by (rule fs_ok_clear [OF assms(8)])
  note moved = tree clear assms(4) at(1) assms(6) sdir assms(5)
  show "edge_config_of env root i ?fs = Inr config"
    using moved_edge_config [OF moved] config by (simp add: edge_config_of_def)
  have "\<exists>found. stored_object (codec_sha256 (ren_codec env)) (codec_parse (ren_codec env)) root i k ?fs = Inr found \<and>
      bt_get registry k = template_for (ren_compile env) k found"
    if "k \<in> set (diff_changed_paths (staged_diff staged))"
  proof -
    from bspec [OF compile_update_Inr(1) [OF compiled assms(9)] that] obtain found where
        "stored_object (codec_sha256 (ren_codec env)) (codec_parse (ren_codec env)) sroot j k (world_fs w1) = Inr found"
        "bt_get registry k = template_for (ren_compile env) k found"
      unfolding u1 by blast
    then show ?thesis using moved_object [OF moved] by simp
  qed
  then show "bt_get registry k =
      (if k \<in> set (diff_changed_paths (staged_diff staged))
       then (case stored_object (codec_sha256 (ren_codec env)) (codec_parse (ren_codec env)) root i k ?fs of
               Inr found \<Rightarrow> template_for (ren_compile env) k found | Inl _ \<Rightarrow> None)
       else if k \<in> set (diff_removed (staged_diff staged)) then None
       else case bt_get templates i of Some old \<Rightarrow> bt_get old k | None \<Rightarrow> None)"
    using compile_update_Inr(2) [OF compiled assms(9)] by auto
qed

section \<open>Properties\<close>

text \<open>C14: A refresh that fails or is refused changes no store but the last error of its origin: the edge
configurations, the templates, the freshness indexes, the locks, the CDN and the snapshots of all other
origins are as before.\<close>

theorem failed_refresh_changes_no_store:
  assumes "refresh_origin env service i s = (Inl e, s')"
  shows "rf_configs s' = rf_configs s \<and> rf_templates s' = rf_templates s \<and> rf_indexes s' = rf_indexes s \<and>
    rf_outside s' = rf_outside s \<and> rf_locks s' = rf_locks s \<and>
    rf_runtime s' = (case e of OriginRefreshFailed err \<Rightarrow> set_error i (error_display err) (rf_runtime s)
       | _ \<Rightarrow> rf_runtime s)"
proof (cases "bt_get (srv_storage service) i")
  case None
  then show ?thesis using assms by (auto simp: refresh_origin_def)
next
  case (Some storage)
  show ?thesis
  proof (cases "i \<in> set (rf_locks s)")
    case True
    then show ?thesis using assms Some by (auto simp: refresh_origin_def try_acquire_def)
  next
    case False
    let ?s = "s\<lparr>rf_locks := bset_insert i (rf_locks s)\<rparr>"
    from assms Some False obtain err s1 where
        run: "refresh_origin_snapshot env (srv_root service) i storage (bt_get (srv_cdn service) i)
          (bt_get (srv_barrier service) i) ?s = (Inl err, s1)"
        and s': "e = OriginRefreshFailed err" "s' = s1\<lparr>rf_runtime := set_error i (error_display err) (rf_runtime s1),
          rf_locks := drop_guard i (rf_locks s1)\<rparr>"
      by (auto simp: refresh_origin_def try_acquire_def split: prod.splits sum.splits)
    from refresh_failed [OF run] obtain w where "s1 = ?s\<lparr>rf_world := w\<rparr>" ..
    then show ?thesis using s' drop_guard_insert [OF False] by simp
  qed
qed

text \<open>C15: Refreshing an origin, whatever its outcome and whatever fails, changes nothing at or below the
mirror of another origin.\<close>

theorem refresh_keeps_other_mirrors:
  assumes "refresh_origin_snapshot env root i storage cdn barrier s = (r, s')" and "root \<noteq> []" and "remote_only storage"
    and "\<And>k. codec_sha256 (ren_codec env) k \<noteq> []" and "origin_dir root j = Inr other" and "i \<noteq> j"
    and "prefix (fs_key other) k"
  shows "fs_lookup (world_fs (rf_world s')) k = fs_lookup (world_fs (rf_world s)) k"
  by (rule refresh_others [OF assms])

text \<open>C16: After a successful refresh the stores describe the mirror that is served: the edge configuration is
the one the mirror holds, the template of every changed key is compiled from the mirror, templates of
removed keys are gone and the others are kept; the generation is one more than before, or one, and is
the one reported, the last error is cleared, and nothing is different for any other origin.\<close>

theorem refreshed_stores_describe_mirror:
  assumes "refresh_origin_snapshot env root i storage cdn barrier s = (Inr response, s')"
    and "root \<noteq> []" and "\<And>k. codec_sha256 (ren_codec env) k \<noteq> []" and "origin_dir root i = Inr dir"
    and "remote_only storage" and "fs_ok (world_fs (rf_world s))"
    and "\<And>registry. bt_get (rf_templates s) i = Some registry \<Longrightarrow> bt_ok registry"
  shows "(\<exists>config. config_store_get (rf_configs s') i = Inr config \<and>
      edge_config_of env root i (world_fs (rf_world s')) = Inr config) \<and>
    (\<exists>registry index. bt_get (rf_templates s') i = Some registry \<and> bt_get (rf_indexes s') i = Some index \<and>
      (\<forall>key. bt_get registry key =
        (if key \<in> set (diff_changed_paths (diff_origin_indexes (bt_get (rf_indexes s) i) index))
         then (case stored_object (codec_sha256 (ren_codec env)) (codec_parse (ren_codec env)) root i key
                 (world_fs (rf_world s')) of
                 Inr found \<Rightarrow> template_for (ren_compile env) key found | Inl _ \<Rightarrow> None)
         else if key \<in> set (diff_removed (diff_origin_indexes (bt_get (rf_indexes s) i) index)) then None
         else case bt_get (rf_templates s) i of Some old \<Rightarrow> bt_get old key | None \<Rightarrow> None)) \<and>
      osr_known_files response = length (index_files index)) \<and>
    (\<exists>snap. get_snapshot (rf_runtime s') i = Some snap \<and> generation snap = osr_generation response \<and>
      last_error snap = None) \<and>
    osr_generation response =
      (case get_snapshot (rf_runtime s) i of Some old \<Rightarrow> generation old + 1 | None \<Rightarrow> 1) \<and>
    (\<forall>j. j \<noteq> i \<longrightarrow> bt_get (rf_configs s') j = bt_get (rf_configs s) j \<and>
      bt_get (rf_templates s') j = bt_get (rf_templates s) j \<and> bt_get (rf_indexes s') j = bt_get (rf_indexes s) j \<and>
      get_snapshot (rf_runtime s') j = get_snapshot (rf_runtime s) j)"
  using assms(1)
proof (cases rule: refresh_cases)
  case (activated staged w1 config registry w2 w3 cdn_response)
  let ?fs = "world_fs (rf_world s')" and ?gen = "next_generation (rf_runtime s) i"
  note after = refresh_cdn_keeps(1-4) [OF activated(4), unfolded activate_stores_sel]
  have files: "world_fs w3 = ?fs" using after(1) by simp
  have "fs_ok (world_fs w3)" unfolding files by (rule refresh_ok [OF assms(1,5,6)])
  note described = prepared_describes_mirror [OF activated(1-3) assms(2-5) this assms(7), unfolded files]
  have diff: "staged_diff staged = diff_origin_indexes (bt_get (rf_indexes s) i) (staged_index staged)"
    using stage_origin_sync_diff [OF activated(1)] .
  have known: "osr_known_files response = length (index_files (staged_index staged))"
    and gen: "osr_generation response = ?gen"
    using activated(5) by (simp_all add: sync_response_def refresh_snapshot_sel)
  show ?thesis
    using described after(2-4) known gen snapshot_after_activation [OF activated(4)]
    by (auto simp: diff [symmetric] config_store_get_def config_store_set_valid_def refresh_snapshot_sel next_generation_def)
qed simp_all

theorem failed_refresh_changes_no_store_witness:
  "case refresh_origin example_refresh_env example_service ''w'' (example_refresh_state (failing_at 3 [])) of
     (Inl e, s') \<Rightarrow> rf_configs s' = [] \<and> rf_templates s' = [] \<and> rf_indexes s' = []
   | (Inr _, _) \<Rightarrow> True"
proof -
  obtain r s' where run: "refresh_origin example_refresh_env example_service ''w''
      (example_refresh_state (failing_at 3 [])) = (r, s')" by fastforce
  show ?thesis
  proof (cases r)
    case (Inl e)
    then show ?thesis using failed_refresh_changes_no_store [OF run [unfolded Inl]] run
      by (simp add: example_refresh_state_def)
  qed (use run in simp)
qed

theorem refresh_keeps_other_mirrors_witness:
  "fs_lookup (world_fs (rf_world (snd (example_refresh None (failing_at 5 [([Normal ''m'', Normal ''v'', Normal ''x''], FileNode ''z'')])))))
     [Normal ''m'', Normal ''v'', Normal ''x''] = Some (FileNode ''z'')"
proof -
  let ?w = "failing_at 5 [([Normal ''m'', Normal ''v'', Normal ''x''], FileNode ''z'')]"
  obtain r s' where run: "example_refresh None ?w = (r, s')" by fastforce
  have other: "origin_dir ''m'' ''v'' = Inr ''m/v''" and key: "fs_key ''m/v'' = [Normal ''m'', Normal ''v'']" by code_simp+
  show ?thesis
    using refresh_keeps_other_mirrors [OF run [unfolded example_refresh_def] _ example_remote_facts(1) _ other,
        of "[Normal ''m'', Normal ''v'', Normal ''x'']"] run key
    by (simp add: example_refresh_env_def example_codec_def example_refresh_state_def failing_at_def fs_lookup_def)
qed

theorem refreshed_stores_describe_mirror_witness:
  "\<exists>response s'. example_refresh (Some ''.rendermesh/edge.yaml'') (world_on []) = (Inr response, s') \<and>
     (\<exists>config. config_store_get (rf_configs s') ''w'' = Inr config \<and>
        edge_config_of example_refresh_env ''m'' ''w'' (world_fs (rf_world s')) = Inr config)"
proof -
  from example_refresh_succeeds obtain response s' where run: "example_refresh (Some ''.rendermesh/edge.yaml'') (world_on []) = (Inr response, s')"
    by (auto split: prod.splits sum.splits)
  have sha: "codec_sha256 (ren_codec example_refresh_env) k \<noteq> []" for k
    by (simp add: example_refresh_env_def example_codec_def)
  show ?thesis
    using refreshed_stores_describe_mirror [OF run [unfolded example_refresh_def] _ sha example_dirs(1) example_remote_facts(1)] run
    by (simp add: example_refresh_state_def world_on_def fs_ok_def)
qed

text \<open>C18: What the CDN does cannot undo an activation: with any CDN, or none, a refresh succeeds or fails alike
and leaves the same files, edge configurations, templates and indexes.\<close>

theorem cdn_cannot_undo_activation:
  "isl (fst (refresh_origin_snapshot env root i storage cdn barrier s)) =
     isl (fst (refresh_origin_snapshot env root i storage cdn' barrier s)) \<and>
   rf_world (snd (refresh_origin_snapshot env root i storage cdn barrier s)) =
     rf_world (snd (refresh_origin_snapshot env root i storage cdn' barrier s)) \<and>
   rf_configs (snd (refresh_origin_snapshot env root i storage cdn barrier s)) =
     rf_configs (snd (refresh_origin_snapshot env root i storage cdn' barrier s)) \<and>
   rf_templates (snd (refresh_origin_snapshot env root i storage cdn barrier s)) =
     rf_templates (snd (refresh_origin_snapshot env root i storage cdn' barrier s)) \<and>
   rf_indexes (snd (refresh_origin_snapshot env root i storage cdn barrier s)) =
     rf_indexes (snd (refresh_origin_snapshot env root i storage cdn' barrier s))"
  using refresh_without_cdn [of env root i storage cdn barrier s] refresh_without_cdn [of env root i storage cdn' barrier s]
  by (cases "refresh_origin_snapshot env root i storage cdn barrier s";
      cases "refresh_origin_snapshot env root i storage cdn' barrier s") auto

text \<open>C17: With an activation barrier a refresh that changes any file succeeds only when the new index lists the
barrier and the barrier is new or changed.\<close>

theorem activation_barrier_respected:
  assumes "refresh_origin_snapshot env root i storage cdn (Some path) s = (Inr response, s')"
    and "osr_added_files response + osr_modified_files response + osr_removed_files response \<noteq> 0"
  shows "\<exists>index state. bt_get (rf_indexes s') i = Some index \<and> bt_get (index_files index) path = Some state \<and>
    (case indexed (bt_get (rf_indexes s) i) path of Some old \<Rightarrow> \<not> same_source_state old state | None \<Rightarrow> True)"
  using assms(1)
proof (cases rule: refresh_cases)
  case (activated staged w1 config registry w2 w3 cdn_response)
  let ?index = "staged_index staged" and ?previous = "bt_get (rf_indexes s) i"
  have ok: "bt_ok (index_files ?index)" using stage_origin_sync_index [OF activated(1)] .
  have diff: "staged_diff staged = diff_origin_indexes ?previous ?index" using stage_origin_sync_diff [OF activated(1)] .
  from activated(2) have barrier: "validate_activation_barrier i ?previous ?index (staged_diff staged) (Some path) = Inr ()"
    by (rule prepare_or_reject_Inr)
  have changes: "diff_added (staged_diff staged) \<noteq> [] \<or> diff_modified (staged_diff staged) \<noteq> [] \<or>
      diff_removed (staged_diff staged) \<noteq> []"
    using assms(2) activated(5) by (auto simp: sync_response_def refresh_snapshot_def)
  from barrier changes obtain state where state: "bt_get (index_files ?index) path = Some state"
      and changed: "indexed ?previous path \<noteq> None \<Longrightarrow>
        path \<in> set (diff_added (staged_diff staged)) \<or> path \<in> set (diff_modified (staged_diff staged))"
    by (auto simp: validate_activation_barrier_def Let_def result_simps bt_contains_def indexed_def split: option.splits)
  have "case indexed ?previous path of Some old \<Rightarrow> \<not> same_source_state old state | None \<Rightarrow> True"
    using changed diff_sets(1,3) [OF ok, of path ?previous] diff state by (auto split: option.split)
  then show ?thesis using state refresh_cdn_keeps(4) [OF activated(4)] by (auto simp: activate_stores_sel)
qed simp_all

theorem activation_barrier_respected_witness:
  "\<exists>s' index. snd (example_refresh (Some ''.rendermesh/edge.yaml'') (world_on [])) = s' \<and> bt_get (rf_indexes s') ''w'' = Some index \<and>
     bt_get (index_files index) ''.rendermesh/edge.yaml'' \<noteq> None"
proof -
  from example_refresh_succeeds obtain response s' where run: "example_refresh (Some ''.rendermesh/edge.yaml'') (world_on []) = (Inr response, s')"
      and one: "osr_added_files response = 1"
    by (auto split: prod.splits sum.splits)
  show ?thesis using activation_barrier_respected [OF run [unfolded example_refresh_def]] run one by auto
qed

text \<open>C19: However tasks interleave, at most one of them holds the guard of an origin, and the lock of an
origin is refused exactly while some task holds its guard.\<close>

theorem refresh_locks_exclude:
  assumes "lock_step\<^sup>*\<^sup>* ([], []) (active, guards)"
  shows "distinct (map snd guards) \<and> (try_acquire i active = None \<longleftrightarrow> (\<exists>task. (task, i) \<in> set guards))"
proof -
  have "locks_ok (active, guards)"
    using assms
  proof (induction rule: rtranclp_induct)
    case base
    then show ?case by (simp add: locks_ok_def)
  next
    case (step state state')
    then show ?case using locks_ok_step by blast
  qed
  then show ?thesis by (force simp: locks_ok_def try_acquire_def)
qed

theorem refresh_locks_exclude_witness:
  "distinct (map snd [(0 :: nat, ''w'')]) \<and> try_acquire ''w'' [''w''] = None"
proof -
  have "lock_step ([], []) ([''w''], [(0, ''w'')])"
    by (rule lock_step.acquire) (simp add: try_acquire_def)
  then show ?thesis using refresh_locks_exclude [of "[''w'']" "[(0, ''w'')]" "''w''"] by auto
qed

end
