(* ===== verification/Cdn_Hosts.thy ===== *)
theory Cdn_Hosts
  imports Manifest
begin

text \<open>
  The host names a CDN is told about: the domains of an origin
  (\<open>src/services/cdn_domains.rs\<close>) and its exact hosts (\<open>src/services/cdn_tenants.rs\<close>).
\<close>

definition normalize_cdn_host :: "string \<Rightarrow> string option" where
  "normalize_cdn_host header =
     (let host = to_ascii_lowercase (trim header) in
      if host = ''*'' then None
      else case strip_prefix ''*.'' host of
        Some suf \<Rightarrow> map_option (\<lambda>n. ''*.'' @ n) (normalize_host suf)
      | None \<Rightarrow> normalize_host host)"

definition desired_domains_for_origin :: "manifest \<Rightarrow> string \<Rightarrow> cdn_domain_config \<Rightarrow> string bset" where
  "desired_domains_for_origin m i config =
     bset_of (filter_map (\<lambda>(host, _). normalize_cdn_host host)
       (filter (\<lambda>(host, c). host_origin c = i \<and>
            (dom_include_wildcards config \<or> \<not> starts_with (trim host) ''*.'')) (hosts m)))"

definition exact_hosts_for_origin :: "manifest \<Rightarrow> string \<Rightarrow> string bset" where
  "exact_hosts_for_origin m i =
     bset_of (filter_map (\<lambda>(host, _). normalize_host host)
       (filter (\<lambda>(host, c). host_origin c = i \<and> \<not> starts_with (trim host) ''*'') (hosts m)))"

section \<open>Lower case and trimming\<close>

definition host_name :: "string \<Rightarrow> string option" where
  "host_name raw =
     (let host = to_ascii_lowercase (trim raw) in if is_valid_host host then Some host else None)"

lemma normalize_host_plain:
  "rsplit_once CHR '':'' (trim h) = None \<Longrightarrow>
   normalize_host h = (if trim h = [] then None else host_name (trim h))"
  by (simp add: normalize_host_def Let_def host_name_def)

lemma normalize_host_port:
  "rsplit_once CHR '':'' (trim h) = Some (a, b) \<Longrightarrow>
   normalize_host h = (if b = [] \<or> \<not> (\<forall>c \<in> set b. is_ascii_digit c) then None else host_name a)"
  by (auto simp: normalize_host_def Let_def host_name_def rsplit_once_def)

text \<open>White space has no letters, so lowering a string does not change what is trimmed.\<close>

definition caseless :: "char \<Rightarrow> bool" where
  "caseless c \<longleftrightarrow> \<not> (65 \<le> byte c \<and> byte c \<le> 90) \<and> \<not> (97 \<le> byte c \<and> byte c \<le> 122)"

lemma lower_char_caseless: "caseless c \<Longrightarrow> lower_char d = c \<longleftrightarrow> d = c"
proof (cases "65 \<le> byte d \<and> byte d \<le> 90")
  case True
  assume c: "caseless c"
  have "byte (lower_char d) = byte d + 32" using True by (simp add: byte_lower_char)
  then have "lower_char d \<noteq> c" using True c by (fastforce simp: caseless_def)
  moreover have "d \<noteq> c" using True c by (auto simp: caseless_def)
  ultimately show ?thesis by simp
next
  case False
  then have "lower_char d = d" by (simp only: lower_char_def if_False)
  then show ?thesis by simp
qed

lemma lower_char_caseless': "caseless c \<Longrightarrow> c = lower_char d \<longleftrightarrow> c = d"
  using lower_char_caseless by metis

lemma whitespace_caseless: "\<forall>w \<in> set whitespace_encodings. \<forall>c \<in> set w. caseless c"
  by (simp add: whitespace_encodings_def caseless_def byte_def)

lemma prefix_lowercase:
  "\<forall>c \<in> set w. caseless c \<Longrightarrow> prefix w (map lower_char s) \<longleftrightarrow> prefix w s"
proof (induction w arbitrary: s)
  case Nil
  then show ?case by simp
next
  case (Cons a w)
  then show ?case by (cases s) (simp_all add: lower_char_caseless')
qed

lemma drop_encodings_lowercase:
  assumes "\<forall>w \<in> set ws. \<forall>c \<in> set w. caseless c"
  shows "drop_encodings ws (map lower_char s) = map lower_char (drop_encodings ws s)"
  using assms
proof (induction ws s rule: drop_encodings.induct)
  case (1 ws s)
  have "find (\<lambda>w. w \<noteq> [] \<and> prefix w (map lower_char s)) ws = find (\<lambda>w. w \<noteq> [] \<and> prefix w s) ws"
    using "1.prems" by (intro find_cong) (simp_all add: prefix_lowercase)
  then show ?case using 1
    by (subst (1 2) drop_encodings.simps) (simp add: drop_map split: option.split)
qed

lemma trim_lowercase: "trim (to_ascii_lowercase s) = to_ascii_lowercase (trim s)"
proof -
  have "\<forall>w \<in> set (map rev whitespace_encodings). \<forall>c \<in> set w. caseless c"
    using whitespace_caseless by simp
  then show ?thesis
    by (simp add: trim_def trim_start_def trim_end_def to_ascii_lowercase_def rev_map
        drop_encodings_lowercase whitespace_caseless)
qed

lemma trim_idem [simp]: "trim (trim s) = trim s"
proof -
  have start: "trim_start (trim s) = trim s"
    unfolding trim_start_def
  proof (rule drop_encodings_id, intro ballI disjCI)
    fix w assume w: "w \<in> set whitespace_encodings" and p: "\<not> \<not> prefix w (trim s)"
    have "prefix (trim s) (trim_start s)"
      using drop_encodings_suffix [of "map rev whitespace_encodings" "rev (trim_start s)"]
      by (simp add: trim_def trim_end_def suffix_to_prefix)
    with p have "prefix w (drop_encodings whitespace_encodings s)"
      by (auto simp: trim_start_def intro: prefix_order.trans)
    then show "w = []" using drop_encodings_stops [OF w] by blast
  qed
  have "trim (trim s) = trim_end (trim s)" by (simp add: trim_def [of "trim s"] start)
  also have "\<dots> = trim s" by (simp add: trim_def trim_end_def)
  finally show ?thesis .
qed

lemma lower_char_mem: "caseless c \<Longrightarrow> c \<in> set (to_ascii_lowercase s) \<longleftrightarrow> c \<in> set s"
  by (induction s) (simp_all add: to_ascii_lowercase_def lower_char_caseless')

lemma rsplit_once_lowercase:
  "rsplit_once CHR '':'' (to_ascii_lowercase s) =
     map_option (\<lambda>(a, b). (to_ascii_lowercase a, to_ascii_lowercase b)) (rsplit_once CHR '':'' s)"
proof (cases "rsplit_once CHR '':'' s")
  case None
  have "CHR '':'' \<notin> set (to_ascii_lowercase s)"
    using None lower_char_mem [of "CHR '':''" s] by (simp add: rsplit_once_None caseless_def byte_def)
  then have "rsplit_once CHR '':'' (to_ascii_lowercase s) = None" by (simp only: rsplit_once_None simp_thms)
  then show ?thesis using None by simp
next
  case (Some p)
  obtain a b where p: "p = (a, b)" by (cases p)
  then have s: "s = a @ CHR '':'' # b" "CHR '':'' \<notin> set b" using Some by (simp_all add: rsplit_once_Some)
  have "lower_char (CHR '':'') = CHR '':''" by (simp add: lower_char_def byte_def)
  then have "to_ascii_lowercase s = to_ascii_lowercase a @ CHR '':'' # to_ascii_lowercase b"
    by (simp add: s(1) to_ascii_lowercase_def)
  moreover have "CHR '':'' \<notin> set (to_ascii_lowercase b)"
    using s(2) lower_char_mem [of "CHR '':''" b] by (simp add: caseless_def byte_def)
  ultimately show ?thesis using Some p by (simp add: rsplit_once_last)
qed

lemma digit_lower_char [simp]: "is_ascii_digit (lower_char c) = is_ascii_digit c"
  by (simp add: is_ascii_digit_def byte_lower_char)

lemma digits_lowercase:
  "(\<forall>c \<in> set (to_ascii_lowercase s). is_ascii_digit c) \<longleftrightarrow> (\<forall>c \<in> set s. is_ascii_digit c)"
  by (simp add: to_ascii_lowercase_def)

lemma host_name_lowercase: "host_name (to_ascii_lowercase raw) = host_name raw"
  by (simp add: host_name_def trim_lowercase)

lemma normalize_host_lowercase: "normalize_host (to_ascii_lowercase h) = normalize_host h"
proof (cases "rsplit_once CHR '':'' (trim h)")
  case None
  then have "rsplit_once CHR '':'' (trim (to_ascii_lowercase h)) = None"
    by (simp add: trim_lowercase rsplit_once_lowercase)
  then show ?thesis
    using None by (simp add: normalize_host_plain trim_lowercase host_name_lowercase)
next
  case (Some p)
  then obtain a b where p: "rsplit_once CHR '':'' (trim h) = Some (a, b)" by (cases p) simp
  then have "rsplit_once CHR '':'' (trim (to_ascii_lowercase h)) =
      Some (to_ascii_lowercase a, to_ascii_lowercase b)"
    by (simp add: trim_lowercase rsplit_once_lowercase)
  then show ?thesis
    using p by (simp only: normalize_host_port to_ascii_lowercase_Nil digits_lowercase host_name_lowercase)
qed

lemma normalize_host_trim: "normalize_host (trim h) = normalize_host h"
  by (simp add: normalize_host_def)

lemma normalize_host_pattern: "normalize_host (to_ascii_lowercase (trim h)) = normalize_host h"
  by (simp add: normalize_host_lowercase normalize_host_trim)

section \<open>The hosts listed\<close>

lemma star_caseless: "caseless CHR ''*''"
  by (simp add: caseless_def byte_def)

lemma star_lowercase: "starts_with (to_ascii_lowercase s) ''*'' \<longleftrightarrow> starts_with s ''*''"
  using prefix_lowercase [of "''*''" s] star_caseless by (simp add: to_ascii_lowercase_def)

lemma drop_encodings_keeps: "c \<in> set s \<Longrightarrow> \<forall>w \<in> set ws. c \<notin> set w \<Longrightarrow> c \<in> set (drop_encodings ws s)"
proof (induction ws s rule: drop_encodings.induct)
  case (1 ws s)
  show ?case
  proof (cases "find (\<lambda>w. w \<noteq> [] \<and> prefix w s) ws")
    case None
    then show ?thesis using "1.prems" by (simp add: drop_encodings.simps [of ws s])
  next
    case (Some w)
    then have w: "w \<in> set ws" "prefix w s" by (auto simp: find_Some_iff)
    then have "c \<in> set (drop (length w) s)" using "1.prems" by (auto simp: prefix_def)
    then show ?thesis using "1.IH" [OF Some] "1.prems" Some by (simp add: drop_encodings.simps [of ws s])
  qed
qed

lemma star_not_space: "\<forall>w \<in> set whitespace_encodings. CHR ''*'' \<notin> set w"
  by (simp add: whitespace_encodings_def)

lemma star_trim: "CHR ''*'' \<in> set s \<Longrightarrow> CHR ''*'' \<in> set (trim s)"
proof -
  assume "CHR ''*'' \<in> set s"
  then have "CHR ''*'' \<in> set (trim_start s)"
    unfolding trim_start_def by (rule drop_encodings_keeps) (rule star_not_space)
  then have "CHR ''*'' \<in> set (rev (trim_start s))" by simp
  then have "CHR ''*'' \<in> set (drop_encodings (map rev whitespace_encodings) (rev (trim_start s)))"
    by (rule drop_encodings_keeps) (use star_not_space in simp)
  then show ?thesis by (simp add: trim_def trim_end_def)
qed

lemma valid_host_no_star: "is_valid_host (to_ascii_lowercase raw) \<Longrightarrow> CHR ''*'' \<notin> set raw"
  using valid_host_chars [of "to_ascii_lowercase raw" "CHR ''*''"] lower_char_mem [OF star_caseless, of raw]
  by (auto simp: is_ascii_alphanumeric_def byte_def)

text \<open>The part of a header that \<open>normalize_host\<close> takes as the name.\<close>

lemma normalize_host_raw:
  assumes "normalize_host h = Some n"
  obtains raw where "trim h = raw \<or> (\<exists>port. trim h = raw @ CHR '':'' # port)"
    and "n = to_ascii_lowercase (trim raw)" and "is_valid_host n"
proof (cases "rsplit_once CHR '':'' (trim h)")
  case None
  then show thesis using assms that [of "trim h"]
    by (auto simp: normalize_host_plain host_name_def Let_def split: if_splits)
next
  case (Some p)
  then obtain a b where p: "rsplit_once CHR '':'' (trim h) = Some (a, b)" by (cases p) simp
  then show thesis using assms that [of a] p [unfolded rsplit_once_Some]
    by (auto simp: normalize_host_port [OF p] host_name_def Let_def split: if_splits)
qed

lemma host_no_star: "normalize_host h = Some n \<Longrightarrow> \<not> starts_with (trim h) ''*''"
proof
  assume n: "normalize_host h = Some n" and star: "starts_with (trim h) ''*''"
  from n obtain raw where raw: "trim h = raw \<or> (\<exists>port. trim h = raw @ CHR '':'' # port)"
      "n = to_ascii_lowercase (trim raw)" "is_valid_host n"
    by (rule normalize_host_raw)
  have "raw \<noteq> []" using raw(2,3) by (auto simp: is_valid_host_def)
  then have "CHR ''*'' \<in> set raw" using raw(1) star by (cases raw) auto
  then have "CHR ''*'' \<in> set (trim raw)" by (rule star_trim)
  then show False using valid_host_no_star raw(2,3) by blast
qed

lemma host_kind_exact: "host_kind h = ExactHost n \<longleftrightarrow> normalize_host h = Some n"
proof
  show "host_kind h = ExactHost n \<Longrightarrow> normalize_host h = Some n"
    by (auto simp: host_kind_def Let_def normalize_host_pattern split: if_splits option.splits)
  assume n: "normalize_host h = Some n"
  then have "\<not> starts_with (to_ascii_lowercase (trim h)) ''*''"
    using host_no_star star_lowercase by blast
  then show "host_kind h = ExactHost n"
    using n by (auto simp: host_kind_def Let_def normalize_host_pattern str_simps
        split: option.split)
qed

lemma exact_hosts_iff:
  "n \<in> set (exact_hosts_for_origin m i) \<longleftrightarrow>
     (\<exists>(h, c) \<in> set (hosts m). host_origin c = i \<and> host_kind h = ExactHost n)"
  by (auto simp: exact_hosts_for_origin_def set_filter_map host_kind_exact dest: host_no_star)

section \<open>Properties\<close>

text \<open>The exact hosts of an origin are the host names of its exact entries, however they are written in
the manifest; wildcard entries and ill-formed hosts are left out.\<close>

theorem exact_hosts_of_origin:
  "n \<in> set (exact_hosts_for_origin m i) \<longleftrightarrow>
     (\<exists>(h, c) \<in> set (hosts m). host_origin c = i \<and> host_kind h = ExactHost n)"
  by (rule exact_hosts_iff)

end
