(* ===== verification/Cdn_Api.thy ===== *)
theory Cdn_Api
  imports Cdn_Refresh Actions Cdn_Hosts
begin

text \<open>
  What the providers of CDNs share (\<open>src/repositories/cdn.rs\<close>): the requests and results of
  the reconciliation of domains and tenants, the environment the repositories are built
  from, and the services that ask for a reconciliation (\<open>src/services/cdn_domains.rs\<close>,
  \<open>src/services/cdn_tenants.rs\<close>).
\<close>

section \<open>The environment\<close>

datatype var_error = NotPresent | NotUnicode string

type_synonym environment = "string \<Rightarrow> var_error + string"

fun var_error_display :: "var_error \<Rightarrow> string" where
  "var_error_display NotPresent = ''environment variable not found''"
| "var_error_display (NotUnicode raw) = ''environment variable was not valid unicode: '' @ raw"

text \<open>\<open>env::var(key).with_context(...)\<close>\<close>

definition read_env :: "environment \<Rightarrow> string \<Rightarrow> string \<Rightarrow> string res" where
  "read_env env what key =
     with_context (what @ key) (map_err (\<lambda>e. ErrorMsg (var_error_display e)) (env key))"

section \<open>Requests and results\<close>

record domain_request =
  dr_origin_id :: string
  dr_desired_domains :: "string bset"
  dr_origin_domain :: string
  dr_certificate_arn :: "string option"
  dr_proxied :: bool
  dr_remove_extra_domains :: bool

record domain_result =
  dres_provider :: string
  dres_status :: string
  dres_added :: nat
  dres_updated :: nat
  dres_removed :: nat
  dres_unchanged :: nat

record certificate_request =
  cert_validation_token_host :: string

record tenant_config =
  tc_distribution_id :: string
  tc_connection_group_id :: "string option"
  tc_parameters :: "(string, string) btree"
  tc_managed_certificate :: "certificate_request option"

record tenant_request =
  tr_origin_id :: string
  tr_desired_domains :: "string bset"

type_synonym 'w domain_reconcile = "domain_request \<Rightarrow> ('w, anyhow, domain_result) action"

type_synonym 'w tenant_reconcile = "tenant_request \<Rightarrow> ('w, anyhow, domain_result) action"

section \<open>The domains of an origin\<close>

text \<open>
  \<open>OriginCdnDomains\<close>: the repository is what reconciles; the constructors of the
  repositories are parameters.
\<close>

record 'w origin_cdn_domains =
  ocd_repository :: "'w domain_reconcile"
  ocd_config :: cdn_domain_config
  ocd_origin_domain :: string
  ocd_certificate_arn :: "string option"

definition domains_from_config ::
    "environment \<Rightarrow> (string \<Rightarrow> 'w domain_reconcile res) \<Rightarrow> (cloudflare_config \<Rightarrow> 'w domain_reconcile res) \<Rightarrow>
     cdn_config \<Rightarrow> 'w origin_cdn_domains option res" where
  "domains_from_config env cloudfront cloudflare config =
     (case cdn_domains config of
        None \<Rightarrow> Inr None
      | Some domain_config \<Rightarrow>
          if \<not> dom_enabled domain_config then Inr None
          else
            try_then (read_env env ''read CDN origin domain env '' (dom_origin_domain_env domain_config))
              (\<lambda>origin_domain.
            try_then (transpose (map_option (read_env env ''read CDN certificate ARN env '')
                (dom_certificate_arn_env domain_config))) (\<lambda>certificate_arn.
            try_then
              (case config of
                 CloudFront c \<Rightarrow>
                   try_then (fail_if (certificate_arn = None)
                     (ErrorMsg ''CloudFront domain reconciliation requires certificate_arn_env'')) (\<lambda>_.
                   cloudfront (cf_distribution_id_env c))
               | Cloudflare c \<Rightarrow>
                   (case dom_mode domain_config of
                      DnsRecords \<Rightarrow> cloudflare c
                    | CustomHostnames \<Rightarrow>
                        Inl (ErrorMsg ''Cloudflare custom_hostnames domain reconciliation is not implemented''))
               | CloudFrontSaas _ \<Rightarrow>
                   Inl (ErrorMsg ''CloudFront SaaS domain reconciliation is not implemented''))
              (\<lambda>repository.
            Inr (Some \<lparr>ocd_repository = repository, ocd_config = domain_config,
                       ocd_origin_domain = origin_domain, ocd_certificate_arn = certificate_arn\<rparr>)))))"

definition reconcile_domains ::
    "'w origin_cdn_domains \<Rightarrow> manifest \<Rightarrow> string \<Rightarrow> ('w, anyhow, domain_result) action" where
  "reconcile_domains d m origin_id =
     io_then (ocd_repository d
       \<lparr>dr_origin_id = origin_id,
        dr_desired_domains = desired_domains_for_origin m origin_id (ocd_config d),
        dr_origin_domain = ocd_origin_domain d,
        dr_certificate_arn = ocd_certificate_arn d,
        dr_proxied = dom_proxied (ocd_config d),
        dr_remove_extra_domains = dom_remove_extra_domains (ocd_config d)\<rparr>) io_return"

text \<open>\<open>OriginCdnTenants\<close> holds nothing but the repository.\<close>

definition reconcile_origin_tenants ::
    "'w tenant_reconcile \<Rightarrow> manifest \<Rightarrow> string \<Rightarrow> ('w, anyhow, domain_result) action" where
  "reconcile_origin_tenants repository m origin_id =
     io_then (repository
       \<lparr>tr_origin_id = origin_id, tr_desired_domains = exact_hosts_for_origin m origin_id\<rparr>) io_return"

section \<open>Facts\<close>

lemma read_env_Inr [result_simps]: "read_env env what key = Inr v \<longleftrightarrow> env key = Inr v"
  by (simp add: read_env_def result_simps)

text \<open>A reconciliation service exists only for an enabled configuration that its provider supports.\<close>

lemma domains_from_config_Some:
  assumes "domains_from_config env cloudfront cloudflare config = Inr (Some d)"
  shows "cdn_domains config = Some (ocd_config d) \<and> dom_enabled (ocd_config d) \<and>
    (case config of
       CloudFront c \<Rightarrow> ocd_certificate_arn d \<noteq> None \<and> cloudfront (cf_distribution_id_env c) = Inr (ocd_repository d)
     | Cloudflare c \<Rightarrow> dom_mode (ocd_config d) = DnsRecords \<and> cloudflare c = Inr (ocd_repository d)
     | CloudFrontSaas _ \<Rightarrow> False)"
proof -
  from assms obtain c where c: "cdn_domains config = Some c" "dom_enabled c"
    by (auto simp: domains_from_config_def split: option.splits if_splits)
  show ?thesis
    using assms c
    by (cases config; cases "dom_mode c") (auto simp: domains_from_config_def result_simps)
qed

end
