(* ===== verification/Cloudflare_Cdn.thy ===== *)
theory Cloudflare_Cdn
  imports Cdn_Api
begin

text \<open>
  The Cloudflare client (\<open>src/repositories/cloudflare_cdn.rs\<close>): purging the cache and
  reconciling DNS records. \<open>reqwest\<close> and serde's parsers of the two responses are parameters;
  the state \<open>'w\<close> is whatever the requests act on.
\<close>

section \<open>Requests over HTTP\<close>

record http_request =
  http_method :: string
  http_url :: string
  http_bearer :: string
  http_query :: "(string \<times> string) list"
  http_json :: "json option"

text \<open>A response is its status and the text of its body, or the error of reading it.\<close>

record http_response =
  resp_status :: u16
  resp_text :: "string + string"

record dns_record =
  dns_id :: string
  dns_type :: string
  dns_name :: string
  dns_content :: string
  dns_proxied :: bool

record purge_response =
  pr_success :: bool
  pr_result :: "string option option"

record dns_list_response =
  dlr_success :: bool
  dlr_result :: "dns_record list"

record 'w cloudflare_client =
  send :: "http_request \<Rightarrow> ('w, anyhow, http_response) action"
  show_status :: "u16 \<Rightarrow> string"
  parse_purge :: "string \<Rightarrow> string + purge_response"
  parse_list :: "string \<Rightarrow> string + dns_list_response"

record cloudflare_repository =
  clf_api_base :: string
  clf_zone_id :: string
  clf_api_token :: string

definition is_success :: "u16 \<Rightarrow> bool" where
  "is_success status \<longleftrightarrow> 200 \<le> unat status \<and> unat status < 300"

text \<open>\<open>response.text().await.unwrap_or_default()\<close>\<close>

definition body_text :: "http_response \<Rightarrow> string" where
  "body_text response = (case resp_text response of Inr body \<Rightarrow> body | Inl _ \<Rightarrow> [])"

section \<open>Building the repository\<close>

definition DEFAULT_CLOUDFLARE_API_BASE :: string where
  "DEFAULT_CLOUDFLARE_API_BASE = ''https://api.cloudflare.com/client/v4''"

definition cloudflare_new :: "(string \<Rightarrow> string + url) \<Rightarrow> string \<Rightarrow> string \<Rightarrow> string \<Rightarrow> cloudflare_repository res" where
  "cloudflare_new parse_url api_base zone_id api_token =
     (let base = trim_end_matches CHR ''/'' api_base in
      try_then (with_context (''parse Cloudflare API base '' @ base) (map_err ErrorMsg (parse_url base)))
        (\<lambda>_. Inr \<lparr>clf_api_base = base, clf_zone_id = zone_id, clf_api_token = api_token\<rparr>))"

definition cloudflare_from_config ::
    "environment \<Rightarrow> (string \<Rightarrow> string + url) \<Rightarrow> cloudflare_config \<Rightarrow> cloudflare_repository res" where
  "cloudflare_from_config env parse_url config =
     try_then (read_env env ''read Cloudflare zone id env '' (fl_zone_id_env config)) (\<lambda>zone_id.
     try_then (read_env env ''read Cloudflare API token env '' (fl_api_token_env config)) (\<lambda>api_token.
     try_then (transpose (map_option (read_env env ''read Cloudflare API base env '') (fl_api_base_env config)))
       (\<lambda>api_base.
     cloudflare_new parse_url
       (case api_base of Some base \<Rightarrow> base | None \<Rightarrow> DEFAULT_CLOUDFLARE_API_BASE) zone_id api_token)))"

section \<open>Purging\<close>

fun purge_body :: "cloudflare_payload \<Rightarrow> json" where
  "purge_body PurgeEverything = JObject [(''purge_everything'', JBool True)]"
| "purge_body (PurgeFiles urls) = JObject [(''files'', JArray (map JString urls))]"

fun payload_items :: "cloudflare_payload \<Rightarrow> nat" where
  "payload_items PurgeEverything = 1"
| "payload_items (PurgeFiles urls) = length urls"

definition zone_url :: "cloudflare_repository \<Rightarrow> string \<Rightarrow> string" where
  "zone_url repo rest = clf_api_base repo @ ''/zones/'' @ clf_zone_id repo @ rest"

definition purge_outcome :: "'w cloudflare_client \<Rightarrow> nat \<Rightarrow> http_response \<Rightarrow> purge_result res" where
  "purge_outcome client items response =
     (let body = body_text response; parsed = result_ok (parse_purge client body) in
      try_then (fail_if (\<not> is_success (resp_status response))
        (ErrorMsg (''Cloudflare cache purge failed with status '' @ show_status client (resp_status response) @
           '': '' @ body))) (\<lambda>_.
      try_then (fail_if (map_option pr_success parsed = Some False)
        (ErrorMsg (''Cloudflare cache purge response was not successful: '' @ body))) (\<lambda>_.
      Inr \<lparr>purge_provider = ''cloudflare'',
           purge_request_ids =
             (case Option.bind (Option.bind parsed pr_result) (\<lambda>i. i) of Some i \<Rightarrow> [i] | None \<Rightarrow> []),
           purge_status = ''submitted'', purge_submitted_items = items\<rparr>)))"

definition cloudflare_purge_request ::
    "'w cloudflare_client \<Rightarrow> cloudflare_repository \<Rightarrow> purge_request \<Rightarrow> ('w, anyhow, purge_result) action" where
  "cloudflare_purge_request client repo request =
     io_then (io_lift (ensure_cloudflare_mode (purge_request.purge_mode request))) (\<lambda>payload.
     io_then (io_with_context (''send Cloudflare cache purge for '' @ purge_origin_id request)
       (send client \<lparr>http_method = ''POST'', http_url = zone_url repo ''/purge_cache'',
          http_bearer = clf_api_token repo, http_query = [], http_json = Some (purge_body payload)\<rparr>))
       (\<lambda>response.
     io_lift (purge_outcome client (payload_items payload) response)))"

definition cloudflare_purge :: "'w cloudflare_client \<Rightarrow> cloudflare_repository \<Rightarrow> 'w purge" where
  "cloudflare_purge client repo request =
     io_map_err OtherPurgeError (cloudflare_purge_request client repo request)"

section \<open>DNS records\<close>

definition list_dns_records ::
    "'w cloudflare_client \<Rightarrow> cloudflare_repository \<Rightarrow> ('w, anyhow, dns_record list) action" where
  "list_dns_records client repo =
     io_then (io_with_context ''list Cloudflare DNS records''
       (send client \<lparr>http_method = ''GET'', http_url = zone_url repo ''/dns_records'',
          http_bearer = clf_api_token repo, http_query = [(''type'', ''CNAME'')], http_json = None\<rparr>))
       (\<lambda>response.
     io_lift (let body = body_text response in
       try_then (fail_if (\<not> is_success (resp_status response))
         (ErrorMsg (''Cloudflare DNS record list failed with status '' @
            show_status client (resp_status response) @ '': '' @ body))) (\<lambda>_.
       try_then (with_context (''parse Cloudflare DNS record list response: '' @ body)
         (map_err ErrorMsg (parse_list client body))) (\<lambda>listed.
       try_then (fail_if (\<not> dlr_success listed)
         (ErrorMsg (''Cloudflare DNS record list response was not successful: '' @ body))) (\<lambda>_.
       Inr (dlr_result listed))))))"

definition cname_body :: "string \<Rightarrow> string \<Rightarrow> bool \<Rightarrow> json" where
  "cname_body name content proxied =
     JObject [(''content'', JString content), (''name'', JString name), (''proxied'', JBool proxied),
       (''ttl'', JNumber ''1''), (''type'', JString ''CNAME'')]"

definition send_dns_record_mutation ::
    "'w cloudflare_client \<Rightarrow> cloudflare_repository \<Rightarrow> string \<Rightarrow> string \<Rightarrow> string \<Rightarrow> string \<Rightarrow> bool \<Rightarrow> string \<Rightarrow>
     ('w, anyhow, unit) action" where
  "send_dns_record_mutation client repo verb url name content proxied context_text =
     io_then (io_with_context context_text
       (send client \<lparr>http_method = verb, http_url = url, http_bearer = clf_api_token repo,
          http_query = [], http_json = Some (cname_body name content proxied)\<rparr>)) (\<lambda>response.
     io_lift (fail_if (\<not> is_success (resp_status response))
       (ErrorMsg (''Cloudflare DNS record mutation failed with status '' @
          show_status client (resp_status response) @ '': '' @ body_text response))))"

definition create_dns_record ::
    "'w cloudflare_client \<Rightarrow> cloudflare_repository \<Rightarrow> string \<Rightarrow> string \<Rightarrow> bool \<Rightarrow> ('w, anyhow, unit) action" where
  "create_dns_record client repo name content proxied =
     send_dns_record_mutation client repo ''POST'' (zone_url repo ''/dns_records'') name content proxied
       ''create Cloudflare DNS record''"

definition update_dns_record ::
    "'w cloudflare_client \<Rightarrow> cloudflare_repository \<Rightarrow> dns_record \<Rightarrow> string \<Rightarrow> bool \<Rightarrow> ('w, anyhow, unit) action" where
  "update_dns_record client repo rec content proxied =
     send_dns_record_mutation client repo ''PUT'' (zone_url repo (''/dns_records/'' @ dns_id rec))
       (dns_name rec) content proxied ''update Cloudflare DNS record''"

definition delete_dns_record ::
    "'w cloudflare_client \<Rightarrow> cloudflare_repository \<Rightarrow> string \<Rightarrow> ('w, anyhow, unit) action" where
  "delete_dns_record client repo record_id =
     io_then (io_with_context ''delete Cloudflare DNS record''
       (send client \<lparr>http_method = ''DELETE'', http_url = zone_url repo (''/dns_records/'' @ record_id),
          http_bearer = clf_api_token repo, http_query = [], http_json = None\<rparr>)) (\<lambda>response.
     io_lift (fail_if (\<not> is_success (resp_status response))
       (ErrorMsg (''Cloudflare DNS record delete failed with status '' @
          show_status client (resp_status response) @ '': '' @ body_text response))))"

section \<open>Reconciling\<close>

text \<open>The counters of the loop.\<close>

record tally =
  added :: nat
  updated :: nat
  unchanged :: nat

definition record_for :: "dns_record list \<Rightarrow> string \<Rightarrow> dns_record option" where
  "record_for records domain = find (\<lambda>r. eq_ignore_ascii_case (dns_name r) domain) records"

definition record_current :: "domain_request \<Rightarrow> dns_record \<Rightarrow> bool" where
  "record_current request r \<longleftrightarrow>
     dns_type r = ''CNAME'' \<and> dns_content r = dr_origin_domain request \<and> dns_proxied r = dr_proxied request"

fun reconcile_records ::
    "'w cloudflare_client \<Rightarrow> cloudflare_repository \<Rightarrow> domain_request \<Rightarrow> dns_record list \<Rightarrow> string list \<Rightarrow>
     tally \<Rightarrow> ('w, anyhow, tally) action" where
  "reconcile_records client repo request records [] t = io_return t"
| "reconcile_records client repo request records (domain # domains) t =
     (case record_for records domain of
        Some r \<Rightarrow>
          if record_current request r then
            reconcile_records client repo request records domains (t\<lparr>unchanged := Suc (unchanged t)\<rparr>)
          else
            io_then (update_dns_record client repo r (dr_origin_domain request) (dr_proxied request)) (\<lambda>_.
            reconcile_records client repo request records domains (t\<lparr>updated := Suc (updated t)\<rparr>))
      | None \<Rightarrow>
          io_then (create_dns_record client repo domain (dr_origin_domain request) (dr_proxied request)) (\<lambda>_.
          reconcile_records client repo request records domains (t\<lparr>added := Suc (added t)\<rparr>)))"

definition is_extra :: "domain_request \<Rightarrow> dns_record \<Rightarrow> bool" where
  "is_extra request r \<longleftrightarrow>
     dns_type r = ''CNAME'' \<and> dns_content r = dr_origin_domain request \<and>
     dns_name r \<notin> set (dr_desired_domains request)"

fun remove_extra_records ::
    "'w cloudflare_client \<Rightarrow> cloudflare_repository \<Rightarrow> domain_request \<Rightarrow> dns_record list \<Rightarrow> nat \<Rightarrow>
     ('w, anyhow, nat) action" where
  "remove_extra_records client repo request [] removed = io_return removed"
| "remove_extra_records client repo request (r # records) removed =
     (if is_extra request r then
        io_then (delete_dns_record client repo (dns_id r)) (\<lambda>_.
        remove_extra_records client repo request records (Suc removed))
      else remove_extra_records client repo request records removed)"

definition cloudflare_reconcile ::
    "'w cloudflare_client \<Rightarrow> cloudflare_repository \<Rightarrow> 'w domain_reconcile" where
  "cloudflare_reconcile client repo request =
     io_then (list_dns_records client repo) (\<lambda>records.
     io_then (reconcile_records client repo request records (dr_desired_domains request)
       \<lparr>added = 0, updated = 0, unchanged = 0\<rparr>) (\<lambda>t.
     io_then (if dr_remove_extra_domains request then remove_extra_records client repo request records 0
              else io_return 0) (\<lambda>removed.
     io_return \<lparr>dres_provider = ''cloudflare'', dres_status = ''submitted'', dres_added = added t,
       dres_updated = updated t, dres_removed = removed, dres_unchanged = unchanged t\<rparr>)))"


section \<open>The requests of a reconciliation\<close>

text \<open>The same client with a log of its requests.\<close>

definition logged :: "'w cloudflare_client \<Rightarrow> ('w \<times> http_request list) cloudflare_client" where
  "logged client =
     \<lparr>send = (\<lambda>request (w, log). case send client request w of (r, v) \<Rightarrow> (r, (v, log @ [request]))),
      show_status = show_status client, parse_purge = parse_purge client, parse_list = parse_list client\<rparr>"

text \<open>What a reconciliation is to send, given the records it found.\<close>

definition list_call :: "cloudflare_repository \<Rightarrow> http_request" where
  "list_call repo = \<lparr>http_method = ''GET'', http_url = zone_url repo ''/dns_records'',
     http_bearer = clf_api_token repo, http_query = [(''type'', ''CNAME'')], http_json = None\<rparr>"

definition create_call :: "cloudflare_repository \<Rightarrow> domain_request \<Rightarrow> string \<Rightarrow> http_request" where
  "create_call repo request domain = \<lparr>http_method = ''POST'', http_url = zone_url repo ''/dns_records'',
     http_bearer = clf_api_token repo, http_query = [],
     http_json = Some (cname_body domain (dr_origin_domain request) (dr_proxied request))\<rparr>"

definition update_call :: "cloudflare_repository \<Rightarrow> domain_request \<Rightarrow> dns_record \<Rightarrow> http_request" where
  "update_call repo request r = \<lparr>http_method = ''PUT'', http_url = zone_url repo (''/dns_records/'' @ dns_id r),
     http_bearer = clf_api_token repo, http_query = [],
     http_json = Some (cname_body (dns_name r) (dr_origin_domain request) (dr_proxied request))\<rparr>"

definition delete_call :: "cloudflare_repository \<Rightarrow> dns_record \<Rightarrow> http_request" where
  "delete_call repo r = \<lparr>http_method = ''DELETE'', http_url = zone_url repo (''/dns_records/'' @ dns_id r),
     http_bearer = clf_api_token repo, http_query = [], http_json = None\<rparr>"

definition domain_call :: "cloudflare_repository \<Rightarrow> domain_request \<Rightarrow> dns_record list \<Rightarrow> string \<Rightarrow> http_request option" where
  "domain_call repo request records domain =
     (case record_for records domain of
        None \<Rightarrow> Some (create_call repo request domain)
      | Some r \<Rightarrow> if record_current request r then None else Some (update_call repo request r))"

definition planned_calls :: "cloudflare_repository \<Rightarrow> domain_request \<Rightarrow> dns_record list \<Rightarrow> http_request list" where
  "planned_calls repo request records =
     list_call repo # filter_map (domain_call repo request records) (dr_desired_domains request) @
     (if dr_remove_extra_domains request then map (delete_call repo) (filter (is_extra request) records) else [])"

text \<open>A computation that sends one request, whatever comes of it.\<close>

definition sends :: "('w \<times> http_request list, 'e, 'a) action \<Rightarrow> http_request \<Rightarrow> bool" where
  "sends m call \<longleftrightarrow> (\<forall>w log. snd (snd (m (w, log))) = log @ [call])"

lemma sends_logged: "sends (send (logged client) call) call"
  by (simp add: sends_def logged_def split: prod.split)

lemma sends_then_lift: "sends m call \<Longrightarrow> sends (io_then (io_with_context c m) (\<lambda>x. io_lift (f x))) call"
  unfolding sends_def io_then_def io_map_err_def io_lift_def
  by (simp split: prod.split sum.split) (metis snd_conv)

lemma sends_dns:
  "sends (list_dns_records (logged client) repo) (list_call repo)"
  "sends (create_dns_record (logged client) repo domain (dr_origin_domain request) (dr_proxied request))
     (create_call repo request domain)"
  "sends (update_dns_record (logged client) repo r (dr_origin_domain request) (dr_proxied request))
     (update_call repo request r)"
  "sends (delete_dns_record (logged client) repo (dns_id r)) (delete_call repo r)"
  unfolding list_dns_records_def create_dns_record_def update_dns_record_def delete_dns_record_def
    send_dns_record_mutation_def list_call_def create_call_def update_call_def delete_call_def
  by (rule sends_then_lift, rule sends_logged)+

lemma sendsD: "sends m call \<Longrightarrow> m (w, log) = (r, v, log') \<Longrightarrow> log' = log @ [call]"
  unfolding sends_def by (metis snd_conv)

lemma io_then_sends:
  assumes "sends m call" and "io_then m f (w, log) = (r, v, log')"
  obtains (fails) e where "m (w, log) = (Inl e, v, log')" and "log' = log @ [call]" and "r = Inl e"
  | (goes_on) x u where "m (w, log) = (Inr x, u, log @ [call])" and "f x (u, log @ [call]) = (r, v, log')"
  using assms(2)
proof (cases rule: io_then_cases)
  case (fails e)
  then show ?thesis using that(1) sendsD [OF assms(1)] by blast
next
  case (goes_on x s)
  then show ?thesis using that(2) sendsD [OF assms(1)] by (metis prod.collapse)
qed

lemma reconcile_records_calls:
  assumes "reconcile_records (logged client) repo request records domains t (w, log) = (r, v, log')"
  shows "\<exists>sent. log' = log @ sent \<and> prefix sent (filter_map (domain_call repo request records) domains) \<and>
    (isl r \<or> sent = filter_map (domain_call repo request records) domains)"
  using assms
proof (induction domains arbitrary: t w log)
  case Nil
  then show ?case by (auto simp: io_return_def)
next
  case (Cons domain domains)
  note run = Cons.prems
  show ?case
  proof (cases "record_for records domain")
    case None
    then have call: "domain_call repo request records domain = Some (create_call repo request domain)"
      by (simp add: domain_call_def)
    from run None have "io_then (create_dns_record (logged client) repo domain (dr_origin_domain request) (dr_proxied request))
        (\<lambda>_. reconcile_records (logged client) repo request records domains (t\<lparr>added := Suc (added t)\<rparr>)) (w, log) = (r, v, log')"
      by simp
    from sends_dns(2) this show ?thesis
    proof (cases rule: io_then_sends)
      case (fails e)
      then show ?thesis by (simp add: call)
    next
      case (goes_on x u)
      from Cons.IH [OF goes_on(2)] show ?thesis by (auto simp: call)
    qed
  next
    case (Some rec)
    show ?thesis
    proof (cases "record_current request rec")
      case True
      then have "domain_call repo request records domain = None" by (simp add: domain_call_def Some)
      then show ?thesis using run Cons.IH [of "t\<lparr>unchanged := Suc (unchanged t)\<rparr>" w log] Some True by simp
    next
      case False
      then have call: "domain_call repo request records domain = Some (update_call repo request rec)"
        by (simp add: domain_call_def Some)
      from run Some False have "io_then (update_dns_record (logged client) repo rec (dr_origin_domain request) (dr_proxied request))
          (\<lambda>_. reconcile_records (logged client) repo request records domains (t\<lparr>updated := Suc (updated t)\<rparr>)) (w, log) = (r, v, log')"
        by simp
      from sends_dns(3) this show ?thesis
      proof (cases rule: io_then_sends)
        case (fails e)
        then show ?thesis by (simp add: call)
      next
        case (goes_on x u)
        from Cons.IH [OF goes_on(2)] show ?thesis by (auto simp: call)
      qed
    qed
  qed
qed

lemma reconcile_records_tally:
  assumes "reconcile_records client repo request records domains t w = (Inr t', v)"
  shows "added t' = added t + length (filter (\<lambda>d. record_for records d = None) domains) \<and>
    updated t' = updated t + length (filter (\<lambda>d. \<exists>r. record_for records d = Some r \<and> \<not> record_current request r) domains) \<and>
    unchanged t' = unchanged t + length (filter (\<lambda>d. \<exists>r. record_for records d = Some r \<and> record_current request r) domains)"
  using assms
proof (induction domains arbitrary: t w)
  case Nil
  then show ?case by (simp add: io_return_def)
next
  case (Cons domain domains)
  from Cons.prems obtain t1 w1 where rest: "reconcile_records client repo request records domains t1 w1 = (Inr t', v)"
      and t1: "t1 = (case record_for records domain of None \<Rightarrow> t\<lparr>added := Suc (added t)\<rparr>
        | Some r \<Rightarrow> if record_current request r then t\<lparr>unchanged := Suc (unchanged t)\<rparr> else t\<lparr>updated := Suc (updated t)\<rparr>)"
    by (auto simp: io_then_Inr split: option.splits if_splits)
  show ?case using Cons.IH [OF rest] by (simp add: t1 split: option.split)
qed

lemma length_planned:
  "length (filter_map (domain_call repo request records) domains) =
     length (filter (\<lambda>d. record_for records d = None) domains) +
     length (filter (\<lambda>d. \<exists>r. record_for records d = Some r \<and> \<not> record_current request r) domains)"
  by (induction domains) (auto simp: domain_call_def split: option.split)

lemma length_domains:
  "length (filter (\<lambda>d. record_for records d = None) domains) +
   length (filter (\<lambda>d. \<exists>r. record_for records d = Some r \<and> \<not> record_current request r) domains) +
   length (filter (\<lambda>d. \<exists>r. record_for records d = Some r \<and> record_current request r) domains) = length domains"
  by (induction domains) auto

lemma remove_extra_records_calls:
  assumes "remove_extra_records (logged client) repo request records n (w, log) = (r, v, log')"
  shows "\<exists>sent. log' = log @ sent \<and> prefix sent (map (delete_call repo) (filter (is_extra request) records)) \<and>
    (\<forall>m. r = Inr m \<longrightarrow> sent = map (delete_call repo) (filter (is_extra request) records) \<and> m = n + length sent)"
  using assms
proof (induction records arbitrary: n w log)
  case Nil
  then show ?case by (auto simp: io_return_def)
next
  case (Cons rec records)
  show ?case
  proof (cases "is_extra request rec")
    case True
    with Cons.prems have "io_then (delete_dns_record (logged client) repo (dns_id rec))
        (\<lambda>_. remove_extra_records (logged client) repo request records (Suc n)) (w, log) = (r, v, log')" by simp
    from sends_dns(4) this show ?thesis
    proof (cases rule: io_then_sends)
      case (fails e)
      then show ?thesis by (simp add: True)
    next
      case (goes_on x u)
      from Cons.IH [OF goes_on(2)] show ?thesis by (auto simp: True)
    qed
  next
    case False
    then show ?thesis using Cons by simp
  qed
qed


definition found_records :: "'w cloudflare_client \<Rightarrow> cloudflare_repository \<Rightarrow> 'w \<Rightarrow> dns_record list" where
  "found_records client repo w = (case fst (list_dns_records client repo w) of Inr records \<Rightarrow> records | Inl _ \<Rightarrow> [])"

lemma list_logged:
  "fst (list_dns_records (logged client) repo (w, log)) = fst (list_dns_records client repo w)"
  by (simp add: list_dns_records_def logged_def io_then_def io_map_err_def io_lift_def body_text_def
      split: prod.split sum.split)

definition missing_domains :: "dns_record list \<Rightarrow> domain_request \<Rightarrow> string list" where
  "missing_domains records request = filter (\<lambda>d. record_for records d = None) (dr_desired_domains request)"

lemma cloudflare_calls:
  assumes "cloudflare_reconcile (logged client) repo request (w, []) = (r, (v, log))"
  shows "prefix log (planned_calls repo request (found_records client repo w)) \<and>
    (\<forall>result. r = Inr result \<longrightarrow> log = planned_calls repo request (found_records client repo w) \<and>
       dres_added result = length (missing_domains (found_records client repo w) request) \<and>
       dres_added result + dres_updated result + dres_unchanged result = length (dr_desired_domains request) \<and>
       Suc (dres_added result + dres_updated result + dres_removed result) = length log)"
proof -
  let ?records = "found_records client repo w"
  let ?domains = "filter_map (domain_call repo request ?records) (dr_desired_domains request)"
  let ?extra = "map (delete_call repo) (filter (is_extra request) ?records)"
  define removal where "removal = (if dr_remove_extra_domains request
    then remove_extra_records (logged client) repo request ?records 0 else io_return 0)"
  from assms have "io_then (list_dns_records (logged client) repo) (\<lambda>records.
     io_then (reconcile_records (logged client) repo request records (dr_desired_domains request)
       \<lparr>added = 0, updated = 0, unchanged = 0\<rparr>) (\<lambda>t.
     io_then (if dr_remove_extra_domains request then remove_extra_records (logged client) repo request records 0
              else io_return 0) (\<lambda>removed.
     io_return \<lparr>dres_provider = ''cloudflare'', dres_status = ''submitted'', dres_added = added t,
       dres_updated = updated t, dres_removed = removed, dres_unchanged = unchanged t\<rparr>))) (w, []) = (r, v, log)"
    by (simp only: cloudflare_reconcile_def)
  from sends_dns(1) this show ?thesis
  proof (cases rule: io_then_sends)
    case (fails e)
    then show ?thesis by (simp add: planned_calls_def)
  next
    case (goes_on records s)
    from goes_on(1) have "fst (list_dns_records client repo w) = Inr records"
      using list_logged [of client repo w "[]"] by (metis fst_conv)
    then have records: "records = ?records" by (simp add: found_records_def)
    from goes_on(2) [unfolded records] show ?thesis
    proof (cases rule: io_then_cases)
      case (fails e)
      obtain v1 log1 where s: "s = s" and out: "reconcile_records (logged client) repo request ?records (dr_desired_domains request)
          \<lparr>added = 0, updated = 0, unchanged = 0\<rparr> (s, [list_call repo]) = (Inl e, v, log)"
        using fails by simp
      from reconcile_records_calls [OF out] fails(2) show ?thesis
        by (auto simp: planned_calls_def intro: prefix_prefix)
    next
      case (goes_on t s')
      obtain u log1 where s': "s' = (u, log1)" by fastforce
      from reconcile_records_calls [OF goes_on(1) [unfolded s']]
      have log1: "log1 = list_call repo # ?domains" by simp
      have t: "added t = length (missing_domains ?records request)"
           "added t + updated t + unchanged t = length (dr_desired_domains request)"
           "added t + updated t = length ?domains"
        using reconcile_records_tally [OF goes_on(1)] length_planned [of repo request ?records] length_domains [of ?records _ request]
        by (simp_all add: missing_domains_def)
      from goes_on(2) have "io_then removal (\<lambda>removed.
          io_return \<lparr>dres_provider = ''cloudflare'', dres_status = ''submitted'', dres_added = added t,
            dres_updated = updated t, dres_removed = removed, dres_unchanged = unchanged t\<rparr>) (u, log1) = (r, v, log)"
        by (simp only: removal_def s')
      then show ?thesis
      proof (cases rule: io_then_cases)
        case (fails e)
        then show ?thesis using remove_extra_records_calls [of client repo request ?records 0 u log1 "Inl e" v log] log1
          by (auto simp: removal_def planned_calls_def io_return_def split: if_splits)
      next
        case (goes_on removed s2)
        have log: "log = planned_calls repo request ?records" "removed + length (list_call repo # ?domains) = length log"
          using goes_on remove_extra_records_calls [of client repo request ?records 0 u log1 "Inr removed" v log] log1
          by (auto simp: removal_def planned_calls_def io_return_def split: if_splits)
        then show ?thesis using goes_on(2) t by (auto simp: io_return_def)
      qed
    qed
  qed
qed

section \<open>An example\<close>

text \<open>A zone with one alias, whose name is written in capitals.\<close>

definition example_record :: dns_record where
  "example_record = \<lparr>dns_id = ''r1'', dns_type = ''CNAME'', dns_name = ''WWW'', dns_content = ''o'', dns_proxied = True\<rparr>"

definition example_zone :: "unit cloudflare_client" where
  "example_zone = \<lparr>send = (\<lambda>_. io_return \<lparr>resp_status = 200, resp_text = Inr []\<rparr>), show_status = (\<lambda>_. []),
     parse_purge = (\<lambda>_. Inl []), parse_list = (\<lambda>_. Inr \<lparr>dlr_success = True, dlr_result = [example_record]\<rparr>)\<rparr>"

definition example_repository :: cloudflare_repository where
  "example_repository = \<lparr>clf_api_base = ''b'', clf_zone_id = ''z'', clf_api_token = ''t''\<rparr>"

definition example_request :: domain_request where
  "example_request = \<lparr>dr_origin_id = ''w'', dr_desired_domains = [''www''], dr_origin_domain = ''o'',
     dr_certificate_arn = None, dr_proxied = True, dr_remove_extra_domains = True\<rparr>"

lemmas example_defs = example_record_def example_zone_def example_repository_def example_request_def

lemma example_found: "found_records example_zone example_repository () = [example_record]"
  by (simp add: found_records_def list_dns_records_def example_zone_def io_then_def io_map_err_def io_lift_def
      io_return_def body_text_def is_success_def)

lemma example_plan:
  "planned_calls example_repository example_request [example_record] =
     [list_call example_repository, delete_call example_repository example_record]"
proof -
  have "record_for [example_record] ''www'' = Some example_record"
    by (simp add: record_for_def example_record_def str_eval)
  then show ?thesis
    by (simp add: planned_calls_def domain_call_def record_current_def is_extra_def example_request_def)
      (simp add: example_record_def)
qed

section \<open>Properties\<close>

text \<open>C30: A reconciliation sends a prefix of a plan made from the listed records: the listing, a creation for every
desired domain without a record and an update for every one whose record is not current, in order, and then, when
extra domains are to be removed, the deletions of the aliases of the origin that are not desired. A successful one
sends the whole plan and counts what it sent.\<close>

theorem cloudflare_reconcile_plan:
  assumes "cloudflare_reconcile (logged client) repo request (w, []) = (r, (v, log))"
  shows "case r of
     Inl _ \<Rightarrow> prefix log (planned_calls repo request (found_records client repo w))
   | Inr result \<Rightarrow> log = planned_calls repo request (found_records client repo w) \<and>
       dres_added result = length (missing_domains (found_records client repo w) request) \<and>
       dres_added result + dres_updated result + dres_unchanged result = length (dr_desired_domains request) \<and>
       Suc (dres_added result + dres_updated result + dres_removed result) = length log"
  using cloudflare_calls [OF assms] by (cases r) auto

theorem cloudflare_reconcile_plan_witness:
  "prefix (snd (snd (cloudflare_reconcile (logged example_zone) example_repository example_request ((), []))))
     [list_call example_repository, delete_call example_repository example_record]"
proof -
  obtain r v log where run: "cloudflare_reconcile (logged example_zone) example_repository example_request ((), []) = (r, v, log)"
    by (metis prod.collapse)
  show ?thesis
    using cloudflare_reconcile_plan [OF run] run by (cases r) (simp_all add: example_found example_plan)
qed

text \<open>The record of a desired domain is looked up without regard to case, but whether a record is extra is
decided with regard to it: the record that was found current is counted as unchanged and then deleted.\<close>

theorem kept_record_is_deleted:
  "eq_ignore_ascii_case (dns_name example_record) ''www'' \<and> record_current example_request example_record \<and>
   (case cloudflare_reconcile (logged example_zone) example_repository example_request ((), []) of
      (Inr result, (_, log)) \<Rightarrow> dres_unchanged result = 1 \<and> dres_removed result = 1 \<and>
        delete_call example_repository example_record \<in> set log
    | (Inl _, _) \<Rightarrow> False)"
  by code_simp

end
