(* ===== verification/Saas_Cdn.thy ===== *)
theory Saas_Cdn
  imports Cdn_Api
begin

text \<open>
  The client for CloudFront SaaS distributions (\<open>src/repositories/cloudfront_saas_cdn.rs\<close>): one
  distribution tenant per exact host, and an invalidation for every tenant. The trait
  \<open>CloudFrontSaasClient\<close> is the record \<open>saas_client\<close>; the state \<open>'w\<close> is what it acts on. SHA-256
  is a parameter that yields the hexadecimal digest.
\<close>

section \<open>Tenants and the client\<close>

record geo_restriction =
  geo_restriction_type :: string
  geo_locations :: "string list option"

record web_acl =
  acl_action :: string
  acl_arn :: "string option"

record tenant_customizations =
  cust_certificate_arn :: "string option"
  cust_geo_restrictions :: "geo_restriction option"
  cust_web_acl :: "web_acl option"

record distribution_tenant =
  ten_id :: string
  ten_name :: string
  ten_distribution_id :: string
  ten_domains :: "string bset"
  ten_connection_group_id :: "string option"
  ten_parameters :: "(string, string) btree"
  ten_customizations :: "tenant_customizations option"
  ten_enabled :: "bool option"

record versioned_tenant =
  ver_tenant :: distribution_tenant
  ver_etag :: string

record tenant_page =
  page_tenants :: "distribution_tenant list"
  page_next_marker :: "string option"

record 'a cloudfront_response =
  cfres_value :: 'a
  cfres_request_id :: "string option"

datatype certificate_lookup = CertificateFound "string option" | CertificateNotFound

record create_tenant_request =
  ctr_distribution_id :: string
  ctr_name :: string
  ctr_domains :: "string bset"
  ctr_connection_group_id :: "string option"
  ctr_parameters :: "(string, string) btree"
  ctr_managed_certificate :: "certificate_request option"
  ctr_enabled :: bool

record update_tenant_request =
  utr_id :: string
  utr_if_match :: string
  utr_tenant :: distribution_tenant
  utr_managed_certificate :: "certificate_request option"

record invalidation_request =
  tir_tenant_id :: string
  tir_caller_reference :: string
  tir_paths :: "string list"

record 'w saas_client =
  get_tenant_by_domain :: "string \<Rightarrow> ('w, anyhow, distribution_tenant option cloudfront_response) action"
  get_tenant :: "string \<Rightarrow> ('w, anyhow, versioned_tenant cloudfront_response) action"
  get_token_host :: "string \<Rightarrow> ('w, anyhow, certificate_lookup cloudfront_response) action"
  list_tenants :: "string \<Rightarrow> string option \<Rightarrow> ('w, anyhow, tenant_page) action"
  create_tenant :: "create_tenant_request \<Rightarrow> ('w, anyhow, distribution_tenant cloudfront_response) action"
  update_tenant :: "update_tenant_request \<Rightarrow> ('w, anyhow, distribution_tenant cloudfront_response) action"
  invalidate_tenant :: "invalidation_request \<Rightarrow> ('w, anyhow, string cloudfront_response) action"

text \<open>\<open>caller_reference_namespace\<close> is the 16 bytes of a random UUID.\<close>

record 'w saas_repository =
  sr_client :: "'w saas_client"
  sr_config :: tenant_config
  sr_exact_hosts :: "string bset"
  sr_namespace :: string

section \<open>The configuration of the tenants\<close>

fun var_error_class :: "var_error \<Rightarrow> string" where
  "var_error_class NotPresent = ''NotPresent''"
| "var_error_class (NotUnicode raw) = ''NotUnicode''"

definition read_environment_variable :: "environment \<Rightarrow> string \<Rightarrow> string res" where
  "read_environment_variable env name =
     try_then (map_err (\<lambda>e. ErrorMsg (''environment variable '' @ name @ '': '' @ var_error_class e)) (env name))
       (\<lambda>value.
     try_then (fail_if (trim value = [])
       (ErrorMsg (''environment variable '' @ name @ '' resolved to an empty value''))) (\<lambda>_.
     Inr value))"

fun certificate_request_of :: "saas_certificate \<Rightarrow> certificate_request" where
  "certificate_request_of (ManagedCertificate TokenHostCloudFront) =
     \<lparr>cert_validation_token_host = ''cloudfront''\<rparr>"

definition resolve_tenant_config :: "environment \<Rightarrow> saas_config \<Rightarrow> tenant_config res" where
  "resolve_tenant_config env config =
     try_then (with_context ''resolve CloudFront SaaS cdn.distribution_id_env''
       (read_environment_variable env (saas_distribution_id_env config))) (\<lambda>distribution_id.
     try_then (transpose (map_option (\<lambda>name. with_context ''resolve CloudFront SaaS cdn.connection_group_id_env''
         (read_environment_variable env name)) (saas_connection_group_id_env config))) (\<lambda>connection_group_id.
     try_then (try_map (\<lambda>(name, env_name).
         try_then (with_context (''resolve CloudFront SaaS cdn.parameters_env.'' @ name)
           (read_environment_variable env env_name)) (\<lambda>value. Inr (name, value)))
         (saas_parameters_env config)) (\<lambda>parameters.
     Inr \<lparr>tc_distribution_id = distribution_id, tc_connection_group_id = connection_group_id,
          tc_parameters = bt_collect parameters,
          tc_managed_certificate = map_option certificate_request_of (saas_certificate_config config)\<rparr>)))"

text \<open>\<open>from_config\<close>: the client with its default configuration is a parameter.\<close>

definition saas_from_config ::
    "environment \<Rightarrow> 'w saas_client \<Rightarrow> string \<Rightarrow> saas_config \<Rightarrow> string bset \<Rightarrow> 'w saas_repository res" where
  "saas_from_config env client namespace config exact_hosts =
     try_then (resolve_tenant_config env config) (\<lambda>tenant_config.
     Inr \<lparr>sr_client = client, sr_config = tenant_config, sr_exact_hosts = exact_hosts, sr_namespace = namespace\<rparr>)"

section \<open>Comparing tenants\<close>

definition merged_tenant :: "tenant_config \<Rightarrow> distribution_tenant \<Rightarrow> string \<Rightarrow> distribution_tenant" where
  "merged_tenant config existing domain =
     \<lparr>ten_id = ten_id existing, ten_name = ten_name existing,
      ten_distribution_id = tc_distribution_id config,
      ten_domains = [domain],
      ten_connection_group_id =
        (case tc_connection_group_id config of Some g \<Rightarrow> Some g | None \<Rightarrow> ten_connection_group_id existing),
      ten_parameters = bt_extend (ten_parameters existing) (tc_parameters config),
      ten_customizations = ten_customizations existing,
      ten_enabled = map_option (\<lambda>_. True) (ten_enabled existing)\<rparr>"

definition managed_certificate_matches :: "tenant_config \<Rightarrow> certificate_lookup option \<Rightarrow> bool" where
  "managed_certificate_matches config managed =
     (case tc_managed_certificate config of
        None \<Rightarrow> True
      | Some request \<Rightarrow>
          (case managed of
             Some (CertificateFound (Some existing)) \<Rightarrow> existing = cert_validation_token_host request
           | Some (CertificateFound None) \<Rightarrow> True
           | Some CertificateNotFound \<Rightarrow> False
           | None \<Rightarrow> False))"

definition tenant_matches :: "tenant_config \<Rightarrow> distribution_tenant \<Rightarrow> string \<Rightarrow> certificate_lookup option \<Rightarrow> bool" where
  "tenant_matches config existing domain managed \<longleftrightarrow>
     existing = merged_tenant config existing domain \<and> managed_certificate_matches config managed"

definition verify_distribution :: "tenant_config \<Rightarrow> distribution_tenant \<Rightarrow> string \<Rightarrow> unit res" where
  "verify_distribution config tenant domain =
     fail_if (ten_distribution_id tenant \<noteq> tc_distribution_id config)
       (ErrorMsg (''CloudFront SaaS tenant '' @ ten_id tenant @ '' for domain '' @ domain @
          '' belongs to distribution '' @ ten_distribution_id tenant @ '', not '' @ tc_distribution_id config))"

definition verify_exact_host :: "distribution_tenant \<Rightarrow> string \<Rightarrow> unit res" where
  "verify_exact_host tenant domain =
     fail_if (ten_domains tenant \<noteq> [domain])
       (ErrorMsg (''CloudFront SaaS tenant '' @ ten_id tenant @ '' found for desired exact host '' @ domain @
          '' also owns other domains; refusing adoption''))"

text \<open>The characters of a string are its bytes that do not continue a character.\<close>

definition deterministic_tenant_name :: "(string \<Rightarrow> string) \<Rightarrow> string \<Rightarrow> string \<Rightarrow> string" where
  "deterministic_tenant_name sha256_hex distribution_id host =
     (let hash = sha256_hex (distribution_id @ CHR 0x00 # host);
          host_prefix = take 100 (map
            (\<lambda>c. if is_ascii_alphanumeric c \<or> c = CHR ''-'' \<or> c = CHR ''.'' then c else CHR ''-'')
            (filter (\<lambda>c. \<not> utf8_tail c) host))
      in ''rendermesh-'' @ host_prefix @ ''-'' @ take 16 hash)"

section \<open>Reconciling tenants\<close>

datatype tenant_step = TenantAdded | TenantUpdated | TenantUnchanged

definition create_for_domain ::
    "(string \<Rightarrow> string) \<Rightarrow> 'w saas_repository \<Rightarrow> string \<Rightarrow> ('w, anyhow, tenant_step) action" where
  "create_for_domain sha256_hex repo domain =
     (let config = sr_config repo in
      io_then (io_with_context (''create CloudFront SaaS tenant for exact domain '' @ domain)
        (create_tenant (sr_client repo)
          \<lparr>ctr_distribution_id = tc_distribution_id config,
           ctr_name = deterministic_tenant_name sha256_hex (tc_distribution_id config) domain,
           ctr_domains = [domain], ctr_connection_group_id = tc_connection_group_id config,
           ctr_parameters = tc_parameters config,
           ctr_managed_certificate = tc_managed_certificate config, ctr_enabled = True\<rparr>)) (\<lambda>_.
      io_return TenantAdded))"

definition certificate_for ::
    "'w saas_repository \<Rightarrow> distribution_tenant \<Rightarrow> ('w, anyhow, certificate_lookup option) action" where
  "certificate_for repo existing =
     (if tc_managed_certificate (sr_config repo) \<noteq> None then
        io_then (io_with_context
          (''get managed certificate details for CloudFront SaaS tenant '' @ ten_id existing)
          (get_token_host (sr_client repo) (ten_id existing))) (\<lambda>certificate.
        io_return (Some (cfres_value certificate)))
      else io_return None)"

definition update_current ::
    "'w saas_repository \<Rightarrow> string \<Rightarrow> distribution_tenant \<Rightarrow> certificate_lookup option \<Rightarrow>
     ('w, anyhow, tenant_step) action" where
  "update_current repo domain existing managed =
     (let config = sr_config repo in
      io_then (io_with_context
        (''get current CloudFront SaaS tenant '' @ ten_id existing @ '' for exact domain '' @ domain)
        (get_tenant (sr_client repo) (ten_id existing))) (\<lambda>response.
      let current = cfres_value response; tenant = ver_tenant current in
      io_then (io_lift (verify_distribution config tenant domain)) (\<lambda>_.
      io_then (io_lift (verify_exact_host tenant domain)) (\<lambda>_.
      if tenant_matches config tenant domain managed then io_return TenantUnchanged
      else
        io_then (io_with_context
          (''update CloudFront SaaS tenant '' @ ten_id tenant @ '' for exact domain '' @ domain)
          (update_tenant (sr_client repo)
            \<lparr>utr_id = ten_id tenant, utr_if_match = ver_etag current,
             utr_tenant = merged_tenant config tenant domain,
             utr_managed_certificate =
               (if managed_certificate_matches config managed then None
                else tc_managed_certificate config)\<rparr>)) (\<lambda>_.
        io_return TenantUpdated)))))"

definition reconcile_tenant ::
    "(string \<Rightarrow> string) \<Rightarrow> 'w saas_repository \<Rightarrow> string \<Rightarrow> ('w, anyhow, tenant_step) action" where
  "reconcile_tenant sha256_hex repo domain =
     io_then (io_with_context (''get CloudFront SaaS tenant for exact domain '' @ domain)
       (get_tenant_by_domain (sr_client repo) domain)) (\<lambda>lookup.
     case cfres_value lookup of
       None \<Rightarrow> create_for_domain sha256_hex repo domain
     | Some existing \<Rightarrow>
         io_then (io_lift (verify_distribution (sr_config repo) existing domain)) (\<lambda>_.
         io_then (io_lift (verify_exact_host existing domain)) (\<lambda>_.
         io_then (certificate_for repo existing) (\<lambda>managed.
         if tenant_matches (sr_config repo) existing domain managed then io_return TenantUnchanged
         else update_current repo domain existing managed))))"

fun tally_step :: "tenant_step \<Rightarrow> domain_result \<Rightarrow> domain_result" where
  "tally_step TenantAdded r = r\<lparr>dres_added := Suc (dres_added r)\<rparr>"
| "tally_step TenantUpdated r = r\<lparr>dres_updated := Suc (dres_updated r)\<rparr>"
| "tally_step TenantUnchanged r = r\<lparr>dres_unchanged := Suc (dres_unchanged r)\<rparr>"

fun reconcile_each ::
    "(string \<Rightarrow> string) \<Rightarrow> 'w saas_repository \<Rightarrow> string list \<Rightarrow> domain_result \<Rightarrow> ('w, anyhow, domain_result) action" where
  "reconcile_each sha256_hex repo [] r = io_return r"
| "reconcile_each sha256_hex repo (domain # domains) r =
     io_then (reconcile_tenant sha256_hex repo domain) (\<lambda>step.
     reconcile_each sha256_hex repo domains (tally_step step r))"

definition reconcile_tenants :: "(string \<Rightarrow> string) \<Rightarrow> 'w saas_repository \<Rightarrow> 'w tenant_reconcile" where
  "reconcile_tenants sha256_hex repo request =
     reconcile_each sha256_hex repo (tr_desired_domains request)
       \<lparr>dres_provider = ''cloudfront_saas'', dres_status = ''submitted'', dres_added = 0, dres_updated = 0,
        dres_removed = 0, dres_unchanged = 0\<rparr>"

section \<open>Purging\<close>

text \<open>\<open>u64::to_be_bytes\<close>, and the bytes that go into the digest of a caller reference.\<close>

definition to_be_bytes :: "u64 \<Rightarrow> string" where
  "to_be_bytes n = map (\<lambda>i. char_of (unat n div 256 ^ i)) (rev [0..<8])"

definition hash_component :: "string \<Rightarrow> string" where
  "hash_component value = to_be_bytes (of_nat (length value)) @ value"

definition caller_reference_bytes :: "string \<Rightarrow> string \<Rightarrow> u64 \<Rightarrow> string \<Rightarrow> string list \<Rightarrow> string" where
  "caller_reference_bytes namespace origin_id gen tenant_id paths =
     hash_component namespace @ hash_component origin_id @ to_be_bytes gen @ hash_component tenant_id @
     to_be_bytes (of_nat (length paths)) @ concat (map hash_component paths)"

definition invalidation_caller_reference ::
    "(string \<Rightarrow> string) \<Rightarrow> string \<Rightarrow> string \<Rightarrow> u64 \<Rightarrow> string \<Rightarrow> string list \<Rightarrow> string" where
  "invalidation_caller_reference sha256_hex namespace origin_id gen tenant_id paths =
     ''rendermesh-'' @ sha256_hex (caller_reference_bytes namespace origin_id gen tenant_id paths)"

text \<open>
  The pages of the listing. The loop ends when a page names no further one, with an error
  when a marker comes back, and never when there is always a new marker: then it is None.
\<close>

partial_function (option) list_all_tenants ::
    "'w saas_repository \<Rightarrow> string option \<Rightarrow> string list \<Rightarrow> distribution_tenant list \<Rightarrow> 'w \<Rightarrow>
     (distribution_tenant list res \<times> 'w) option" where
  "list_all_tenants repo marker seen tenants w =
     (case io_with_context (''list CloudFront SaaS tenants for distribution '' @ tc_distribution_id (sr_config repo))
          (list_tenants (sr_client repo) (tc_distribution_id (sr_config repo)) marker) w of
        (Inl e, w') \<Rightarrow> Some (Inl e, w')
      | (Inr page, w') \<Rightarrow>
          (case page_next_marker page of
             None \<Rightarrow> Some (Inr (tenants @ page_tenants page), w')
           | Some next_marker \<Rightarrow>
               if next_marker \<in> set seen then
                 Some (Inl (ErrorMsg (''CloudFront SaaS tenant pagination for distribution '' @
                   tc_distribution_id (sr_config repo) @ '' returned a repeated marker'')), w')
               else list_all_tenants repo (Some next_marker) (next_marker # seen) (tenants @ page_tenants page) w'))"

declare list_all_tenants.simps [code]

definition purged_tenant :: "'w saas_repository \<Rightarrow> distribution_tenant \<Rightarrow> bool" where
  "purged_tenant repo tenant \<longleftrightarrow>
     ten_enabled tenant \<noteq> Some False \<and> ten_distribution_id tenant = tc_distribution_id (sr_config repo) \<and>
     (\<exists>domain \<in> set (ten_domains tenant). domain \<in> set (sr_exact_hosts repo))"

definition invalidation_of ::
    "(string \<Rightarrow> string) \<Rightarrow> 'w saas_repository \<Rightarrow> purge_request \<Rightarrow> string list \<Rightarrow> distribution_tenant \<Rightarrow>
     invalidation_request" where
  "invalidation_of sha256_hex repo request paths tenant =
     \<lparr>tir_tenant_id = ten_id tenant,
      tir_caller_reference = invalidation_caller_reference sha256_hex (sr_namespace repo)
        (purge_origin_id request) (purge_generation request) (ten_id tenant) paths,
      tir_paths = paths\<rparr>"

fun invalidate_each ::
    "(string \<Rightarrow> string) \<Rightarrow> 'w saas_repository \<Rightarrow> purge_request \<Rightarrow> string list \<Rightarrow> string list \<Rightarrow>
     distribution_tenant list \<Rightarrow> ('w, purge_error, string list) action" where
  "invalidate_each sha256_hex repo request paths ids [] = io_return ids"
| "invalidate_each sha256_hex repo request paths ids (tenant # tenants) =
     io_then (io_map_err (\<lambda>e. PurgeFailed
         \<lparr>failure_provider = ''cloudfront_saas'', failure_request_ids = ids,
          failure_submitted_items = length paths * length ids,
          failure_message = ''invalidate CloudFront SaaS tenant '' @ ten_id tenant @ '': '' @ error_chain e\<rparr>)
       (invalidate_tenant (sr_client repo) (invalidation_of sha256_hex repo request paths tenant))) (\<lambda>invalidation.
     invalidate_each sha256_hex repo request paths (ids @ [cfres_value invalidation]) tenants)"

definition purge_tenants ::
    "(string \<Rightarrow> string) \<Rightarrow> 'w saas_repository \<Rightarrow> purge_request \<Rightarrow> string list \<Rightarrow> distribution_tenant list \<Rightarrow>
     ('w, purge_error, purge_result) action" where
  "purge_tenants sha256_hex repo request paths listed =
     (let tenants = sort_key ten_id (filter (purged_tenant repo) listed) in
      if tenants = [] then
        io_return \<lparr>purge_provider = ''cloudfront_saas'', purge_request_ids = [],
          purge_status = ''skipped_no_tenants'', purge_submitted_items = 0\<rparr>
      else
        io_then (invalidate_each sha256_hex repo request paths [] tenants) (\<lambda>ids.
        io_return \<lparr>purge_provider = ''cloudfront_saas'', purge_request_ids = ids,
          purge_status = ''submitted'', purge_submitted_items = length paths * length tenants\<rparr>))"

definition saas_purge ::
    "(string \<Rightarrow> string) \<Rightarrow> 'w saas_repository \<Rightarrow> purge_request \<Rightarrow> 'w \<Rightarrow>
     ((purge_error + purge_result) \<times> 'w) option" where
  "saas_purge sha256_hex repo request w =
     (case ensure_paths_mode (purge_request.purge_mode request) ''CloudFront SaaS'' of
        Inl e \<Rightarrow> Some (Inl (OtherPurgeError e), w)
      | Inr paths \<Rightarrow>
          (case list_all_tenants repo None [] [] w of
             None \<Rightarrow> None
           | Some (Inl e, w') \<Rightarrow> Some (Inl (OtherPurgeError e), w')
           | Some (Inr listed, w') \<Rightarrow> Some (purge_tenants sha256_hex repo request paths listed w')))"

section \<open>Caller references\<close>

lemma length_to_be_bytes [simp]: "length (to_be_bytes n) = 8"
  by (simp add: to_be_bytes_def)

lemma digits_mod:
  fixes a b :: nat
  assumes "\<And>i. i < n \<Longrightarrow> a div 256 ^ i mod 256 = b div 256 ^ i mod 256"
  shows "a mod 256 ^ n = b mod 256 ^ n"
  using assms
proof (induction n)
  case 0
  then show ?case by simp
next
  case (Suc n)
  have split: "x mod 256 ^ Suc n = 256 ^ n * (x div 256 ^ n mod 256) + x mod 256 ^ n" for x :: nat
    by (simp add: mod_mult2_eq [of x "256 ^ n" 256, symmetric] mult.commute)
  show ?case unfolding split [of a] split [of b] using Suc by simp
qed

lemma to_be_bytes_inject [simp]: "to_be_bytes a = to_be_bytes b \<longleftrightarrow> a = b"
proof
  assume eq: "to_be_bytes a = to_be_bytes b"
  have "unat a div 256 ^ i mod 256 = unat b div 256 ^ i mod 256" if "i < 8" for i
  proof -
    have "(char_of (unat a div 256 ^ i) :: char) = char_of (unat b div 256 ^ i)"
      using eq that unfolding to_be_bytes_def by auto
    then show ?thesis by (simp add: char_of_eq_iff char_of_mod_256 take_bit_eq_mod)
  qed
  then have "unat a mod 256 ^ 8 = unat b mod 256 ^ 8" by (rule digits_mod)
  moreover have "unat x < 256 ^ 8" for x :: u64 using unsigned_less [of x, where 'a = nat] by simp
  ultimately have "unat a = unat b" by simp
  then show "a = b" by (rule unsigned_word_eqI)
qed simp

lemma to_be_bytes_append: "to_be_bytes a @ r = to_be_bytes b @ s \<longleftrightarrow> a = b \<and> r = s"
  by simp

lemma of_nat_length_eq:
  assumes "length v < 2 ^ 64" and "length v' < 2 ^ 64" and "(of_nat (length v) :: u64) = of_nat (length v')"
  shows "length v = length v'"
proof -
  have "unat (of_nat n :: u64) = n" if "n < 2 ^ 64" for n
    using that by (simp add: unsigned_of_nat take_bit_nat_eq_self)
  then show ?thesis using assms by metis
qed

lemma hash_component_append:
  assumes "length v < 2 ^ 64" and "length v' < 2 ^ 64" and "hash_component v @ r = hash_component v' @ s"
  shows "v = v' \<and> r = s"
proof -
  from assms(3) have eq: "(of_nat (length v) :: u64) = of_nat (length v')" "v @ r = v' @ s"
    by (simp_all add: hash_component_def)
  from of_nat_length_eq [OF assms(1,2) eq(1)] eq(2) show ?thesis by simp
qed

lemma hash_components_append:
  assumes "length ps = length qs" and "\<forall>p \<in> set ps. length p < 2 ^ 64" and "\<forall>q \<in> set qs. length q < 2 ^ 64"
    and "concat (map hash_component ps) = concat (map hash_component qs)"
  shows "ps = qs"
  using assms
proof (induction ps qs rule: list_induct2)
  case Nil
  then show ?case by simp
next
  case (Cons p ps q qs)
  then show ?case using hash_component_append [of p q] by auto
qed

section \<open>The updates of a reconciliation\<close>

text \<open>The same client with a log: what \<open>get_tenant\<close> returned, and the creations and updates that were sent.\<close>

datatype saas_event = Fetched string versioned_tenant | CreateSent create_tenant_request | UpdateSent update_tenant_request

definition unlogged :: "('w, 'e, 'a) action \<Rightarrow> ('w \<times> 'l list, 'e, 'a) action" where
  "unlogged m = (\<lambda>(w, log). case m w of (r, v) \<Rightarrow> (r, (v, log)))"

definition watched :: "'w saas_client \<Rightarrow> ('w \<times> saas_event list) saas_client" where
  "watched client =
     \<lparr>get_tenant_by_domain = (\<lambda>domain. unlogged (get_tenant_by_domain client domain)),
      get_tenant = (\<lambda>i (w, log). case get_tenant client i w of
        (Inr response, v) \<Rightarrow> (Inr response, (v, log @ [Fetched i (cfres_value response)]))
      | (Inl e, v) \<Rightarrow> (Inl e, (v, log))),
      get_token_host = (\<lambda>i. unlogged (get_token_host client i)),
      list_tenants = (\<lambda>i marker. unlogged (list_tenants client i marker)),
      create_tenant = (\<lambda>request (w, log). case create_tenant client request w of
        (r, v) \<Rightarrow> (r, (v, log @ [CreateSent request]))),
      update_tenant = (\<lambda>request (w, log). case update_tenant client request w of
        (r, v) \<Rightarrow> (r, (v, log @ [UpdateSent request]))),
      invalidate_tenant = (\<lambda>request. unlogged (invalidate_tenant client request))\<rparr>"

definition watched_repository :: "'w saas_repository \<Rightarrow> ('w \<times> saas_event list) saas_repository" where
  "watched_repository repo =
     \<lparr>sr_client = watched (sr_client repo), sr_config = sr_config repo, sr_exact_hosts = sr_exact_hosts repo,
      sr_namespace = sr_namespace repo\<rparr>"

text \<open>What is to hold of every event, given the events before it.\<close>

definition own_tenant :: "tenant_config \<Rightarrow> string set \<Rightarrow> string \<Rightarrow> distribution_tenant \<Rightarrow> bool" where
  "own_tenant config desired domain tenant \<longleftrightarrow>
     domain \<in> desired \<and> ten_distribution_id tenant = tc_distribution_id config \<and> ten_domains tenant = [domain]"

definition event_ok :: "tenant_config \<Rightarrow> string set \<Rightarrow> saas_event list \<Rightarrow> saas_event \<Rightarrow> bool" where
  "event_ok config desired before e =
     (case e of
        Fetched i v \<Rightarrow> True
      | CreateSent c \<Rightarrow>
          ctr_distribution_id c = tc_distribution_id config \<and> ctr_enabled c \<and> (\<exists>domain \<in> desired. ctr_domains c = [domain])
      | UpdateSent u \<Rightarrow>
          (\<exists>pre i v domain. before = pre @ [Fetched i v] \<and> own_tenant config desired domain (ver_tenant v) \<and>
             utr_id u = ten_id (ver_tenant v) \<and> utr_if_match u = ver_etag v \<and>
             utr_tenant u = merged_tenant config (ver_tenant v) domain))"

definition log_ok :: "tenant_config \<Rightarrow> string set \<Rightarrow> saas_event list \<Rightarrow> bool" where
  "log_ok config desired log \<longleftrightarrow> (\<forall>before e after. log = before @ e # after \<longrightarrow> event_ok config desired before e)"

lemma log_ok_snoc: "log_ok config desired (log @ [e]) \<longleftrightarrow> log_ok config desired log \<and> event_ok config desired log e"
proof
  assume ok: "log_ok config desired (log @ [e])"
  then show "log_ok config desired log \<and> event_ok config desired log e"
    unfolding log_ok_def by (metis append.assoc append_Cons)
next
  assume ok: "log_ok config desired log \<and> event_ok config desired log e"
  show "log_ok config desired (log @ [e])"
    unfolding log_ok_def
  proof (intro allI impI)
    fix before d after assume "log @ [e] = before @ d # after"
    then have "(after = [] \<and> before = log \<and> d = e) \<or> (\<exists>after'. after = after' @ [e] \<and> log = before @ d # after')"
      by (cases after rule: rev_cases) auto
    then show "event_ok config desired before d" using ok by (auto simp: log_ok_def)
  qed
qed

definition logs_ok :: "tenant_config \<Rightarrow> string set \<Rightarrow> 'w \<times> saas_event list \<Rightarrow> bool" where
  "logs_ok config desired s \<longleftrightarrow> log_ok config desired (snd s)"

lemma preserves_unlogged: "preserves (logs_ok config desired) (unlogged m)"
  by (auto simp: preserves_def unlogged_def logs_ok_def split: prod.split)

lemma preserves_create:
  assumes "domain \<in> desired"
  shows "preserves (logs_ok (sr_config repo) desired) (create_for_domain sha256_hex (watched_repository repo) domain)"
proof -
  have "event_ok (sr_config repo) desired log (CreateSent c)"
    if "ctr_distribution_id c = tc_distribution_id (sr_config repo)" "ctr_enabled c" "ctr_domains c = [domain]" for log c
    using that assms by (simp add: event_ok_def)
  then have sent: "preserves (logs_ok (sr_config repo) desired) (create_tenant (sr_client (watched_repository repo)) c)"
    if "ctr_distribution_id c = tc_distribution_id (sr_config repo)" "ctr_enabled c" "ctr_domains c = [domain]" for c
    using that by (auto simp: preserves_def watched_def watched_repository_def logs_ok_def log_ok_snoc split: prod.split)
  have config: "sr_config (watched_repository repo) = sr_config repo" by (simp add: watched_repository_def)
  show ?thesis
    unfolding create_for_domain_def Let_def config by (intro preserves_intros sent) simp_all
qed

lemma preserves_update:
  assumes "domain \<in> desired"
  shows "preserves (logs_ok (sr_config repo) desired) (update_current (watched_repository repo) domain existing managed)"
  unfolding preserves_def
proof (intro allI impI)
  fix s :: "'a \<times> saas_event list"
  assume ok: "logs_ok (sr_config repo) desired s"
  obtain w log where s: "s = (w, log)" by fastforce
  obtain r v where get: "get_tenant (sr_client repo) (ten_id existing) w = (r, v)" by fastforce
  show "logs_ok (sr_config repo) desired (snd (update_current (watched_repository repo) domain existing managed s))"
  proof (cases r)
    case (Inl e)
    then show ?thesis using ok get
      by (simp add: s update_current_def Let_def io_then_def io_map_err_def watched_repository_def watched_def logs_ok_def)
  next
    case (Inr response)
    let ?v = "cfres_value response"
    let ?log = "log @ [Fetched (ten_id existing) ?v]"
    let ?u = "\<lambda>c. \<lparr>utr_id = ten_id (ver_tenant ?v), utr_if_match = ver_etag ?v,
        utr_tenant = merged_tenant (sr_config repo) (ver_tenant ?v) domain, utr_managed_certificate = c\<rparr>"
    have fetched: "log_ok (sr_config repo) desired ?log"
      using ok by (simp add: s logs_ok_def log_ok_snoc event_ok_def)
    have "log_ok (sr_config repo) desired (?log @ [UpdateSent (?u c)])"
      if "ten_distribution_id (ver_tenant ?v) = tc_distribution_id (sr_config repo)" "ten_domains (ver_tenant ?v) = [domain]" for c
      unfolding log_ok_snoc [of _ _ ?log] using fetched that assms by (simp add: event_ok_def own_tenant_def)
    then have sent: "log_ok (sr_config repo) desired (log @ [Fetched (ten_id existing) ?v, UpdateSent (?u c)])"
      if "ten_distribution_id (ver_tenant ?v) = tc_distribution_id (sr_config repo)" "ten_domains (ver_tenant ?v) = [domain]" for c
      using that by simp
    show ?thesis using get Inr fetched sent
      by (simp add: s update_current_def Let_def io_then_def io_map_err_def io_lift_def io_return_def fail_if_def
          watched_repository_def watched_def logs_ok_def verify_distribution_def verify_exact_host_def split: prod.split sum.split)
  qed
qed

lemma preserves_reconcile_tenant:
  assumes "domain \<in> desired"
  shows "preserves (logs_ok (sr_config repo) desired) (reconcile_tenant sha256_hex (watched_repository repo) domain)"
proof -
  have reads: "get_tenant_by_domain (sr_client (watched_repository repo)) domain =
      unlogged (get_tenant_by_domain (sr_client repo) domain)"
    "get_token_host (sr_client (watched_repository repo)) i = unlogged (get_token_host (sr_client repo) i)" for i
    by (simp_all add: watched_repository_def watched_def)
  show ?thesis
    unfolding reconcile_tenant_def certificate_for_def reads
    by (auto intro!: preserves_intros preserves_unlogged preserves_create preserves_update assms split: option.split)
qed

lemma preserves_reconcile_each:
  "set domains \<subseteq> desired \<Longrightarrow>
   preserves (logs_ok (sr_config repo) desired) (reconcile_each sha256_hex (watched_repository repo) domains r)"
  by (induction domains arbitrary: r) (auto intro!: preserves_intros preserves_reconcile_tenant)

lemma tally_step_sum:
  "dres_added (tally_step step r) + dres_updated (tally_step step r) + dres_unchanged (tally_step step r) =
     Suc (dres_added r + dres_updated r + dres_unchanged r)"
  "dres_removed (tally_step step r) = dres_removed r"
  by (cases step; simp)+

lemma reconcile_each_counts:
  assumes "reconcile_each sha256_hex repo domains r w = (Inr result, v)"
  shows "dres_added result + dres_updated result + dres_unchanged result =
      dres_added r + dres_updated r + dres_unchanged r + length domains \<and> dres_removed result = dres_removed r"
  using assms
proof (induction domains arbitrary: r w)
  case Nil
  then show ?case by (simp add: io_return_def)
next
  case (Cons domain domains)
  from Cons.prems obtain step u where "reconcile_each sha256_hex repo domains (tally_step step r) u = (Inr result, v)"
    by (auto simp: io_then_Inr)
  from Cons.IH [OF this] show ?case by (simp add: tally_step_sum)
qed

section \<open>The invalidations of a purge\<close>

text \<open>A run of successful invalidations: the tenants in order, the ids the client returned.\<close>

inductive invalidated ::
    "(string \<Rightarrow> string) \<Rightarrow> 'w saas_repository \<Rightarrow> purge_request \<Rightarrow> string list \<Rightarrow> 'w \<Rightarrow> distribution_tenant list \<Rightarrow>
     string list \<Rightarrow> 'w \<Rightarrow> bool"
  for sha256_hex repo request paths where
  start: "invalidated sha256_hex repo request paths w [] [] w"
| step: "invalidated sha256_hex repo request paths w tenants ids u \<Longrightarrow>
    invalidate_tenant (sr_client repo) (invalidation_of sha256_hex repo request paths tenant) u = (Inr response, v) \<Longrightarrow>
    invalidated sha256_hex repo request paths w (tenants @ [tenant]) (ids @ [cfres_value response]) v"

lemma invalidated_length: "invalidated sha256_hex repo request paths w tenants ids v \<Longrightarrow> length ids = length tenants"
  by (induction rule: invalidated.induct) simp_all

definition tenant_failure :: "string list \<Rightarrow> string list \<Rightarrow> distribution_tenant \<Rightarrow> anyhow \<Rightarrow> purge_failure" where
  "tenant_failure paths ids tenant e =
     \<lparr>failure_provider = ''cloudfront_saas'', failure_request_ids = ids,
      failure_submitted_items = length paths * length ids,
      failure_message = ''invalidate CloudFront SaaS tenant '' @ ten_id tenant @ '': '' @ error_chain e\<rparr>"

lemma invalidate_each_cases:
  assumes "invalidate_each sha256_hex repo request paths ids tenants u = (r, v)"
    and "invalidated sha256_hex repo request paths w before ids u"
  shows "(\<exists>all_ids. r = Inr all_ids \<and> invalidated sha256_hex repo request paths w (before @ tenants) all_ids v) \<or>
    (\<exists>between tenant rest ids' u' e. tenants = between @ tenant # rest \<and>
       invalidated sha256_hex repo request paths w (before @ between) ids' u' \<and>
       invalidate_tenant (sr_client repo) (invalidation_of sha256_hex repo request paths tenant) u' = (Inl e, v) \<and>
       r = Inl (PurgeFailed (tenant_failure paths ids' tenant e)))"
  using assms
proof (induction tenants arbitrary: ids u before)
  case Nil
  then show ?case by (auto simp: io_return_def)
next
  case (Cons tenant tenants)
  obtain s u1 where call: "invalidate_tenant (sr_client repo) (invalidation_of sha256_hex repo request paths tenant) u = (s, u1)"
    by fastforce
  show ?case
  proof (cases s)
    case (Inl e)
    have r: "r = Inl (PurgeFailed (tenant_failure paths ids tenant e))" "v = u1"
      using Cons.prems(1) call Inl by (simp_all add: io_then_def io_map_err_def tenant_failure_def)
    show ?thesis
      by (rule disjI2, rule exI [of _ "[]"], rule exI [of _ tenant], rule exI [of _ tenants])
        (use Cons.prems(2) call Inl r in auto)
  next
    case (Inr response)
    have rest: "invalidate_each sha256_hex repo request paths (ids @ [cfres_value response]) tenants u1 = (r, v)"
      using Cons.prems(1) call Inr by (simp add: io_then_def io_map_err_def)
    have "invalidated sha256_hex repo request paths w (before @ [tenant]) (ids @ [cfres_value response]) u1"
      using invalidated.step [OF Cons.prems(2)] call Inr by blast
    from Cons.IH [OF rest this] show ?thesis
    proof (elim disjE exE conjE)
      fix between t rest ids' u' e
      assume *: "tenants = between @ t # rest"
          "invalidated sha256_hex repo request paths w ((before @ [tenant]) @ between) ids' u'"
          "invalidate_tenant (sr_client repo) (invalidation_of sha256_hex repo request paths t) u' = (Inl e, v)"
          "r = Inl (PurgeFailed (tenant_failure paths ids' t e))"
      show ?thesis
        by (rule disjI2, rule exI [of _ "tenant # between"], rule exI [of _ t], rule exI [of _ rest],
            rule exI [of _ ids'], rule exI [of _ u'], rule exI [of _ e]) (use * in simp)
    qed auto
  qed
qed

section \<open>The pages of a listing\<close>

lemma list_all_tenants_ends:
  assumes "finite markers"
    and "\<And>marker w page v. list_tenants (sr_client repo) (tc_distribution_id (sr_config repo)) marker w = (Inr page, v) \<Longrightarrow>
      page_next_marker page \<in> insert None (Some ` markers)"
  shows "\<exists>r. list_all_tenants repo marker seen tenants w = Some r"
proof (induction "card (markers - set seen)" arbitrary: marker seen tenants w rule: less_induct)
  case less
  obtain r v where call: "list_tenants (sr_client repo) (tc_distribution_id (sr_config repo)) marker w = (r, v)" by fastforce
  show ?case
  proof (cases r)
    case (Inl e)
    then show ?thesis using call by (subst list_all_tenants.simps) (simp add: io_map_err_def)
  next
    case (Inr page)
    show ?thesis
    proof (cases "page_next_marker page")
      case None
      then show ?thesis using call Inr by (subst list_all_tenants.simps) (simp add: io_map_err_def)
    next
      case (Some m)
      then have m: "m \<in> markers" using assms(2) call Inr by fastforce
      show ?thesis
      proof (cases "m \<in> set seen")
        case True
        then show ?thesis using call Inr Some by (subst list_all_tenants.simps) (simp add: io_map_err_def)
      next
        case False
        have "card (markers - set (m # seen)) < card (markers - set seen)"
          using assms(1) m False by (intro psubset_card_mono) auto
        from less.hyps [OF this] show ?thesis
          using call Inr Some False by (subst list_all_tenants.simps) (simp add: io_map_err_def)
      qed
    qed
  qed
qed

section \<open>An example\<close>

definition example_tenant :: "string \<Rightarrow> string \<Rightarrow> distribution_tenant" where
  "example_tenant i domain = \<lparr>ten_id = i, ten_name = i, ten_distribution_id = ''D'', ten_domains = [domain],
     ten_connection_group_id = None, ten_parameters = [], ten_customizations = None, ten_enabled = Some True\<rparr>"

text \<open>Two pages with a tenant each; the invalidation of the tenant \<open>t2\<close> fails.\<close>

definition example_saas_client :: "unit saas_client" where
  "example_saas_client =
     \<lparr>get_tenant_by_domain = (\<lambda>domain. io_return \<lparr>cfres_value = Some (example_tenant ''t1'' domain), cfres_request_id = None\<rparr>),
      get_tenant = (\<lambda>i. io_return \<lparr>cfres_value = \<lparr>ver_tenant = example_tenant i ''a'', ver_etag = ''e''\<rparr>, cfres_request_id = None\<rparr>),
      get_token_host = (\<lambda>_. io_return \<lparr>cfres_value = CertificateNotFound, cfres_request_id = None\<rparr>),
      list_tenants = (\<lambda>_ marker. io_return
        (if marker = None then \<lparr>page_tenants = [example_tenant ''t2'' ''b''], page_next_marker = Some ''m''\<rparr>
         else \<lparr>page_tenants = [example_tenant ''t1'' ''a''], page_next_marker = None\<rparr>)),
      create_tenant = (\<lambda>_. io_return \<lparr>cfres_value = example_tenant ''t1'' ''a'', cfres_request_id = None\<rparr>),
      update_tenant = (\<lambda>_. io_return \<lparr>cfres_value = example_tenant ''t1'' ''a'', cfres_request_id = None\<rparr>),
      invalidate_tenant = (\<lambda>request. if tir_tenant_id request = ''t2'' then io_fail (ErrorMsg ''throttled'')
        else io_return \<lparr>cfres_value = ''i1'', cfres_request_id = None\<rparr>)\<rparr>"

definition example_saas :: "unit saas_repository" where
  "example_saas = \<lparr>sr_client = example_saas_client,
     sr_config = \<lparr>tc_distribution_id = ''D'', tc_connection_group_id = None, tc_parameters = [(''p'', ''v'')],
       tc_managed_certificate = None\<rparr>,
     sr_exact_hosts = [''a'', ''b''], sr_namespace = ''n''\<rparr>"

definition example_purge :: purge_request where
  "example_purge = \<lparr>purge_origin_id = ''w'', purge_generation = 1, purge_mode = PurgePaths [''/x'']\<rparr>"

section \<open>Properties\<close>

text \<open>C32: Whatever the client answers, a reconciliation creates tenants only for desired domains in the configured
distribution, and updates a tenant only right after it was fetched, when the fetched tenant belongs to the
configured distribution and has exactly the desired domain, with the ETag of the fetch and the merged content; a
successful one accounts for every desired domain and removes nothing.\<close>

theorem saas_adopts_only_own_tenants:
  assumes "reconcile_tenants sha256_hex (watched_repository repo) request (w, []) = (r, v, log)"
  shows "log_ok (sr_config repo) (set (tr_desired_domains request)) log \<and>
    (case r of
       Inr result \<Rightarrow> dres_added result + dres_updated result + dres_unchanged result = length (tr_desired_domains request) \<and>
         dres_removed result = 0
     | Inl _ \<Rightarrow> True)"
proof -
  have "logs_ok (sr_config repo) (set (tr_desired_domains request)) (w, [])"
    by (simp add: logs_ok_def log_ok_def)
  then have "logs_ok (sr_config repo) (set (tr_desired_domains request)) (v, log)"
    using preservesD [OF preserves_reconcile_each [OF subset_refl] assms [unfolded reconcile_tenants_def]] by blast
  moreover have "dres_added result + dres_updated result + dres_unchanged result = length (tr_desired_domains request) \<and>
      dres_removed result = 0" if "r = Inr result" for result
    using reconcile_each_counts [OF assms [unfolded reconcile_tenants_def that]] by simp
  ultimately show ?thesis by (simp add: logs_ok_def split: sum.split)
qed

theorem saas_adopts_only_own_tenants_witness:
  "log_ok (sr_config example_saas) {''a''}
     (snd (snd (reconcile_tenants (\<lambda>_. []) (watched_repository example_saas)
        \<lparr>tr_origin_id = ''w'', tr_desired_domains = [''a'']\<rparr> ((), []))))"
proof -
  obtain r v log where run: "reconcile_tenants (\<lambda>_. []) (watched_repository example_saas)
        \<lparr>tr_origin_id = ''w'', tr_desired_domains = [''a'']\<rparr> ((), []) = (r, v, log)" by (metis prod.collapse)
  show ?thesis using saas_adopts_only_own_tenants [OF run] run by simp
qed

text \<open>C33: A purge invalidates the tenants that are enabled, of the configured distribution and have an exact host of the
origin, in the order of their ids. When all succeed the result has the id of every invalidation; when one fails the
failure has exactly the ids of those before it, and the later ones are not tried. Either way the submitted items
are the paths times the invalidations.\<close>

theorem saas_purge_accounts:
  assumes "purge_tenants sha256_hex repo request paths listed w = (r, v)"
  shows "case r of
     Inr result \<Rightarrow>
       invalidated sha256_hex repo request paths w (sort_key ten_id (filter (purged_tenant repo) listed))
         (purge_request_ids result) v \<and>
       purge_submitted_items result = length paths * length (purge_request_ids result)
   | Inl e \<Rightarrow>
       (\<exists>before tenant rest ids u cause.
          sort_key ten_id (filter (purged_tenant repo) listed) = before @ tenant # rest \<and>
          invalidated sha256_hex repo request paths w before ids u \<and>
          invalidate_tenant (sr_client repo) (invalidation_of sha256_hex repo request paths tenant) u = (Inl cause, v) \<and>
          e = PurgeFailed (tenant_failure paths ids tenant cause) \<and>
          failure_submitted_items (tenant_failure paths ids tenant cause) = length paths * length before)"
proof -
  let ?tenants = "sort_key ten_id (filter (purged_tenant repo) listed)"
  show ?thesis
  proof (cases "?tenants = []")
    case True
    then show ?thesis using assms
      by (auto simp: purge_tenants_def io_return_def intro: invalidated.start)
  next
    case False
    from assms False have run: "io_then (invalidate_each sha256_hex repo request paths [] ?tenants) (\<lambda>ids.
        io_return \<lparr>purge_provider = ''cloudfront_saas'', purge_request_ids = ids,
          purge_status = ''submitted'', purge_submitted_items = length paths * length ?tenants\<rparr>) w = (r, v)"
      by (simp only: purge_tenants_def Let_def if_False)
    from run show ?thesis
    proof (cases rule: io_then_cases)
      case (fails e)
      from invalidate_each_cases [OF fails(1) invalidated.start] obtain before tenant rest ids u cause
        where *: "?tenants = before @ tenant # rest" "invalidated sha256_hex repo request paths w before ids u"
          "invalidate_tenant (sr_client repo) (invalidation_of sha256_hex repo request paths tenant) u = (Inl cause, v)"
          "e = PurgeFailed (tenant_failure paths ids tenant cause)" by auto
      moreover have "failure_submitted_items (tenant_failure paths ids tenant cause) = length paths * length before"
        using invalidated_length [OF *(2)] by (simp add: tenant_failure_def)
      ultimately show ?thesis using fails(2) by (simp only: sum.case) blast
    next
      case (goes_on ids u)
      from invalidate_each_cases [OF goes_on(1) invalidated.start]
      have all: "invalidated sha256_hex repo request paths w ?tenants ids u" by auto
      show ?thesis using goes_on(2) all invalidated_length [OF all] by (auto simp: io_return_def)
    qed
  qed
qed

theorem saas_purge_accounts_witness:
  "\<exists>before tenant rest ids u.
     sort_key ten_id (filter (purged_tenant example_saas) [example_tenant ''t2'' ''b'', example_tenant ''t1'' ''a'']) =
       before @ tenant # rest \<and> invalidated (\<lambda>_. []) example_saas example_purge [''/x''] () before ids u"
proof -
  let ?listed = "[example_tenant ''t2'' ''b'', example_tenant ''t1'' ''a'']"
  obtain r v where run: "purge_tenants (\<lambda>_. []) example_saas example_purge [''/x''] ?listed () = (r, v)" by (metis prod.collapse)
  have "isl (fst (purge_tenants (\<lambda>_. []) example_saas example_purge [''/x''] ?listed ()))" by code_simp
  then obtain e where r: "r = Inl e" using run by (cases r) simp_all
  show ?thesis using saas_purge_accounts [OF run [unfolded r]] unfolding sum.case by blast
qed

text \<open>C34: A purge of the tenants returns when the markers the client hands out are finitely many, however often it
repeats them.\<close>

theorem saas_purge_returns:
  assumes "finite markers"
    and "\<And>marker w page v. list_tenants (sr_client repo) (tc_distribution_id (sr_config repo)) marker w = (Inr page, v) \<Longrightarrow>
      page_next_marker page \<in> insert None (Some ` markers)"
  shows "\<exists>r. saas_purge sha256_hex repo request w = Some r"
proof (cases "ensure_paths_mode (purge_request.purge_mode request) ''CloudFront SaaS''")
  case (Inl e)
  then show ?thesis by (simp add: saas_purge_def)
next
  case (Inr paths)
  obtain r v where "list_all_tenants repo None [] [] w = Some (r, v)"
    using list_all_tenants_ends [OF assms, where marker = None and seen = "[]" and tenants = "[]" and w = w] by fastforce
  then show ?thesis using Inr by (cases r) (simp_all add: saas_purge_def)
qed

theorem saas_purge_returns_witness:
  "\<exists>r. saas_purge (\<lambda>_. []) example_saas example_purge () = Some r"
proof (rule saas_purge_returns)
  show "finite {''m''}" by simp
qed (auto simp: example_saas_def example_saas_client_def io_return_def split: if_splits)

text \<open>C35: Invalidations that differ in the process, the origin, the generation, the tenant or the paths have different
bytes in the digest of their caller reference.\<close>

theorem caller_reference_injective:
  assumes "caller_reference_bytes n o1 g t ps = caller_reference_bytes n' o2 g' t' ps'"
    and "\<forall>x \<in> set ([n, n', o1, o2, t, t'] @ ps @ ps'). length x < 2 ^ 64"
    and "length ps < 2 ^ 64" and "length ps' < 2 ^ 64"
  shows "n = n' \<and> o1 = o2 \<and> g = g' \<and> t = t' \<and> ps = ps'"
proof -
  note eq = assms(1) [unfolded caller_reference_bytes_def]
  from hash_component_append [OF _ _ eq] assms(2)
  have 1: "n = n'" and eq1: "hash_component o1 @ to_be_bytes g @ hash_component t @ to_be_bytes (of_nat (length ps)) @
      concat (map hash_component ps) = hash_component o2 @ to_be_bytes g' @ hash_component t' @
      to_be_bytes (of_nat (length ps')) @ concat (map hash_component ps')" by simp_all
  from hash_component_append [OF _ _ eq1] assms(2)
  have 2: "o1 = o2" and eq2: "to_be_bytes g @ hash_component t @ to_be_bytes (of_nat (length ps)) @
      concat (map hash_component ps) = to_be_bytes g' @ hash_component t' @
      to_be_bytes (of_nat (length ps')) @ concat (map hash_component ps')" by simp_all
  from eq2 have 3: "g = g'" and eq3: "hash_component t @ to_be_bytes (of_nat (length ps)) @ concat (map hash_component ps) =
      hash_component t' @ to_be_bytes (of_nat (length ps')) @ concat (map hash_component ps')" by simp_all
  from hash_component_append [OF _ _ eq3] assms(2)
  have 4: "t = t'" and eq4: "to_be_bytes (of_nat (length ps)) @ concat (map hash_component ps) =
      to_be_bytes (of_nat (length ps')) @ concat (map hash_component ps')" by simp_all
  from eq4 have "length ps = length ps'" and "concat (map hash_component ps) = concat (map hash_component ps')"
    using of_nat_length_eq [OF assms(3,4)] by simp_all
  then have "ps = ps'" using hash_components_append assms(2) by simp
  with 1 2 3 4 show ?thesis by simp
qed

theorem caller_reference_injective_witness:
  "caller_reference_bytes ''n'' ''w'' 1 ''t'' [''/a'', ''/b''] \<noteq> caller_reference_bytes ''n'' ''w'' 1 ''t'' [''/a/b'']"
  using caller_reference_injective [of "''n''" "''w''" 1 "''t''" "[''/a'', ''/b'']" "''n''" "''w''" 1 "''t''" "[''/a/b'']"] by auto

end
