(* ===== verification/Cloudfront_Cdn.thy ===== *)
theory Cloudfront_Cdn
  imports Cdn_Api
begin

text \<open>
  The CloudFront client (\<open>src/repositories/cloudfront_cdn.rs\<close>): invalidations, and the
  reconciliation of the aliases of a distribution. Of the configuration of a distribution,
  a type of the AWS SDK, the model has the fields the code reads or writes; the type
  variable \<open>'c\<close> stands for all the others. The calls of the SDK are parameters.
\<close>

type_synonym i32 = "32 word"

section \<open>Types of the SDK\<close>

record aliases =
  aliases_quantity :: i32
  aliases_items :: "string list option"

text \<open>The viewer certificate the code builds, or the one it leaves alone.\<close>

datatype ssl_support = SniOnly | OtherSslSupport string

datatype protocol_version = TlSv122021 | OtherProtocolVersion string

record viewer_certificate =
  vc_cloud_front_default :: "bool option"
  vc_acm_certificate_arn :: "string option"
  vc_ssl_support_method :: "ssl_support option"
  vc_minimum_protocol_version :: "protocol_version option"

record 'o origin =
  origin_name :: string
  origin_domain_name :: string
  origin_rest :: 'o

record 'o origins_list =
  origins_quantity :: i32
  origins_items :: "'o origin list"

record ('o, 'c) distribution_config =
  dc_aliases :: "aliases option"
  dc_viewer_certificate :: "viewer_certificate option"
  dc_origins :: "'o origins_list option"
  dc_target_origin_id :: "string option"
  dc_rest :: 'c

record invalidation_batch =
  batch_caller_reference :: string
  batch_quantity :: i32
  batch_paths :: "string list"

record invalidation =
  inv_id :: string
  inv_status :: string

record ('o, 'c, 'w) cloudfront_client =
  create_invalidation :: "string \<Rightarrow> invalidation_batch \<Rightarrow> ('w, anyhow, invalidation option) action"
  get_distribution_config ::
    "string \<Rightarrow> ('w, anyhow, string option \<times> ('o, 'c) distribution_config option) action"
  update_distribution :: "string \<Rightarrow> string \<Rightarrow> ('o, 'c) distribution_config \<Rightarrow> ('w, anyhow, unit) action"

record ('o, 'c, 'w) cloudfront_repository =
  cfr_client :: "('o, 'c, 'w) cloudfront_client"
  cfr_distribution_id :: string

text \<open>\<open>from_distribution_id_env\<close>: the client with its default configuration is a parameter.\<close>

definition cloudfront_from_env ::
    "environment \<Rightarrow> ('o, 'c, 'w) cloudfront_client \<Rightarrow> string \<Rightarrow> ('o, 'c, 'w) cloudfront_repository res" where
  "cloudfront_from_env env client distribution_id_env =
     try_then (read_env env ''read CloudFront distribution id env '' distribution_id_env) (\<lambda>distribution_id.
     Inr \<lparr>cfr_client = client, cfr_distribution_id = distribution_id\<rparr>)"

section \<open>Invalidation\<close>

text \<open>\<open>as i32\<close> and \<open>as usize\<close>: the length is cut to 32 bits and extended with its sign.\<close>

definition quantity_of :: "'a list \<Rightarrow> i32" where
  "quantity_of xs = of_nat (length xs)"

definition usize_of :: "i32 \<Rightarrow> u64" where
  "usize_of q = of_int (sint q)"

text \<open>\<open>uuid\<close> is the random part of the caller reference.\<close>

definition cloudfront_purge_request ::
    "('o, 'c, 'w) cloudfront_repository \<Rightarrow> string \<Rightarrow> purge_request \<Rightarrow> ('w, anyhow, purge_result) action" where
  "cloudfront_purge_request repo uuid request =
     io_then (io_lift (ensure_paths_mode (purge_request.purge_mode request) ''CloudFront'')) (\<lambda>paths.
     io_then (create_invalidation (cfr_client repo) (cfr_distribution_id repo)
       \<lparr>batch_caller_reference = ''rendermesh-'' @ purge_origin_id request @ ''-'' @
          show_nat (unat (purge_generation request)) @ ''-'' @ uuid,
        batch_quantity = quantity_of paths, batch_paths = paths\<rparr>) (\<lambda>invalidation.
     io_return
       \<lparr>purge_provider = ''cloudfront'',
        purge_request_ids = (case invalidation of Some i \<Rightarrow> [inv_id i] | None \<Rightarrow> []),
        purge_status = (case invalidation of Some i \<Rightarrow> inv_status i | None \<Rightarrow> ''submitted''),
        purge_submitted_items = unat (usize_of (quantity_of paths))\<rparr>))"

definition cloudfront_purge :: "('o, 'c, 'w) cloudfront_repository \<Rightarrow> string \<Rightarrow> 'w purge" where
  "cloudfront_purge repo uuid request = io_map_err OtherPurgeError (cloudfront_purge_request repo uuid request)"

section \<open>Reconciling the aliases\<close>

text \<open>The first origin the condition holds for, \<open>iter_mut().find\<close>, with its update.\<close>

fun update_first :: "('a \<Rightarrow> bool) \<Rightarrow> ('a \<Rightarrow> 'a) \<Rightarrow> 'a list \<Rightarrow> 'a list option" where
  "update_first P f [] = None"
| "update_first P f (x # xs) =
     (if P x then Some (f x # xs) else map_option (\<lambda>ys. x # ys) (update_first P f xs))"

definition update_default_origin_domain ::
    "string \<Rightarrow> ('o, 'c) distribution_config \<Rightarrow> ('o, 'c) distribution_config" where
  "update_default_origin_domain domain config =
     (case dc_origins config of
        None \<Rightarrow> config
      | Some os \<Rightarrow>
          (case update_first
                  (\<lambda>orig. case dc_target_origin_id config of None \<Rightarrow> True | Some i \<Rightarrow> origin_name orig = i)
                  (\<lambda>orig. orig\<lparr>origin_domain_name := domain\<rparr>) (origins_items os) of
             None \<Rightarrow> config
           | Some items \<Rightarrow>
               config\<lparr>dc_origins := Some \<lparr>origins_quantity = quantity_of items, origins_items = items\<rparr>\<rparr>))"

definition existing_aliases :: "('o, 'c) distribution_config \<Rightarrow> string bset" where
  "existing_aliases config =
     (case dc_aliases config of
        None \<Rightarrow> []
      | Some a \<Rightarrow> bset_of (case aliases_items a of Some items \<Rightarrow> items | None \<Rightarrow> []))"

definition reconcile_distribution_config ::
    "('o, 'c) distribution_config \<Rightarrow> domain_request \<Rightarrow> (('o, 'c) distribution_config \<times> domain_result) res" where
  "reconcile_distribution_config config request =
     try_then (fail_if (dr_desired_domains request \<noteq> [] \<and> dr_certificate_arn request = None)
       (ErrorMsg ''CloudFront domain reconciliation requires certificate_arn'')) (\<lambda>_.
     let existing = existing_aliases config;
         desired = dr_desired_domains request;
         names = (if dr_remove_extra_domains request then desired else bset_of (existing @ desired));
         with_aliases = config\<lparr>dc_aliases := Some
           \<lparr>aliases_quantity = quantity_of names, aliases_items = (if names = [] then None else Some names)\<rparr>\<rparr>;
         with_certificate =
           (case dr_certificate_arn request of
              None \<Rightarrow> with_aliases
            | Some arn \<Rightarrow> with_aliases\<lparr>dc_viewer_certificate := Some
                \<lparr>vc_cloud_front_default = Some False, vc_acm_certificate_arn = Some arn,
                 vc_ssl_support_method = Some SniOnly, vc_minimum_protocol_version = Some TlSv122021\<rparr>\<rparr>)
     in Inr (update_default_origin_domain (dr_origin_domain request) with_certificate,
          \<lparr>dres_provider = ''cloudfront'', dres_status = ''submitted'',
           dres_added = length (filter (\<lambda>d. d \<notin> set existing) desired), dres_updated = 0,
           dres_removed = (if dr_remove_extra_domains request
             then length (filter (\<lambda>d. d \<notin> set desired) existing) else 0),
           dres_unchanged = length (filter (\<lambda>d. d \<in> set existing) desired)\<rparr>))"

definition cloudfront_reconcile :: "('o, 'c, 'w) cloudfront_repository \<Rightarrow> 'w domain_reconcile" where
  "cloudfront_reconcile repo request =
     io_then (get_distribution_config (cfr_client repo) (cfr_distribution_id repo)) (\<lambda>(e_tag, found).
     io_then (io_lift (ok_or e_tag
       (ErrorMsg ''CloudFront get_distribution_config response missing ETag''))) (\<lambda>etag.
     io_then (io_lift (ok_or found
       (ErrorMsg ''CloudFront get_distribution_config response missing DistributionConfig''))) (\<lambda>config.
     io_then (io_lift (reconcile_distribution_config config request)) (\<lambda>(config', result).
     io_then (update_distribution (cfr_client repo) (cfr_distribution_id repo) etag config') (\<lambda>_.
     io_return result)))))"

section \<open>Facts\<close>

lemma update_first_again:
  assumes "update_first P f xs = Some ys" and "\<And>x. P (f x) = P x" and "\<And>x. f (f x) = f x"
  shows "update_first P f ys = Some ys"
  using assms(1) by (induction xs arbitrary: ys) (auto simp: assms(2,3) split: if_splits)

lemma update_default_origin_domain_sel [simp]:
  "dc_aliases (update_default_origin_domain d c) = dc_aliases c"
  "dc_viewer_certificate (update_default_origin_domain d c) = dc_viewer_certificate c"
  "dc_target_origin_id (update_default_origin_domain d c) = dc_target_origin_id c"
  by (simp_all add: update_default_origin_domain_def split: option.split)

lemma update_default_origin_domain_idem:
  "update_default_origin_domain d (update_default_origin_domain d c) = update_default_origin_domain d c"
proof (cases "dc_origins c")
  case None
  then show ?thesis by (simp add: update_default_origin_domain_def)
next
  case (Some os)
  let ?P = "\<lambda>orig. case dc_target_origin_id c of None \<Rightarrow> True | Some i \<Rightarrow> origin_name orig = i"
  let ?f = "\<lambda>orig. orig\<lparr>origin_domain_name := d\<rparr>"
  show ?thesis
  proof (cases "update_first ?P ?f (origins_items os)")
    case None
    then have "update_default_origin_domain d c = c" using Some by (simp add: update_default_origin_domain_def)
    then show ?thesis by simp
  next
    case (Some items)
    have again: "update_first ?P ?f items = Some items"
      by (rule update_first_again [OF Some]) (simp_all split: option.split)
    have once: "update_default_origin_domain d c =
        c\<lparr>dc_origins := Some \<lparr>origins_quantity = quantity_of items, origins_items = items\<rparr>\<rparr>"
      using Some \<open>dc_origins c = Some os\<close> by (simp add: update_default_origin_domain_def)
    show ?thesis unfolding once by (simp add: update_default_origin_domain_def again)
  qed
qed

lemma existing_aliases_ok [simp, intro]: "bset_ok (existing_aliases c)"
  by (auto simp: existing_aliases_def split: option.split)

definition wanted_aliases :: "('o, 'c) distribution_config \<Rightarrow> domain_request \<Rightarrow> string bset" where
  "wanted_aliases c request =
     (if dr_remove_extra_domains request then dr_desired_domains request
      else bset_of (existing_aliases c @ dr_desired_domains request))"

lemma wanted_aliases_again:
  assumes "bset_ok (dr_desired_domains request)" and "existing_aliases c' = wanted_aliases c request"
  shows "wanted_aliases c' request = wanted_aliases c request"
  using assms by (auto simp: wanted_aliases_def intro!: bset_eqI)

definition with_names :: "domain_request \<Rightarrow> string bset \<Rightarrow> ('o, 'c) distribution_config \<Rightarrow> ('o, 'c) distribution_config" where
  "with_names request names c =
     (let c1 = c\<lparr>dc_aliases := Some \<lparr>aliases_quantity = quantity_of names,
             aliases_items = (if names = [] then None else Some names)\<rparr>\<rparr>
      in case dr_certificate_arn request of
           None \<Rightarrow> c1
         | Some arn \<Rightarrow> c1\<lparr>dc_viewer_certificate := Some
             \<lparr>vc_cloud_front_default = Some False, vc_acm_certificate_arn = Some arn,
              vc_ssl_support_method = Some SniOnly, vc_minimum_protocol_version = Some TlSv122021\<rparr>\<rparr>)"

lemma with_names_existing: "bset_ok names \<Longrightarrow> existing_aliases (with_names request names c) = names"
  by (simp add: with_names_def existing_aliases_def bset_of_id Let_def split: option.split)

lemma with_names_again:
  "with_names request names (update_default_origin_domain d (with_names request names c)) =
     update_default_origin_domain d (with_names request names c)"
  by (simp add: with_names_def Let_def update_default_origin_domain_def split: option.split)

lemma existing_aliases_cong: "dc_aliases c = dc_aliases c' \<Longrightarrow> existing_aliases c = existing_aliases c'"
  by (simp add: existing_aliases_def)

lemma reconcile_distribution_config_Inr:
  assumes "reconcile_distribution_config c request = Inr (c', result)"
  shows "c' = update_default_origin_domain (dr_origin_domain request) (with_names request (wanted_aliases c request) c) \<and>
    dres_added result = length (filter (\<lambda>d. d \<notin> set (existing_aliases c)) (dr_desired_domains request)) \<and>
    dres_removed result = (if dr_remove_extra_domains request
      then length (filter (\<lambda>d. d \<notin> set (dr_desired_domains request)) (existing_aliases c)) else 0) \<and>
    dres_unchanged result = length (filter (\<lambda>d. d \<in> set (existing_aliases c)) (dr_desired_domains request))"
  using assms by (auto simp: reconcile_distribution_config_def result_simps Let_def with_names_def wanted_aliases_def)

lemma reconcile_distribution_config_ok:
  "dr_desired_domains request = [] \<or> dr_certificate_arn request \<noteq> None \<longleftrightarrow>
     (\<exists>c' result. reconcile_distribution_config c request = Inr (c', result))"
  by (auto simp: reconcile_distribution_config_def result_simps Let_def)

definition example_distribution :: "(unit, unit) distribution_config" where
  "example_distribution = \<lparr>dc_aliases = Some \<lparr>aliases_quantity = 1, aliases_items = Some [''a'']\<rparr>,
     dc_viewer_certificate = None, dc_origins = None, dc_target_origin_id = None, dc_rest = ()\<rparr>"

definition example_aliases_request :: domain_request where
  "example_aliases_request = \<lparr>dr_origin_id = ''w'', dr_desired_domains = [''b''], dr_origin_domain = ''o'',
     dr_certificate_arn = Some ''arn'', dr_proxied = True, dr_remove_extra_domains = False\<rparr>"

section \<open>Properties\<close>

text \<open>C31: Reconciling the aliases of a distribution reaches the wanted set in one step: afterwards the distribution has
exactly the desired domains, with the old ones unless extra domains are removed, and reconciling again changes
nothing and reports every desired domain as unchanged.\<close>

theorem cloudfront_reconcile_converges:
  assumes "reconcile_distribution_config c request = Inr (c', result)"
    and "bset_ok (dr_desired_domains request)"
  shows "set (existing_aliases c') = set (dr_desired_domains request) \<union>
      (if dr_remove_extra_domains request then {} else set (existing_aliases c)) \<and>
    (\<exists>again. reconcile_distribution_config c' request = Inr (c', again) \<and> dres_added again = 0 \<and>
       dres_updated again = 0 \<and> dres_removed again = 0 \<and> dres_unchanged again = length (dr_desired_domains request))"
proof -
  let ?names = "wanted_aliases c request"
  have ok: "bset_ok ?names" using assms(2) by (auto simp: wanted_aliases_def)
  have c': "c' = update_default_origin_domain (dr_origin_domain request) (with_names request ?names c)"
    using reconcile_distribution_config_Inr [OF assms(1)] by simp
  have "existing_aliases c' = existing_aliases (with_names request ?names c)"
    by (rule existing_aliases_cong) (simp add: c')
  then have existing: "existing_aliases c' = ?names" by (simp only: with_names_existing [OF ok])
  then have names: "wanted_aliases c' request = ?names" by (rule wanted_aliases_again [OF assms(2)])
  obtain c2 again where run: "reconcile_distribution_config c' request = Inr (c2, again)"
    using reconcile_distribution_config_ok [of request c] reconcile_distribution_config_ok [of request c'] assms(1) by blast
  note second = reconcile_distribution_config_Inr [OF run]
  have "c2 = c'" using second unfolding names by (simp add: c' with_names_again update_default_origin_domain_idem)
  moreover have "set ?names = set (dr_desired_domains request) \<union>
      (if dr_remove_extra_domains request then {} else set (existing_aliases c))"
    by (auto simp: wanted_aliases_def)
  moreover have "dres_updated again = 0"
    using run by (auto simp: reconcile_distribution_config_def result_simps Let_def)
  ultimately show ?thesis
    using run second existing by (auto simp: wanted_aliases_def filter_empty_conv)
qed

theorem cloudfront_reconcile_converges_witness:
  "\<exists>c' result. reconcile_distribution_config example_distribution example_aliases_request = Inr (c', result) \<and>
     set (existing_aliases c') = {''a'', ''b''}"
proof -
  obtain c' result where run: "reconcile_distribution_config example_distribution example_aliases_request = Inr (c', result)"
    using reconcile_distribution_config_ok [of example_aliases_request example_distribution]
    by (auto simp: example_aliases_request_def)
  have ok: "bset_ok (dr_desired_domains example_aliases_request)" and existing: "existing_aliases example_distribution = [''a'']"
    by (simp_all add: bset_ok_def existing_aliases_def bset_of_def example_distribution_def example_aliases_request_def)
  have "set (existing_aliases c') = {''a'', ''b''}"
    using cloudfront_reconcile_converges [OF run ok, THEN conjunct1] existing
    by (simp add: insert_commute example_aliases_request_def)
  with run show ?thesis by blast
qed

text \<open>The quantity of an invalidation and the number of submitted items are the number of paths as long as it fits
a signed 32-bit integer; with one path more the quantity is negative.\<close>

theorem invalidation_quantity_bounds:
  "(length paths < 2 ^ 31 \<longrightarrow> sint (quantity_of paths) = int (length paths) \<and>
      unat (usize_of (quantity_of paths)) = length paths) \<and>
   (length paths = 2 ^ 31 \<longrightarrow> sint (quantity_of paths) < 0)"
  by (simp add: quantity_of_def usize_of_def signed_of_nat signed_take_bit_int_eq_self unsigned_of_nat take_bit_nat_eq_self)

theorem invalidation_quantity_bounds_witness:
  "sint (quantity_of [''/a'', ''/b'']) = 2 \<and> unat (usize_of (quantity_of [''/a'', ''/b''])) = 2"
  using invalidation_quantity_bounds [of "[''/a'', ''/b'']"] by simp

end
