(* ===== verification/Saas_Client.thy ===== *)
theory Saas_Client
  imports Saas_Cdn Cloudfront_Cdn
begin

text \<open>
  The AWS implementation of \<open>CloudFrontSaasClient\<close>
  (\<open>src/repositories/cloudfront_saas_cdn/aws_client.rs\<close>). The calls of the SDK are parameters;
  of its requests and responses the model has what the code passes and reads. A value of one
  of the SDK's enumerations is the string of \<open>as_str\<close>, which its \<open>From<&str>\<close> takes back. The
  SDK's builders fail only when a required field is missing; the code sets all of them.
\<close>

section \<open>Types of the SDK\<close>

record sdk_geo_restriction =
  aws_restriction_type :: string
  aws_locations :: "string list option"

record sdk_web_acl =
  aws_action :: string
  aws_arn :: "string option"

record sdk_customizations =
  aws_certificate :: "string option"
  aws_geo_restrictions :: "sdk_geo_restriction option"
  aws_web_acl :: "sdk_web_acl option"

record sdk_tenant =
  aws_id :: "string option"
  aws_name :: "string option"
  aws_distribution_id :: "string option"
  aws_domains :: "string list"
  aws_connection_group_id :: "string option"
  aws_parameters :: "(string \<times> string) list"
  aws_tenant_customizations :: "sdk_customizations option"
  aws_enabled :: "bool option"

record sdk_tenant_summary =
  sum_id :: string
  sum_name :: string
  sum_distribution_id :: string
  sum_domains :: "string list"
  sum_connection_group_id :: "string option"
  sum_customizations :: "sdk_customizations option"
  sum_enabled :: "bool option"

record aws_create_request =
  acr_distribution_id :: string
  acr_name :: string
  acr_domains :: "string list"
  acr_connection_group_id :: "string option"
  acr_parameters :: "(string \<times> string) list"
  acr_token_host :: "string option"
  acr_enabled :: bool

record aws_update_request =
  aur_id :: string
  aur_distribution_id :: string
  aur_domains :: "string list"
  aur_customizations :: "sdk_customizations option"
  aur_connection_group_id :: "string option"
  aur_parameters :: "(string \<times> string) list"
  aur_token_host :: "string option"
  aur_enabled :: "bool option"
  aur_if_match :: string

record sdk_failure =
  fail_not_found :: bool
  fail_request_id :: "string option"
  fail_error :: anyhow

record 'a sdk_response =
  sdk_value :: 'a
  sdk_request_id :: "string option"

record 'w cloudfront_sdk =
  sdk_get_by_domain :: "string \<Rightarrow> ('w, sdk_failure, sdk_tenant option sdk_response) action"
  sdk_get :: "string \<Rightarrow> ('w, sdk_failure, (sdk_tenant option \<times> string option) sdk_response) action"
  sdk_get_certificate :: "string \<Rightarrow> ('w, sdk_failure, string option option sdk_response) action"
  sdk_list :: "string \<Rightarrow> string option \<Rightarrow> ('w, sdk_failure, sdk_tenant_summary list \<times> string option) action"
  sdk_create :: "aws_create_request \<Rightarrow> ('w, sdk_failure, sdk_tenant option sdk_response) action"
  sdk_update :: "aws_update_request \<Rightarrow> ('w, sdk_failure, sdk_tenant option sdk_response) action"
  sdk_invalidate :: "string \<Rightarrow> invalidation_batch \<Rightarrow> ('w, sdk_failure, string option sdk_response) action"

section \<open>Conversions\<close>

definition tenant_customizations_from_aws :: "sdk_customizations \<Rightarrow> tenant_customizations" where
  "tenant_customizations_from_aws c =
     \<lparr>cust_certificate_arn = aws_certificate c,
      cust_geo_restrictions = map_option (\<lambda>g.
        \<lparr>geo_restriction_type = aws_restriction_type g, geo_locations = aws_locations g\<rparr>) (aws_geo_restrictions c),
      cust_web_acl = map_option (\<lambda>a. \<lparr>acl_action = aws_action a, acl_arn = aws_arn a\<rparr>) (aws_web_acl c)\<rparr>"

definition aws_customizations :: "tenant_customizations \<Rightarrow> sdk_customizations" where
  "aws_customizations c =
     \<lparr>aws_certificate = cust_certificate_arn c,
      aws_geo_restrictions = map_option (\<lambda>g.
        \<lparr>aws_restriction_type = geo_restriction_type g, aws_locations = geo_locations g\<rparr>) (cust_geo_restrictions c),
      aws_web_acl = map_option (\<lambda>a. \<lparr>aws_action = acl_action a, aws_arn = acl_arn a\<rparr>) (cust_web_acl c)\<rparr>"

definition distribution_tenant_from_aws :: "sdk_tenant \<Rightarrow> distribution_tenant res" where
  "distribution_tenant_from_aws t =
     try_then (ok_or (aws_id t) (ErrorMsg ''CloudFront distribution tenant missing ID'')) (\<lambda>i.
     try_then (ok_or (aws_name t) (ErrorMsg ''CloudFront distribution tenant missing name'')) (\<lambda>name.
     try_then (ok_or (aws_distribution_id t)
       (ErrorMsg ''CloudFront distribution tenant missing distribution ID'')) (\<lambda>distribution_id.
     Inr \<lparr>ten_id = i, ten_name = name, ten_distribution_id = distribution_id,
          ten_domains = bset_of (aws_domains t), ten_connection_group_id = aws_connection_group_id t,
          ten_parameters = bt_collect (aws_parameters t),
          ten_customizations = map_option tenant_customizations_from_aws (aws_tenant_customizations t),
          ten_enabled = aws_enabled t\<rparr>)))"

definition distribution_tenant_summary_from_aws :: "sdk_tenant_summary \<Rightarrow> distribution_tenant" where
  "distribution_tenant_summary_from_aws t =
     \<lparr>ten_id = sum_id t, ten_name = sum_name t, ten_distribution_id = sum_distribution_id t,
      ten_domains = bset_of (sum_domains t), ten_connection_group_id = sum_connection_group_id t,
      ten_parameters = [],
      ten_customizations = map_option tenant_customizations_from_aws (sum_customizations t),
      ten_enabled = sum_enabled t\<rparr>"

text \<open>A tenant that a response must hold.\<close>

definition response_tenant :: "string \<Rightarrow> sdk_tenant option \<Rightarrow> distribution_tenant res" where
  "response_tenant operation found =
     try_then (ok_or found (ErrorMsg (''CloudFront '' @ operation @ '' response missing tenant'')))
       distribution_tenant_from_aws"

definition sdk_context :: "string \<Rightarrow> ('w, sdk_failure, 'a) action \<Rightarrow> ('w, anyhow, 'a) action" where
  "sdk_context c = io_map_err (\<lambda>e. ErrorContext c (fail_error e))"

section \<open>The operations\<close>

definition aws_get_tenant_by_domain ::
    "'w cloudfront_sdk \<Rightarrow> string \<Rightarrow> ('w, anyhow, distribution_tenant option cloudfront_response) action" where
  "aws_get_tenant_by_domain sdk domain =
     io_match (sdk_get_by_domain sdk domain) (\<lambda>r.
       case r of
         Inr response \<Rightarrow>
           io_then (io_lift (response_tenant ''get_distribution_tenant_by_domain'' (sdk_value response))) (\<lambda>tenant.
           io_return \<lparr>cfres_value = Some tenant, cfres_request_id = sdk_request_id response\<rparr>)
       | Inl e \<Rightarrow>
           if fail_not_found e then
             io_return \<lparr>cfres_value = None, cfres_request_id = fail_request_id e\<rparr>
           else io_fail (ErrorContext
             (''CloudFront get_distribution_tenant_by_domain for domain '' @ domain) (fail_error e)))"

definition aws_get_tenant ::
    "'w cloudfront_sdk \<Rightarrow> string \<Rightarrow> ('w, anyhow, versioned_tenant cloudfront_response) action" where
  "aws_get_tenant sdk tenant_id =
     io_then (sdk_context (''CloudFront get_distribution_tenant for tenant '' @ tenant_id) (sdk_get sdk tenant_id))
       (\<lambda>response.
     case sdk_value response of (found, e_tag) \<Rightarrow>
       io_then (io_lift (response_tenant ''get_distribution_tenant'' found)) (\<lambda>tenant.
       io_then (io_lift (ok_or e_tag (ErrorMsg
         (''CloudFront get_distribution_tenant response missing ETag for tenant '' @ tenant_id)))) (\<lambda>etag.
       io_return \<lparr>cfres_value = \<lparr>ver_tenant = tenant, ver_etag = etag\<rparr>,
                  cfres_request_id = sdk_request_id response\<rparr>)))"

definition aws_get_token_host ::
    "'w cloudfront_sdk \<Rightarrow> string \<Rightarrow> ('w, anyhow, certificate_lookup cloudfront_response) action" where
  "aws_get_token_host sdk tenant_id =
     io_match (sdk_get_certificate sdk tenant_id) (\<lambda>r.
       case r of
         Inr response \<Rightarrow>
           io_then (io_lift (ok_or (sdk_value response) (ErrorMsg
             (''CloudFront get_managed_certificate_details response missing details for tenant '' @ tenant_id))))
             (\<lambda>host.
           io_return \<lparr>cfres_value = CertificateFound host, cfres_request_id = sdk_request_id response\<rparr>)
       | Inl e \<Rightarrow>
           if fail_not_found e then
             io_return \<lparr>cfres_value = CertificateNotFound, cfres_request_id = fail_request_id e\<rparr>
           else io_fail (ErrorContext
             (''CloudFront get_managed_certificate_details for tenant '' @ tenant_id) (fail_error e)))"

definition aws_list_tenants ::
    "'w cloudfront_sdk \<Rightarrow> string \<Rightarrow> string option \<Rightarrow> ('w, anyhow, tenant_page) action" where
  "aws_list_tenants sdk distribution_id marker =
     io_then (sdk_context (''CloudFront list_distribution_tenants for distribution '' @ distribution_id)
       (sdk_list sdk distribution_id marker)) (\<lambda>(summaries, next_marker).
     io_return \<lparr>page_tenants = map distribution_tenant_summary_from_aws summaries,
                page_next_marker = next_marker\<rparr>)"

definition aws_create_tenant ::
    "'w cloudfront_sdk \<Rightarrow> create_tenant_request \<Rightarrow> ('w, anyhow, distribution_tenant cloudfront_response) action" where
  "aws_create_tenant sdk request =
     io_then (sdk_context (''CloudFront create_distribution_tenant named '' @ ctr_name request @
         '' for distribution '' @ ctr_distribution_id request)
       (sdk_create sdk
         \<lparr>acr_distribution_id = ctr_distribution_id request, acr_name = ctr_name request,
          acr_domains = ctr_domains request, acr_connection_group_id = ctr_connection_group_id request,
          acr_parameters = ctr_parameters request,
          acr_token_host = map_option cert_validation_token_host (ctr_managed_certificate request),
          acr_enabled = ctr_enabled request\<rparr>)) (\<lambda>response.
     io_then (io_lift (response_tenant ''create_distribution_tenant'' (sdk_value response))) (\<lambda>tenant.
     io_return \<lparr>cfres_value = tenant, cfres_request_id = sdk_request_id response\<rparr>))"

definition update_input :: "update_tenant_request \<Rightarrow> aws_update_request" where
  "update_input request =
     (let tenant = utr_tenant request in
      \<lparr>aur_id = utr_id request, aur_distribution_id = ten_distribution_id tenant,
       aur_domains = ten_domains tenant,
       aur_customizations = map_option aws_customizations (ten_customizations tenant),
       aur_connection_group_id = ten_connection_group_id tenant,
       aur_parameters = ten_parameters tenant,
       aur_token_host = map_option cert_validation_token_host (utr_managed_certificate request),
       aur_enabled = ten_enabled tenant, aur_if_match = utr_if_match request\<rparr>)"

definition aws_update_tenant ::
    "'w cloudfront_sdk \<Rightarrow> update_tenant_request \<Rightarrow> ('w, anyhow, distribution_tenant cloudfront_response) action" where
  "aws_update_tenant sdk request =
     io_then (sdk_context (''CloudFront update_distribution_tenant for tenant '' @ utr_id request)
       (sdk_update sdk (update_input request))) (\<lambda>response.
     io_then (io_lift (response_tenant ''update_distribution_tenant'' (sdk_value response))) (\<lambda>updated.
     io_return \<lparr>cfres_value = updated, cfres_request_id = sdk_request_id response\<rparr>))"

definition aws_invalidate_tenant ::
    "'w cloudfront_sdk \<Rightarrow> invalidation_request \<Rightarrow> ('w, anyhow, string cloudfront_response) action" where
  "aws_invalidate_tenant sdk request =
     io_then (sdk_context
         (''CloudFront create_invalidation_for_distribution_tenant for tenant '' @ tir_tenant_id request)
       (sdk_invalidate sdk (tir_tenant_id request)
         \<lparr>batch_caller_reference = tir_caller_reference request,
          batch_quantity = quantity_of (tir_paths request), batch_paths = tir_paths request\<rparr>)) (\<lambda>response.
     io_then (io_lift (ok_or (sdk_value response) (ErrorMsg
       (''CloudFront create_invalidation_for_distribution_tenant response missing invalidation for tenant '' @
          tir_tenant_id request)))) (\<lambda>invalidation_id.
     io_return \<lparr>cfres_value = invalidation_id, cfres_request_id = sdk_request_id response\<rparr>))"

definition aws_saas_client :: "'w cloudfront_sdk \<Rightarrow> 'w saas_client" where
  "aws_saas_client sdk =
     \<lparr>get_tenant_by_domain = aws_get_tenant_by_domain sdk, get_tenant = aws_get_tenant sdk,
      get_token_host = aws_get_token_host sdk, list_tenants = aws_list_tenants sdk,
      create_tenant = aws_create_tenant sdk, update_tenant = aws_update_tenant sdk,
      invalidate_tenant = aws_invalidate_tenant sdk\<rparr>"

section \<open>Facts\<close>

lemma map_option_eta: "(\<And>x. f x = x) \<Longrightarrow> map_option f v = v"
  by (cases v) simp_all

lemma customizations_from_to: "tenant_customizations_from_aws (aws_customizations c) = c"
  by (cases c) (simp add: tenant_customizations_from_aws_def aws_customizations_def option.map_comp comp_def map_option_eta)

lemma customizations_to_from: "aws_customizations (tenant_customizations_from_aws c) = c"
  by (cases c) (simp add: tenant_customizations_from_aws_def aws_customizations_def option.map_comp comp_def map_option_eta)

lemma map_customizations: "map_option aws_customizations (map_option tenant_customizations_from_aws c) = c"
  by (cases c) (simp_all add: customizations_to_from)

lemma distribution_tenant_from_aws_Inr:
  assumes "distribution_tenant_from_aws t = Inr tenant"
  shows "aws_id t = Some (ten_id tenant) \<and> ten_domains tenant = bset_of (aws_domains t) \<and>
    ten_connection_group_id tenant = aws_connection_group_id t \<and> ten_parameters tenant = bt_collect (aws_parameters t) \<and>
    ten_customizations tenant = map_option tenant_customizations_from_aws (aws_tenant_customizations t) \<and>
    ten_enabled tenant = aws_enabled t"
  using assms by (auto simp: distribution_tenant_from_aws_def result_simps)

section \<open>Properties\<close>

text \<open>C36: An update sends back what the read tenant had: its customizations unchanged, every parameter that the
configuration does not set, its connection group unless one is configured, and it never switches the tenant off.\<close>

theorem update_sends_back_what_was_read:
  assumes "distribution_tenant_from_aws t = Inr tenant"
    and "utr_tenant request = merged_tenant config tenant domain"
  shows "aur_customizations (update_input request) = aws_tenant_customizations t \<and>
    map_of (aur_parameters (update_input request)) = map_of (rev (aws_parameters t)) ++ map_of (rev (tc_parameters config)) \<and>
    aur_connection_group_id (update_input request) =
      (if tc_connection_group_id config = None then aws_connection_group_id t else tc_connection_group_id config) \<and>
    aur_domains (update_input request) = [domain] \<and> aur_enabled (update_input request) \<noteq> Some False"
proof -
  show ?thesis
    using distribution_tenant_from_aws_Inr [OF assms(1)]
    by (simp add: map_of_bt_extend update_input_def Let_def assms(2) merged_tenant_def map_customizations split: option.split)
qed

theorem update_sends_back_what_was_read_witness:
  "\<exists>request tenant. distribution_tenant_from_aws
       \<lparr>aws_id = Some ''t'', aws_name = Some ''n'', aws_distribution_id = Some ''D'', aws_domains = [''a''],
        aws_connection_group_id = None, aws_parameters = [(''p'', ''old'')],
        aws_tenant_customizations = Some \<lparr>aws_certificate = Some ''arn'', aws_geo_restrictions = None, aws_web_acl = None\<rparr>,
        aws_enabled = Some False\<rparr> = Inr tenant \<and>
     utr_tenant request = merged_tenant \<lparr>tc_distribution_id = ''D'', tc_connection_group_id = None,
       tc_parameters = [(''p'', ''new'')], tc_managed_certificate = None\<rparr> tenant ''a'' \<and>
     map_of (aur_parameters (update_input request)) ''p'' = Some ''new'' \<and> aur_enabled (update_input request) = Some True"
proof -
  let ?t = "\<lparr>aws_id = Some ''t'', aws_name = Some ''n'', aws_distribution_id = Some ''D'', aws_domains = [''a''],
        aws_connection_group_id = None, aws_parameters = [(''p'', ''old'')],
        aws_tenant_customizations = Some \<lparr>aws_certificate = Some ''arn'', aws_geo_restrictions = None, aws_web_acl = None\<rparr>,
        aws_enabled = Some False\<rparr> :: sdk_tenant"
  let ?config = "\<lparr>tc_distribution_id = ''D'', tc_connection_group_id = None, tc_parameters = [(''p'', ''new'')],
       tc_managed_certificate = None\<rparr>"
  obtain tenant where tenant: "distribution_tenant_from_aws ?t = Inr tenant"
    by (simp add: distribution_tenant_from_aws_def)
  define request where "request = \<lparr>utr_id = ''t'', utr_if_match = ''e'', utr_tenant = merged_tenant ?config tenant ''a'',
     utr_managed_certificate = None\<rparr>"
  have merged: "utr_tenant request = merged_tenant ?config tenant ''a''" by (simp add: request_def)
  have "ten_enabled tenant = Some False" using distribution_tenant_from_aws_Inr [OF tenant] by simp
  then have "aur_enabled (update_input request) = Some True"
    by (simp add: update_input_def merged merged_tenant_def Let_def)
  then show ?thesis
    using tenant merged update_sends_back_what_was_read [OF tenant merged] by (intro exI conjI) auto
qed

end
