(* ===== verification/Dir_Collect.thy ===== *)
theory Dir_Collect
  imports Dir_Walk
begin

text \<open>
  Walks that change nothing and collect an entry for every file they want: the listing of a
  local origin and of the files of a mirror. The locale \<open>dir_collect\<close> states what a visit adds,
  and shows that a walk that succeeds collects exactly the entries below its top.
\<close>

locale dir_collect = dir_walk visit key top good
  for visit :: "'d \<Rightarrow> 's list \<Rightarrow> (anyhow, 's list \<times> 'd list) io" and key :: "'d \<Rightarrow> fs_key"
    and top :: fs_key and good :: "'d \<Rightarrow> bool" +
  fixes found :: "filesystem \<Rightarrow> fs_key \<Rightarrow> 's \<Rightarrow> bool"
  assumes visit_same: "good d \<Longrightarrow> visit d acc w = (r, w') \<Longrightarrow> world_fs w' = world_fs w"
    and visit_adds: "good d \<Longrightarrow> visit d acc w = (Inr (acc', pushed), w') \<Longrightarrow> fs_ok (world_fs w) \<Longrightarrow>
          set acc \<subseteq> set acc' \<and>
          (\<forall>s \<in> set acc'. s \<in> set acc \<or>
             (\<exists>k. prefix (key d) k \<and> found (world_fs w) k s \<and> reachable_from (world_fs w) (key d) k))"
    and visit_dir: "good d \<Longrightarrow> visit d acc w = (Inr (acc', p # pushed), w') \<Longrightarrow> is_dir (world_fs w) (key d)"
    and visit_finds: "good d \<Longrightarrow> visit d acc w = (Inr (acc', pushed), w') \<Longrightarrow> fs_ok (world_fs w) \<Longrightarrow>
          prefix (key d) k \<Longrightarrow> found (world_fs w) k s \<Longrightarrow> reachable_from (world_fs w) (key d) k \<Longrightarrow>
          s \<in> set acc' \<or> (\<exists>p \<in> set pushed. prefix (key p) k)"
begin

lemma reachable_below:
  "reachable_from fs j k \<Longrightarrow> length j \<le> length i \<Longrightarrow> reachable_from fs i k"
  by (auto simp: reachable_from_def)

lemma reachable_above:
  assumes "reachable_from fs i k" and "i = j @ [c]" and "is_dir fs j" and "prefix j k"
  shows "reachable_from fs j k"
  unfolding reachable_from_def
proof (intro allI impI)
  fix n assume n: "length j \<le> n \<and> n < length k"
  show "is_dir fs (take n k)"
  proof (cases "n = length j")
    case True
    then show ?thesis using assms(3,4) by (auto simp: prefix_def)
  next
    case False
    then show ?thesis using assms(1,2) n by (simp add: reachable_from_def)
  qed
qed

lemma walk_collects:
  "walk visit n stack acc w = Some (Inr out, v) \<Longrightarrow> \<forall>d \<in> set stack. good d \<Longrightarrow> fs_ok (world_fs w) \<Longrightarrow>
   world_fs v = world_fs w \<and> set acc \<subseteq> set out \<and>
   (\<forall>s \<in> set out. s \<in> set acc \<or> (\<exists>d \<in> set stack. \<exists>k. prefix (key d) k \<and> found (world_fs w) k s \<and>
      reachable_from (world_fs w) (key d) k)) \<and>
   (\<forall>d \<in> set stack. \<forall>k s. prefix (key d) k \<longrightarrow> found (world_fs w) k s \<longrightarrow> reachable_from (world_fs w) (key d) k \<longrightarrow>
      s \<in> set out)"
proof (induction n arbitrary: stack acc w)
  case 0
  then show ?case by (cases stack) auto
next
  case (Suc n)
  show ?case
  proof (cases stack)
    case Nil
    with Suc.prems show ?thesis by auto
  next
    case (Cons d st)
    obtain r u where r: "visit d acc w = (r, u)" by (cases "visit d acc w")
    obtain acc' pushed where p: "r = Inr (acc', pushed)"
      using Suc.prems(1) r Cons by (cases r) (auto split: prod.splits)
    note run = r [unfolded p]
    have good: "good d" using Suc.prems(2) Cons by simp
    have rest: "walk visit n (rev pushed @ st) acc' u = Some (Inr out, v)"
      using Suc.prems(1) Cons run by simp
    have same: "world_fs u = world_fs w" by (rule visit_same [OF good run])
    have new: "good e" "\<exists>name. key e = key d @ [Normal name]" if "e \<in> set pushed" for e
      using visit_pushed [OF good run Suc.prems(3)] that by auto
    note IH = Suc.IH [OF rest, unfolded same, OF _ Suc.prems(3)]
    have all: "\<forall>e \<in> set (rev pushed @ st). good e" using new Suc.prems(2) Cons by auto
    note IH = IH [OF all]
    note adds = visit_adds [OF good run Suc.prems(3)]
    have sound: "s \<in> set acc \<or> (\<exists>d \<in> set stack. \<exists>k. prefix (key d) k \<and> found (world_fs w) k s \<and>
        reachable_from (world_fs w) (key d) k)" if s: "s \<in> set out" for s
    proof -
      from IH s have "s \<in> set acc' \<or> (\<exists>e \<in> set pushed \<union> set st. \<exists>k. prefix (key e) k \<and> found (world_fs w) k s \<and>
          reachable_from (world_fs w) (key e) k)"
        by auto
      then show ?thesis
      proof
        assume "s \<in> set acc'"
        then show ?thesis using adds Cons by auto
      next
        assume "\<exists>e \<in> set pushed \<union> set st. \<exists>k. prefix (key e) k \<and> found (world_fs w) k s \<and>
          reachable_from (world_fs w) (key e) k"
        then obtain e k where e: "e \<in> set pushed \<union> set st" "prefix (key e) k" "found (world_fs w) k s"
          "reachable_from (world_fs w) (key e) k" by blast
        show ?thesis
        proof (cases "e \<in> set st")
          case True
          then show ?thesis using e Cons by auto
        next
          case False
          then have in_pushed: "e \<in> set pushed" using e(1) by simp
          then obtain name where child: "key e = key d @ [Normal name]" using new(2) by blast
          have dir: "is_dir (world_fs w) (key d)"
            using visit_dir [OF good, of acc w acc' _ _ u] run in_pushed by (cases pushed) auto
          have below: "prefix (key d) k" using e(2) child append_prefixD by metis
          have "reachable_from (world_fs w) (key d) k"
            using reachable_above [OF e(4) child dir below] .
          then show ?thesis using e(3) below Cons by auto
        qed
      qed
    qed
    have below: "s \<in> set out" if "e \<in> set (rev pushed @ st)" "prefix (key e) k" "found (world_fs w) k s"
        "reachable_from (world_fs w) (key e) k" for e k s
      using IH that by blast
    have complete: "s \<in> set out"
      if e: "e \<in> set stack" and k: "prefix (key e) k" and f: "found (world_fs w) k s"
        and reach: "reachable_from (world_fs w) (key e) k" for e k s
    proof (cases "e = d")
      case True
      from visit_finds [OF good run Suc.prems(3)] k f reach True
      have "s \<in> set acc' \<or> (\<exists>p \<in> set pushed. prefix (key p) k)" by simp
      then show ?thesis
      proof
        assume "s \<in> set acc'"
        then show ?thesis using IH by auto
      next
        assume "\<exists>p \<in> set pushed. prefix (key p) k"
        then obtain q where q: "q \<in> set pushed" "prefix (key q) k" by blast
        have "reachable_from (world_fs w) (key q) k"
          using reachable_below [OF reach, of "key q"] new(2) [OF q(1)] True by auto
        then show ?thesis using below [of q k s] q f by simp
      qed
    next
      case False
      then show ?thesis using below [of e k s] e k f reach Cons by auto
    qed
    show ?thesis using IH adds sound complete by blast
  qed
qed

lemma walk_dirs_collects:
  assumes "walk_dirs visit [d] [] w = (Inr out, v)" and "key d = top" and "good d" and "fs_ok (world_fs w)"
  shows "world_fs v = world_fs w"
    and "s \<in> set out \<Longrightarrow> \<exists>k. prefix top k \<and> found (world_fs w) k s \<and> reachable_from (world_fs w) top k"
    and "prefix top k \<Longrightarrow> found (world_fs w) k s \<Longrightarrow> reachable_from (world_fs w) top k \<Longrightarrow> s \<in> set out"
proof -
  have walk: "walk visit (walk_fuel [d] w) [d] [] w = Some (Inr out, v)"
    using assms(1) walk_dirs_returns [OF assms(2-4), of "[]"] by (auto simp: walk_dirs_def)
  note facts = walk_collects [OF walk _ assms(4)]
  show "world_fs v = world_fs w" using facts assms(3) by auto
  show "s \<in> set out \<Longrightarrow> \<exists>k. prefix top k \<and> found (world_fs w) k s \<and> reachable_from (world_fs w) top k" using facts assms(2,3) by auto
  show "prefix top k \<Longrightarrow> found (world_fs w) k s \<Longrightarrow> reachable_from (world_fs w) top k \<Longrightarrow> s \<in> set out"
    using facts assms(2,3) by auto
qed

end

text \<open>When no visit of a directory fails in a calm world, neither does the walk.\<close>

locale dir_listing = dir_collect visit key top good found
  for visit :: "'d \<Rightarrow> 's list \<Rightarrow> (anyhow, 's list \<times> 'd list) io" and key :: "'d \<Rightarrow> fs_key"
    and top :: fs_key and good :: "'d \<Rightarrow> bool" and found :: "filesystem \<Rightarrow> fs_key \<Rightarrow> 's \<Rightarrow> bool" +
  assumes visit_calm: "good d \<Longrightarrow> calm w \<Longrightarrow> fs_ok (world_fs w) \<Longrightarrow> is_dir (world_fs w) (key d) \<Longrightarrow>
    visit d acc w = (r, w') \<Longrightarrow> \<not> isl r \<and> calm w'"
begin

lemma walk_calm:
  "walk visit n stack acc w = Some (r, v) \<Longrightarrow> \<forall>d \<in> set stack. good d \<and> is_dir (world_fs w) (key d) \<Longrightarrow>
   fs_ok (world_fs w) \<Longrightarrow> calm w \<Longrightarrow> \<not> isl r \<and> calm v"
proof (induction n arbitrary: stack acc w)
  case 0
  then show ?case by (cases stack) auto
next
  case (Suc n)
  show ?case
  proof (cases stack)
    case Nil
    with Suc.prems show ?thesis by auto
  next
    case (Cons d st)
    obtain t u where t: "visit d acc w = (t, u)" by (cases "visit d acc w")
    have d: "good d" "is_dir (world_fs w) (key d)" using Suc.prems(2) Cons by auto
    note calm = visit_calm [OF d(1) Suc.prems(4,3) d(2) t]
    then obtain acc' pushed where p: "t = Inr (acc', pushed)" by (cases t) auto
    note run = t [unfolded p]
    have same: "world_fs u = world_fs w" by (rule visit_same [OF d(1) run])
    have rest: "walk visit n (rev pushed @ st) acc' u = Some (r, v)"
      using Suc.prems(1) Cons run by simp
    show ?thesis
      using Suc.IH [OF rest] visit_pushed [OF d(1) run Suc.prems(3)] Suc.prems(2,3) Cons calm same by auto
  qed
qed

lemma walk_dirs_calm:
  assumes "key d = top" and "good d" and "fs_ok (world_fs w)" and "calm w" and "is_dir (world_fs w) top"
  shows "\<exists>out v. walk_dirs visit [d] acc w = (Inr out, v) \<and> calm v"
proof -
  obtain r v where walk: "walk visit (walk_fuel [d] w) [d] acc w = Some (r, v)"
    using walk_dirs_returns [OF assms(1-3), of acc] by auto
  have "\<not> isl r \<and> calm v" using walk_calm [OF walk] assms by simp
  then show ?thesis using walk by (cases r) (simp_all add: walk_dirs_def)
qed

end

end
