(* ===== verification/Local_Storage.thy ===== *)
theory Local_Storage
  imports Dir_Collect Sync_Facts
begin

text \<open>
  A local directory as the source of an origin (\<open>src/repositories/local_directory_storage.rs\<close>):
  its listing and its objects. The resolution of a path by the operating system, symbolic
  links included, the times of a file, SHA-256 and the table of \<open>mime_guess\<close> are parameters.
  File names are UTF-8.
\<close>

record local_env =
  le_canonicalize :: "filesystem \<Rightarrow> pathbuf \<Rightarrow> io_error + pathbuf"
  le_sha256_hex :: "string \<Rightarrow> string"
  le_mime :: "string \<Rightarrow> string option"
  le_created :: "filesystem \<Rightarrow> fs_key \<Rightarrow> string option"
  le_modified :: "filesystem \<Rightarrow> fs_key \<Rightarrow> string option"

record local_storage =
  ls_root :: pathbuf

text \<open>What \<open>fs::metadata\<close> tells: the node and its times.\<close>

record file_metadata =
  md_node :: fs_node
  md_created :: "string option"
  md_modified :: "string option"

section \<open>The operating system\<close>

definition io_canonicalize :: "local_env \<Rightarrow> pathbuf \<Rightarrow> (io_error, pathbuf) io" where
  "io_canonicalize env p = io_op (\<lambda>fs. (le_canonicalize env fs p, fs)) (\<lambda>_ fs. fs)"

definition fs_metadata :: "local_env \<Rightarrow> filesystem \<Rightarrow> pathbuf \<Rightarrow> io_error + file_metadata" where
  "fs_metadata env fs p =
     try_then (fs_stat fs p) (\<lambda>node.
     Inr \<lparr>md_node = node, md_created = le_created env fs (fs_key p), md_modified = le_modified env fs (fs_key p)\<rparr>)"

definition io_metadata :: "local_env \<Rightarrow> pathbuf \<Rightarrow> (io_error, file_metadata) io" where
  "io_metadata env p = io_op (\<lambda>fs. (fs_metadata env fs p, fs)) (\<lambda>_ fs. fs)"

text \<open>\<open>metadata.len()\<close> of a file.\<close>

definition node_len :: "fs_node \<Rightarrow> u64" where
  "node_len node = (case node of FileNode content \<Rightarrow> of_nat (length content) | DirNode \<Rightarrow> 0)"

section \<open>The storage\<close>

definition local_new :: "local_env \<Rightarrow> pathbuf \<Rightarrow> (anyhow, local_storage) io" where
  "local_new env p =
     io_then (io_context (''canonicalize local origin '' @ p) (io_canonicalize env p)) (\<lambda>root.
     io_then (io_context (''read local origin metadata '' @ root) (io_metadata env root)) (\<lambda>metadata.
     io_then (io_lift (fail_if (md_node metadata \<noteq> DirNode)
       (ErrorMsg (''local origin '' @ root @ '' is not a directory'')))) (\<lambda>_.
     io_return \<lparr>ls_root = root\<rparr>)))"

definition local_object_path :: "local_env \<Rightarrow> local_storage \<Rightarrow> string \<Rightarrow> (anyhow, pathbuf) io" where
  "local_object_path env storage key =
     io_then (io_lift (normalize_remote_key key)) (\<lambda>key.
     let p = join_path (ls_root storage) key in
     io_then (io_context (''canonicalize local origin object '' @ p) (io_canonicalize env p)) (\<lambda>canonical.
     io_then (io_lift (fail_if (\<not> path_starts_with canonical (ls_root storage))
       (ErrorMsg ''object path escapes local origin directory''))) (\<lambda>_.
     io_return canonical)))"

fun component_text :: "component \<Rightarrow> string" where
  "component_text RootDir = ''/''"
| "component_text CurDir = ''.''"
| "component_text ParentDir = ''..''"
| "component_text (Normal part) = part"

definition local_relative_key :: "pathbuf \<Rightarrow> pathbuf \<Rightarrow> string res" where
  "local_relative_key root p =
     (if path_starts_with p root
      then Inr (join_with ''/'' (map component_text (drop (length (path_components root)) (path_components p))))
      else Inl (ErrorContext (''local origin path '' @ p @ '' is outside root '' @ root)
             (ErrorMsg ''prefix not found'')))"

definition reserved_metadata_key :: "string \<Rightarrow> bool" where
  "reserved_metadata_key key \<longleftrightarrow>
     key = METADATA_DIR_NAME \<or>
     (case strip_prefix METADATA_DIR_NAME key of Some remaining \<Rightarrow> starts_with remaining ''/'' | None \<Rightarrow> False)"

definition content_etag :: "local_env \<Rightarrow> pathbuf \<Rightarrow> (anyhow, string) io" where
  "content_etag env p =
     io_then (io_context (''hash local origin object '' @ p) (io_read p)) (\<lambda>body.
     io_return (''sha256:'' @ le_sha256_hex env body))"

definition summary_for_path ::
    "local_env \<Rightarrow> pathbuf \<Rightarrow> string \<Rightarrow> file_metadata \<Rightarrow> (anyhow, remote_object_summary) io" where
  "summary_for_path env p key metadata =
     io_then (content_etag env p) (\<lambda>etag.
     io_return \<lparr>sum_key = key, sum_created_at = md_created metadata, sum_last_modified = md_modified metadata,
       sum_size = node_len (md_node metadata), sum_etag = Some etag, sum_content_type = le_mime env key,
       sum_cache_control = None\<rparr>)"

section \<open>Listing\<close>

fun local_entries ::
    "local_env \<Rightarrow> pathbuf \<Rightarrow> pathbuf \<Rightarrow> (string \<times> fs_node) list \<Rightarrow> remote_object_summary list \<Rightarrow> pathbuf list \<Rightarrow>
     (anyhow, remote_object_summary list \<times> pathbuf list) io" where
  "local_entries env root dir [] output pushed =
     io_then (io_try io_next_entry) (\<lambda>_. io_return (output, pushed))"
| "local_entries env root dir ((name, node) # entries) output pushed =
     io_then (io_try io_next_entry) (\<lambda>_.
     io_then (io_try io_file_type) (\<lambda>_.
     let p = join_path dir name in
     io_then (io_lift (local_relative_key root p)) (\<lambda>key.
     if reserved_metadata_key key then local_entries env root dir entries output pushed
     else
       (case node of
          DirNode \<Rightarrow> local_entries env root dir entries output (pushed @ [p])
        | FileNode _ \<Rightarrow>
            io_then (io_try (io_metadata env p)) (\<lambda>metadata.
            io_then (summary_for_path env p key metadata) (\<lambda>summary.
            local_entries env root dir entries (output @ [summary]) pushed))))))"

definition local_dir ::
    "local_env \<Rightarrow> pathbuf \<Rightarrow> pathbuf \<Rightarrow> remote_object_summary list \<Rightarrow>
     (anyhow, remote_object_summary list \<times> pathbuf list) io" where
  "local_dir env root dir output =
     io_then (io_context (''read local origin directory '' @ dir) (io_read_dir dir)) (\<lambda>entries.
     local_entries env root dir entries output [])"

definition local_list_objects :: "local_env \<Rightarrow> local_storage \<Rightarrow> (anyhow, remote_object_summary list) io" where
  "local_list_objects env storage =
     io_then (walk_dirs (local_dir env (ls_root storage)) [ls_root storage] []) (\<lambda>output.
     io_return (sort_key sum_key output))"

section \<open>Objects\<close>

definition local_get_object :: "local_env \<Rightarrow> local_storage \<Rightarrow> string \<Rightarrow> (anyhow, remote_object) io" where
  "local_get_object env storage key =
     io_then (io_lift (normalize_remote_key key)) (\<lambda>normalized_key.
     io_then (local_object_path env storage normalized_key) (\<lambda>p.
     io_then (io_context (''read local origin object metadata '' @ p) (io_metadata env p)) (\<lambda>metadata.
     io_then (io_lift (fail_if (md_node metadata = DirNode)
       (ErrorMsg (''local origin object '' @ normalized_key @ '' is not a file'')))) (\<lambda>_.
     io_then (io_context (''read local origin object '' @ p) (io_read p)) (\<lambda>body.
     io_then (content_etag env p) (\<lambda>etag.
     io_return \<lparr>obj_key = normalized_key, obj_body = body, obj_etag = Some etag,
       obj_last_modified = md_modified metadata, obj_content_type = le_mime env normalized_key,
       obj_cache_control = None\<rparr>))))))"

definition local_remote_storage :: "local_env \<Rightarrow> local_storage \<Rightarrow> remote_storage" where
  "local_remote_storage env storage =
     \<lparr>list_objects = local_list_objects env storage, get_object = local_get_object env storage\<rparr>"

section \<open>What the listing finds\<close>

text \<open>The entry of the file with the content below the root.\<close>

definition local_summary :: "local_env \<Rightarrow> filesystem \<Rightarrow> fs_key \<Rightarrow> string list \<Rightarrow> string \<Rightarrow> remote_object_summary" where
  "local_summary env fs k names content =
     \<lparr>sum_key = join_with ''/'' names, sum_created_at = le_created env fs k, sum_last_modified = le_modified env fs k,
      sum_size = of_nat (length content), sum_etag = Some (''sha256:'' @ le_sha256_hex env content),
      sum_content_type = le_mime env (join_with ''/'' names), sum_cache_control = None\<rparr>"

definition local_found :: "local_env \<Rightarrow> pathbuf \<Rightarrow> filesystem \<Rightarrow> fs_key \<Rightarrow> remote_object_summary \<Rightarrow> bool" where
  "local_found env root fs k s \<longleftrightarrow>
     (\<exists>names content. k = fs_key root @ map Normal names \<and> names \<noteq> [] \<and> hd names \<noteq> METADATA_DIR_NAME \<and>
        fs_lookup fs k = Some (FileNode content) \<and> s = local_summary env fs k names content)"

lemma reads_metadata [reads_intros]:
  "reads (io_metadata env p) (\<lambda>fs. fs_metadata env fs p)"
  "reads (io_canonicalize env p) (\<lambda>fs. le_canonicalize env fs p)"
  unfolding io_metadata_def io_canonicalize_def by (rule reads_op)+

lemma component_text_Normal [simp]: "component_text \<circ> Normal = (\<lambda>s. s)"
  by auto

lemma below_path_local:
  "below_path root p names \<Longrightarrow> local_relative_key root p = Inr (join_with ''/'' names)"
  by (simp add: below_path_def local_relative_key_def path_starts_with_def)

lemma reserved_metadata_key_iff: "reserved_metadata_key key \<longleftrightarrow> reserved_key key"
  by (auto simp: reserved_metadata_key_def reserved_key_def strip_prefix_def prefix_def)

lemma reserved_key_first: "reserved_key key \<longleftrightarrow> takeWhile (\<lambda>c. c \<noteq> CHR ''/'') key = METADATA_DIR_NAME"
proof
  assume "reserved_key key"
  moreover have "CHR ''/'' \<notin> set METADATA_DIR_NAME" by (simp add: METADATA_DIR_NAME_def)
  ultimately show "takeWhile (\<lambda>c. c \<noteq> CHR ''/'') key = METADATA_DIR_NAME"
    by (auto simp: reserved_key_def prefix_def takeWhile_append takeWhile_eq_all_conv)
next
  assume first: "takeWhile (\<lambda>c. c \<noteq> CHR ''/'') key = METADATA_DIR_NAME"
  have split: "key = METADATA_DIR_NAME @ dropWhile (\<lambda>c. c \<noteq> CHR ''/'') key"
    using takeWhile_dropWhile_id [of "\<lambda>c. c \<noteq> CHR ''/''" key] first by simp
  show "reserved_key key"
  proof (cases "dropWhile (\<lambda>c. c \<noteq> CHR ''/'') key")
    case Nil
    with split have "key = METADATA_DIR_NAME" by simp
    then show ?thesis by (simp add: reserved_key_def)
  next
    case (Cons c cs)
    then have "c = CHR ''/''" using hd_dropWhile [of "\<lambda>c. c \<noteq> CHR ''/''" key] by simp
    then show ?thesis using split Cons by (auto simp: reserved_key_def prefix_def)
  qed
qed

lemma reserved_metadata_names:
  assumes "segment_ok n"
  shows "reserved_metadata_key (join_with ''/'' (n # ns)) \<longleftrightarrow> n = METADATA_DIR_NAME"
proof -
  have "CHR ''/'' \<notin> set n" using assms by (simp add: segment_ok_def)
  then have "takeWhile (\<lambda>c. c \<noteq> CHR ''/'') (join_with ''/'' (n # ns)) = n"
    by (cases ns) (auto simp: takeWhile_append takeWhile_eq_all_conv)
  then show ?thesis by (simp add: reserved_metadata_key_iff reserved_key_first)
qed

definition local_reserved :: "string list \<Rightarrow> string \<Rightarrow> bool" where
  "local_reserved names n \<longleftrightarrow> hd (names @ [n]) = METADATA_DIR_NAME"

definition local_skip :: "pathbuf \<Rightarrow> pathbuf \<Rightarrow> bool" where
  "local_skip root p \<longleftrightarrow>
     (\<exists>ns. path_components p = path_components root @ map Normal (METADATA_DIR_NAME # ns))"

lemma local_skip_iff:
  assumes "below_path root (join_path dir n) (names @ [n])"
  shows "local_skip root (join_path dir n) \<longleftrightarrow> local_reserved names n"
proof -
  obtain m ms where m: "names @ [n] = m # ms" by (cases names) auto
  have "path_components (join_path dir n) = path_components root @ map Normal (m # ms)"
    using assms m by (simp add: below_path_def)
  then show ?thesis by (auto simp: local_skip_def local_reserved_def m)
qed

lemma local_key:
  assumes "below_path root dir names" and "segment_ok n"
  shows "local_relative_key root (join_path dir n) = Inr (join_with ''/'' (names @ [n]))"
    and "reserved_metadata_key (join_with ''/'' (names @ [n])) \<longleftrightarrow> local_reserved names n"
proof -
  note below = below_path_join [OF assms]
  show "local_relative_key root (join_path dir n) = Inr (join_with ''/'' (names @ [n]))"
    by (rule below_path_local [OF below])
  obtain m ms where m: "names @ [n] = m # ms" by (cases names) auto
  then have "segment_ok m" using below by (simp add: below_path_def)
  then show "reserved_metadata_key (join_with ''/'' (names @ [n])) \<longleftrightarrow> local_reserved names n"
    by (simp add: m local_reserved_def reserved_metadata_names)
qed

text \<open>The entry of one file.\<close>

definition file_summary :: "local_env \<Rightarrow> pathbuf \<Rightarrow> string \<Rightarrow> (anyhow, remote_object_summary) io" where
  "file_summary env p key =
     io_then (io_try (io_metadata env p)) (\<lambda>metadata. summary_for_path env p key metadata)"

lemma reads_file_summary:
  "reads (file_summary env p key) (\<lambda>fs.
     try_then (map_err io_anyhow (fs_metadata env fs p)) (\<lambda>metadata.
     try_then (try_then (map_err (\<lambda>e. ErrorContext (''hash local origin object '' @ p) (io_anyhow e)) (fs_read fs p))
       (\<lambda>body. Inr (''sha256:'' @ le_sha256_hex env body))) (\<lambda>etag.
     Inr \<lparr>sum_key = key, sum_created_at = md_created metadata, sum_last_modified = md_modified metadata,
       sum_size = node_len (md_node metadata), sum_etag = Some etag, sum_content_type = le_mime env key,
       sum_cache_control = None\<rparr>)))"
  unfolding file_summary_def summary_for_path_def content_etag_def by (intro reads_intros)

lemma file_summary_Inr:
  assumes "file_summary env p (join_with ''/'' names) w = (Inr s, v)"
    and "fs_lookup (world_fs w) (fs_key p) = Some (FileNode content)"
  shows "world_fs v = world_fs w" and "s = local_summary env (world_fs w) (fs_key p) names content"
  using readsD(1,4) [OF reads_file_summary assms(1)] assms(2)
  by (auto simp: result_simps fs_metadata_def fs_stat_def fs_read_def local_summary_def node_len_def split: if_splits)

lemma local_entries_file:
  "local_entries env root dir ((name, FileNode content) # entries) acc pushed =
     io_then (io_try io_next_entry) (\<lambda>_.
     io_then (io_try io_file_type) (\<lambda>_.
     io_then (io_lift (local_relative_key root (join_path dir name))) (\<lambda>key.
     if reserved_metadata_key key then local_entries env root dir entries acc pushed
     else io_then (file_summary env (join_path dir name) key) (\<lambda>summary.
            local_entries env root dir entries (acc @ [summary]) pushed))))"
  by (simp add: file_summary_def io_then_assoc Let_def cong: if_cong)

lemma local_entries_dir:
  "local_entries env root dir ((name, DirNode) # entries) acc pushed =
     io_then (io_try io_next_entry) (\<lambda>_.
     io_then (io_try io_file_type) (\<lambda>_.
     io_then (io_lift (local_relative_key root (join_path dir name))) (\<lambda>key.
     if reserved_metadata_key key then local_entries env root dir entries acc pushed
     else local_entries env root dir entries acc (pushed @ [join_path dir name]))))"
  by (simp add: Let_def cong: if_cong)

lemma local_entries_Inr:
  assumes "local_entries env root dir entries acc pushed w = (Inr (out, ps), v)"
    and "below_path root dir names"
    and "\<forall>(n, node) \<in> set entries. segment_ok n \<and> fs_lookup (world_fs w) (fs_key dir @ [Normal n]) = Some node"
  shows "world_fs v = world_fs w \<and>
    set out = set acc \<union> {local_summary env (world_fs w) (fs_key dir @ [Normal n]) (names @ [n]) c | n c.
       (n, FileNode c) \<in> set entries \<and> \<not> local_reserved names n} \<and>
    entries_swept (local_skip root)
      (\<lambda>n c. local_reserved names n \<or>
         local_summary env (world_fs w) (fs_key dir @ [Normal n]) (names @ [n]) c \<in> set out)
      (join_path dir) dir entries pushed ps"
  using assms(1,3)
proof (induction entries arbitrary: acc pushed w)
  case Nil
  then obtain u where u: "io_next_entry w = (Inr (), u)" "out = acc" "ps = pushed" "v = u"
    by (auto simp: io_then_Inr io_map_err_Inr io_return_def)
  then show ?case using readsD(1) [OF reads_steps(1) u(1)] by (auto intro: entries_swept_Nil)
next
  case (Cons e entries)
  obtain name node where e: "e = (name, node)" by (cases e)
  have seg: "segment_ok name" and look: "fs_lookup (world_fs w) (fs_key dir @ [Normal name]) = Some node"
    and rest: "\<forall>(n, node) \<in> set entries. segment_ok n \<and> fs_lookup (world_fs w) (fs_key dir @ [Normal n]) = Some node"
    using Cons.prems(2) e by auto
  note key = local_key [OF assms(2) seg]
  note skip = local_skip_iff [OF below_path_join [OF assms(2) seg]]
  have p: "fs_key (join_path dir name) = fs_key dir @ [Normal name]" using seg by (simp add: fs_key_join)
  show ?case
  proof (cases node)
    case DirNode
    with Cons.prems(1) obtain u u' where step: "io_next_entry w = (Inr (), u)" "io_file_type u = (Inr (), u')"
        and run: "(if local_reserved names name then local_entries env root dir entries acc pushed
          else local_entries env root dir entries acc (pushed @ [join_path dir name])) u' = (Inr (out, ps), v)"
      unfolding e DirNode local_entries_dir
      by (auto simp: io_then_Inr io_map_err_Inr key io_lift_simps io_return_def)
    have same: "world_fs u' = world_fs w"
      using readsD(1) [OF reads_steps(1) step(1)] readsD(1) [OF reads_steps(2) step(2)] by simp
    show ?thesis
    proof (cases "local_reserved names name")
      case True
      with run have "local_entries env root dir entries acc pushed u' = (Inr (out, ps), v)" by simp
      from Cons.IH [OF this] rest same show ?thesis using e DirNode True
        by (auto intro!: entries_swept_skip simp: skip)
    next
      case False
      with run have "local_entries env root dir entries acc (pushed @ [join_path dir name]) u' = (Inr (out, ps), v)"
        by simp
      from Cons.IH [OF this] rest same show ?thesis using e DirNode
        by (auto intro!: entries_swept_push)
    qed
  next
    case (FileNode content)
    with Cons.prems(1) obtain u u' where step: "io_next_entry w = (Inr (), u)" "io_file_type u = (Inr (), u')"
        and run: "(if local_reserved names name then local_entries env root dir entries acc pushed
          else io_then (file_summary env (join_path dir name) (join_with ''/'' (names @ [name]))) (\<lambda>summary.
            local_entries env root dir entries (acc @ [summary]) pushed)) u' = (Inr (out, ps), v)"
      unfolding e FileNode local_entries_file
      by (auto simp: io_then_Inr io_map_err_Inr key io_lift_simps io_return_def)
    have same: "world_fs u' = world_fs w"
      using readsD(1) [OF reads_steps(1) step(1)] readsD(1) [OF reads_steps(2) step(2)] by simp
    show ?thesis
    proof (cases "local_reserved names name")
      case True
      with run have "local_entries env root dir entries acc pushed u' = (Inr (out, ps), v)" by simp
      from Cons.IH [OF this] rest same show ?thesis using e FileNode True
        by (auto intro!: entries_swept_file)
    next
      case False
      with run obtain s u'' where s: "file_summary env (join_path dir name) (join_with ''/'' (names @ [name])) u' = (Inr s, u'')"
          and last: "local_entries env root dir entries (acc @ [s]) pushed u'' = (Inr (out, ps), v)"
        by (auto simp: io_then_Inr)
      have "fs_lookup (world_fs u') (fs_key (join_path dir name)) = Some (FileNode content)"
        using look FileNode same p by simp
      note summary = file_summary_Inr [OF s this, unfolded p]
      have "world_fs u'' = world_fs w" using summary(1) same by simp
      then show ?thesis using Cons.IH [OF last] rest summary(2) same e FileNode False
        by (auto intro!: entries_swept_file)
    qed
  qed
qed

lemmas preserves_local =
  reads_metadata(1) [THEN preserves_reads] reads_metadata(2) [THEN preserves_reads]
  reads_steps(1) [THEN preserves_reads] reads_steps(2) [THEN preserves_reads]
  reads_simple(2) [THEN preserves_reads] reads_simple(3) [THEN preserves_reads]

lemma preserves_local_entries:
  "preserves (\<lambda>w. world_fs w = fs) (local_entries env root dir entries acc pushed)"
proof (induction env root dir entries acc pushed rule: local_entries.induct)
  case (1 env root dir acc pushed)
  show ?case by (auto intro!: preserves_intros preserves_local)
next
  case (2 env root dir name node entries acc pushed)
  show ?case using 2
    by (cases node)
      (auto simp: local_entries_file local_entries_dir file_summary_def summary_for_path_def content_etag_def
        simp del: local_entries.simps intro!: preserves_intros preserves_local)
qed

lemma preserves_local_dir: "preserves (\<lambda>w. world_fs w = fs) (local_dir env root dir acc)"
  unfolding local_dir_def by (intro preserves_intros preserves_local preserves_local_entries)

lemma file_summary_calm:
  assumes "fs_lookup fs (fs_key p) = Some (FileNode content)" and "\<not> wants_dir p"
  shows "\<exists>s. try_then (map_err io_anyhow (fs_metadata env fs p)) (\<lambda>metadata.
     try_then (try_then (map_err (\<lambda>e. ErrorContext (''hash local origin object '' @ p) (io_anyhow e)) (fs_read fs p))
       (\<lambda>body. Inr (''sha256:'' @ le_sha256_hex env body))) (\<lambda>etag.
     Inr \<lparr>sum_key = key, sum_created_at = md_created metadata, sum_last_modified = md_modified metadata,
       sum_size = node_len (md_node metadata), sum_etag = Some etag, sum_content_type = le_mime env key,
       sum_cache_control = None\<rparr>)) = Inr s"
  using assms by (simp add: fs_metadata_def fs_stat_def fs_read_def)

lemma wants_dir_segment:
  assumes "segment_ok n" and "d \<noteq> []"
  shows "\<not> wants_dir (join_path d n)"
proof -
  have "CHR ''/'' \<notin> set n" "n \<noteq> []" "n \<noteq> ''.''" using assms(1) by (auto simp: segment_ok_def)
  moreover have "split_on CHR ''/'' n = [n]" using calculation(1) by (induction n) auto
  ultimately have "\<not> wants_dir n" by (simp add: wants_dir_def)
  then show ?thesis using wants_dir_join [of d n] assms by (simp add: segment_relative segment_ok_def)
qed

lemma local_entries_calm:
  assumes "local_entries env root dir entries acc pushed w = (r, v)" and "calm w"
    and "below_path root dir names"
    and "\<forall>(n, node) \<in> set entries. segment_ok n \<and> fs_lookup (world_fs w) (fs_key dir @ [Normal n]) = Some node"
  shows "\<not> isl r \<and> calm v"
  using assms(1,2,4)
proof (induction entries arbitrary: acc pushed w)
  case Nil
  obtain u where "io_then (io_try io_next_entry) (\<lambda>_. io_return (acc, pushed)) w = io_return (acc, pushed) u" "calm u"
    by (rule calm_then [OF reads_map_err [OF reads_steps(1)] _ Nil.prems(2)]) auto
  then show ?case using Nil.prems(1) by (auto simp: io_return_def)
next
  case (Cons e entries)
  obtain name node where e: "e = (name, node)" by (cases e)
  have seg: "segment_ok name" and look: "fs_lookup (world_fs w) (fs_key dir @ [Normal name]) = Some node"
    and rest: "\<forall>(n, node) \<in> set entries. segment_ok n \<and> fs_lookup (world_fs w) (fs_key dir @ [Normal n]) = Some node"
    using Cons.prems(3) e by auto
  note key = local_key [OF assms(3) seg]
  have p: "fs_key (join_path dir name) = fs_key dir @ [Normal name]" using seg by (simp add: fs_key_join)
  have dir: "dir \<noteq> []" using assms(3) by (simp add: below_path_def)
  note steps = reads_map_err [OF reads_steps(1)] reads_map_err [OF reads_steps(2)]
  show ?case
  proof (cases node)
    case DirNode
    let ?go = "\<lambda>key. if reserved_metadata_key key then local_entries env root dir entries acc pushed
     else local_entries env root dir entries acc (pushed @ [join_path dir name])"
    obtain u where 1: "local_entries env root dir (e # entries) acc pushed w =
        io_then (io_try io_file_type) (\<lambda>_. io_then (io_lift (local_relative_key root (join_path dir name))) ?go) u"
        "calm u" "world_fs u = world_fs w"
      unfolding e DirNode local_entries_dir by (rule calm_then [OF steps(1) _ Cons.prems(2)]) auto
    obtain u' where 2: "io_then (io_try io_file_type) (\<lambda>_. io_then (io_lift (local_relative_key root (join_path dir name))) ?go) u =
        io_then (io_lift (local_relative_key root (join_path dir name))) ?go u'" "calm u'" "world_fs u' = world_fs u"
      by (rule calm_then [OF steps(2) _ 1(2)]) auto
    have "?go (join_with ''/'' (names @ [name])) u' = (r, v)"
      using Cons.prems(1) 1(1) 2(1) key by (simp add: io_lift_simps io_then_return)
    then show ?thesis using Cons.IH 2(2,3) 1(3) rest by (auto split: if_splits)
  next
    case (FileNode content)
    let ?go = "\<lambda>key. if reserved_metadata_key key then local_entries env root dir entries acc pushed
     else io_then (file_summary env (join_path dir name) key) (\<lambda>summary.
            local_entries env root dir entries (acc @ [summary]) pushed)"
    obtain u where 1: "local_entries env root dir (e # entries) acc pushed w =
        io_then (io_try io_file_type) (\<lambda>_. io_then (io_lift (local_relative_key root (join_path dir name))) ?go) u"
        "calm u" "world_fs u = world_fs w"
      unfolding e FileNode local_entries_file by (rule calm_then [OF steps(1) _ Cons.prems(2)]) auto
    obtain u' where 2: "io_then (io_try io_file_type) (\<lambda>_. io_then (io_lift (local_relative_key root (join_path dir name))) ?go) u =
        io_then (io_lift (local_relative_key root (join_path dir name))) ?go u'" "calm u'" "world_fs u' = world_fs u"
      by (rule calm_then [OF steps(2) _ 1(2)]) auto
    have go: "?go (join_with ''/'' (names @ [name])) u' = (r, v)"
      using Cons.prems(1) 1(1) 2(1) key by (simp add: io_lift_simps io_then_return)
    show ?thesis
    proof (cases "local_reserved names name")
      case True
      then show ?thesis using go key Cons.IH 2(2,3) 1(3) rest by auto
    next
      case False
      have "fs_lookup (world_fs u') (fs_key (join_path dir name)) = Some (FileNode content)"
        using look FileNode 2(3) 1(3) p by simp
      from file_summary_calm [OF this wants_dir_segment [OF seg dir]] obtain s where
        "try_then (map_err io_anyhow (fs_metadata env (world_fs u') (join_path dir name))) (\<lambda>metadata.
     try_then (try_then (map_err (\<lambda>e. ErrorContext (''hash local origin object '' @ join_path dir name) (io_anyhow e)) (fs_read (world_fs u') (join_path dir name)))
       (\<lambda>body. Inr (''sha256:'' @ le_sha256_hex env body))) (\<lambda>etag.
     Inr \<lparr>sum_key = join_with ''/'' (names @ [name]), sum_created_at = md_created metadata, sum_last_modified = md_modified metadata,
       sum_size = node_len (md_node metadata), sum_etag = Some etag, sum_content_type = le_mime env (join_with ''/'' (names @ [name])),
       sum_cache_control = None\<rparr>)) = Inr s" by blast
      from calm_then [OF reads_file_summary this 2(2)] obtain u'' where
        3: "io_then (file_summary env (join_path dir name) (join_with ''/'' (names @ [name]))) (\<lambda>summary.
            local_entries env root dir entries (acc @ [summary]) pushed) u' =
            local_entries env root dir entries (acc @ [s]) pushed u''" "calm u''" "world_fs u'' = world_fs u'" by metis
      then show ?thesis using go key False Cons.IH [of "acc @ [s]" pushed u''] 2(3) 1(3) rest by auto
    qed
  qed
qed

lemma local_dir_run:
  assumes "local_dir env root dir acc w = (Inr (out, ps), v)"
  obtains u where "world_fs u = world_fs w" and "is_dir (world_fs w) (fs_key dir)"
    and "local_entries env root dir (fs_children (world_fs w) (fs_key dir)) acc [] u = (Inr (out, ps), v)"
  using assms unfolding local_dir_def io_then_Inr by (auto dest!: io_map_err_read_dir_Inr)

lemma children_facts:
  assumes "fs_ok fs"
  shows "\<forall>(n, node) \<in> set (fs_children fs k). segment_ok n \<and> fs_lookup fs (k @ [Normal n]) = Some node"
  using children_segment_ok fs_children_lookup [OF assms] by fastforce

interpretation local_listing: dir_listing "local_dir env root" fs_key "fs_key root"
    "\<lambda>d. \<exists>names. below_path root d names" "local_found env root" for env root
proof
  fix d acc
  show "io_ok (local_dir env root d acc)"
    using preserves_local_dir [of _ env root d acc] unfolding io_ok_def preserves_def by metis
next
  fix d acc and w :: world and r w' k
  assume "local_dir env root d acc w = (r, w')" and "is_dir (world_fs w') k"
  then show "is_dir (world_fs w) k" using preservesD [OF preserves_local_dir] by metis
next
  fix d acc and w :: world and r w'
  assume "local_dir env root d acc w = (r, w')"
  then show "world_fs w' = world_fs w" using preservesD [OF preserves_local_dir] by metis
next
  fix d acc and w :: world and out p ps w'
  assume "local_dir env root d acc w = (Inr (out, p # ps), w')"
  then show "is_dir (world_fs w) (fs_key d)" by (rule local_dir_run)
next
  fix d acc and w :: world and out ps w'
  assume good: "\<exists>names. below_path root d names" and run: "local_dir env root d acc w = (Inr (out, ps), w')"
    and ok: "fs_ok (world_fs w)"
  from good obtain names where names: "below_path root d names" ..
  from run obtain u where u: "world_fs u = world_fs w" "is_dir (world_fs w) (fs_key d)"
      "local_entries env root d (fs_children (world_fs w) (fs_key d)) acc [] u = (Inr (out, ps), w')"
    by (rule local_dir_run)
  note all = local_entries_Inr [OF u(3) names, unfolded u(1), OF children_facts [OF ok]]
  have swept: "entries_swept (local_skip root)
      (\<lambda>n c. local_reserved names n \<or>
         local_summary env (world_fs w) (fs_key d @ [Normal n]) (names @ [n]) c \<in> set out)
      (join_path d) d (fs_children (world_fs w) (fs_key d)) [] ps" using all by blast
  have push: "segment_ok n \<Longrightarrow> fs_key (join_path d n) = fs_key d @ [Normal n]" for n by (simp add: fs_key_join)
  note pushed = swept_pushed [OF swept ok push]
  show "distinct (map fs_key ps) \<and> (\<forall>p \<in> set ps. (\<exists>names. below_path root p names) \<and>
      (\<exists>name. fs_key p = fs_key d @ [Normal name] \<and> is_dir (world_fs w) (fs_key p)))"
    using pushed(1) pushed(2) below_path_join [OF names] by blast
  show "set acc \<subseteq> set out \<and>
      (\<forall>s \<in> set out. s \<in> set acc \<or>
         (\<exists>k. prefix (fs_key d) k \<and> local_found env root (world_fs w) k s \<and> reachable_from (world_fs w) (fs_key d) k))"
  proof (intro conjI ballI)
    show "set acc \<subseteq> set out" using all by blast
    fix s assume "s \<in> set out"
    then consider "s \<in> set acc" | n c where "s = local_summary env (world_fs w) (fs_key d @ [Normal n]) (names @ [n]) c"
        "(n, FileNode c) \<in> set (fs_children (world_fs w) (fs_key d))" "\<not> local_reserved names n"
      using all by blast
    then show "s \<in> set acc \<or>
         (\<exists>k. prefix (fs_key d) k \<and> local_found env root (world_fs w) k s \<and> reachable_from (world_fs w) (fs_key d) k)"
    proof cases
      case 2
      have "fs_lookup (world_fs w) (fs_key d @ [Normal n]) = Some (FileNode c)"
        using fs_children_lookup [OF ok 2(2)] .
      then have "local_found env root (world_fs w) (fs_key d @ [Normal n]) s"
        unfolding local_found_def 2(1) using 2(3) below_path_key [OF names]
        by (intro exI [of _ "names @ [n]"] exI [of _ c]) (simp add: local_reserved_def)
      moreover have "reachable_from (world_fs w) (fs_key d) (fs_key d @ [Normal n])"
        using u(2) by (simp add: reachable_from_def)
      ultimately show ?thesis by (intro disjI2 exI [of _ "fs_key d @ [Normal n]"]) simp
    qed simp
  qed
  fix k s
  assume below: "prefix (fs_key d) k" and found: "local_found env root (world_fs w) k s"
    and reach: "reachable_from (world_fs w) (fs_key d) k"
  from found obtain ks content where ks: "k = fs_key root @ map Normal ks" "ks \<noteq> []" "hd ks \<noteq> METADATA_DIR_NAME"
      "fs_lookup (world_fs w) k = Some (FileNode content)" "s = local_summary env (world_fs w) k ks content"
    unfolding local_found_def by blast
  have "\<exists>p \<in> set ps. prefix (fs_key p) k" if new: "s \<notin> set out"
    proof (rule below_swept [OF swept ok push names ks(1) below ks(4) u(2) reach])
      fix n rest
      assume "ks = names @ n # rest" "rest \<noteq> []" and at: "below_path root (join_path d n) (names @ [n])"
      then show "\<not> local_skip root (join_path d n)"
        using ks(3) local_skip_iff [OF at] by (cases names) (auto simp: local_reserved_def)
    next
      fix n assume n: "ks = names @ [n]" "fs_key (join_path d n) = k" "below_path root (join_path d n) (names @ [n])"
      have "segment_ok n" using n(3) by (simp add: below_path_def)
      then have "k = fs_key d @ [Normal n]" using n(2) push by simp
      then show "\<not> (local_reserved names n \<or>
          local_summary env (world_fs w) (fs_key d @ [Normal n]) (names @ [n]) content \<in> set out)"
        using new ks(3,5) n(1) by (simp add: local_reserved_def)
    qed
  then show "s \<in> set out \<or> (\<exists>p \<in> set ps. prefix (fs_key p) k)" by blast
next
  fix d acc and w :: world and r w'
  assume good: "\<exists>names. below_path root d names" and calm: "calm w" and ok: "fs_ok (world_fs w)"
    and dir: "is_dir (world_fs w) (fs_key d)" and run: "local_dir env root d acc w = (r, w')"
  from good obtain names where names: "below_path root d names" ..
  have read: "map_err c (fs_read_dir (world_fs w) d) = Inr (fs_children (world_fs w) (fs_key d))"
    for c :: "io_error \<Rightarrow> anyhow"
    using dir by (simp add: fs_read_dir_def fs_stat_def is_dir_def)
  let ?go = "\<lambda>entries. local_entries env root d entries acc []"
  obtain u where step: "io_then (io_context (''read local origin directory '' @ d) (io_read_dir d)) ?go w =
      ?go (fs_children (world_fs w) (fs_key d)) u" and u: "calm u" "world_fs u = world_fs w"
    by (rule calm_then [OF reads_map_err [OF reads_simple(3)] read calm])
  note last = run [unfolded local_dir_def step]
  show "\<not> isl r \<and> calm w'"
    by (rule local_entries_calm [OF last u(1) names]) (use children_facts [OF ok] u(2) in simp)
qed

section \<open>The listing and the objects\<close>

lemma local_list_run:
  assumes "local_list_objects env storage w = (Inr out, v)"
  obtains found where "walk_dirs (local_dir env (ls_root storage)) [ls_root storage] [] w = (Inr found, v)"
    and "out = sort_key sum_key found"
  using assms by (auto simp: local_list_objects_def io_then_Inr io_return_def)

lemma local_list_exact:
  assumes "local_list_objects env storage w = (Inr out, v)" and "ls_root storage \<noteq> []" and "fs_ok (world_fs w)"
  shows "world_fs v = world_fs w \<and> sorted (map sum_key out) \<and>
    set out = {s. \<exists>k. local_found env (ls_root storage) (world_fs w) k s \<and>
      reachable_from (world_fs w) (fs_key (ls_root storage)) k}"
proof -
  from assms(1) obtain found where walk: "walk_dirs (local_dir env (ls_root storage)) [ls_root storage] [] w = (Inr found, v)"
    and out: "out = sort_key sum_key found" by (rule local_list_run)
  have good: "\<exists>names. below_path (ls_root storage) (ls_root storage) names"
    using below_path_refl [OF assms(2)] by blast
  note facts = local_listing.walk_dirs_collects [OF walk refl good assms(3)]
  have "s \<in> set found \<longleftrightarrow> (\<exists>k. local_found env (ls_root storage) (world_fs w) k s \<and>
      reachable_from (world_fs w) (fs_key (ls_root storage)) k)" for s
  proof
    show "s \<in> set found \<Longrightarrow> \<exists>k. local_found env (ls_root storage) (world_fs w) k s \<and>
        reachable_from (world_fs w) (fs_key (ls_root storage)) k" using facts(2) by blast
    assume "\<exists>k. local_found env (ls_root storage) (world_fs w) k s \<and>
        reachable_from (world_fs w) (fs_key (ls_root storage)) k"
    then obtain k where "local_found env (ls_root storage) (world_fs w) k s"
      "reachable_from (world_fs w) (fs_key (ls_root storage)) k" by blast
    moreover from this(1) have "prefix (fs_key (ls_root storage)) k" by (auto simp: local_found_def)
    ultimately show "s \<in> set found" using facts(3) by blast
  qed
  then show ?thesis using facts(1) out by auto
qed

lemma local_list_calm:
  assumes "ls_root storage \<noteq> []" and "fs_ok (world_fs w)" and "calm w"
    and "is_dir (world_fs w) (fs_key (ls_root storage))"
  shows "\<exists>out v. local_list_objects env storage w = (Inr out, v)"
proof -
  have good: "\<exists>names. below_path (ls_root storage) (ls_root storage) names"
    using below_path_refl [OF assms(1)] by blast
  from local_listing.walk_dirs_calm [OF refl good assms(2-4)]
  obtain found v where "walk_dirs (local_dir env (ls_root storage)) [ls_root storage] [] w = (Inr found, v)" by blast
  then show ?thesis by (simp add: local_list_objects_def io_then_def io_return_def)
qed

text \<open>What \<open>get_object\<close> is to yield on a file system.\<close>

definition local_object :: "local_env \<Rightarrow> local_storage \<Rightarrow> string \<Rightarrow> filesystem \<Rightarrow> remote_object res" where
  "local_object env storage key fs =
     try_then (normalize_remote_key key) (\<lambda>normalized_key.
     try_then (try_then (normalize_remote_key normalized_key) (\<lambda>key.
       try_then (map_err (\<lambda>e. ErrorContext (''canonicalize local origin object '' @ join_path (ls_root storage) key) (io_anyhow e))
         (le_canonicalize env fs (join_path (ls_root storage) key))) (\<lambda>canonical.
       try_then (fail_if (\<not> path_starts_with canonical (ls_root storage))
         (ErrorMsg ''object path escapes local origin directory'')) (\<lambda>_. Inr canonical)))) (\<lambda>p.
     try_then (map_err (\<lambda>e. ErrorContext (''read local origin object metadata '' @ p) (io_anyhow e)) (fs_metadata env fs p)) (\<lambda>metadata.
     try_then (fail_if (md_node metadata = DirNode)
       (ErrorMsg (''local origin object '' @ normalized_key @ '' is not a file''))) (\<lambda>_.
     try_then (map_err (\<lambda>e. ErrorContext (''read local origin object '' @ p) (io_anyhow e)) (fs_read fs p)) (\<lambda>body.
     try_then (try_then (map_err (\<lambda>e. ErrorContext (''hash local origin object '' @ p) (io_anyhow e)) (fs_read fs p))
       (\<lambda>body. Inr (''sha256:'' @ le_sha256_hex env body))) (\<lambda>etag.
     Inr \<lparr>obj_key = normalized_key, obj_body = body, obj_etag = Some etag,
       obj_last_modified = md_modified metadata, obj_content_type = le_mime env normalized_key,
       obj_cache_control = None\<rparr>))))))"

lemma reads_local_get: "reads (local_get_object env storage key) (local_object env storage key)"
  unfolding local_get_object_def local_object_path_def content_etag_def Let_def local_object_def [abs_def]
  by (intro reads_intros)

lemma fs_metadata_read:
  "fs_read fs p = Inr body \<Longrightarrow> fs_metadata env fs p =
     Inr \<lparr>md_node = FileNode body, md_created = le_created env fs (fs_key p), md_modified = le_modified env fs (fs_key p)\<rparr>"
  by (cases "fs_stat fs p"; cases "projr (fs_stat fs p)") (auto simp: fs_read_def fs_metadata_def)

lemma local_object_Inr:
  "local_object env storage key fs = Inr obj \<longleftrightarrow> accepted_key key \<and>
     (\<exists>p body. le_canonicalize env fs (join_path (ls_root storage) key) = Inr p \<and>
        path_starts_with p (ls_root storage) \<and> fs_read fs p = Inr body \<and>
        obj = \<lparr>obj_key = key, obj_body = body, obj_etag = Some (''sha256:'' @ le_sha256_hex env body),
          obj_last_modified = le_modified env fs (fs_key p), obj_content_type = le_mime env key,
          obj_cache_control = None\<rparr>)"
  unfolding local_object_def by (auto simp: result_simps fs_metadata_read simp del: append.simps)

lemma local_storage_remote_only: "remote_only (local_remote_storage env storage)"
proof -
  have "preserves (\<lambda>w. world_fs w = fs) (local_list_objects env storage)" for fs
    unfolding local_list_objects_def by (intro preserves_intros preserves_walk_dirs preserves_local_dir)
  then have "world_fs (snd (local_list_objects env storage w)) = world_fs w" for w
    by (auto simp: preserves_def)
  moreover have "world_fs (snd (local_get_object env storage key w)) = world_fs w" for key w
    using readsD(1) [OF reads_local_get] by (metis prod.collapse)
  ultimately show ?thesis by (simp add: remote_only_def local_remote_storage_def)
qed

lemma split_join_segments:
  assumes "list_all segment_ok names" and "names \<noteq> []"
  shows "split_on CHR ''/'' (join_with ''/'' names) = names"
  using split_join_with [of names "CHR ''/''"] assms by (auto simp: segment_ok_def list_all_iff)

text \<open>The path of a key that names files below a root.\<close>

lemma join_names_path:
  assumes "list_all segment_ok names" and "names \<noteq> []" and "root \<noteq> []"
    and "\<not> is_absolute (join_with ''/'' names)"
  shows "path_components (join_path root (join_with ''/'' names)) = path_components root @ map Normal names"
    and "\<not> wants_dir (join_path root (join_with ''/'' names))"
proof -
  note split = split_join_segments [OF assms(1,2)]
  have "key_components (join_with ''/'' names) = map Normal names"
    using assms(1) by (auto simp: key_components_def split component_of_def segment_ok_def list_all_iff filter_id_conv [THEN iffD2])
  then show "path_components (join_path root (join_with ''/'' names)) = path_components root @ map Normal names"
    using path_components_join [OF assms(3,4)] by simp
  have "segment_ok (last names)" using assms(1,2) by (simp add: list_all_iff)
  then show "\<not> wants_dir (join_path root (join_with ''/'' names))"
    using wants_dir_join [OF assms(3,4)] split by (auto simp: wants_dir_def segment_ok_def)
qed

text \<open>
  Where there are no links the operating system resolves the path of a file to itself.
\<close>

definition resolves_plainly :: "local_env \<Rightarrow> filesystem \<Rightarrow> pathbuf \<Rightarrow> bool" where
  "resolves_plainly env fs root \<longleftrightarrow>
     (\<forall>p content. path_starts_with p root \<and> fs_lookup fs (fs_key p) = Some (FileNode content) \<and> \<not> wants_dir p \<longrightarrow>
        (\<exists>q. le_canonicalize env fs p = Inr q \<and> path_components q = path_components p \<and> \<not> wants_dir q))"

lemma local_found_names:
  assumes "local_found env root fs k s" and "fs_ok fs"
  obtains names content where "list_all segment_ok names" and "names \<noteq> []" and "k = fs_key root @ map Normal names"
    and "fs_lookup fs k = Some (FileNode content)" and "s = local_summary env fs k names content"
proof -
  from assms(1) obtain names content where names: "k = fs_key root @ map Normal names" "names \<noteq> []"
      "fs_lookup fs k = Some (FileNode content)" "s = local_summary env fs k names content"
    unfolding local_found_def by blast
  have "list_all segment_ok names"
    using fs_lookup_names [OF assms(2) names(3)] names(1) by (auto simp: list_all_iff)
  with names show ?thesis using that by blast
qed

lemma listed_object:
  assumes "local_found env (ls_root storage) fs k s" and "fs_ok fs" and "ls_root storage \<noteq> []"
    and "accepted_key (sum_key s)" and "resolves_plainly env fs (ls_root storage)"
  shows "\<exists>obj. local_object env storage (sum_key s) fs = Inr obj \<and>
    validate_downloaded_object (sum_key s) (file_state_of t (sum_key s) s) obj = Inr ()"
proof -
  from assms(1,2) obtain names content where names: "list_all segment_ok names" "names \<noteq> []"
      and k: "k = fs_key (ls_root storage) @ map Normal names" "fs_lookup fs k = Some (FileNode content)"
      and s: "s = local_summary env fs k names content" by (rule local_found_names)
  have key: "sum_key s = join_with ''/'' names" by (simp add: s local_summary_def)
  let ?p = "join_path (ls_root storage) (sum_key s)"
  have rel: "\<not> is_absolute (join_with ''/'' names)" using accepted_key_relative [OF assms(4)] key by simp
  note p = join_names_path [OF names assms(3) rel, folded key]
  have pk: "fs_key ?p = k" by (simp add: fs_key_def p(1) k(1))
  have "path_starts_with ?p (ls_root storage)" by (simp add: path_starts_with_def p(1))
  then obtain q where q: "le_canonicalize env fs ?p = Inr q" "path_components q = path_components ?p" "\<not> wants_dir q"
    using assms(5) k(2) pk p(2) unfolding resolves_plainly_def by metis
  have "fs_key q = k" using q(2) pk by (simp add: fs_key_def)
  moreover from this have "fs_read fs q = Inr content" using k(2) q(3) by (simp add: fs_read_Inr)
  moreover have "path_starts_with q (ls_root storage)" by (simp add: path_starts_with_def q(2) p(1))
  ultimately show ?thesis
    using q(1) assms(4) unfolding local_object_Inr
    by (simp add: validate_downloaded_object_def result_simps file_state_of_def s local_summary_def)
qed

section \<open>An example\<close>

definition plain_env :: local_env where
  "plain_env = \<lparr>le_canonicalize = (\<lambda>fs p. try_then (fs_stat fs p) (\<lambda>_. Inr p)), le_sha256_hex = (\<lambda>s. s),
     le_mime = (\<lambda>_. None), le_created = (\<lambda>_ _. None), le_modified = (\<lambda>_ _. None)\<rparr>"

definition example_dir :: filesystem where
  "example_dir = [([Normal ''d''], DirNode), ([Normal ''d'', Normal ''a''], FileNode ''x''),
     ([Normal ''d'', Normal ''.rendermesh-meta''], DirNode)]"

definition example_local_storage :: local_storage where
  "example_local_storage = \<lparr>ls_root = ''d''\<rparr>"

lemma example_dir_facts:
  "fs_ok example_dir" "ls_root example_local_storage \<noteq> []" "world_fs (world_on fs) = fs" "calm (world_on fs)"
  "fs_key (ls_root example_local_storage) = [Normal ''d'']" "is_dir example_dir [Normal ''d'']"
  "resolves_plainly plain_env fs root"
  by (auto simp: fs_ok_def key_ok_def segment_ok_def example_dir_def example_local_storage_def world_on_def calm_def
      fs_key_def path_components_def component_of_def is_dir_def fs_lookup_def resolves_plainly_def plain_env_def fs_stat_def)

lemma example_dir_found:
  "local_found plain_env (ls_root example_local_storage) example_dir [Normal ''d'', Normal ''a'']
     (local_summary plain_env example_dir [Normal ''d'', Normal ''a''] [''a''] ''x'')"
  "reachable_from example_dir [Normal ''d''] [Normal ''d'', Normal ''a'']"
proof -
  show "local_found plain_env (ls_root example_local_storage) example_dir [Normal ''d'', Normal ''a'']
     (local_summary plain_env example_dir [Normal ''d'', Normal ''a''] [''a''] ''x'')"
    unfolding local_found_def example_dir_facts
    by (intro exI [of _ "[''a'']"] exI [of _ "''x''"]) (simp add: METADATA_DIR_NAME_def example_dir_def fs_lookup_def)
  show "reachable_from example_dir [Normal ''d''] [Normal ''d'', Normal ''a'']"
    unfolding reachable_from_def
  proof (intro allI impI)
    fix n assume "length [Normal ''d''] \<le> n \<and> n < length [Normal ''d'', Normal ''a'']"
    then have "n = 1" by simp
    then show "is_dir example_dir (take n [Normal ''d'', Normal ''a''])" by (simp add: example_dir_facts)
  qed
qed

section \<open>Properties\<close>



text \<open>C25: Whatever links the operating system follows, an object of a local origin is the content of a file at or below
its root, under an accepted key, with the digest of that content as its ETag; reading it changes nothing.\<close>

theorem local_object_contained:
  assumes "local_get_object env storage key w = (Inr obj, v)"
  shows "accepted_key key \<and> world_fs v = world_fs w \<and> obj_key obj = key \<and>
    obj_etag obj = Some (''sha256:'' @ le_sha256_hex env (obj_body obj)) \<and>
    (\<exists>p. prefix (path_components (ls_root storage)) (path_components p) \<and>
       fs_lookup (world_fs w) (fs_key p) = Some (FileNode (obj_body obj)))"
proof -
  from readsD(4) [OF reads_local_get assms] obtain p body where p: "accepted_key key" "path_starts_with p (ls_root storage)"
      "fs_read (world_fs w) p = Inr body" "obj = \<lparr>obj_key = key, obj_body = body,
          obj_etag = Some (''sha256:'' @ le_sha256_hex env body),
          obj_last_modified = le_modified env (world_fs w) (fs_key p), obj_content_type = le_mime env key,
          obj_cache_control = None\<rparr>"
    unfolding local_object_Inr by blast
  then show ?thesis
    using readsD(1) [OF reads_local_get assms] by (auto simp: fs_read_Inr path_starts_with_def)
qed

theorem local_object_contained_witness:
  "\<exists>obj v. local_get_object plain_env example_local_storage ''a'' (world_on example_dir) = (Inr obj, v) \<and>
     accepted_key ''a'' \<and> obj_key obj = ''a''"
proof -
  have key: "sum_key (local_summary plain_env example_dir [Normal ''d'', Normal ''a''] [''a''] ''x'') = ''a''"
    by (simp add: local_summary_def)
  have "accepted_key ''a''"
    by (simp add: accepted_key_def is_absolute_def reserved_key_def METADATA_DIR_NAME_def byte_eval)
  then obtain obj where obj: "local_object plain_env example_local_storage ''a'' example_dir = Inr obj"
    using listed_object [OF example_dir_found(1) example_dir_facts(1,2), unfolded key] example_dir_facts(7) by blast
  obtain r v where run: "local_get_object plain_env example_local_storage ''a'' (world_on example_dir) = (r, v)" by fastforce
  have "r = Inr obj" using readsD(3) [OF reads_local_get run] obj by (simp add: example_dir_facts)
  then show ?thesis using local_object_contained [OF run [unfolded \<open>r = Inr obj\<close>]] run by blast
qed

text \<open>When nothing changes in between and no link is in the way, every listed object with an accepted key can be
downloaded, and the download passes the check against the entry of the listing.\<close>

theorem listed_object_downloads:
  assumes "local_list_objects env storage w = (Inr out, v)" and "s \<in> set out" and "accepted_key (sum_key s)"
    and "ls_root storage \<noteq> []" and "fs_ok (world_fs w)" and "resolves_plainly env (world_fs w) (ls_root storage)"
    and "calm u" and "world_fs u = world_fs w"
  shows "\<exists>obj u'. local_get_object env storage (sum_key s) u = (Inr obj, u') \<and>
    validate_downloaded_object (sum_key s) (file_state_of now (sum_key s) s) obj = Inr ()"
proof -
  from local_list_exact [OF assms(1,4,5)] assms(2) obtain k where
    found: "local_found env (ls_root storage) (world_fs w) k s" by blast
  from listed_object [OF found assms(5,4,3,6), of now] obtain obj where
    obj: "local_object env storage (sum_key s) (world_fs w) = Inr obj"
      "validate_downloaded_object (sum_key s) (file_state_of now (sum_key s) s) obj = Inr ()" by blast
  obtain r u' where run: "local_get_object env storage (sum_key s) u = (r, u')" by fastforce
  have "r = Inr obj" using readsD(3) [OF reads_local_get run assms(7)] obj(1) assms(8) by simp
  then show ?thesis using run obj(2) by blast
qed

theorem listed_object_downloads_witness:
  "\<exists>obj u'. local_get_object plain_env example_local_storage ''a'' (world_on example_dir) = (Inr obj, u')"
proof -
  let ?s = "local_summary plain_env example_dir [Normal ''d'', Normal ''a''] [''a''] ''x''"
  have key: "sum_key ?s = ''a''" by (simp add: local_summary_def)
  have acc: "accepted_key (sum_key ?s)"
    unfolding key by (simp add: accepted_key_def is_absolute_def reserved_key_def METADATA_DIR_NAME_def byte_eval)
  obtain out v where run: "local_list_objects plain_env example_local_storage (world_on example_dir) = (Inr out, v)"
    using local_list_calm [of example_local_storage "world_on example_dir" plain_env] by (auto simp: example_dir_facts)
  then have "?s \<in> set out"
    using local_list_exact [OF run] example_dir_found by (auto simp: example_dir_facts)
  from listed_object_downloads [OF run this acc, of "world_on example_dir" "[]"] show ?thesis
    unfolding key by (auto simp: example_dir_facts)
qed

end
