(* ===== verification/S3_Storage.thy ===== *)
theory S3_Storage
  imports Cdn_Api Local_Storage
begin

text \<open>
  A bucket as the source of an origin (\<open>src/repositories/s3_storage.rs\<close>), and the choice between
  the two kinds of sources (\<open>src/repositories/origin_storage.rs\<close>). The calls of the SDK are
  parameters; \<open>'w\<close> is what they act on. The loop over the pages of a listing need not end: then
  it is None.
\<close>

section \<open>The SDK\<close>

type_synonym i64 = "64 word"

record s3_object =
  s3o_key :: "string option"
  s3o_etag :: "string option"
  s3o_last_modified :: "string option"
  s3o_size :: "i64 option"

record s3_page =
  s3p_contents :: "s3_object list"
  s3p_truncated :: "bool option"
  s3p_next_token :: "string option"

text \<open>The body of an object is a stream that is still to be collected.\<close>

record 'w s3_response =
  s3r_etag :: "string option"
  s3r_last_modified :: "string option"
  s3r_content_type :: "string option"
  s3r_cache_control :: "string option"
  s3r_collect :: "('w, anyhow, string) action"

record 'w s3_client =
  s3_list_page :: "string \<Rightarrow> string option \<Rightarrow> ('w, anyhow, s3_page) action"
  s3_fetch :: "string \<Rightarrow> string \<Rightarrow> ('w, anyhow, 'w s3_response) action"

text \<open>What the builder of a client is given; without credentials it uses the default chain.\<close>

record s3_settings =
  s3s_endpoint :: string
  s3s_region :: string
  s3s_credentials :: "(string \<times> string) option"
  s3s_force_path_style :: bool

record 'w s3_storage =
  s3_client :: "'w s3_client"
  s3_bucket_name :: string

section \<open>Building the repository\<close>

text \<open>\<open>debug\<close> renders a value the way \<open>{:?}\<close> does.\<close>

definition parse_force_path_style_env :: "(string \<Rightarrow> string) \<Rightarrow> string \<Rightarrow> string \<Rightarrow> bool res" where
  "parse_force_path_style_env debug key value =
     (let v = to_ascii_lowercase value in
      if v \<in> {''1'', ''true'', ''yes'', ''on''} then Inr True
      else if v \<in> {''0'', ''false'', ''no'', ''off''} then Inr False
      else Inl (ErrorMsg (''invalid '' @ key @ '' value '' @ debug value @ '' for S3 force_path_style'')))"

definition force_path_style :: "(string \<Rightarrow> string) \<Rightarrow> environment \<Rightarrow> string option \<Rightarrow> bool res" where
  "force_path_style debug env key_env =
     try_then (transpose (map_option (\<lambda>key.
         transpose (map_option (parse_force_path_style_env debug key) (result_ok (env key)))) key_env)) (\<lambda>parsed.
     Inr (case Option.bind parsed (\<lambda>p. p) of Some b \<Rightarrow> b | None \<Rightarrow> False))"

definition s3_credentials :: "environment \<Rightarrow> s3_origin \<Rightarrow> (string \<times> string) option res" where
  "s3_credentials env orig =
     (case (s3_access_key_id_env orig, s3_secret_access_key_env orig) of
        (Some id_env, Some secret_env) \<Rightarrow>
          try_then (read_env env ''read S3 access key id env '' id_env) (\<lambda>access_key_id.
          try_then (read_env env ''read S3 secret access key env '' secret_env) (\<lambda>secret_access_key.
          Inr (Some (access_key_id, secret_access_key))))
      | (None, None) \<Rightarrow> Inr None
      | _ \<Rightarrow> Inl (ErrorMsg ''access_key_id_env and secret_access_key_env must be configured together''))"

definition s3_from_origin_config ::
    "(string \<Rightarrow> string) \<Rightarrow> environment \<Rightarrow> (s3_settings \<Rightarrow> 'w s3_client) \<Rightarrow> s3_origin \<Rightarrow> 'w s3_storage res" where
  "s3_from_origin_config debug env connect orig =
     try_then (read_env env ''read S3 endpoint env '' (s3_endpoint_env orig)) (\<lambda>endpoint.
     try_then (read_env env ''read S3 region env '' (s3_region_env orig)) (\<lambda>region.
     try_then (force_path_style debug env (s3_force_path_style_env orig)) (\<lambda>path_style.
     try_then (s3_credentials env orig) (\<lambda>credentials.
     Inr \<lparr>s3_client = connect \<lparr>s3s_endpoint = endpoint, s3s_region = region, s3s_credentials = credentials,
            s3s_force_path_style = path_style\<rparr>,
          s3_bucket_name = s3_bucket orig\<rparr>))))"

section \<open>Listing and reading\<close>

text \<open>\<open>as u64\<close> keeps the bits of a negative size.\<close>

definition s3_summary :: "s3_object \<Rightarrow> remote_object_summary option" where
  "s3_summary obj =
     map_option (\<lambda>key. \<lparr>sum_key = key, sum_created_at = None, sum_last_modified = s3o_last_modified obj,
       sum_size = (case s3o_size obj of Some n \<Rightarrow> n | None \<Rightarrow> 0), sum_etag = s3o_etag obj,
       sum_content_type = None, sum_cache_control = None\<rparr>) (s3o_key obj)"

partial_function (option) s3_pages ::
    "'w s3_storage \<Rightarrow> string option \<Rightarrow> remote_object_summary list \<Rightarrow> 'w \<Rightarrow>
     (remote_object_summary list res \<times> 'w) option" where
  "s3_pages storage token acc w =
     (case s3_list_page (s3_client storage) (s3_bucket_name storage) token w of
        (Inl e, w') \<Rightarrow> Some (Inl e, w')
      | (Inr page, w') \<Rightarrow>
          (let acc' = acc @ filter_map s3_summary (s3p_contents page) in
           if s3p_truncated page = Some True then
             (case s3p_next_token page of
                None \<Rightarrow> Some (Inl (ErrorMsg
                  ''S3 list_objects_v2 response was truncated without next_continuation_token''), w')
              | Some next_token \<Rightarrow> s3_pages storage (Some next_token) acc' w')
           else Some (Inr acc', w')))"

definition s3_list_objects :: "'w s3_storage \<Rightarrow> 'w \<Rightarrow> (remote_object_summary list res \<times> 'w) option" where
  "s3_list_objects storage w = s3_pages storage None [] w"

definition s3_get_object :: "'w s3_storage \<Rightarrow> string \<Rightarrow> ('w, anyhow, remote_object) action" where
  "s3_get_object storage key =
     io_then (s3_fetch (s3_client storage) (s3_bucket_name storage) key) (\<lambda>response.
     io_then (s3r_collect response) (\<lambda>body.
     io_return \<lparr>obj_key = key, obj_body = body, obj_etag = s3r_etag response,
       obj_last_modified = s3r_last_modified response, obj_content_type = s3r_content_type response,
       obj_cache_control = s3r_cache_control response\<rparr>))"

section \<open>Either kind of source\<close>

datatype origin_storage = S3Storage "world s3_storage" | LocalStorage local_storage

definition local_origin_path :: "pathbuf \<Rightarrow> string \<Rightarrow> pathbuf" where
  "local_origin_path manifest_dir p = (if is_absolute p then p else join_path manifest_dir p)"

definition storage_from_origin_config ::
    "(string \<Rightarrow> string) \<Rightarrow> environment \<Rightarrow> (s3_settings \<Rightarrow> world s3_client) \<Rightarrow> local_env \<Rightarrow> pathbuf \<Rightarrow>
     origin_config \<Rightarrow> (anyhow, origin_storage) io" where
  "storage_from_origin_config debug env connect lenv manifest_dir config =
     (case config of
        S3 orig \<Rightarrow>
          io_then (io_lift (s3_from_origin_config debug env connect orig)) (\<lambda>storage. io_return (S3Storage storage))
      | Local orig \<Rightarrow>
          io_then (local_new lenv (local_origin_path manifest_dir (loc_path orig))) (\<lambda>storage.
          io_return (LocalStorage storage)))"

definition storage_list_objects ::
    "local_env \<Rightarrow> origin_storage \<Rightarrow> world \<Rightarrow> (remote_object_summary list res \<times> world) option" where
  "storage_list_objects lenv storage w =
     (case storage of
        S3Storage s \<Rightarrow> s3_list_objects s w
      | LocalStorage s \<Rightarrow> Some (local_list_objects lenv s w))"

definition storage_get_object :: "local_env \<Rightarrow> origin_storage \<Rightarrow> string \<Rightarrow> (anyhow, remote_object) io" where
  "storage_get_object lenv storage key =
     (case storage of
        S3Storage s \<Rightarrow> s3_get_object s key
      | LocalStorage s \<Rightarrow> local_get_object lenv s key)"

section \<open>The pages of a listing\<close>

text \<open>
  A listing is a chain of pages, each asked for with the token of the one before, up to one
  that is not truncated.
\<close>

inductive s3_chain :: "'w s3_storage \<Rightarrow> string option \<Rightarrow> 'w \<Rightarrow> s3_page list \<Rightarrow> 'w \<Rightarrow> bool"
  for storage :: "'w s3_storage" where
  chain_end: "s3_list_page (s3_client storage) (s3_bucket_name storage) token w = (Inr page, v) \<Longrightarrow>
     s3p_truncated page \<noteq> Some True \<Longrightarrow> s3_chain storage token w [page] v"
| chain_next: "s3_list_page (s3_client storage) (s3_bucket_name storage) token w = (Inr page, u) \<Longrightarrow>
     s3p_truncated page = Some True \<Longrightarrow> s3p_next_token page = Some next_token \<Longrightarrow>
     s3_chain storage (Some next_token) u pages v \<Longrightarrow> s3_chain storage token w (page # pages) v"

definition page_summaries :: "s3_page list \<Rightarrow> remote_object_summary list" where
  "page_summaries pages = concat (map (\<lambda>page. filter_map s3_summary (s3p_contents page)) pages)"

lemma s3_chain_pages:
  "s3_chain storage token w pages v \<Longrightarrow> s3_pages storage token acc w = Some (Inr (acc @ page_summaries pages), v)"
  by (induction arbitrary: acc rule: s3_chain.induct)
    (subst s3_pages.simps; simp add: page_summaries_def)+

lemma s3_pages_chain:
  assumes "s3_pages storage token acc w = Some (Inr out, v)"
  shows "\<exists>pages. s3_chain storage token w pages v \<and> out = acc @ page_summaries pages"
proof -
  have "fst y = Inr out \<longrightarrow> (\<exists>pages. s3_chain storage token w pages (snd y) \<and> out = acc @ page_summaries pages)"
    if "s3_pages storage token acc w = Some y" for y
    using that
  proof (induction storage token acc w y rule: s3_pages.raw_induct [rotated 1, consumes 1, case_names step])
    case (step go storage token acc w y)
    obtain r u where page: "s3_list_page (s3_client storage) (s3_bucket_name storage) token w = (r, u)" by fastforce
    show ?case
    proof (cases r)
      case (Inl e)
      then show ?thesis using step(2) page by auto
    next
      case (Inr p)
      note page = page [unfolded Inr]
      show ?thesis
      proof (cases "s3p_truncated p = Some True")
        case False
        then show ?thesis using step(2) page chain_end [OF page]
          by (auto simp: page_summaries_def intro!: exI [of _ "[p]"])
      next
        case True
        show ?thesis
        proof (cases "s3p_next_token p")
          case None
          then show ?thesis using step(2) page True by auto
        next
          case (Some t)
          from step(2) page True Some have "go storage (Some t) (acc @ filter_map s3_summary (s3p_contents p)) u = Some y"
            by simp
          from step(1) [OF this] show ?thesis
            using chain_next [OF page True Some] by (fastforce simp: page_summaries_def)
        qed
      qed
    qed
  qed
  from this [OF assms] show ?thesis by simp
qed

text \<open>A client that answers every request with a truncated page is asked forever.\<close>

lemma s3_pages_endless:
  assumes "\<And>token w. \<exists>page v t. s3_list_page (s3_client storage) (s3_bucket_name storage) token w = (Inr page, v) \<and>
      s3p_truncated page = Some True \<and> s3p_next_token page = Some t"
  shows "s3_pages storage token acc w = None"
proof -
  have "st = storage \<longrightarrow> False" if "s3_pages st token acc w = Some y" for st y
    using that
  proof (induction st token acc w y rule: s3_pages.raw_induct [rotated 1, consumes 1, case_names step])
    case (step go st token acc w y)
    show ?case
    proof
      assume st: "st = storage"
      obtain page v t where "s3_list_page (s3_client storage) (s3_bucket_name storage) token w = (Inr page, v)"
          "s3p_truncated page = Some True" "s3p_next_token page = Some t" using assms by blast
      then have "go storage (Some t) (acc @ filter_map s3_summary (s3p_contents page)) v = Some y"
        using step(2) st by simp
      then show False using step(1) by blast
    qed
  qed
  then show ?thesis by (cases "s3_pages storage token acc w") auto
qed

text \<open>Such a client.\<close>

definition stuck_bucket :: "unit s3_storage" where
  "stuck_bucket = \<lparr>s3_client = \<lparr>s3_list_page = (\<lambda>_ _. io_return \<lparr>s3p_contents = [], s3p_truncated = Some True,
      s3p_next_token = Some ''t''\<rparr>), s3_fetch = (\<lambda>_ _. io_fail (ErrorMsg ''none''))\<rparr>, s3_bucket_name = ''b''\<rparr>"

section \<open>Properties\<close>

text \<open>C26: A listing of a bucket succeeds exactly when there is a chain of pages, each asked for with the token of the
one before, that ends with a page that is not truncated; it has the objects with a key of all these pages, in order,
and of nothing else.\<close>

theorem s3_listing_exact:
  "s3_list_objects storage w = Some (Inr out, v) \<longleftrightarrow>
     (\<exists>pages. s3_chain storage None w pages v \<and> out = page_summaries pages)"
  unfolding s3_list_objects_def using s3_pages_chain [of storage None "[]" w out v] s3_chain_pages by fastforce

text \<open>The loop over the pages of a bucket keeps no record of the tokens it has seen: when every page is truncated
and has a token, the same one or another, the listing does not return.\<close>

theorem s3_listing_can_hang:
  assumes "\<And>token w. \<exists>page v t. s3_list_page (s3_client storage) (s3_bucket_name storage) token w = (Inr page, v) \<and>
      s3p_truncated page = Some True \<and> s3p_next_token page = Some t"
  shows "s3_list_objects storage w = None"
  unfolding s3_list_objects_def by (rule s3_pages_endless [OF assms])

theorem s3_listing_can_hang_witness: "s3_list_objects stuck_bucket () = None"
  by (rule s3_listing_can_hang) (simp add: stuck_bucket_def io_return_def)

end
