(* ===== verification/Startup.thy ===== *)
theory Startup
  imports Refresh_Facts Gateway_Facts Cdn_Api
begin

text \<open>
  Starting the service (\<open>src/services/startup.rs\<close> and the modules below it): the sources and the
  CDN services of the origins are built from the manifest, every origin is refreshed once and
  its domains and tenants are reconciled, the background tasks are spawned, and the gateway is
  built on the same stores. The constructors of the storages and of the CDN repositories are
  parameters: they read the environment and connect clients.
\<close>

section \<open>CDN services\<close>

text \<open>The constructors of the repositories of \<open>src/repositories/cdn.rs\<close>.\<close>

record 'w cdn_providers =
  prov_cloudfront :: "string \<Rightarrow> 'w purge res"
  prov_cloudflare :: "cloudflare_config \<Rightarrow> 'w purge res"
  prov_saas :: "saas_config \<Rightarrow> string bset \<Rightarrow> ('w purge \<times> 'w tenant_reconcile) res"
  prov_cloudfront_domains :: "string \<Rightarrow> 'w domain_reconcile res"
  prov_cloudflare_domains :: "cloudflare_config \<Rightarrow> 'w domain_reconcile res"

record 'w startup_cdn =
  sc_refresh :: "(string, 'w cdn_refresh) btree"
  sc_domains :: "(string, 'w origin_cdn_domains) btree"
  sc_tenants :: "(string, 'w tenant_reconcile) btree"

definition exact_url_prefixes_for_origin :: "manifest \<Rightarrow> string \<Rightarrow> string list" where
  "exact_url_prefixes_for_origin m i =
     filter_map (\<lambda>(host, _). map_option (\<lambda>h. ''https://'' @ h) (normalize_host host))
       (filter (\<lambda>(host, c). host_origin c = i \<and> \<not> starts_with (trim host) ''*'') (hosts m))"

definition build_origin_cdn ::
    "'w cdn_providers \<Rightarrow> manifest \<Rightarrow> (string, 'w cdn_refresh) btree \<times> (string, 'w tenant_reconcile) btree \<Rightarrow>
     string \<times> origin_config \<Rightarrow> ((string, 'w cdn_refresh) btree \<times> (string, 'w tenant_reconcile) btree) res" where
  "build_origin_cdn providers m built entry =
     (case (built, entry) of ((refresh, tenants), (i, orig)) \<Rightarrow>
       case origin_cdn orig of
         None \<Rightarrow> Inr (refresh, tenants)
       | Some (CloudFrontSaas config) \<Rightarrow>
           try_then (map_err (\<lambda>e. ErrorMsg (''build CloudFront SaaS CDN services for origin '' @ i @ '': '' @ error_chain e))
             (prov_saas providers config (exact_hosts_for_origin m i))) (\<lambda>(repository, reconcile).
           Inr (bt_insert i (refresh_from_cloudfront_saas repository (saas_strategy config)) refresh,
                bt_insert i reconcile tenants))
       | Some config \<Rightarrow>
           try_then (refresh_from_config (prov_cloudfront providers) (prov_cloudflare providers) config
             (exact_url_prefixes_for_origin m i)) (\<lambda>r.
           Inr (bt_insert i r refresh, tenants)))"

definition build_origin_cdns ::
    "'w cdn_providers \<Rightarrow> manifest \<Rightarrow> ((string, 'w cdn_refresh) btree \<times> (string, 'w tenant_reconcile) btree) res" where
  "build_origin_cdns providers m = try_fold (build_origin_cdn providers m) ([], []) (origins m)"

definition add_origin_cdn_domains ::
    "environment \<Rightarrow> 'w cdn_providers \<Rightarrow> (string, 'w origin_cdn_domains) btree \<Rightarrow> string \<times> origin_config \<Rightarrow>
     (string, 'w origin_cdn_domains) btree res" where
  "add_origin_cdn_domains env providers built entry =
     (case entry of (i, orig) \<Rightarrow>
       case origin_cdn orig of
         None \<Rightarrow> Inr built
       | Some config \<Rightarrow>
           try_then (domains_from_config env (prov_cloudfront_domains providers) (prov_cloudflare_domains providers) config)
             (\<lambda>domains.
           Inr (case domains of Some d \<Rightarrow> bt_insert i d built | None \<Rightarrow> built)))"

definition build_origin_cdn_domains ::
    "environment \<Rightarrow> 'w cdn_providers \<Rightarrow> manifest \<Rightarrow> (string, 'w origin_cdn_domains) btree res" where
  "build_origin_cdn_domains env providers m = try_fold (add_origin_cdn_domains env providers) [] (origins m)"

definition build_startup_cdn :: "environment \<Rightarrow> 'w cdn_providers \<Rightarrow> manifest \<Rightarrow> 'w startup_cdn res" where
  "build_startup_cdn env providers m =
     try_then (build_origin_cdns providers m) (\<lambda>(refresh, tenants).
     try_then (build_origin_cdn_domains env providers m) (\<lambda>domains.
     Inr \<lparr>sc_refresh = refresh, sc_domains = domains, sc_tenants = tenants\<rparr>))"

section \<open>Sources\<close>

record startup_origins =
  so_storage :: "(string, remote_storage) btree"
  so_barrier :: "(string, string) btree"
  so_buckets :: "(string, string) btree"
  so_edge_contexts :: "(string, json) btree"

definition manifest_dir_of :: "pathbuf \<Rightarrow> pathbuf" where
  "manifest_dir_of manifest_path =
     (case path_parent manifest_path of
        Some dir \<Rightarrow> if dir = [] then ''.'' else dir
      | None \<Rightarrow> ''.'')"

definition origin_buckets :: "manifest \<Rightarrow> (string, string) btree" where
  "origin_buckets m = bt_collect (map (\<lambda>(i, orig). (i, edge_context_bucket orig i)) (origins m))"

definition origin_edge_contexts :: "manifest \<Rightarrow> (string, json) btree" where
  "origin_edge_contexts m =
     bt_collect (filter_map (\<lambda>(i, orig). map_option (\<lambda>c. (i, c)) (origin_edge_context orig)) (origins m))"

fun startup_storages ::
    "(pathbuf \<Rightarrow> origin_config \<Rightarrow> (anyhow, remote_storage) io) \<Rightarrow> pathbuf \<Rightarrow> (string \<times> origin_config) list \<Rightarrow>
     (string, remote_storage) btree \<Rightarrow> (string, string) btree \<Rightarrow>
     (anyhow, (string, remote_storage) btree \<times> (string, string) btree) io" where
  "startup_storages storage_of dir [] storages barriers = io_return (storages, barriers)"
| "startup_storages storage_of dir ((i, orig) # entries) storages barriers =
     io_then (storage_of dir orig) (\<lambda>storage.
     startup_storages storage_of dir entries (bt_insert i storage storages)
       (case activation_barrier_path orig of Some p \<Rightarrow> bt_insert i p barriers | None \<Rightarrow> barriers))"

definition build_startup_origins ::
    "(pathbuf \<Rightarrow> origin_config \<Rightarrow> (anyhow, remote_storage) io) \<Rightarrow> manifest \<Rightarrow> pathbuf \<Rightarrow>
     (anyhow, startup_origins) io" where
  "build_startup_origins storage_of m manifest_path =
     io_then (startup_storages storage_of (manifest_dir_of manifest_path) (origins m) [] []) (\<lambda>(storages, barriers).
     io_return \<lparr>so_storage = storages, so_barrier = barriers, so_buckets = origin_buckets m,
       so_edge_contexts = origin_edge_contexts m\<rparr>)"

section \<open>The first refreshes\<close>

text \<open>For every origin: the environment of its refresh and the clock readings of its reconciliations.\<close>

record 't startup_env =
  ste_refresh :: "string \<Rightarrow> 't refresh_env"
  ste_domains_at :: "string \<Rightarrow> string"
  ste_tenants_at :: "string \<Rightarrow> string"

fun origin_refresh_error_to_anyhow :: "refresh_origin_error \<Rightarrow> anyhow" where
  "origin_refresh_error_to_anyhow OriginNotFound = ErrorMsg ''origin not found during startup sync''"
| "origin_refresh_error_to_anyhow AlreadyRunning = ErrorMsg ''origin sync already running during startup''"
| "origin_refresh_error_to_anyhow (OriginRefreshFailed e) = e"

text \<open>What both reconciliations do with their outcome.\<close>

definition report_reconcile :: "string \<Rightarrow> string \<Rightarrow> domain_result res \<Rightarrow> origin_runtime_store \<Rightarrow> origin_runtime_store" where
  "report_reconcile now i outcome =
     (case outcome of
        Inr d \<Rightarrow> set_cdn_domain_result now i (dres_provider d) (dres_status d) (dres_added d) (dres_updated d)
          (dres_removed d) (dres_unchanged d)
      | Inl e \<Rightarrow> set_cdn_domain_error i (error_display e))"

definition reconcile_origin_cdn_domains ::
    "string \<Rightarrow> string \<Rightarrow> manifest \<Rightarrow> 'w origin_cdn_domains \<Rightarrow> ('t, 'w) refresh_state \<Rightarrow> ('t, 'w) refresh_state" where
  "reconcile_origin_cdn_domains now i m d s =
     (case reconcile_domains d m i (rf_outside s) of
        (outcome, w) \<Rightarrow> s\<lparr>rf_outside := w, rf_runtime := report_reconcile now i outcome (rf_runtime s)\<rparr>)"

definition reconcile_origin_cdn_tenants ::
    "string \<Rightarrow> string \<Rightarrow> manifest \<Rightarrow> 'w tenant_reconcile \<Rightarrow> ('t, 'w) refresh_state \<Rightarrow> ('t, 'w) refresh_state" where
  "reconcile_origin_cdn_tenants now i m t s =
     (case reconcile_origin_tenants t m i (rf_outside s) of
        (outcome, w) \<Rightarrow> s\<lparr>rf_outside := w, rf_runtime := report_reconcile now i outcome (rf_runtime s)\<rparr>)"

definition after_first_refresh ::
    "'t startup_env \<Rightarrow> manifest \<Rightarrow> 'w startup_cdn \<Rightarrow> string \<Rightarrow> ('t, 'w) refresh_state \<Rightarrow> ('t, 'w) refresh_state" where
  "after_first_refresh env m cdn i s =
     (let s1 = (case bt_get (sc_domains cdn) i of
                  Some d \<Rightarrow> reconcile_origin_cdn_domains (ste_domains_at env i) i m d s | None \<Rightarrow> s) in
      case bt_get (sc_tenants cdn) i of
        Some t \<Rightarrow> reconcile_origin_cdn_tenants (ste_tenants_at env i) i m t s1
      | None \<Rightarrow> s1)"

fun sync_origins ::
    "'t startup_env \<Rightarrow> manifest \<Rightarrow> 'w refresh_service \<Rightarrow> 'w startup_cdn \<Rightarrow> string list \<Rightarrow>
     ('t, 'w) refresh_state \<Rightarrow> unit res \<times> ('t, 'w) refresh_state" where
  "sync_origins env m service cdn [] s = (Inr (), s)"
| "sync_origins env m service cdn (i # is) s =
     (case refresh_origin (ste_refresh env i) service i s of
        (Inl e, s') \<Rightarrow> (Inl (origin_refresh_error_to_anyhow e), s')
      | (Inr _, s') \<Rightarrow> sync_origins env m service cdn is (after_first_refresh env m cdn i s'))"

definition sync_origins_at_startup ::
    "'t startup_env \<Rightarrow> manifest \<Rightarrow> 'w refresh_service \<Rightarrow> 'w startup_cdn \<Rightarrow> ('t, 'w) refresh_state \<Rightarrow>
     unit res \<times> ('t, 'w) refresh_state" where
  "sync_origins_at_startup env m service cdn s = sync_origins env m service cdn (bt_keys (origins m)) s"

section \<open>Background tasks\<close>

definition background_interval :: "manifest \<Rightarrow> string \<Rightarrow> u64" where
  "background_interval m i =
     (case Option.bind (bt_get (origins m) i) sync_interval_seconds of
        Some seconds \<Rightarrow> seconds
      | None \<Rightarrow> runtime_sync_interval_seconds (runtime m))"

text \<open>The tasks that are spawned: an origin and the seconds between its refreshes.\<close>

definition spawn_background_sync :: "manifest \<Rightarrow> (string \<times> u64) list" where
  "spawn_background_sync m = map (\<lambda>i. (i, background_interval m i)) (bt_keys (origins m))"

text \<open>One round of a task; an error is logged and the task goes on.\<close>

definition background_round ::
    "'t refresh_env \<Rightarrow> 'w refresh_service \<Rightarrow> string \<Rightarrow> ('t, 'w) refresh_state \<Rightarrow> ('t, 'w) refresh_state" where
  "background_round env service i s = snd (refresh_origin env service i s)"

section \<open>The whole start\<close>

definition load_manifest ::
    "(string \<Rightarrow> string + manifest) \<Rightarrow> (string \<Rightarrow> string + manifest) \<Rightarrow> pathbuf \<Rightarrow> (anyhow, manifest) io" where
  "load_manifest yaml json manifest_path =
     io_then (io_context (''failed to read manifest file '' @ manifest_path) (io_read_to_string manifest_path)) (\<lambda>content.
     io_lift (parse_manifest_config yaml json content))"

text \<open>
  The gateway and the service share the stores: the gateway is kept without them and takes
  them from the state when a request comes.
\<close>

record 'w render_runtime =
  rr_resolver :: host_resolver
  rr_cors :: cors_policy
  rr_root :: pathbuf
  rr_buckets :: "(string, string) btree"
  rr_edge_contexts :: "(string, json) btree"
  rr_service :: "'w refresh_service"
  rr_tasks :: "(string \<times> u64) list"

definition runtime_gateway :: "'w render_runtime \<Rightarrow> ('t, 'w) refresh_state \<Rightarrow> 't gateway" where
  "runtime_gateway rt s =
     \<lparr>gw_resolver = rr_resolver rt, gw_cors = rr_cors rt, gw_root = rr_root rt, gw_edge_configs = rf_configs s,
      gw_templates = rf_templates s, gw_origin_buckets = rr_buckets rt, gw_edge_contexts = rr_edge_contexts rt\<rparr>"

definition empty_state :: "world \<Rightarrow> 'w \<Rightarrow> ('t, 'w) refresh_state" where
  "empty_state w external =
     \<lparr>rf_world = w, rf_configs = config_store_of [], rf_templates = [], rf_indexes = [], rf_runtime = [],
      rf_outside = external, rf_locks = []\<rparr>"

definition build_render_runtime ::
    "'t startup_env \<Rightarrow> environment \<Rightarrow> 'w cdn_providers \<Rightarrow>
     (pathbuf \<Rightarrow> origin_config \<Rightarrow> (anyhow, remote_storage) io) \<Rightarrow>
     (string \<Rightarrow> string + manifest) \<Rightarrow> (string \<Rightarrow> string + manifest) \<Rightarrow> pathbuf \<Rightarrow> world \<Rightarrow> 'w \<Rightarrow>
     'w render_runtime res \<times> ('t, 'w) refresh_state" where
  "build_render_runtime env vars providers storage_of yaml json manifest_path w external =
     (case load_manifest yaml json manifest_path w of
        (Inl e, w1) \<Rightarrow> (Inl e, empty_state w1 external)
      | (Inr m, w1) \<Rightarrow>
          (case build_startup_origins storage_of m manifest_path w1 of
             (Inl e, w2) \<Rightarrow> (Inl e, empty_state w2 external)
           | (Inr so, w2) \<Rightarrow>
               (case build_startup_cdn vars providers m of
                  Inl e \<Rightarrow> (Inl e, empty_state w2 external)
                | Inr cdn \<Rightarrow>
                    let service = \<lparr>srv_root = local_store_dir (runtime m), srv_storage = so_storage so,
                          srv_barrier = so_barrier so, srv_cdn = sc_refresh cdn\<rparr> in
                    (case sync_origins_at_startup env m service cdn (empty_state w2 external) of
                       (Inl e, s) \<Rightarrow> (Inl e, s)
                     | (Inr _, s) \<Rightarrow>
                         (case host_resolver_new m of
                            Inl e \<Rightarrow> (Inl e, s)
                          | Inr resolver \<Rightarrow>
                              (Inr \<lparr>rr_resolver = resolver, rr_cors = cors_from_manifest m,
                                 rr_root = local_store_dir (runtime m), rr_buckets = so_buckets so,
                                 rr_edge_contexts = so_edge_contexts so, rr_service = service,
                                 rr_tasks = spawn_background_sync m\<rparr>, s))))))"

section \<open>What a start establishes\<close>

text \<open>An origin that can be served: it has an edge configuration, templates, an index and a snapshot.\<close>

definition ready :: "string \<Rightarrow> ('t, 'w) refresh_state \<Rightarrow> bool" where
  "ready i s \<longleftrightarrow> (\<exists>config. bt_get (rf_configs s) i = Some (ValidConfig config)) \<and> bt_get (rf_templates s) i \<noteq> None \<and>
     bt_get (rf_indexes s) i \<noteq> None \<and> get_snapshot (rf_runtime s) i \<noteq> None"

lemma ready_cong:
  assumes "ready i s" and "rf_configs s' = rf_configs s" and "rf_templates s' = rf_templates s"
    and "rf_indexes s' = rf_indexes s"
    and "get_snapshot (rf_runtime s) i \<noteq> None \<Longrightarrow> get_snapshot (rf_runtime s') i \<noteq> None"
  shows "ready i s'"
  using assms by (simp add: ready_def)

lemma refresh_snapshot_ready:
  assumes "refresh_origin_snapshot env root i storage cdn barrier s = (r, s')"
  shows "ready j s \<Longrightarrow> ready j s'" and "\<not> isl r \<Longrightarrow> ready i s'"
proof -
  have "(ready j s \<longrightarrow> ready j s') \<and> (\<not> isl r \<longrightarrow> ready i s')" for j
  proof (cases "isl r")
    case True
    then obtain w where "s' = s\<lparr>rf_world := w\<rparr>" using assms by (cases r) (auto dest: refresh_failed)
    then show ?thesis using True by (simp add: ready_def)
  next
    case False
    from assms show ?thesis
    proof (cases rule: refresh_cases)
      case (activated staged w1 config registry w2 w3 response)
      note keeps = refresh_cdn_keeps(2-4) [OF activated(4), unfolded activate_stores_sel]
      note snaps = snapshot_after_activation [OF activated(4)]
      show ?thesis using keeps snaps
        by (cases "j = i") (auto simp: ready_def config_store_set_valid_def)
    qed (use False in simp_all)
  qed
  then show "ready j s \<Longrightarrow> ready j s'" and "\<not> isl r \<Longrightarrow> ready i s'" by blast+
qed

lemma refresh_origin_ready:
  assumes "refresh_origin env service i s = (r, s')"
  shows "ready j s \<Longrightarrow> ready j s'" and "\<not> isl r \<Longrightarrow> ready i s'"
proof -
  have locks: "ready j (s\<lparr>rf_locks := active\<rparr>) = ready j s" for j and s :: "('a, 'b) refresh_state" and active
    by (simp add: ready_def)
  have "(ready j s \<longrightarrow> ready j s') \<and> (\<not> isl r \<longrightarrow> ready i s')"
  proof (cases "bt_get (srv_storage service) i")
    case None
    then show ?thesis using assms by (auto simp: refresh_origin_def)
  next
    case (Some storage)
    show ?thesis
    proof (cases "try_acquire i (rf_locks s)")
      case None
      then show ?thesis using assms Some by (auto simp: refresh_origin_def)
    next
      case acquired: (Some active)
      obtain r' s1 where run: "refresh_origin_snapshot env (srv_root service) i storage (bt_get (srv_cdn service) i)
          (bt_get (srv_barrier service) i) (s\<lparr>rf_locks := active\<rparr>) = (r', s1)" by fastforce
      note facts = refresh_snapshot_ready [OF run, unfolded locks]
      show ?thesis
      proof (cases r')
        case (Inr response)
        then show ?thesis using assms Some acquired run facts by (auto simp: refresh_origin_def locks)
      next
        case (Inl e)
        then have s': "s' = s1\<lparr>rf_runtime := set_error i (error_display e) (rf_runtime s1),
            rf_locks := drop_guard i (rf_locks s1)\<rparr>" "isl r"
          using assms Some acquired run by (auto simp: refresh_origin_def)
        have "ready j s1 \<Longrightarrow> ready j s'"
          by (erule ready_cong) (simp_all add: s' get_set_error)
        then show ?thesis using facts(1) s'(2) by blast
      qed
    qed
  qed
  then show "ready j s \<Longrightarrow> ready j s'" and "\<not> isl r \<Longrightarrow> ready i s'" by blast+
qed

lemma reconcile_ready:
  "ready j s \<Longrightarrow> ready j (after_first_refresh env m cdn i s)"
  unfolding after_first_refresh_def Let_def reconcile_origin_cdn_domains_def reconcile_origin_cdn_tenants_def
  by (erule ready_cong)
    (auto simp: report_reconcile_def set_cdn_domain_result_def set_cdn_domain_error_def get_modify_snapshot
      split: option.splits prod.splits sum.splits)

lemma sync_origins_keeps_ready:
  "sync_origins env m service cdn is s = (r, s') \<Longrightarrow> ready j s \<Longrightarrow> ready j s'"
  by (induction "is" arbitrary: s)
    (auto split: prod.splits sum.splits dest: refresh_origin_ready(1) [of _ _ _ _ _ _ j] intro: reconcile_ready)

lemma sync_origins_ready:
  "sync_origins env m service cdn is s = (r, s') \<Longrightarrow> \<not> isl r \<Longrightarrow> i \<in> set is \<Longrightarrow> ready i s'"
proof (induction "is" arbitrary: s)
  case Nil
  then show ?case by simp
next
  case (Cons k rest)
  obtain r1 s1 where run: "refresh_origin (ste_refresh env k) service k s = (r1, s1)" by fastforce
  obtain response where r1: "r1 = Inr response" using Cons.prems(1,2) run by (cases r1) auto
  have next_run: "sync_origins env m service cdn rest (after_first_refresh env m cdn k s1) = (r, s')"
    using Cons.prems(1) run r1 by simp
  have "ready k (after_first_refresh env m cdn k s1)"
    using refresh_origin_ready(2) [OF run] r1 by (simp add: reconcile_ready)
  then show ?case
    using Cons.IH [OF next_run Cons.prems(2)] sync_origins_keeps_ready [OF next_run] Cons.prems(3) by auto
qed


lemma background_round_ready: "ready i s \<Longrightarrow> ready i (background_round env service j s)"
  unfolding background_round_def by (rule refresh_origin_ready(1) [OF prod.collapse [symmetric]])

lemma background_rounds_ready:
  "ready i s \<Longrightarrow> ready i (fold (\<lambda>(env, j). background_round env service j) rounds s)"
  by (induction rounds arbitrary: s) (auto intro: background_round_ready)

text \<open>What a successful start went through.\<close>

lemma build_render_runtime_Inr:
  assumes "build_render_runtime env vars providers storage_of yaml json manifest_path w external = (Inr rt, s)"
  obtains m w1 so w2 cdn where "load_manifest yaml json manifest_path w = (Inr m, w1)"
    and "build_startup_origins storage_of m manifest_path w1 = (Inr so, w2)"
    and "build_startup_cdn vars providers m = Inr cdn"
    and "sync_origins_at_startup env m (rr_service rt) cdn (empty_state w2 external) = (Inr (), s)"
    and "host_resolver_new m = Inr (rr_resolver rt)" and "rr_tasks rt = spawn_background_sync m"
    and "rr_service rt = \<lparr>srv_root = local_store_dir (runtime m), srv_storage = so_storage so,
      srv_barrier = so_barrier so, srv_cdn = sc_refresh cdn\<rparr>"
    and "rr_buckets rt = origin_buckets m" and "so_buckets so = origin_buckets m"
  using assms unfolding build_render_runtime_def
  by (auto simp: build_startup_origins_def io_then_Inr io_return_def Let_def
      split: prod.splits sum.splits)

lemma load_manifest_ok:
  assumes "load_manifest yaml json manifest_path w = (Inr m, w1)"
  shows "manifest_ok m"
proof -
  obtain content w' where "io_lift (parse_manifest_config yaml json content) w' = (Inr m, w1)"
    using assms unfolding load_manifest_def io_then_Inr by blast
  then have "parse_manifest_config yaml json content = Inr m" by (simp add: io_lift_def split: sum.splits)
  then show ?thesis by (auto simp: parse_manifest_config_def result_simps validate_manifest_ok)
qed

lemma selects_origin:
  assumes "manifest_ok m" and "selects m n i"
  shows "i \<in> set (bt_keys (origins m))"
  using assms by (fastforce simp: selects_def manifest_ok_def map_simps)

lemma buckets_of_all: "set (bt_keys (origin_buckets m)) = set (bt_keys (origins m))"
  unfolding origin_buckets_def bt_keys_extend by (simp add: image_image split_def)

section \<open>The storages and the locks\<close>

lemma startup_storages_get:
  "startup_storages storage_of dir entries storages barriers w = (Inr (storages', barriers'), w') \<Longrightarrow>
   set (bt_keys storages') = set (bt_keys storages) \<union> set (map fst entries)"
  by (induction storage_of dir entries storages barriers arbitrary: w rule: startup_storages.induct)
    (auto simp: io_return_def io_then_Inr bt_keys_insert simp del: set_map)

lemma startup_storages_all:
  "build_startup_origins storage_of m manifest_path w = (Inr so, w') \<Longrightarrow>
   set (bt_keys (so_storage so)) = set (bt_keys (origins m))"
  by (auto simp: build_startup_origins_def io_then_Inr io_return_def simp del: set_map
      dest!: startup_storages_get)

lemma refresh_snapshot_locks:
  assumes "refresh_origin_snapshot env root i storage cdn barrier s = (r, s')"
  shows "rf_locks s' = rf_locks s"
  using assms
proof (cases rule: refresh_cases)
  case (activated staged w1 config registry w2 w3 response)
  then show ?thesis using refresh_cdn_keeps(5) [OF activated(4)] by (simp add: activate_stores_sel)
qed simp_all

lemma refresh_origin_locks:
  assumes "refresh_origin env service i s = (r, s')"
  shows "rf_locks s' = rf_locks s"
proof (cases "try_acquire i (rf_locks s)")
  case None
  then show ?thesis using assms by (auto simp: refresh_origin_def split: option.splits)
next
  case (Some active)
  then have active: "active = bset_insert i (rf_locks s)" "i \<notin> set (rf_locks s)"
    by (simp_all add: try_acquire_def split: if_splits)
  obtain x t where run: "refresh_origin_snapshot env (srv_root service) i (the (bt_get (srv_storage service) i))
      (bt_get (srv_cdn service) i) (bt_get (srv_barrier service) i) (s\<lparr>rf_locks := active\<rparr>) = (x, t)" by fastforce
  show ?thesis using assms Some run refresh_snapshot_locks [OF run] active drop_guard_insert [OF active(2)]
    by (auto simp: refresh_origin_def split: option.splits sum.splits)
qed

lemma after_first_refresh_locks [simp]: "rf_locks (after_first_refresh env m cdn i s) = rf_locks s"
  by (simp add: after_first_refresh_def Let_def reconcile_origin_cdn_domains_def reconcile_origin_cdn_tenants_def
      split: option.splits prod.splits)

lemma refresh_origin_starts:
  assumes "refresh_origin env service i s = (Inl e, s')" and "bt_get (srv_storage service) i \<noteq> None"
    and "rf_locks s = []"
  shows "\<exists>err. e = OriginRefreshFailed err"
  using assms by (auto simp: refresh_origin_def try_acquire_def split: prod.splits sum.splits)

lemma sync_origins_stops:
  "sync_origins env m service cdn is s = (Inl e, s') \<Longrightarrow> set is \<subseteq> set (bt_keys (srv_storage service)) \<Longrightarrow>
   rf_locks s = [] \<Longrightarrow>
   \<exists>before i after t. is = before @ i # after \<and> sync_origins env m service cdn before s = (Inr (), t) \<and>
     refresh_origin (ste_refresh env i) service i t = (Inl (OriginRefreshFailed e), s')"
proof (induction "is" arbitrary: s)
  case Nil
  then show ?case by simp
next
  case (Cons k rest)
  obtain r1 s1 where run: "refresh_origin (ste_refresh env k) service k s = (r1, s1)" by fastforce
  show ?case
  proof (cases r1)
    case (Inl e1)
    have "bt_get (srv_storage service) k \<noteq> None" using Cons.prems(2) by (simp add: map_of_eq_None_iff)
    then obtain err where "e1 = OriginRefreshFailed err"
      using refresh_origin_starts [OF run [unfolded Inl] _ Cons.prems(3)] by blast
    then have "refresh_origin (ste_refresh env k) service k s = (Inl (OriginRefreshFailed e), s')"
      using Cons.prems(1) run Inl by simp
    then show ?thesis by (intro exI [of _ "[]"] exI [of _ k] exI [of _ rest]) simp
  next
    case (Inr response)
    let ?s = "after_first_refresh env m cdn k s1"
    have "\<exists>before i after t. rest = before @ i # after \<and> sync_origins env m service cdn before ?s = (Inr (), t) \<and>
        refresh_origin (ste_refresh env i) service i t = (Inl (OriginRefreshFailed e), s')"
      using Cons.IH [of ?s] Cons.prems run Inr refresh_origin_locks [OF run] by simp
    then obtain before i after t where "rest = before @ i # after"
        "sync_origins env m service cdn before ?s = (Inr (), t)"
        "refresh_origin (ste_refresh env i) service i t = (Inl (OriginRefreshFailed e), s')" by blast
    then show ?thesis using run Inr by (intro exI [of _ "k # before"] exI [of _ i] exI [of _ after] exI [of _ t]) simp
  qed
qed

section \<open>The CDN services of a manifest\<close>

lemma build_origin_cdn_keys:
  assumes "build_origin_cdn providers m (refresh, tenants) (i, orig) = Inr (refresh', tenants')"
  shows "set (bt_keys refresh') = set (bt_keys refresh) \<union> (if origin_cdn orig = None then {} else {i})"
    and "set (bt_keys tenants') = set (bt_keys tenants) \<union> (if \<exists>c. origin_cdn orig = Some (CloudFrontSaas c) then {i} else {})"
  using assms unfolding build_origin_cdn_def
  by (auto simp: result_simps bt_keys_insert simp del: set_map split: option.splits cdn_config.splits)

lemma build_origin_cdns_keys:
  "try_fold (build_origin_cdn providers m) (refresh, tenants) entries = Inr (refresh', tenants') \<Longrightarrow>
   set (bt_keys refresh') = set (bt_keys refresh) \<union> {i. \<exists>orig. (i, orig) \<in> set entries \<and> origin_cdn orig \<noteq> None} \<and>
   set (bt_keys tenants') = set (bt_keys tenants) \<union>
     {i. \<exists>orig c. (i, orig) \<in> set entries \<and> origin_cdn orig = Some (CloudFrontSaas c)}"
proof (induction entries arbitrary: refresh tenants)
  case Nil
  then show ?case by simp
next
  case (Cons entry entries)
  obtain i orig where entry: "entry = (i, orig)" by fastforce
  from Cons.prems obtain r1 t1 where step: "build_origin_cdn providers m (refresh, tenants) (i, orig) = Inr (r1, t1)"
      and rest: "try_fold (build_origin_cdn providers m) (r1, t1) entries = Inr (refresh', tenants')"
    by (auto simp: entry result_simps)
  show ?case using Cons.IH [OF rest] build_origin_cdn_keys [OF step] by (auto simp: entry simp del: set_map)
qed

lemma domains_not_saas:
  assumes "domains_from_config env f g config = Inr (Some d)"
  shows "cdn_domains config = Some (ocd_config d) \<and> dom_enabled (ocd_config d) \<and> (\<forall>c. config \<noteq> CloudFrontSaas c)"
  using domains_from_config_Some [OF assms] by (cases config) auto

definition domains_of :: "manifest \<Rightarrow> string \<Rightarrow> 'w origin_cdn_domains \<Rightarrow> bool" where
  "domains_of m i d \<longleftrightarrow> (\<exists>orig config. (i, orig) \<in> set (origins m) \<and> origin_cdn orig = Some config \<and>
     cdn_domains config = Some (ocd_config d) \<and> dom_enabled (ocd_config d) \<and> (\<forall>c. config \<noteq> CloudFrontSaas c))"

lemma domains_ofI:
  "(i, orig) \<in> set (origins m) \<Longrightarrow> origin_cdn orig = Some config \<Longrightarrow> domains_from_config env f g config = Inr (Some d) \<Longrightarrow>
   domains_of m i d"
  unfolding domains_of_def using domains_not_saas by blast

lemma build_origin_cdn_domains_of:
  assumes "build_origin_cdn_domains env providers m = Inr domains" and "bt_get domains i = Some d"
  shows "domains_of m i d"
proof -
  have "\<forall>i d. bt_get built' i = Some d \<longrightarrow> domains_of m i d"
    if "try_fold (add_origin_cdn_domains env providers) built entries = Inr built'" and "set entries \<subseteq> set (origins m)"
      and "\<forall>i d. bt_get built i = Some d \<longrightarrow> domains_of m i d" for entries built built'
    using that
  proof (induction entries arbitrary: built)
    case Nil
    then show ?case by simp
  next
    case (Cons entry entries)
    obtain k orig where entry: "entry = (k, orig)" by fastforce
    from Cons.prems(1) obtain b1 where step: "add_origin_cdn_domains env providers built (k, orig) = Inr b1"
        and rest: "try_fold (add_origin_cdn_domains env providers) b1 entries = Inr built'"
      by (auto simp: entry result_simps)
    have "\<forall>i d. bt_get b1 i = Some d \<longrightarrow> domains_of m i d"
      using step Cons.prems(2,3)
      by (auto simp: add_origin_cdn_domains_def entry result_simps split: option.splits if_splits) (blast intro: domains_ofI)+
    then show ?case using Cons.IH [OF rest] Cons.prems(2) by simp
  qed
  from this [of "[]" "origins m" domains] assms show ?thesis
    by (auto simp: build_origin_cdn_domains_def)
qed

section \<open>An example\<close>

definition example_start_manifest :: manifest where
  "example_start_manifest = \<lparr>manifest_version = 1,
     runtime = \<lparr>local_store_dir = ''m'', runtime_sync_interval_seconds = 30\<rparr>,
     origins = [(''w'', Local \<lparr>loc_path = ''o'', loc_sync_interval_seconds = None, loc_activation_barrier_path = None,
       loc_cdn = Some (CloudFrontSaas \<lparr>saas_distribution_id_env = ''D'', saas_connection_group_id_env = None,
         saas_strategy = ChangedPaths, saas_parameters_env = [], saas_certificate_config = None\<rparr>),
       loc_edge_context = None\<rparr>)],
     hosts = [(''b.io'', \<lparr>host_origin = ''w''\<rparr>)]\<rparr>"

definition example_start_env :: "string startup_env" where
  "example_start_env = \<lparr>ste_refresh = (\<lambda>_. example_refresh_env), ste_domains_at = (\<lambda>_. ''t''), ste_tenants_at = (\<lambda>_. ''t'')\<rparr>"

definition example_providers :: "nat cdn_providers" where
  "example_providers = \<lparr>prov_cloudfront = (\<lambda>_. Inl (ErrorMsg [])), prov_cloudflare = (\<lambda>_. Inl (ErrorMsg [])),
     prov_saas = (\<lambda>_ _. Inr ((\<lambda>_ w. (Inl (OtherPurgeError (ErrorMsg [])), w)), (\<lambda>_ w. (Inl (ErrorMsg []), w)))),
     prov_cloudfront_domains = (\<lambda>_. Inl (ErrorMsg [])), prov_cloudflare_domains = (\<lambda>_. Inl (ErrorMsg []))\<rparr>"

definition example_start :: "nat render_runtime res \<times> (string, nat) refresh_state" where
  "example_start = build_render_runtime example_start_env (\<lambda>_. Inl NotPresent) example_providers
     (\<lambda>_ _. io_return (example_remote ''.rendermesh/edge.yaml'')) (\<lambda>_. Inr example_start_manifest) (\<lambda>_. Inl [])
     ''c'' (world_on [([Normal ''c''], FileNode ''y'')]) 0"

lemma example_start_succeeds:
  "case example_start of (Inr rt, s) \<Rightarrow> map_option rh_origin_id (resolve (rr_resolver rt) ''b.io'') = Some ''w'' | (Inl _, _) \<Rightarrow> False"
  by code_simp

section \<open>Properties\<close>

text \<open>C22: After a successful start, and after any later refreshes of the background or of a user, whether they
succeed or fail, every host that resolves has an edge configuration, templates, a bucket and a snapshot: the
gateway never answers it that its configuration is missing.\<close>

theorem started_hosts_are_served:
  assumes "build_render_runtime env vars providers storage_of yaml json manifest_path w external = (Inr rt, s)"
    and "s' = fold (\<lambda>(env, j). background_round env (rr_service rt) j) rounds s"
    and "resolve (rr_resolver rt) host = Some resolved"
  shows "(\<exists>config. config_store_get (gw_edge_configs (runtime_gateway rt s')) (rh_origin_id resolved) = Inr config) \<and>
    bt_get (gw_templates (runtime_gateway rt s')) (rh_origin_id resolved) \<noteq> None \<and>
    bt_get (gw_origin_buckets (runtime_gateway rt s')) (rh_origin_id resolved) \<noteq> None \<and>
    get_snapshot (rf_runtime s') (rh_origin_id resolved) \<noteq> None"
proof -
  obtain m w1 so w2 cdn where loaded: "load_manifest yaml json manifest_path w = (Inr m, w1)"
      and sync: "sync_origins_at_startup env m (rr_service rt) cdn (empty_state w2 external) = (Inr (), s)"
      and resolver: "host_resolver_new m = Inr (rr_resolver rt)" and buckets: "rr_buckets rt = origin_buckets m"
    using build_render_runtime_Inr [OF assms(1)] by metis
  have i: "rh_origin_id resolved \<in> set (bt_keys (origins m))"
    by (rule selects_origin [OF load_manifest_ok [OF loaded] resolve_selects(2) [OF resolver assms(3)]])
  then have "ready (rh_origin_id resolved) s"
    using sync_origins_ready [OF sync [unfolded sync_origins_at_startup_def]] by simp
  then have "ready (rh_origin_id resolved) s'" unfolding assms(2) by (rule background_rounds_ready)
  moreover have "bt_get (origin_buckets m) (rh_origin_id resolved) \<noteq> None"
    using i buckets_of_all by (simp add: map_of_eq_None_iff)
  ultimately show ?thesis
    by (auto simp: ready_def runtime_gateway_def config_store_get_def buckets)
qed

theorem started_hosts_are_served_witness:
  "\<exists>rt s resolved. example_start = (Inr rt, s) \<and> resolve (rr_resolver rt) ''b.io'' = Some resolved \<and>
     bt_get (gw_templates (runtime_gateway rt s)) (rh_origin_id resolved) \<noteq> None"
proof -
  obtain rt s resolved where run: "example_start = (Inr rt, s)" "resolve (rr_resolver rt) ''b.io'' = Some resolved"
    using example_start_succeeds by (auto split: prod.splits sum.splits)
  then show ?thesis
    using started_hosts_are_served [OF run(1) [unfolded example_start_def] _ run(2), of s "[]"] run by fastforce
qed

text \<open>C23: The start goes through the origins in the order of their ids and fails with the error of the first refresh
that fails, after which no other origin is touched; it never fails because an origin is unknown or busy.\<close>

theorem start_fails_with_first_refresh:
  assumes "build_startup_origins storage_of m manifest_path w = (Inr so, w')"
    and "srv_storage service = so_storage so" and "rf_locks s = []"
    and "sync_origins_at_startup env m service cdn s = (Inl e, s')"
  shows "\<exists>before i after t. bt_keys (origins m) = before @ i # after \<and>
    sync_origins env m service cdn before s = (Inr (), t) \<and>
    refresh_origin (ste_refresh env i) service i t = (Inl (OriginRefreshFailed e), s')"
  using sync_origins_stops [OF assms(4) [unfolded sync_origins_at_startup_def] _ assms(3)]
    startup_storages_all [OF assms(1)] assms(2) by simp

theorem start_fails_with_first_refresh_witness:
  "\<exists>e s' t. sync_origins_at_startup example_start_env example_start_manifest example_service
       \<lparr>sc_refresh = [], sc_domains = [], sc_tenants = []\<rparr> (example_refresh_state (failing_at 3 [])) = (Inl e, s') \<and>
     refresh_origin example_refresh_env example_service ''w'' t = (Inl (OriginRefreshFailed e), s')"
proof -
  let ?cdn = "\<lparr>sc_refresh = [], sc_domains = [], sc_tenants = []\<rparr>"
  have "isl (fst (sync_origins_at_startup example_start_env example_start_manifest example_service ?cdn
      (example_refresh_state (failing_at 3 []))))"
    by code_simp
  then obtain e s' where run: "sync_origins_at_startup example_start_env example_start_manifest example_service ?cdn
      (example_refresh_state (failing_at 3 [])) = (Inl e, s')"
    by (metis isl_def prod.collapse)
  have "build_startup_origins (\<lambda>_ _. io_return (example_remote ''a'')) example_start_manifest ''c'' (world_on []) =
      (Inr \<lparr>so_storage = [(''w'', example_remote ''a'')], so_barrier = [], so_buckets = origin_buckets example_start_manifest,
        so_edge_contexts = []\<rparr>, world_on [])"
    by (simp add: build_startup_origins_def example_start_manifest_def io_then_def io_return_def origin_edge_contexts_def)
  from start_fails_with_first_refresh [OF this _ _ run] show ?thesis
    using run by (auto simp: example_service_def example_refresh_state_def example_start_manifest_def
        example_start_env_def Cons_eq_append_conv)
qed

text \<open>Every origin of a loaded manifest has exactly one background task, and no task repeats its refresh
without a pause: each interval is positive.\<close>

theorem background_tasks_pause:
  assumes "load_manifest yaml json manifest_path w = (Inr m, w')"
  shows "map fst (spawn_background_sync m) = bt_keys (origins m) \<and> (\<forall>(i, seconds) \<in> set (spawn_background_sync m). 0 < unat seconds)"
proof -
  have "unat (background_interval m i) \<noteq> 0" for i
    using load_manifest_ok [OF assms]
    by (auto simp: background_interval_def manifest_ok_def manifest_origin_ok_def bind_eq_Some_conv unat_eq_0
        split: option.splits dest!: map_of_SomeD)
  then show ?thesis by (auto simp: spawn_background_sync_def)
qed

theorem background_tasks_pause_witness:
  "background_interval example_start_manifest ''w'' = 30 \<and> 0 < unat (background_interval example_start_manifest ''w'')"
proof -
  have "fst (load_manifest (\<lambda>_. Inr example_start_manifest) (\<lambda>_. Inl []) ''c'' (world_on [([Normal ''c''], FileNode ''y'')])) =
      Inr example_start_manifest"
    by code_simp
  then obtain w' where load: "load_manifest (\<lambda>_. Inr example_start_manifest) (\<lambda>_. Inl []) ''c''
      (world_on [([Normal ''c''], FileNode ''y'')]) = (Inr example_start_manifest, w')"
    by (metis prod.collapse)
  have task: "(''w'', background_interval example_start_manifest ''w'') \<in> set (spawn_background_sync example_start_manifest)"
    by (simp add: spawn_background_sync_def example_start_manifest_def)
  from bspec [OF conjunct2 [OF background_tasks_pause [OF load]] task]
  have "0 < unat (background_interval example_start_manifest ''w'')" by simp
  moreover have "background_interval example_start_manifest ''w'' = 30" by code_simp
  ultimately show ?thesis by (intro conjI)
qed

text \<open>At the start exactly the origins with a CDN configuration get a purge service, exactly those with a CloudFront
SaaS distribution a tenant service, and a domain service only those whose configuration enables domains at a
provider that supports them: no origin has both tenants and domains reconciled.\<close>

theorem startup_cdn_services:
  assumes "build_startup_cdn vars providers m = Inr cdn"
  shows "(bt_contains (sc_refresh cdn) i \<longleftrightarrow> (\<exists>orig. (i, orig) \<in> set (origins m) \<and> origin_cdn orig \<noteq> None)) \<and>
    (bt_contains (sc_tenants cdn) i \<longleftrightarrow>
       (\<exists>orig c. (i, orig) \<in> set (origins m) \<and> origin_cdn orig = Some (CloudFrontSaas c))) \<and>
    (\<forall>d. bt_get (sc_domains cdn) i = Some d \<longrightarrow> domains_of m i d)"
proof -
  obtain refresh tenants domains where cdns: "build_origin_cdns providers m = Inr (refresh, tenants)"
      and domains: "build_origin_cdn_domains vars providers m = Inr domains"
      and cdn: "cdn = \<lparr>sc_refresh = refresh, sc_domains = domains, sc_tenants = tenants\<rparr>"
    using assms by (auto simp: build_startup_cdn_def result_simps)
  show ?thesis
    using build_origin_cdns_keys [OF cdns [unfolded build_origin_cdns_def]] build_origin_cdn_domains_of [OF domains]
    by (simp add: cdn map_simps del: set_map)
qed

theorem startup_cdn_services_witness:
  "\<exists>cdn. build_startup_cdn (\<lambda>_. Inl NotPresent) example_providers example_start_manifest = Inr cdn \<and>
     bt_contains (sc_tenants cdn) ''w''"
proof -
  have "\<not> isl (build_startup_cdn (\<lambda>_. Inl NotPresent) example_providers example_start_manifest)" by code_simp
  then obtain cdn where run: "build_startup_cdn (\<lambda>_. Inl NotPresent) example_providers example_start_manifest = Inr cdn"
    by (metis isl_def sum.exhaust)
  then show ?thesis using startup_cdn_services [OF run, of "''w''"] by (simp add: example_start_manifest_def)
qed

text \<open>The URL prefixes that are purged for an origin and the hosts its tenants are reconciled to are the same.\<close>

theorem purged_prefixes_are_hosts:
  "set (exact_url_prefixes_for_origin m i) = (\<lambda>h. ''https://'' @ h) ` set (exact_hosts_for_origin m i)"
  by (auto simp: exact_url_prefixes_for_origin_def exact_hosts_for_origin_def set_filter_map image_iff) blast+

end
