(* ===== verification/Server_Config.thy ===== *)
theory Server_Config
  imports Cdn_Api
begin

text \<open>
  The configuration of the process (\<open>src/config.rs\<close>) and the CORS layer of the system routes
  (\<open>src/routes/cors.rs\<close>). Parsing a socket address and the values that may stand in a header are
  parameters.
\<close>

section \<open>Numbers in the environment\<close>

text \<open>
  \<open>str::parse\<close> for an unsigned type with the given number of values: an optional plus sign and at
  least one decimal digit, checked for overflow digit by digit.
\<close>

fun parse_digits :: "nat \<Rightarrow> nat \<Rightarrow> string \<Rightarrow> nat option" where
  "parse_digits bound acc [] = Some acc"
| "parse_digits bound acc (c # cs) =
     (if is_ascii_digit c \<and> 10 * acc + (byte c - byte CHR ''0'') < bound
      then parse_digits bound (10 * acc + (byte c - byte CHR ''0'')) cs else None)"

definition parse_unsigned :: "nat \<Rightarrow> string \<Rightarrow> nat option" where
  "parse_unsigned bound s =
     (let digits = (case strip_prefix ''+'' s of Some rest \<Rightarrow> rest | None \<Rightarrow> s) in
      if digits = [] then None else parse_digits bound 0 digits)"

section \<open>The configuration\<close>

datatype cors_config = PermissiveCors | RestrictedCors "string list"

definition parse_csv_env :: "string \<Rightarrow> string list" where
  "parse_csv_env value =
     filter_map (\<lambda>entry. let trimmed = trim entry in if trimmed \<noteq> [] then Some trimmed else None)
       (split_on CHR '','' value)"

definition cors_config_from_env :: "environment \<Rightarrow> cors_config" where
  "cors_config_from_env env =
     (case env ''APP_CORS_ALLOW_ORIGINS'' of
        Inr value \<Rightarrow>
          let allowed = parse_csv_env value in
          if ''*'' \<in> set allowed then PermissiveCors else RestrictedCors allowed
      | Inl _ \<Rightarrow> PermissiveCors)"

definition parse_env_bool :: "environment \<Rightarrow> string \<Rightarrow> bool option" where
  "parse_env_bool env key =
     Option.bind (result_ok (env key)) (\<lambda>value.
     let v = to_ascii_lowercase (trim value) in
     if v \<in> {''1'', ''true'', ''yes'', ''on''} then Some True
     else if v \<in> {''0'', ''false'', ''no'', ''off''} then Some False
     else None)"

definition otel_enabled_from_env :: "environment \<Rightarrow> bool" where
  "otel_enabled_from_env env = (case parse_env_bool env ''OTEL_ENABLED'' of Some b \<Rightarrow> b | None \<Rightarrow> True)"

definition DEFAULT_BODY_LIMIT_BYTES :: u64 where
  "DEFAULT_BODY_LIMIT_BYTES = 1048576"

record 'ip app_config =
  app_host :: 'ip
  app_port :: u16
  app_cors :: cors_config
  app_body_limit_bytes :: u64
  app_otel_enabled :: bool
  app_rendermesh_manifest :: string
  app_admin_token :: "string option"

definition app_config_from_env :: "(string \<Rightarrow> 'ip option) \<Rightarrow> 'ip \<Rightarrow> environment \<Rightarrow> 'ip app_config" where
  "app_config_from_env parse_ip localhost env =
     \<lparr>app_host =
        (case Option.bind (result_ok (env ''APP_HOST'')) parse_ip of Some ip \<Rightarrow> ip | None \<Rightarrow> localhost),
      app_port =
        (case Option.bind (result_ok (env ''APP_PORT'')) (parse_unsigned (2 ^ 16)) of
           Some p \<Rightarrow> of_nat p | None \<Rightarrow> 8080),
      app_cors = cors_config_from_env env,
      app_body_limit_bytes =
        (case Option.bind (result_ok (env ''APP_BODY_LIMIT_BYTES'')) (parse_unsigned (2 ^ 64)) of
           Some n \<Rightarrow> if n > 0 then of_nat n else DEFAULT_BODY_LIMIT_BYTES
         | None \<Rightarrow> DEFAULT_BODY_LIMIT_BYTES),
      app_otel_enabled = otel_enabled_from_env env,
      app_rendermesh_manifest =
        (case env ''RENDERMESH_MANIFEST'' of Inr p \<Rightarrow> p | Inl _ \<Rightarrow> ''./rendermesh.yaml''),
      app_admin_token =
        Option.bind (result_ok (env ''RENDERMESH_ADMIN_TOKEN'')) (\<lambda>value.
          let token = trim value in if token \<noteq> [] then Some token else None)\<rparr>"

definition listen_addr :: "'ip app_config \<Rightarrow> 'ip \<times> u16" where
  "listen_addr config = (app_host config, app_port config)"

section \<open>The CORS layer of the system routes\<close>

text \<open>What the layer is built with; methods that are not given are all allowed.\<close>

datatype cors_layer = PermissiveLayer | OriginsLayer "string list" "string list option"

definition build_cors_layer :: "(string \<Rightarrow> bool) \<Rightarrow> cors_config \<Rightarrow> string list option \<Rightarrow> cors_layer" where
  "build_cors_layer header_value cors methods =
     (case cors of
        PermissiveCors \<Rightarrow> PermissiveLayer
      | RestrictedCors allowed \<Rightarrow> OriginsLayer (filter header_value allowed) methods)"

section \<open>Facts\<close>

lemma parse_digits_bound: "parse_digits bound acc s = Some n \<Longrightarrow> acc < bound \<Longrightarrow> n < bound"
  by (induction s arbitrary: acc) (auto split: if_splits)

lemma parse_unsigned_bound: "parse_unsigned bound s = Some n \<Longrightarrow> 0 < bound \<Longrightarrow> n < bound"
  by (auto simp: parse_unsigned_def Let_def split: if_splits option.splits dest: parse_digits_bound)

lemma parse_digits_append:
  "parse_digits bound acc (s @ t) = Option.bind (parse_digits bound acc s) (\<lambda>n. parse_digits bound n t)"
  by (induction s arbitrary: acc) auto

lemma digit_facts:
  assumes "n < 10"
  shows "is_ascii_digit (''0123456789'' ! n) \<and> byte (''0123456789'' ! n) - byte CHR ''0'' = n \<and> ''0123456789'' ! n \<noteq> CHR ''+''"
proof -
  have "n \<in> {0, 1, 2, 3, 4, 5, 6, 7, 8, 9}" using assms by auto
  then show ?thesis by (elim insertE) (simp_all add: is_ascii_digit_def byte_def)
qed

lemma parse_digits_show: "n < bound \<Longrightarrow> parse_digits bound 0 (show_nat n) = Some n"
proof (induction n rule: show_nat.induct)
  case (1 n)
  show ?case
  proof (cases "n < 10")
    case True
    then show ?thesis using 1(2) digit_facts [OF True] by (subst show_nat.simps) simp
  next
    case False
    then have "parse_digits bound 0 (show_nat (n div 10)) = Some (n div 10)" using 1 by simp
    moreover have "10 * (n div 10) + n mod 10 = n" by simp
    ultimately show ?thesis using 1(2) False digit_facts [of "n mod 10"]
      by (subst show_nat.simps) (simp add: parse_digits_append)
  qed
qed

lemma show_nat_no_plus: "strip_prefix ''+'' (show_nat n) = None"
proof -
  have "show_nat n = c # cs \<Longrightarrow> c \<noteq> CHR ''+''" for c cs
  proof (induction n arbitrary: cs rule: show_nat.induct)
    case (1 n)
    show ?case
    proof (cases "n < 10")
      case True
      then show ?thesis using 1(2) digit_facts [OF True] by (subst (asm) show_nat.simps) auto
    next
      case False
      then show ?thesis using 1 by (subst (asm) (2) show_nat.simps) (auto simp: append_eq_Cons_conv)
    qed
  qed
  then show ?thesis by (cases "show_nat n") (auto simp: strip_prefix_None)
qed

lemma parse_unsigned_show: "n < bound \<Longrightarrow> parse_unsigned bound (show_nat n) = Some n"
  by (simp add: parse_unsigned_def show_nat_no_plus parse_digits_show)

lemma admin_token_Some:
  "app_admin_token (app_config_from_env parse_ip localhost env) = Some t \<longleftrightarrow>
   (\<exists>secret. env ''RENDERMESH_ADMIN_TOKEN'' = Inr secret \<and> t = trim secret \<and> t \<noteq> [])"
  by (auto simp: app_config_from_env_def bind_eq_Some_conv Let_def result_ok_Some)

section \<open>Properties\<close>

text \<open>The limit of request bodies is never zero, and a token of white space is none.\<close>

theorem config_is_sound:
  "0 < unat (app_body_limit_bytes (app_config_from_env parse_ip localhost env)) \<and>
   app_admin_token (app_config_from_env parse_ip localhost env) \<noteq> Some []"
proof -
  have "unat (of_nat n :: u64) = n" if "parse_unsigned (2 ^ 64) s = Some n" for s n
    using parse_unsigned_bound [OF that] by (simp add: unsigned_of_nat take_bit_nat_eq_self)
  then have "0 < unat (app_body_limit_bytes (app_config_from_env parse_ip localhost env))"
    by (auto simp: app_config_from_env_def DEFAULT_BODY_LIMIT_BYTES_def bind_eq_Some_conv split: option.splits)
  then show ?thesis by (simp add: admin_token_Some)
qed



end
