(* ===== verification/Routes.thy ===== *)
theory Routes
  imports Startup Server_Config
begin

text \<open>
  The handlers of the HTTP interface: rendering (\<open>src/routes/render.rs\<close>), the status and the manual
  synchronisation of origins (\<open>src/routes/system/origins.rs\<close>), echo and health (\<open>src/routes/system/\<close>,
  \<open>src/services/echo.rs\<close>, \<open>src/services/health.rs\<close>) and the errors of the interface
  (\<open>src/error.rs\<close>). The dispatch to the handlers, the reading of a body up to a limit and the names and
  values of headers are those of axum and of the http package.
\<close>

section \<open>Requests and replies\<close>

text \<open>
  A request as axum hands it over. Reading the body up to a limit (\<open>to_bytes\<close>) yields the body
  or an error.
\<close>

record route_request =
  req_method :: string
  req_path :: string
  req_query :: "string option"
  req_headers :: "(string \<times> string) list"
  req_to_bytes :: "nat \<Rightarrow> string + string"

record http_reply =
  rep_status :: u16
  rep_headers :: headers
  rep_body :: string

definition status_reply :: "u16 \<Rightarrow> http_reply" where
  "status_reply status = \<lparr>rep_status = status, rep_headers = [], rep_body = []\<rparr>"

text \<open>\<open>HeaderName::from_bytes\<close> and \<open>HeaderValue::from_str\<close>.\<close>

record header_env =
  henv_name :: "string \<Rightarrow> string option"
  henv_value :: "string \<Rightarrow> bool"

definition header_text :: "(string \<times> string) list \<Rightarrow> string \<Rightarrow> string option" where
  "header_text hs name = Option.bind (map_of hs name) header_to_str"

section \<open>Rendering\<close>

definition non_blank :: "string \<Rightarrow> string option" where
  "non_blank value = (let trimmed = trim value in if trimmed \<noteq> [] then Some trimmed else None)"

definition client_ip_from_headers :: "(string \<times> string) list \<Rightarrow> string option" where
  "client_ip_from_headers hs =
     (case Option.bind (header_text hs ''x-forwarded-for'') (\<lambda>value. non_blank (hd (split_on CHR '','' value))) of
        Some ip \<Rightarrow> Some ip
      | None \<Rightarrow> Option.bind (header_text hs ''x-real-ip'') non_blank)"

definition add_reply_header :: "header_env \<Rightarrow> headers \<Rightarrow> string \<times> string \<Rightarrow> headers" where
  "add_reply_header henv hs entry =
     (case henv_name henv (fst entry) of
        None \<Rightarrow> hs
      | Some name \<Rightarrow> if henv_value henv (snd entry) then bt_insert name (snd entry) hs else hs)"

definition render_response :: "header_env \<Rightarrow> render_response \<Rightarrow> http_reply" where
  "render_response henv response =
     \<lparr>rep_status = rs_status response, rep_headers = foldl (add_reply_header henv) [] (rs_headers response),
      rep_body = rs_body response\<rparr>"

definition render_request_of :: "route_request \<Rightarrow> string \<Rightarrow> render_request" where
  "render_request_of request body =
     \<lparr>rq_method = req_method request,
      rq_host = (case header_text (req_headers request) ''host'' of Some h \<Rightarrow> h | None \<Rightarrow> []),
      rq_path = req_path request, rq_query = req_query request, rq_scheme = ''https'',
      rq_client_ip = client_ip_from_headers (req_headers request), rq_headers = req_headers request, rq_body = body\<rparr>"

definition read_body :: "u64 \<Rightarrow> route_request \<Rightarrow> string + string" where
  "read_body limit request =
     (if req_method request \<in> {''GET'', ''HEAD'', ''OPTIONS''} then req_to_bytes request (unat limit) else Inr [])"

definition render ::
    "header_env \<Rightarrow> u64 \<Rightarrow> 't gateway_env \<Rightarrow> 't gateway \<Rightarrow> route_request \<Rightarrow> world \<Rightarrow> http_reply \<times> world" where
  "render henv limit env gw request w =
     (case read_body limit request of
        Inl _ \<Rightarrow> (status_reply 413, w)
      | Inr body \<Rightarrow>
          (case handle env gw (render_request_of request body) w of
             (Inr response, w') \<Rightarrow> (render_response henv response, w')
           | (Inl _, w') \<Rightarrow> (status_reply 500, w')))"

section \<open>The origins\<close>

datatype sync_body = SyncError string string | SyncDone origin_sync_response

definition error_response :: "u16 \<Rightarrow> string \<Rightarrow> string \<Rightarrow> u16 \<times> sync_body" where
  "error_response status code message = (status, SyncError code message)"

definition list_origins_reply :: "('t, 'w) refresh_state \<Rightarrow> origin_snapshot list" where
  "list_origins_reply s = list_origins (rf_runtime s)"

text \<open>The snapshot, or the status of the failure.\<close>

definition get_origin_snapshot :: "('t, 'w) refresh_state \<Rightarrow> string \<Rightarrow> u16 + origin_snapshot" where
  "get_origin_snapshot s origin_id = ok_or (get_snapshot (rf_runtime s) origin_id) 404"

definition authorize_manual_sync :: "string option \<Rightarrow> (string \<times> string) list \<Rightarrow> (u16 \<times> sync_body) + unit" where
  "authorize_manual_sync admin_token hs =
     (case admin_token of
        None \<Rightarrow> Inl (error_response 403 ''manual_sync_disabled'' ''manual sync is disabled'')
      | Some expected_token \<Rightarrow>
          (case map_of hs ''authorization'' of
             None \<Rightarrow> Inl (error_response 401 ''missing_authorization'' ''authorization header is required'')
           | Some header \<Rightarrow>
               (case header_to_str header of
                  None \<Rightarrow> Inl (error_response 403 ''invalid_authorization'' ''authorization header is invalid'')
                | Some value \<Rightarrow>
                    (case strip_prefix ''Bearer '' value of
                       None \<Rightarrow> Inl (error_response 403 ''invalid_authorization'' ''authorization header must use bearer token'')
                     | Some token \<Rightarrow>
                         if token \<noteq> expected_token
                         then Inl (error_response 403 ''invalid_token'' ''admin token is invalid'')
                         else Inr ()))))"

text \<open>The service is absent when the state was built without one.\<close>

definition sync_origin_reply ::
    "'t refresh_env \<Rightarrow> string option \<Rightarrow> 'w refresh_service option \<Rightarrow> string \<Rightarrow> (string \<times> string) list \<Rightarrow>
     ('t, 'w) refresh_state \<Rightarrow> (u16 \<times> sync_body) \<times> ('t, 'w) refresh_state" where
  "sync_origin_reply env admin_token service origin_id hs s =
     (case authorize_manual_sync admin_token hs of
        Inl reply \<Rightarrow> (reply, s)
      | Inr _ \<Rightarrow>
          (case service of
             None \<Rightarrow> (error_response 503 ''origin_sync_unavailable'' ''origin refresh service is not available'', s)
           | Some origin_refresh \<Rightarrow>
               (case refresh_origin env origin_refresh origin_id s of
                  (Inr response, s') \<Rightarrow> ((200, SyncDone response), s')
                | (Inl OriginNotFound, s') \<Rightarrow> (error_response 404 ''origin_not_found'' ''origin not found'', s')
                | (Inl AlreadyRunning, s') \<Rightarrow>
                    (error_response 409 ''origin_sync_in_progress'' ''origin sync already running'', s')
                | (Inl (OriginRefreshFailed e), s') \<Rightarrow>
                    (error_response 500 ''origin_sync_failed'' (error_display e), s'))))"

section \<open>Echo and health\<close>

record echo_message =
  echo_headers :: "(string, string list) btree"
  echo_path :: string
  echo_method :: string
  echo_body :: "string option"

definition echo :: "echo_message \<Rightarrow> echo_message" where
  "echo input =
     \<lparr>echo_headers = echo_headers input, echo_path = echo_path input, echo_method = echo_method input,
      echo_body = echo_body input\<rparr>"

text \<open>The values of a name in the order of the request; the codec for values that are no text is base64.\<close>

definition add_echo_header ::
    "(string \<Rightarrow> string) \<Rightarrow> (string, string list) btree \<Rightarrow> string \<times> string \<Rightarrow> (string, string list) btree" where
  "add_echo_header base64 m header =
     (case header of (name, value) \<Rightarrow>
       let values = (case bt_get m name of Some vs \<Rightarrow> vs | None \<Rightarrow> []) in
       bt_insert name (values @ [case header_to_str value of Some s \<Rightarrow> s | None \<Rightarrow> base64 value]) m)"

definition headers_to_map :: "(string \<Rightarrow> string) \<Rightarrow> (string \<times> string) list \<Rightarrow> (string, string list) btree" where
  "headers_to_map base64 hs = foldl (add_echo_header base64) [] hs"

definition build_request_input ::
    "(string \<Rightarrow> string) \<Rightarrow> string \<Rightarrow> string \<Rightarrow> (string \<times> string) list \<Rightarrow> string \<Rightarrow> echo_message" where
  "build_request_input base64 meth path hs body =
     \<lparr>echo_headers = headers_to_map base64 hs, echo_path = path, echo_method = meth,
      echo_body = (if body \<noteq> [] then Some body else None)\<rparr>"

text \<open>The handlers of all methods of \<open>/echo\<close> are alike.\<close>

definition echo_reply :: "(string \<Rightarrow> string) \<Rightarrow> string \<Rightarrow> string \<Rightarrow> (string \<times> string) list \<Rightarrow> string \<Rightarrow> echo_message" where
  "echo_reply base64 meth path hs body = echo (build_request_input base64 meth path hs body)"

record health_status =
  hs_status :: string
  hs_version :: string

definition health_status :: "string \<Rightarrow> health_status" where
  "health_status package_version = \<lparr>hs_status = ''ok'', hs_version = package_version\<rparr>"

section \<open>Errors of the interface\<close>

datatype api_error = BadRequest string | MisdirectedRequest | MethodNotAllowed | BadGateway string | GatewayTimeout string
  | UnsupportedMediaType string | NotFound string | Unexpected anyhow

text \<open>The status and the text of the JSON body.\<close>

fun api_error_response :: "api_error \<Rightarrow> u16 \<times> string" where
  "api_error_response (BadRequest message) = (400, message)"
| "api_error_response MisdirectedRequest = (421, ''unknown host'')"
| "api_error_response MethodNotAllowed = (405, ''method not allowed'')"
| "api_error_response (BadGateway message) = (502, message)"
| "api_error_response (GatewayTimeout message) = (504, message)"
| "api_error_response (UnsupportedMediaType message) = (415, message)"
| "api_error_response (NotFound message) = (404, message)"
| "api_error_response (Unexpected _) = (500, ''unexpected error'')"

section \<open>Facts\<close>

lemma header_to_str_Some: "header_to_str v = Some s \<Longrightarrow> s = v"
  by (simp add: header_to_str_def split: if_splits)

lemma authorize_Inr [result_simps]:
  "authorize_manual_sync admin_token hs = Inr u \<longleftrightarrow>
   (\<exists>t. admin_token = Some t \<and> map_of hs ''authorization'' = Some (''Bearer '' @ t) \<and> header_to_str (''Bearer '' @ t) \<noteq> None)"
proof
  assume "authorize_manual_sync admin_token hs = Inr u"
  then obtain t header v where t: "admin_token = Some t" "map_of hs ''authorization'' = Some header"
      "header_to_str header = Some v" "strip_prefix ''Bearer '' v = Some t"
    unfolding authorize_manual_sync_def by (auto split: option.splits if_splits)
  then have "v = header" "v = ''Bearer '' @ t" using header_to_str_Some by (blast, simp only: strip_prefix_Some)
  with t show "\<exists>t. admin_token = Some t \<and> map_of hs ''authorization'' = Some (''Bearer '' @ t) \<and>
      header_to_str (''Bearer '' @ t) \<noteq> None" by blast
next
  assume "\<exists>t. admin_token = Some t \<and> map_of hs ''authorization'' = Some (''Bearer '' @ t) \<and> header_to_str (''Bearer '' @ t) \<noteq> None"
  then obtain t where t: "admin_token = Some t" "map_of hs ''authorization'' = Some (''Bearer '' @ t)"
      "header_to_str (''Bearer '' @ t) = Some (''Bearer '' @ t)" using header_to_str_Some by fastforce
  have "strip_prefix ''Bearer '' (''Bearer '' @ t) = Some t" by (simp only: strip_prefix_Some)
  then show "authorize_manual_sync admin_token hs = Inr u"
    by (simp only: authorize_manual_sync_def t option.case HOL.simp_thms if_False) simp
qed

lemma authorize_Inl: "authorize_manual_sync admin_token hs = Inl reply \<Longrightarrow> fst reply \<in> {401, 403}"
  by (auto simp: authorize_manual_sync_def error_response_def split: option.splits if_splits)

lemma headers_to_map_get:
  "bt_get (foldl (add_echo_header base64) m hs) name =
   (if name \<in> fst ` set hs \<or> bt_get m name \<noteq> None
    then Some ((case bt_get m name of Some vs \<Rightarrow> vs | None \<Rightarrow> []) @
      map (\<lambda>(_, v). case header_to_str v of Some s \<Rightarrow> s | None \<Rightarrow> base64 v) (filter (\<lambda>h. fst h = name) hs))
    else None)"
proof (induction hs arbitrary: m)
  case Nil
  then show ?case by (simp split: option.split)
next
  case (Cons h hs)
  obtain n v where h: "h = (n, v)" by fastforce
  show ?case unfolding foldl.simps Cons.IH
    by (cases "n = name") (auto simp: h add_echo_header_def Let_def split: option.splits)
qed

lemma get_reply_headers:
  assumes "bt_get (foldl (add_reply_header henv) hs entries) name = Some value"
  shows "bt_get hs name = Some value \<or>
    (\<exists>n. (n, value) \<in> set entries \<and> henv_name henv n = Some name \<and> henv_value henv value)"
  using assms
proof (induction entries arbitrary: hs)
  case Nil
  then show ?case by simp
next
  case (Cons e entries)
  obtain n v where e: "e = (n, v)" by fastforce
  from Cons.IH [of "add_reply_header henv hs e"] Cons.prems show ?case
    by (auto simp: e add_reply_header_def split: option.splits if_splits)
qed

section \<open>Properties\<close>

text \<open>A manual synchronisation does something, or answers with anything but a refusal, only when the environment
holds a token that is not blank and the request has exactly this token as its bearer; then the answer and the
state are those of a refresh of the origin.\<close>

theorem manual_sync_needs_token:
  assumes "sync_origin_reply env (app_admin_token (app_config_from_env parse_ip localhost vars)) (Some service) i hs s = (reply, s')"
    and "s' \<noteq> s \<or> fst reply \<notin> {401, 403}"
  shows "\<exists>secret. vars ''RENDERMESH_ADMIN_TOKEN'' = Inr secret \<and> trim secret \<noteq> [] \<and>
    map_of hs ''authorization'' = Some (''Bearer '' @ trim secret) \<and> s' = snd (refresh_origin env service i s) \<and>
    (fst reply = 200 \<longleftrightarrow> \<not> isl (fst (refresh_origin env service i s)))"
proof -
  let ?token = "app_admin_token (app_config_from_env parse_ip localhost vars)"
  have "\<not> isl (authorize_manual_sync ?token hs)"
  proof
    assume "isl (authorize_manual_sync ?token hs)"
    then obtain refusal where "authorize_manual_sync ?token hs = Inl refusal" by (auto simp: isl_def)
    then show False using assms authorize_Inl [of ?token hs refusal] by (simp add: sync_origin_reply_def)
  qed
  then obtain u where authorized: "authorize_manual_sync ?token hs = Inr u" by (cases "authorize_manual_sync ?token hs") auto
  have "s' = snd (refresh_origin env service i s) \<and> (fst reply = 200 \<longleftrightarrow> \<not> isl (fst (refresh_origin env service i s)))"
    using assms(1) authorized
    by (auto simp: sync_origin_reply_def error_response_def split: prod.splits sum.splits refresh_origin_error.splits)
  then show ?thesis using authorized by (auto simp: result_simps admin_token_Some)
qed

theorem manual_sync_needs_token_witness:
  "fst (fst (sync_origin_reply example_refresh_env (app_admin_token (app_config_from_env (\<lambda>_. None) () (\<lambda>_. Inr ''t''))) (Some example_service) ''v''
     [(''authorization'', ''Bearer t'')] (example_refresh_state (world_on [])))) = 404 \<and>
   map_of [(''authorization'', ''Bearer t'')] ''authorization'' = Some (''Bearer '' @ trim ''t'')"
proof -
  obtain reply s' where run: "sync_origin_reply example_refresh_env (app_admin_token (app_config_from_env (\<lambda>_. None) () (\<lambda>_. Inr ''t'')))
      (Some example_service) ''v'' [(''authorization'', ''Bearer t'')] (example_refresh_state (world_on [])) = (reply, s')" by fastforce
  have trimmed: "trim ''t'' = ''t''" by code_simp
  have "authorize_manual_sync (Some ''t'') [(''authorization'', ''Bearer t'')] = Inr ()" by code_simp
  then have status: "fst (fst (sync_origin_reply example_refresh_env (app_admin_token (app_config_from_env (\<lambda>_. None) () (\<lambda>_. Inr ''t''))) (Some example_service) ''v''
     [(''authorization'', ''Bearer t'')] (example_refresh_state (world_on [])))) = 404"
    by (simp add: sync_origin_reply_def app_config_from_env_def trimmed refresh_origin_def example_service_def error_response_def)
  then have "s' \<noteq> example_refresh_state (world_on []) \<or> fst reply \<notin> {401, 403}" using run by simp
  from manual_sync_needs_token [OF run this] status show ?thesis by auto
qed


definition example_post :: route_request where
  "example_post = \<lparr>req_method = ''POST'', req_path = ''/'', req_query = None, req_headers = [(''host'', ''a.io'')],
     req_to_bytes = (\<lambda>_. Inl ''not read'')\<rparr>"

lemma example_post_reply:
  "render \<lparr>henv_name = Some, henv_value = (\<lambda>_. True)\<rparr> 9 example_env example_gateway example_post (world_on example_files) =
     (status_reply 405, world_on example_files)"
proof -
  have host: "header_text (req_headers example_post) ''host'' = Some ''a.io''" by code_simp
  have "request_header (render_request_of example_post []) ''origin'' = None"
    by (simp add: request_header_def render_request_of_def example_post_def)
  then have "handle example_env example_gateway (render_request_of example_post []) (world_on example_files) =
      (Inr ((empty_response 405)\<lparr>rs_headers := []\<rparr>), world_on example_files)"
    using host by (simp add: handle_def render_request_of_def example_resolve cors_headers_def io_return_def)
      (simp add: example_post_def)
  then show ?thesis
    by (simp add: render_def read_body_def example_post_def [THEN arg_cong [of _ _ req_method], simplified]
        render_response_def empty_response_def status_reply_def)
qed


text \<open>The echo of a request has every value of every header, in the order of the request.\<close>

theorem echo_has_all_headers:
  "bt_get (echo_headers (echo_reply base64 meth path hs body)) name =
   (if name \<in> fst ` set hs
    then Some (map (\<lambda>(_, v). case header_to_str v of Some s \<Rightarrow> s | None \<Rightarrow> base64 v) (filter (\<lambda>h. fst h = name) hs))
    else None)"
  by (simp add: echo_reply_def echo_def build_request_input_def headers_to_map_def headers_to_map_get)

end
