(* ===== verification/End_To_End.thy ===== *)
theory End_To_End
  imports Startup Local_Storage
begin

text \<open>
  From the source of an origin to the answers of the gateway: after a refresh a request for a
  changed object is answered with what was downloaded for it, and when the source is a local
  directory, with the content of the file in that directory. The parts meet here: the
  synchronisation writes the object, the activation moves it to the mirror, the gateway reads
  the mirror through its own paths.
\<close>

section \<open>What a refresh puts into the mirror\<close>

lemma canonical_readable:
  assumes "canonical_key key"
  shows "readable_key key" and "\<not> is_absolute key" and "\<not> wants_dir key"
proof -
  have acc: "accepted_key key" and names: "\<And>g. g \<in> set (split_on CHR ''/'' key) \<Longrightarrow> g \<noteq> [] \<and> g \<noteq> ''.''"
    using assms by (auto simp: canonical_key_def)
  show rel: "\<not> is_absolute key" using acc by (rule accepted_key_relative)
  have split: "split_on CHR ''/'' key = key_names key" using names by (simp add: key_names_def filter_id_conv [THEN iffD2])
  have "hd (key_names key) \<noteq> ''.''" using names [of "hd (key_names key)"] split canonical_names(1) [OF assms] by simp
  then have "path_components key = map Normal (key_names key)"
    using rel acc split key_components_names [of key]
    by (auto simp: path_components_def is_absolute_def key_components_def Let_def accepted_key_def)
  then show "readable_key key"
    using acc canonical_names(1,2) [OF assms]
    by (auto simp: readable_key_def accepted_key_def is_reserved_metadata_key_def split: list.splits)
  have "last (key_names key) \<in> set (split_on CHR ''/'' key)" using canonical_names(1) [OF assms] split by simp
  then show "\<not> wants_dir key" using names split by (simp add: wants_dir_def)
qed

lemma staged_download:
  assumes "stage_origin_sync codec storage root pid nanos now i previous w = (Inr staged, v)"
    and "root \<noteq> []" and "remote_only storage" and "\<And>k. codec_sha256 codec k \<noteq> []" and "fs_ok (world_fs w)"
    and "origin_dir root i = Inr dir"
    and "\<forall>key \<in> set (bt_keys (index_files (staged_index staged))). canonical_key key"
    and "key \<in> set (diff_changed_paths (staged_diff staged))"
  shows "\<exists>object. downloaded_when (same_outside (staged_dir staged) (world_fs w)) storage (staged_index staged) key object \<and>
    fs_lookup (world_fs v) (object_place (staged_dir staged) key) = Some (FileNode (obj_body object))"
proof -
  from assms(1,6) obtain staging w1 where staging: "staging_dir root i pid nanos = Inr staging"
      and prepared: "prepare_staging_dir dir staging w = (Inr (), w1)"
      and filled: "or_remove staging (stage_origin_dir codec storage now i staging previous) w1 =
        (Inr (staged_index staged, staged_diff staged, staged_downloaded staged), v)"
      and dir: "staged_dir staged = staging"
    unfolding stage_origin_sync_def by (auto simp: io_then_Inr io_lift_def io_return_def)
  note s = staging_dir_key [OF assms(2) staging] and d = origin_dir_key [OF assms(2,6)]
  have far: "apart (fs_key dir) (fs_key staging)" using mirror_outside_staging [OF assms(2) staging assms(6)] .
  have same: "same_outside staging (world_fs w) (world_fs w1)"
    using same_outside_step [OF outside_prepare [OF s(1) d(2) far] prepared] by simp
  from filled have run: "stage_origin_dir codec storage now i staging previous w1 =
      (Inr (staged_index staged, staged_diff staged, staged_downloaded staged), v)"
    by (cases rule: or_remove_cases) auto
  have ok: "fs_ok (world_fs w1)" using io_okD [OF ok_prepare_staging prepared assms(5)] .
  show ?thesis
    using stage_origin_dir_Inr(3) [OF run assms(3) s(1) assms(4) ok assms(7) same] assms(8) dir by blast
qed

lemma refreshed_object:
  assumes "refresh_origin_snapshot env root i storage cdn barrier s = (Inr response, s')"
    and "root \<noteq> []" and "remote_only storage" and "\<And>k. codec_sha256 (ren_codec env) k \<noteq> []"
    and "fs_ok (world_fs (rf_world s))" and "origin_dir root i = Inr dir"
    and "bt_get (rf_indexes s') i = Some index" and "\<forall>key \<in> set (bt_keys (index_files index)). canonical_key key"
    and "key \<in> set (diff_changed_paths (diff_origin_indexes (bt_get (rf_indexes s) i) index))"
  shows "\<exists>object staging. staging_dir root i (ren_pid env) (ren_staging_nanos env) = Inr staging \<and>
    downloaded_when (same_outside staging (world_fs (rf_world s))) storage index key object \<and>
    fs_lookup (world_fs (rf_world s')) (object_place dir key) = Some (FileNode (obj_body object))"
  using assms(1)
proof (cases rule: refresh_cases)
  case (activated staged w1 config registry w2 w3 cdn_response)
  note after = refresh_cdn_keeps(1,4) [OF activated(4), unfolded activate_stores_sel]
  note dirs = stage_origin_sync_dir [OF activated(1)]
  have index: "index = staged_index staged" using after(2) assms(7) by simp
  have diff: "staged_diff staged = diff_origin_indexes (bt_get (rf_indexes s) i) index"
    using stage_origin_sync_diff [OF activated(1)] index by simp
  obtain object where object: "downloaded_when (same_outside (staged_dir staged) (world_fs (rf_world s))) storage index key object"
      and content: "fs_lookup (world_fs w1) (object_place (staged_dir staged) key) = Some (FileNode (obj_body object))"
    using staged_download [OF activated(1) assms(2-6), of key] assms(8,9) diff index by auto
  from activated(2) have same: "\<And>k. fs_lookup (world_fs w2) k = fs_lookup (world_fs w1) k"
    by (rule prepare_or_reject_Inr) blast
  have "subtree (world_fs (rf_world s')) (fs_key dir) = subtree (world_fs w1) (fs_key (staged_dir staged))"
    using activation_succeeded [OF activated(1,3) assms(2,6)] same after(1) by (simp add: subtree_def)
  from fun_cong [OF this, of "map Normal (key_names key)"] content
  have "fs_lookup (world_fs (rf_world s')) (object_place dir key) = Some (FileNode (obj_body object))"
    by (simp add: subtree_def object_place_def)
  then show ?thesis using object dirs(1) by blast
qed simp_all

lemma refreshed_index_ok:
  assumes "refresh_origin_snapshot env root i storage cdn barrier s = (Inr response, s')"
    and "bt_get (rf_indexes s') i = Some index"
  shows "bt_ok (index_files index)"
  using assms(1)
proof (cases rule: refresh_cases)
  case (activated staged w1 config registry w2 w3 cdn_response)
  then show ?thesis
    using refresh_cdn_keeps(4) [OF activated(4), unfolded activate_stores_sel] assms(2)
      stage_origin_sync_index [OF activated(1)] by simp
qed simp_all

section \<open>What the gateway reads\<close>

lemma stored_canonical:
  assumes "root \<noteq> []" and "origin_dir root i = Inr dir" and "canonical_key key" and "requested_key key = key"
    and "requested_key path = key" and "fs_lookup fs (object_place dir key) = Some (FileNode body)"
  shows "stored_object sha parse root i path fs =
    try_then (stored_metadata sha parse dir key fs) (\<lambda>m. Inr (Some \<lparr>object_body = body, object_metadata = m\<rparr>))"
proof -
  note key = canonical_readable [OF assms(3)]
  have dir: "dir = join_path root i" "validate_origin_id i = Inr ()" using assms(2) by (simp_all add: origin_dir_Inr)
  have p: "mirror_object_path root i key = Inr (join_path dir key)"
    using mirror_object_path_Inr [OF assms(1), of i key] dir key(1) assms(4) by simp
  have "fs_key (join_path dir key) = object_place dir key"
    using mirror_path_components [OF assms(1) p] origin_dir_key(1) [OF assms(1,2)] assms(4)
    by (simp add: fs_key_def object_place_def)
  moreover have "\<not> wants_dir (join_path dir key)"
    using wants_dir_join [OF origin_dir_key(2) [OF assms(1,2)] key(2)] key(3) by simp
  ultimately have "fs_read fs (join_path dir key) = Inr body" using assms(6) by (simp add: fs_read_Inr)
  then show ?thesis
    using p key(1) assms(5) by (simp add: stored_object_def assms(2) normalize_object_path_Inr [THEN iffD2])
qed

lemma handle_unreadable:
  assumes "calm w" and "gw_root gw \<noteq> []" and get: "rq_method request = ''GET''"
    and host: "resolve (gw_resolver gw) (rq_host request) = Some resolved"
    and conf: "config_store_get (gw_edge_configs gw) (rh_origin_id resolved) = Inr config" "edges config = []"
      "find_redirect config (rq_path request) (rq_query request) = None"
    and target: "target = resolve_request_target config (rq_path request)"
      "mirror_object_path (gw_root gw) (rh_origin_id resolved) target = Inr p" "\<not> is_reserved_rendermesh_path target"
    and content: "fs_lookup (world_fs w) (fs_key p) = Some (FileNode body)"
    and stored: "stored_object (env_sha256 env) (env_parse_metadata env) (gw_root gw) (rh_origin_id resolved) target
       (world_fs w) = Inl e"
  shows "fst (handle env gw request w) = Inl e"
proof -
  let ?i = "rh_origin_id resolved"
  obtain r u where stat: "io_stat p w = (r, u)" by (cases "io_stat p w")
  have r: "r \<noteq> Inr DirNode" "world_fs u = world_fs w" "calm u"
    using readsD(1,2,3) [OF reads_simple(1) stat] assms(1) content by (auto simp: fs_stat_def)
  obtain x v where read: "read_object (env_sha256 env) (env_parse_metadata env) (gw_root gw) ?i target u = (x, v)"
    by (cases "read_object (env_sha256 env) (env_parse_metadata env) (gw_root gw) ?i target u")
  have "x = Inl e" using readsD(3) [OF reads_read_object read r(3)] stored r(2) by simp
  then have "gateway_read env gw ?i target PublicAccess w = (Inl e, v)"
    using target(2,3) stat r(1) read by (simp add: gateway_read_def io_match_def)
  then show ?thesis
    using get conf
    by (simp add: handle_def host Let_def handle_edge_chain_def io_then_return serve_request_def
        target(1) [symmetric] serve_static_path_def serve_static_path_with_options_def
        serve_object_with_options_def io_then_assoc io_then_def)
qed

lemma served_object:
  assumes gw: "gw_root gw = root" "root \<noteq> []" and "calm w" and "rq_method request = ''GET''"
    and "resolve (gw_resolver gw) (rq_host request) = Some resolved" and i: "rh_origin_id resolved = i"
    and "config_store_get (gw_edge_configs gw) i = Inr config" and "edges config = []"
    and "find_redirect config (rq_path request) (rq_query request) = None"
    and key: "requested_key (resolve_request_target config (rq_path request)) = key" "requested_key key = key" "canonical_key key"
    and "\<not> is_reserved_rendermesh_path (resolve_request_target config (rq_path request))"
    and dir: "origin_dir root i = Inr dir"
    and content: "fs_lookup (world_fs w) (object_place dir key) = Some (FileNode body)"
  shows "fst (handle env gw request w) =
    (case stored_metadata (env_sha256 env) (env_parse_metadata env) dir key (world_fs w) of
       Inl e \<Rightarrow> Inl e
     | Inr metadata \<Rightarrow> Inr \<lparr>rs_status = 200,
         rs_headers = apply_headers (headers_from_metadata metadata) (combined_response_headers [] (cors_headers env gw i request)),
         rs_body = body\<rparr>)"
proof -
  let ?target = "resolve_request_target config (rq_path request)"
  note stored = stored_canonical [OF gw(2) dir key(3,2) key(1) content, of "env_sha256 env" "env_parse_metadata env"]
  have config: "config_store_get (gw_edge_configs gw) (rh_origin_id resolved) = Inr config" "gw_root gw \<noteq> []"
    using assms(7) i gw by simp_all
  show ?thesis
  proof (cases "stored_metadata (env_sha256 env) (env_parse_metadata env) dir key (world_fs w)")
    case (Inr m)
    then have "stored_object (env_sha256 env) (env_parse_metadata env) (gw_root gw) (rh_origin_id resolved) ?target (world_fs w) =
        Inr (Some \<lparr>object_body = body, object_metadata = m\<rparr>)"
      using stored gw(1) i by simp
    from handle_stored [OF assms(3) config(2) assms(4,5) config(1) assms(8,9) refl _ assms(13) this] key
    show ?thesis by (simp add: Inr i)
  next
    case (Inl e)
    then have bad: "stored_object (env_sha256 env) (env_parse_metadata env) (gw_root gw) (rh_origin_id resolved) ?target (world_fs w) = Inl e"
      using stored gw(1) i by simp
    have path: "mirror_object_path (gw_root gw) (rh_origin_id resolved) ?target = Inr (join_path dir key)"
      using mirror_object_path_Inr [OF gw(2), of i ?target] dir canonical_readable(1) [OF key(3)] gw(1) i key(1)
      by (simp add: origin_dir_Inr)
    have "mirror_object_path root i key = Inr (join_path dir key)"
      using path gw(1) i mirror_object_path_Inr [OF gw(2)] key(1,2) by simp
    then have "fs_key (join_path dir key) = object_place dir key"
      using mirror_path_components [OF gw(2)] origin_dir_key(1) [OF gw(2) dir] key(2) by (simp add: fs_key_def object_place_def)
    then show ?thesis
      using handle_unreadable [OF assms(3) config(2) assms(4,5) config(1) assms(8,9) refl path assms(13) _ bad] content Inl by simp
  qed
qed

text \<open>What is downloaded from a local directory is the file there.\<close>

lemma downloaded_local_file:
  assumes "downloaded_when (same_outside staging fs0) (local_remote_storage lenv st) index key object" and "canonical_key key"
    and "ls_root st \<noteq> []" and "staging_dir root i pid nanos = Inr staging" and "root \<noteq> []"
    and "apart (fs_key (ls_root st)) (fs_key root)"
    and plain: "\<And>fs p q. path_starts_with p (ls_root st) \<Longrightarrow> le_canonicalize lenv fs p = Inr q \<Longrightarrow> path_components q = path_components p"
  shows "fs_lookup fs0 (object_place (ls_root st) key) = Some (FileNode (obj_body object))"
proof -
  from assms(1) obtain u v where same: "same_outside staging fs0 (world_fs u)"
      and run: "local_get_object lenv st key u = (Inr object, v)"
    by (auto simp: downloaded_when_def local_remote_storage_def)
  from readsD(4) [OF reads_local_get run] obtain p body where acc: "accepted_key key"
      and p: "le_canonicalize lenv (world_fs u) (join_path (ls_root st) key) = Inr p" "fs_read (world_fs u) p = Inr body"
      and obj: "obj_body object = body"
    unfolding local_object_Inr by auto
  have join: "path_components (join_path (ls_root st) key) = path_components (ls_root st) @ map Normal (key_names key)"
    using acc assms(3) by (simp add: path_components_join accepted_key_relative key_components_names accepted_key_def)
  have "path_components p = path_components (join_path (ls_root st) key)"
    using plain [OF _ p(1)] join by (simp add: path_starts_with_def)
  then have "fs_key p = object_place (ls_root st) key" using join by (simp add: fs_key_def object_place_def)
  then have "fs_lookup (world_fs u) (object_place (ls_root st) key) = Some (FileNode body)"
    using p(2) by (simp add: fs_read_Inr)
  moreover have "object_place (ls_root st) key \<in> outside staging"
    using apart_below [OF assms(6), of "object_place (ls_root st) key" "fs_key staging"] staging_dir_key(2) [OF assms(5,4)]
    by (simp add: object_place_def outside_def)
  ultimately show ?thesis using same obj by (simp add: same_outside_def)
qed

section \<open>Properties\<close>

text \<open>After a successful refresh, whatever the remote is, a request for a key that the refresh found new or
changed is answered with the body that was downloaded and validated for it, and with the metadata of
its sidecar; only an unreadable sidecar makes it an internal error.\<close>

theorem refreshed_object_is_served:
  assumes "refresh_origin_snapshot renv (rr_root rt) i storage cdn barrier s = (Inr response, s')"
    and "rr_root rt \<noteq> []" and "remote_only storage" and "\<And>k. codec_sha256 (ren_codec renv) k \<noteq> []"
    and "fs_ok (world_fs (rf_world s))" and "origin_dir (rr_root rt) i = Inr dir"
    and "bt_get (rf_indexes s') i = Some index" and "\<forall>key \<in> set (bt_keys (index_files index)). canonical_key key"
    and "key \<in> set (diff_changed_paths (diff_origin_indexes (bt_get (rf_indexes s) i) index))"
    and "requested_key key = key" and "gw = runtime_gateway rt s'" and "calm w" and "world_fs w = world_fs (rf_world s')"
    and "rq_method request = ''GET''"
    and "resolve (rr_resolver rt) (rq_host request) = Some resolved" and "rh_origin_id resolved = i"
    and "config_store_get (rf_configs s') i = Inr config" and "edges config = []"
    and "find_redirect config (rq_path request) (rq_query request) = None"
    and "requested_key (resolve_request_target config (rq_path request)) = key"
    and "\<not> is_reserved_rendermesh_path (resolve_request_target config (rq_path request))"
  shows "\<exists>object. downloaded_as storage index key object \<and>
    fst (handle env gw request w) =
      (case stored_metadata (env_sha256 env) (env_parse_metadata env) dir key (world_fs w) of
         Inl e \<Rightarrow> Inl e
       | Inr metadata \<Rightarrow> Inr \<lparr>rs_status = 200,
           rs_headers = apply_headers (headers_from_metadata metadata) (combined_response_headers [] (cors_headers env gw i request)),
           rs_body = obj_body object\<rparr>)"
proof -
  obtain object staging where object: "downloaded_when (same_outside staging (world_fs (rf_world s))) storage index key object"
      and content: "fs_lookup (world_fs w) (object_place dir key) = Some (FileNode (obj_body object))"
    using refreshed_object [OF assms(1-9)] assms(13) by auto
  have "bt_ok (index_files index)" using refreshed_index_ok [OF assms(1,7)] .
  then have "canonical_key key" using diff_changed_listed assms(8,9) by blast
  then show ?thesis
    using served_object [where gw = gw and root = "rr_root rt", OF _ assms(2,12,14) _ assms(16) _ assms(18,19,20,10) _ assms(21,6) content]
      assms(11,15,17) downloaded_whenD [OF object]
    by (auto simp: runtime_gateway_def)
qed


section \<open>Examples\<close>

definition example_local_refresh :: "origin_sync_response res \<times> (string, nat) refresh_state" where
  "example_local_refresh = refresh_origin_snapshot example_refresh_env ''m'' ''w'' (local_remote_storage plain_env example_local_storage)
     None None (example_refresh_state (world_on example_dir))"

definition example_runtime :: "nat render_runtime" where
  "example_runtime = \<lparr>rr_resolver = \<lparr>hr_exact = [(''a.io'', ''w'')], hr_wildcards = [], hr_fallback = None\<rparr>, rr_cors = [],
     rr_root = ''m'', rr_buckets = [], rr_edge_contexts = [], rr_service = example_service, rr_tasks = []\<rparr>"

definition example_site_env :: "string gateway_env" where
  "example_site_env = \<lparr>env_sha256 = (\<lambda>_. ''h''), env_parse_metadata = (\<lambda>_. Inr default_metadata), env_render = (\<lambda>_ _ _. Inr []),
     env_parse_url = (\<lambda>_. Inl []), env_parse_query = (\<lambda>_. []), env_edge_call = (\<lambda>_ _ _ _. Inl (ReqwestError True []))\<rparr>"

lemma example_local_refresh_succeeds:
  "case example_local_refresh of
     (Inr response, s') \<Rightarrow> map_option (\<lambda>index. bt_keys (index_files index)) (bt_get (rf_indexes s') ''w'') = Some [''a''] \<and>
       config_store_get (rf_configs s') ''w'' = Inr default_edge_config \<and>
       stored_metadata (\<lambda>_. ''h'') (\<lambda>_. Inr default_metadata) ''m/w'' ''a'' (world_fs (rf_world s')) = Inr default_metadata
   | (Inl _, _) \<Rightarrow> False"
  by code_simp

lemma example_runtime_host:
  "resolve (rr_resolver example_runtime) ''a.io'' = Some \<lparr>normalized_host = ''a.io'', matched_host = ''a.io'', rh_origin_id = ''w''\<rparr>"
  by (simp add: resolve_def example_runtime_def normalize_host_def str_eval Let_def is_valid_host_def is_valid_host_label_def)

lemma example_page:
  "find_redirect default_edge_config ''/a'' None = None" "resolve_request_target default_edge_config ''/a'' = ''/a''"
  "requested_key ''/a'' = ''a''" "requested_key ''a'' = ''a''" "\<not> is_reserved_rendermesh_path ''/a''" "canonical_key ''a''"
  by code_simp+

lemma example_start_facts:
  "rf_world (example_refresh_state w) = w" "bt_get (rf_indexes (example_refresh_state w)) i = None"
  "codec_sha256 (ren_codec example_refresh_env) k \<noteq> []" "rr_root example_runtime = ''m''" "origin_dir ''m'' ''w'' = Inr ''m/w''"
  "fs_key ''m'' = [Normal ''m'']" "apart [Normal ''d''] [Normal ''m'']"
  "set (diff_changed_paths (diff_origin_indexes None index)) = set (bt_keys (index_files index))"
  by (simp_all add: example_refresh_state_def example_refresh_env_def example_codec_def example_runtime_def apart_def example_dirs
      fs_key_def path_components_def component_of_def diff_origin_indexes_def diff_changed_paths_def empty_diff_def del: set_map)

lemma plain_resolves: "le_canonicalize plain_env fs p = Inr q \<Longrightarrow> path_components q = path_components p"
  by (auto simp: plain_env_def result_simps)

lemma example_site:
  "fs_lookup example_dir (object_place (ls_root example_local_storage) ''a'') = Some (FileNode ''x'')"
  "env_sha256 example_site_env = (\<lambda>_. ''h'')" "env_parse_metadata example_site_env = (\<lambda>_. Inr default_metadata)"
  "rq_method (example_request h p) = ''GET''" "rq_host (example_request h p) = h" "rq_path (example_request h p) = p"
  "rq_query (example_request h p) = None"
  by code_simp (simp_all add: example_site_env_def example_request_def)

lemmas example_served = example_start_facts example_dir_facts example_runtime_host example_page example_no_hooks example_site

lemma example_local_run:
  obtains response s' index where
    "refresh_origin_snapshot example_refresh_env ''m'' ''w'' (local_remote_storage plain_env example_local_storage) None None
       (example_refresh_state (world_on example_dir)) = (Inr response, s')"
    and "bt_get (rf_indexes s') ''w'' = Some index" and "bt_keys (index_files index) = [''a'']"
    and "config_store_get (rf_configs s') ''w'' = Inr default_edge_config"
    and "stored_metadata (\<lambda>_. ''h'') (\<lambda>_. Inr default_metadata) ''m/w'' ''a'' (world_fs (rf_world s')) = Inr default_metadata"
  using example_local_refresh_succeeds by (auto simp: example_local_refresh_def split: prod.splits sum.splits)

theorem refreshed_object_is_served_witness:
  "\<exists>response s' r. example_local_refresh = (Inr response, s') \<and>
     fst (handle example_site_env (runtime_gateway example_runtime s') (example_request ''a.io'' ''/a'') (world_on (world_fs (rf_world s')))) =
       Inr r \<and> rs_status r = 200"
proof (rule example_local_run)
  fix response s' index
  assume run: "refresh_origin_snapshot example_refresh_env ''m'' ''w'' (local_remote_storage plain_env example_local_storage) None None
       (example_refresh_state (world_on example_dir)) = (Inr response, s')"
    and rest: "bt_get (rf_indexes s') ''w'' = Some index" "bt_keys (index_files index) = [''a'']"
      "config_store_get (rf_configs s') ''w'' = Inr default_edge_config"
      "stored_metadata (\<lambda>_. ''h'') (\<lambda>_. Inr default_metadata) ''m/w'' ''a'' (world_fs (rf_world s')) = Inr default_metadata"
  then show ?thesis
    using refreshed_object_is_served [where renv = example_refresh_env and rt = example_runtime and i = "''w''"
        and storage = "local_remote_storage plain_env example_local_storage" and s = "example_refresh_state (world_on example_dir)"
        and s' = s' and response = response
        and cdn = None and barrier = None and dir = "''m/w''" and index = index and key = "''a''" and config = default_edge_config
        and w = "world_on (world_fs (rf_world s'))" and request = "example_request ''a.io'' ''/a''" and env = example_site_env
        and gw = "runtime_gateway example_runtime s'"]
    by (auto simp: example_served local_storage_remote_only example_local_refresh_def)
qed


end
