(* ===== verification/Calm_Runs.thy ===== *)
theory Calm_Runs
  imports Refresh_Facts
begin

text \<open>
  Runs without faults of the local file system: no computation of the synchronisation brings
  faults about, and a swap of the mirror that fails leaves the old mirror, which it need not do
  when a restore or the removal of the backup fails as well.
\<close>

section \<open>Worlds without faults stay so\<close>

lemma calm_op: "preserves calm (io_op act partial)"
  by (auto simp: preserves_def io_op_def calm_def split: option.split prod.split)

lemma calm_io [preserves_intros]:
  "preserves calm (io_stat p)" "preserves calm (io_read p)" "preserves calm (io_read_dir p)"
  "preserves calm io_next_entry" "preserves calm io_file_type" "preserves calm (io_write p content)"
  "preserves calm (io_create_dir_all p)" "preserves calm (io_remove_file p)" "preserves calm (io_remove_dir_all p)"
  "preserves calm (io_rename p q)"
  unfolding io_stat_def io_read_def io_read_dir_def io_next_entry_def io_file_type_def io_write_def io_create_dir_all_def
    io_remove_file_def io_remove_dir_all_def io_rename_def
  by (rule calm_op)+

lemma calm_copy [preserves_intros]: "preserves calm (io_copy p q)"
  unfolding io_copy_def by (intro preserves_intros)

lemma calm_reads: "reads m f \<Longrightarrow> preserves calm m"
  unfolding preserves_def using readsD(2) by (metis prod.collapse)

lemma calm_remove_dir [preserves_intros]: "preserves calm (remove_dir_if_exists p)"
  unfolding remove_dir_if_exists_def by (auto intro!: preserves_intros split: sum.split io_error.split)

lemma calm_parent [preserves_intros]:
  "preserves calm (case q of Some parent \<Rightarrow> io_map_err (c parent) (io_create_dir_all parent) | None \<Rightarrow> io_return ())"
  by (auto intro!: preserves_intros split: option.split)

lemma calm_copy_entries [preserves_intros]: "preserves calm (copy_entries s t entries pushed)"
proof (induction s t entries pushed rule: copy_entries.induct)
  case (2 s t name node entries pushed)
  then show ?case by (cases node) (auto simp: Let_def intro!: preserves_intros)
qed (auto intro!: preserves_intros)

lemma calm_prepare_staging [preserves_intros]: "preserves calm (prepare_staging_dir dir staging)"
  unfolding prepare_staging_dir_def copy_dir_contents_def copy_dir_def
  by (auto intro!: preserves_intros preserves_walk_dirs split: sum.split prod.split)

lemma calm_write_object [preserves_intros]: "preserves calm (write_object codec dir object)"
  unfolding write_object_def Let_def by (intro preserves_intros)

lemma calm_download:
  "(\<And>key. preserves calm (get_object storage key)) \<Longrightarrow> preserves calm (download_changed codec storage dir index keys n)"
  by (induction keys arbitrary: n) (auto intro!: preserves_intros)

lemma calm_removal_entries [preserves_intros]: "preserves calm (removal_entries codec keys base dir entries pushed)"
proof (induction codec keys base dir entries pushed rule: removal_entries.induct)
  case (2 codec keys base dir name node entries pushed)
  then show ?case by (cases node) (auto simp: Let_def intro!: preserves_intros split: sum.split io_error.split)
qed (auto intro!: preserves_intros)

lemma calm_remove_deleted [preserves_intros]: "preserves calm (remove_deleted_objects codec dir keys)"
  unfolding remove_deleted_objects_def removal_dir_def
  by (auto intro!: preserves_intros preserves_walk_dirs split: sum.split io_error.split)

lemma calm_orphan_entries [preserves_intros]: "preserves calm (orphan_entries expected dir entries pushed)"
proof (induction expected dir entries pushed rule: orphan_entries.induct)
  case (2 expected dir name node entries pushed)
  then show ?case by (cases node) (auto simp: Let_def intro!: preserves_intros)
qed (auto intro!: preserves_intros)

lemma calm_remove_orphans [preserves_intros]: "preserves calm (remove_orphan_metadata_sidecars codec dir keys)"
  unfolding remove_orphan_metadata_sidecars_def orphan_dir_def
  by (auto intro!: preserves_intros preserves_walk_dirs split: sum.split io_error.split)

lemma calm_or_remove [preserves_intros]: "preserves calm m \<Longrightarrow> preserves calm (or_remove staging m)"
  unfolding or_remove_def by (auto intro!: preserves_intros split: sum.split)

text \<open>A storage that changes no local file and no schedule of faults, and lists plain keys.\<close>

definition plain_storage :: "remote_storage \<Rightarrow> bool" where
  "plain_storage storage \<longleftrightarrow> remote_only storage \<and> preserves calm (list_objects storage) \<and>
     (\<forall>key. preserves calm (get_object storage key)) \<and>
     (\<forall>w summaries v. list_objects storage w = (Inr summaries, v) \<longrightarrow> (\<forall>s \<in> set summaries. canonical_key (sum_key s)))"

lemma calm_stage_origin_sync:
  assumes "plain_storage storage"
  shows "preserves calm (stage_origin_sync codec storage root pid nanos now i previous)"
  using assms unfolding plain_storage_def stage_origin_sync_def stage_origin_dir_def Let_def
  by (auto intro!: preserves_intros calm_download split: prod.split)

lemma calm_prepare_or_reject: "preserves calm (prepare_or_reject env templates previous barrier i staged)"
  using preserves_prepare_refresh [OF calm_reads calm_reads]
  unfolding prepare_or_reject_def reject_staged_def discard_staged_origin_def
  by (auto intro!: preserves_intros split: sum.split)

lemma calm_activate: "preserves calm (activate_staged_origin root nanos staged)"
  unfolding activate_staged_origin_def swap_origin_dir_def Let_def
  by (auto intro!: preserves_intros split: sum.split)

section \<open>Activating without faults\<close>

lemma calm_rename:
  "calm w \<Longrightarrow> io_rename p q w =
     (fst (fs_rename p q (world_fs w)), w\<lparr>world_fs := snd (fs_rename p q (world_fs w)), world_step := Suc (world_step w)\<rparr>)"
  by (simp add: io_rename_def io_op_calm)

text \<open>A backup that is there can be moved back, or removed.\<close>

lemma calm_restore:
  assumes "calm w" and "fs_ok (world_fs w)" and "is_dir (world_fs w) (fs_key backup)"
    and "fs_lookup (world_fs w) (fs_key dir) = None" and "butlast (fs_key dir) = butlast (fs_key backup)"
    and "apart (fs_key dir) (fs_key backup)" and "fs_key dir \<noteq> []" "fs_key dir \<noteq> [RootDir]" "fs_key backup \<noteq> []" "fs_key backup \<noteq> [RootDir]"
  obtains v where "io_rename backup dir w = (Inr (), v)" and "subtree (world_fs v) (fs_key dir) = subtree (world_fs w) (fs_key backup)"
proof -
  have "is_dir (world_fs w) (butlast (fs_key dir))"
    using fs_ok_parent [OF assms(2)] assms(3,5) by (auto simp: is_dir_def)
  moreover have "fs_stat (world_fs w) backup = Inr DirNode" using assms(3) by (simp add: fs_stat_def is_dir_def)
  ultimately have "fs_rename backup dir (world_fs w) = (Inr (), move_tree (fs_key backup) (fs_key dir) (world_fs w))"
    using assms(4,6-10) by (auto simp: fs_rename_def Let_def apart_def)
  then show thesis
    using that calm_rename [OF assms(1), of backup dir] subtree_move(1) [OF apart_sym [OF assms(6)]] assms(7-10) by simp
qed

lemma calm_remove_backup:
  assumes "calm w" and "is_dir (world_fs w) (fs_key p)"
  shows "\<exists>v. remove_dir_if_exists p w = (Inr (), v)"
  using assms by (simp add: remove_dir_if_exists_def io_match_def io_remove_dir_all_def io_op_calm fs_remove_dir_all_def
      fs_stat_def is_dir_def io_return_def)

text \<open>Without faults a swap that fails leaves the old mirror.\<close>

lemma calm_swap:
  assumes run: "swap_origin_dir dir staging nanos w = (Inl e, v)" and calm: "calm w" and ok: "fs_ok (world_fs w)"
    and there: "is_dir (world_fs w) (fs_key dir)"
    and places: "places_ok (fs_key dir) (fs_key staging) (fs_key (backup_dir dir nanos))"
    and beside: "butlast (fs_key dir) = butlast (fs_key (backup_dir dir nanos))"
    and parent: "\<And>q. path_parent dir = Some q \<Longrightarrow> \<not> prefix (fs_key dir) (fs_key q)"
  shows "subtree (world_fs v) (fs_key dir) = subtree (world_fs w) (fs_key dir)"
proof -
  let ?d = "fs_key dir" and ?b = "fs_key (backup_dir dir nanos)" and ?backup = "backup_dir dir nanos"
  define parents where "parents = (case path_parent dir of
          Some parent \<Rightarrow> io_context (''create mirror root '' @ parent) (io_create_dir_all parent)
        | None \<Rightarrow> io_return ())"
  define activate where "activate = (\<lambda>had_origin. io_match (io_rename staging dir) (\<lambda>moved.
       case moved of
         Inl e \<Rightarrow>
           io_then
             (if had_origin then io_context (''restore old mirror '' @ dir) (io_rename ?backup dir)
              else io_return ()) (\<lambda>_.
           io_fail (ErrorContext (''activate mirror '' @ dir) (io_anyhow e)))
       | Inr _ \<Rightarrow> remove_dir_if_exists ?backup))"
  have swap: "swap_origin_dir dir staging nanos = io_then parents (\<lambda>_.
      io_match (io_stat dir) (\<lambda>found.
      io_then
        (if \<not> isl found then io_context (''move old mirror to '' @ ?backup)
             (io_rename dir ?backup) else io_return ()) (\<lambda>_.
      activate (\<not> isl found))))"
    unfolding swap_origin_dir_def parents_def activate_def Let_def ..
  have far: "apart ?d ?b" "apart ?b ?d" "?d \<noteq> ?b" "apart (fs_key staging) ?d" "apart ?b (fs_key staging)" "fs_key staging \<noteq> ?d"
      and roots: "?d \<noteq> []" "?d \<noteq> [RootDir]" "?b \<noteq> []" "?b \<noteq> [RootDir]" "fs_key staging \<noteq> []" "fs_key staging \<noteq> [RootDir]"
    using places by (auto simp: places_ok_def apart_def)
  have keep: "subtree (world_fs u) ?d = subtree (world_fs w) ?d" "calm u" "fs_ok (world_fs u)"
    if "parents w = (x, u)" for x u
  proof -
    have "keeps {k. \<forall>q. path_parent dir = Some q \<longrightarrow> \<not> prefix k (fs_key q)} parents"
      unfolding parents_def by (auto intro!: keeps_intros split: option.split)
    moreover have "?d @ x \<in> {k. \<forall>q. path_parent dir = Some q \<longrightarrow> \<not> prefix k (fs_key q)}" for x
      using parent by (auto dest: append_prefixD)
    ultimately show "subtree (world_fs u) ?d = subtree (world_fs w) ?d"
      using subtree_keeps that by blast
    have "preserves calm parents" unfolding parents_def by (rule calm_parent)
    then show "calm u" by (rule preservesD [where I = calm and m = parents, OF _ that calm])
    have "io_ok parents" unfolding parents_def by (rule ok_parent)
    then show "fs_ok (world_fs u)" by (rule io_okD [where m = parents, OF _ that ok])
  qed
  from run [unfolded swap] show ?thesis
  proof (cases rule: io_then_cases)
    case (fails e)
    then show ?thesis using keep by simp
  next
    case (goes_on x u)
    note at = keep [OF goes_on(1)]
    have dir_u: "is_dir (world_fs u) ?d" using fun_cong [OF at(1), of "[]"] there by (simp add: subtree_def is_dir_def)
    from goes_on(2) obtain found u1 where stat: "io_stat dir u = (found, u1)" and go: "io_then
        (if \<not> isl found then io_context (''move old mirror to '' @ ?backup)
             (io_rename dir ?backup) else io_return ()) (\<lambda>_.
      activate (\<not> isl found)) u1 = (Inl e, v)"
      by (rule io_match_cases)
    have u1: "world_fs u1 = world_fs u" "calm u1" "found = Inr DirNode"
      using readsD(1-3) [OF reads_simple(1) stat] at(2) dir_u by (simp_all add: fs_stat_def is_dir_def)
    from go u1(3) have "io_then (io_context (''move old mirror to '' @ ?backup) (io_rename dir ?backup)) (\<lambda>_. activate True) u1 = (Inl e, v)"
      by simp
    then show ?thesis
    proof (cases rule: io_then_cases)
      case (fails e')
      obtain t x where t: "io_rename dir ?backup u1 = (t, x)" by fastforce
      then obtain e'' where e: "t = Inl e''" "x = v" using fails(1) by (cases t) (auto simp: io_map_err_def)
      from t far(3) e have "world_fs v = world_fs u1" by (cases rule: io_rename_cases) auto
      then show ?thesis using u1 at by simp
    next
      case (goes_on y u2)
      then have first: "io_rename dir ?backup u1 = (Inr y, u2)" by (simp add: io_map_err_Inr)
      then have moved: "world_fs u2 = move_tree ?d ?b (world_fs u1)" using far(3) by (cases rule: io_rename_cases) auto
      have u2: "calm u2" "fs_ok (world_fs u2)"
        using preservesD [OF calm_io(10) first u1(2)] io_okD [OF io_ok_rename first] u1 at(3) by simp_all
      have trees: "subtree (world_fs u2) ?b = subtree (world_fs w) ?d" "subtree (world_fs u2) ?d = (\<lambda>_. None)"
        unfolding moved u1(1) subtree_move(1,2) [OF far(1) roots(1-4)] by (simp_all only: at(1))
      have backup: "is_dir (world_fs u2) ?b" "fs_lookup (world_fs u2) ?d = None"
        using fun_cong [OF trees(1), of "[]"] fun_cong [OF trees(2), of "[]"] there by (simp_all add: subtree_def is_dir_def)
      obtain s u3 where second: "io_rename staging dir u2 = (s, u3)" by fastforce
      have u3: "calm u3" "fs_ok (world_fs u3)"
        using preservesD [OF calm_io(10) second u2(1)] io_okD [OF io_ok_rename second] u2(2) by simp_all
      from second far(6) show ?thesis
      proof (cases rule: io_rename_cases)
        case moved
        then have "subtree (world_fs u3) ?b = subtree (world_fs u2) ?b"
          using subtree_move(3) [of "fs_key staging" ?d ?b] far roots by simp
        from fun_cong [OF this, of "[]"] have "is_dir (world_fs u3) ?b" using backup(1) by (simp add: subtree_def is_dir_def)
        from calm_remove_backup [OF u3(1) this] show ?thesis
          using goes_on(2) second moved by (auto simp: activate_def io_match_def)
      next
        case (failed e')
        obtain t where "io_rename ?backup dir u3 = (Inr (), t)" "subtree (world_fs t) ?d = subtree (world_fs u3) ?b"
          using calm_restore [OF u3, of ?backup dir] backup failed(2) beside far roots by auto
        then show ?thesis
          using goes_on(2) second failed trees by (auto simp: activate_def io_match_def io_then_def io_map_err_def io_fail_def)
      qed
    qed
  qed
qed

end
