(* ===== verification/Mirror_History.thy ===== *)
theory Mirror_History
  imports End_To_End Calm_Runs
begin

text \<open>
  What holds at every point in the life of a service, after any number of refreshes that
  succeeded or failed: the mirrors are what the freshness indexes say. The relation
  \<open>service_history\<close> is the life of the service, \<open>mirrors_match\<close> the invariant. The remotes and
  CDNs may fail at will; the local file system is taken to work while a refresh runs, since
  the program falls short of the invariant otherwise (\<open>failed_look_loses_unchanged_files\<close> and
  \<open>activation_error_with_new_mirror\<close> in \<open>Sync_Facts\<close>).
\<close>

section \<open>A tree that is what an index says\<close>

text \<open>
  Every key of the index has a file, with the body of an object that the storage returned and
  that agrees with the index, and outside the metadata directory there are no other files.
\<close>

definition tree_matches ::
    "remote_storage \<Rightarrow> origin_freshness_index \<Rightarrow> (fs_key \<Rightarrow> fs_node option) \<Rightarrow> bool" where
  "tree_matches storage index tree \<longleftrightarrow>
     bt_ok (index_files index) \<and> tree [] = Some DirNode \<and>
     (\<forall>key \<in> set (bt_keys (index_files index)). canonical_key key \<and>
        (\<exists>object. downloaded_as storage index key object \<and>
           tree (map Normal (key_names key)) = Some (FileNode (obj_body object)))) \<and>
     (\<forall>names body. tree (map Normal names) = Some (FileNode body) \<longrightarrow>
        names \<noteq> [] \<and> (hd names = METADATA_DIR_NAME \<or> join_with ''/'' names \<in> set (bt_keys (index_files index))))"

text \<open>An object that agrees with a state agrees with every state that has the same source.\<close>

lemma downloaded_same_source:
  assumes "downloaded_as storage old key object" and "bt_get (index_files old) key = Some s"
    and "bt_get (index_files new) key = Some t" and "same_source_state s t"
  shows "downloaded_as storage new key object"
  using assms by (auto simp: downloaded_as_def downloaded_when_def validate_downloaded_object_def same_source_state_def)

lemma unchanged_key:
  assumes "bt_ok (index_files new)" and "key \<in> set (bt_keys (index_files new))"
    and "key \<notin> set (diff_changed_paths (diff_origin_indexes previous new))"
  obtains old s t where "previous = Some old" and "bt_get (index_files old) key = Some s"
    and "bt_get (index_files new) key = Some t" and "same_source_state s t"
proof -
  obtain t where t: "bt_get (index_files new) key = Some t" using assms(2) by (cases "bt_get (index_files new) key") (auto simp: map_of_eq_None_iff)
  show thesis
    using that assms(3) t diff_sets(1,3) [OF assms(1), of key previous]
    by (auto simp: diff_changed_paths_def indexed_def split: option.splits)
qed

lemma listed_canonical:
  assumes "stage_origin_dir codec storage now i dir previous w = (Inr (index, d, m), v)" and "plain_storage storage"
    and "key \<in> set (bt_keys (index_files index))"
  shows "canonical_key key"
proof -
  from assms(1) obtain summaries w1 w2 where listed: "list_objects storage w1 = (Inr summaries, w2)"
      and built: "build_origin_index i summaries now = Inr index"
    unfolding stage_origin_dir_def Let_def
    by (auto simp: io_then_Inr io_lift_def io_map_err_Inr io_return_def)
  have "bt_get (index_files index) key \<noteq> None" using assms(3) by (simp add: map_of_eq_None_iff)
  then have "key \<in> sum_key ` set summaries"
    unfolding build_origin_index_Inr(3) [OF built] by (auto simp: map_of_eq_None_iff)
  then show ?thesis using assms(2) listed unfolding plain_storage_def by blast
qed

lemma staged_tree:
  assumes "stage_origin_sync codec storage root pid nanos now i previous w = (Inr staged, v)"
    and "root \<noteq> []" and "plain_storage storage" and "\<And>k. codec_sha256 codec k \<noteq> []"
    and "fs_ok (world_fs w)" and "calm w" and "origin_dir root i = Inr dir"
    and old: "\<And>index. previous = Some index \<Longrightarrow> tree_matches storage index (subtree (world_fs w) (fs_key dir))"
  shows "tree_matches storage (staged_index staged) (subtree (world_fs v) (fs_key (staged_dir staged)))"
proof -
  let ?staging = "staged_dir staged" and ?index = "staged_index staged" and ?keys = "bt_keys (index_files (staged_index staged))"
  have remote: "remote_only storage" using assms(3) by (simp add: plain_storage_def)
  from assms(1,7) obtain w1 where "stage_origin_dir codec storage now i ?staging previous w1 =
      (Inr (?index, staged_diff staged, staged_downloaded staged), v)"
    by (rule stage_origin_sync_run)
  note listed = listed_canonical [OF this assms(3)]
  then have canonical: "\<forall>key \<in> set ?keys. canonical_key key" by blast
  note exact = staged_exact [OF assms(1,2) remote assms(4-7) canonical]
  have index: "bt_ok (index_files ?index)" using stage_origin_sync_index [OF assms(1)] .
  have served: "\<exists>object. downloaded_as storage ?index key object \<and>
      fs_lookup (world_fs v) (object_place ?staging key) = Some (FileNode (obj_body object))" if key: "key \<in> set ?keys" for key
  proof (cases "key \<in> set (diff_changed_paths (staged_diff staged))")
    case True
    then show ?thesis using exact by blast
  next
    case False
    then have "key \<notin> set (diff_changed_paths (diff_origin_indexes previous ?index))"
      using stage_origin_sync_diff [OF assms(1)] by simp
    from unchanged_key [OF index key this] obtain before s t where before: "previous = Some before"
        and states: "bt_get (index_files before) key = Some s" "bt_get (index_files ?index) key = Some t" "same_source_state s t"
      by blast
    have "key \<in> set (bt_keys (index_files before))" using states(1) by (force dest: map_of_SomeD)
    with old [OF before] obtain object where object: "downloaded_as storage before key object"
        and "fs_lookup (world_fs w) (object_place dir key) = Some (FileNode (obj_body object))"
      by (auto simp: tree_matches_def subtree_def object_place_def)
    then have "fs_lookup (world_fs v) (object_place ?staging key) = Some (FileNode (obj_body object))"
      using exact key False by blast
    then show ?thesis using downloaded_same_source [OF object states] by blast
  qed
  have top: "is_dir (world_fs v) (fs_key ?staging)" by (rule stage_origin_sync_is_dir [OF assms(1) remote])
  have "names \<noteq> [] \<and> (hd names = METADATA_DIR_NAME \<or> join_with ''/'' names \<in> set ?keys)"
    if found: "fs_lookup (world_fs v) (fs_key ?staging @ map Normal names) = Some (FileNode body)" for names body
  proof -
    have "\<not> unlisted ?keys ?staging (fs_key ?staging @ map Normal names)" using exact found by (simp add: is_file_def)
    then show ?thesis using top found by (auto simp: unlisted_def is_dir_def)
  qed
  then show ?thesis
    using index canonical served top by (simp add: tree_matches_def subtree_def object_place_def is_dir_def)
qed

section \<open>One refresh\<close>

text \<open>The whole mirror is outside every staging directory.\<close>

lemma staged_keeps_mirror:
  assumes "root \<noteq> []" and "staging_dir root i pid nanos = Inr staging" and "origin_dir root j = Inr dir"
    and "keeps (outside staging) m" and "m w = (r, v)"
  shows "subtree (world_fs v) (fs_key dir) = subtree (world_fs w) (fs_key dir)"
proof (rule subtree_keeps [OF assms(4,5)])
  show "fs_key dir @ x \<in> outside staging" for x
    using apart_below [OF mirror_outside_staging [OF assms(1-3)], of "fs_key dir @ x" "fs_key staging"] by (simp add: outside_def)
qed

lemma calm_activation:
  assumes "activate_staged_origin root nanos staged w = (Inl e, v)" and "root \<noteq> []"
    and "origin_dir root (staged_origin_id staged) = Inr dir"
    and "staging_dir root (staged_origin_id staged) pid n = Inr (staged_dir staged)"
    and "calm w" and "fs_ok (world_fs w)" and "is_dir (world_fs w) (fs_key dir)"
  shows "subtree (world_fs v) (fs_key dir) = subtree (world_fs w) (fs_key dir)"
proof -
  note places = swap_places [where n = nanos, OF assms(2,3,4)]
  have far: "apart (fs_key dir) (fs_key (staged_dir staged))" using places(1) by (simp add: places_ok_def)
  have beside: "butlast (fs_key dir) = butlast (fs_key (backup_dir dir nanos))"
    using origin_dir_key(1) [OF assms(2,3)] backup_dir_key [OF assms(2,3)] by simp
  from assms(1,3) have "or_remove (staged_dir staged) (swap_origin_dir dir (staged_dir staged) nanos) w = (Inl e, v)"
    by (simp add: activate_staged_origin_def io_then_def io_lift_def)
  then show ?thesis
  proof (cases rule: or_remove_cases)
    case (bad e' u)
    have "subtree (world_fs u) (fs_key dir) = subtree (world_fs w) (fs_key dir)"
      by (rule calm_swap [OF bad(1) assms(5-7) places(1) beside]) (use places(2) in blast)
    then show ?thesis using bad(3) far by simp
  qed simp
qed

lemma failed_refresh_keeps_mirror:
  assumes "refresh_origin_snapshot env root i storage cdn barrier s = (Inl e, s')" and "root \<noteq> []"
    and "plain_storage storage" and "\<And>k. codec_sha256 (ren_codec env) k \<noteq> []"
    and "fs_ok (world_fs (rf_world s))" and "calm (rf_world s)" and "origin_dir root i = Inr dir"
    and there: "is_dir (world_fs (rf_world s)) (fs_key dir)"
  shows "subtree (world_fs (rf_world s')) (fs_key dir) = subtree (world_fs (rf_world s)) (fs_key dir)"
proof -
  have remote: "remote_only storage" using assms(3) by (simp add: plain_storage_def)
  have "validate_origin_id i = Inr ()" using origin_dir_key(4) [OF assms(2,7)] .
  then obtain staging where staging: "staging_dir root i (ren_pid env) (ren_staging_nanos env) = Inr staging"
    using assms(7) by (simp add: staging_dir_def)
  note stage = staged_keeps_mirror [OF assms(2) staging assms(7) outside_stage_origin_sync [OF assms(2) remote assms(4) staging]]
  from assms(1) show ?thesis
  proof (cases rule: refresh_cases)
    case (not_staged e' w1)
    then show ?thesis using stage by simp
  next
    case (rejected staged w1 e' w2)
    show ?thesis
      using staged_keeps_mirror [OF assms(2) stage_origin_sync_dir(1) [OF rejected(1)] assms(7) outside_prepare_or_reject rejected(2)]
        stage [OF rejected(1)] rejected(4) by simp
  next
    case (not_activated staged w1 prepared w2 e' w3)
    have at: "staged_dir staged = staging" "staged_origin_id staged = i"
      using stage_origin_sync_dir(1,2) [OF not_activated(1)] staging by simp_all
    have same: "subtree (world_fs w2) (fs_key dir) = subtree (world_fs (rf_world s)) (fs_key dir)"
      using staged_keeps_mirror [OF assms(2) stage_origin_sync_dir(1) [OF not_activated(1)] assms(7)
        outside_prepare_or_reject not_activated(2)] stage [OF not_activated(1)] by simp
    have "calm w2" "fs_ok (world_fs w2)"
      using preservesD [OF calm_prepare_or_reject not_activated(2)] preservesD [OF calm_stage_origin_sync [OF assms(3)] not_activated(1) assms(6)]
        io_okD [OF ok_prepare_or_reject not_activated(2)] io_okD [OF ok_stage_origin_sync [OF remote] not_activated(1) assms(5)] by blast+
    moreover have "is_dir (world_fs w2) (fs_key dir)" using fun_cong [OF same, of "[]"] there by (simp add: subtree_def is_dir_def)
    ultimately have "subtree (world_fs w3) (fs_key dir) = subtree (world_fs w2) (fs_key dir)"
      using calm_activation [OF not_activated(3) assms(2)] at assms(7) staging by simp
    then show ?thesis using same not_activated(5) by simp
  qed simp
qed

lemma refreshed_tree:
  assumes "refresh_origin_snapshot env root i storage cdn barrier s = (Inr response, s')" and "root \<noteq> []"
    and "plain_storage storage" and "\<And>k. codec_sha256 (ren_codec env) k \<noteq> []"
    and "fs_ok (world_fs (rf_world s))" and "calm (rf_world s)" and "origin_dir root i = Inr dir"
    and old: "\<And>index. bt_get (rf_indexes s) i = Some index \<Longrightarrow> tree_matches storage index (subtree (world_fs (rf_world s)) (fs_key dir))"
  shows "\<exists>index. bt_get (rf_indexes s') i = Some index \<and> tree_matches storage index (subtree (world_fs (rf_world s')) (fs_key dir))"
  using assms(1)
proof (cases rule: refresh_cases)
  case (activated staged w1 config registry w2 w3 cdn_response)
  note after = refresh_cdn_keeps(1,4) [OF activated(4), unfolded activate_stores_sel]
  from activated(2) have same: "\<And>k. fs_lookup (world_fs w2) k = fs_lookup (world_fs w1) k"
    by (rule prepare_or_reject_Inr) blast
  have "subtree (world_fs (rf_world s')) (fs_key dir) = subtree (world_fs w1) (fs_key (staged_dir staged))"
    using activation_succeeded [OF activated(1,3) assms(2,7)] same after(1) by (simp add: subtree_def)
  then show ?thesis using staged_tree [OF activated(1) assms(2-7) old] after(2) by simp
qed simp_all

lemma refresh_indexes:
  assumes "refresh_origin_snapshot env root i storage cdn barrier s = (r, s')"
  shows "j \<noteq> i \<Longrightarrow> bt_get (rf_indexes s') j = bt_get (rf_indexes s) j" and "isl r \<Longrightarrow> rf_indexes s' = rf_indexes s"
  using assms refresh_cdn_keeps(4)
  by (cases rule: refresh_cases; fastforce simp: activate_stores_sel)+

section \<open>Histories\<close>

text \<open>Every origin with an index has a mirror that is what the index says.\<close>

definition mirrors_match :: "'w refresh_service \<Rightarrow> ('t, 'w) refresh_state \<Rightarrow> bool" where
  "mirrors_match service s \<longleftrightarrow> fs_ok (world_fs (rf_world s)) \<and>
     (\<forall>i storage dir index. bt_get (srv_storage service) i = Some storage \<longrightarrow> origin_dir (srv_root service) i = Inr dir \<longrightarrow>
        bt_get (rf_indexes s) i = Some index \<longrightarrow> tree_matches storage index (subtree (world_fs (rf_world s)) (fs_key dir)))"

text \<open>
  The life of a service: refreshes of any origins, with any outcome, in a file system that
  works. Between them anything may happen to the state but to the indexes and to the files
  below the root of the mirrors.
\<close>

inductive service_history :: "'w refresh_service \<Rightarrow> ('t, 'w) refresh_state \<Rightarrow> bool" for service where
  starts: "fs_ok (world_fs (rf_world s)) \<Longrightarrow> rf_indexes s = [] \<Longrightarrow> service_history service s"
| elapses: "service_history service s \<Longrightarrow> rf_indexes t = rf_indexes s \<Longrightarrow>
     (\<And>k. prefix (fs_key (srv_root service)) k \<Longrightarrow> fs_lookup (world_fs (rf_world t)) k = fs_lookup (world_fs (rf_world s)) k) \<Longrightarrow>
     fs_ok (world_fs (rf_world t)) \<Longrightarrow> service_history service t"
| refreshes: "service_history service s \<Longrightarrow> calm (rf_world s) \<Longrightarrow> (\<And>k. codec_sha256 (ren_codec env) k \<noteq> []) \<Longrightarrow>
     refresh_origin env service i s = (r, s') \<Longrightarrow> service_history service s'"

text \<open>A refresh changes indexes and files only through \<open>refresh_origin_snapshot\<close>.\<close>

lemma refresh_origin_cases:
  assumes "refresh_origin env service i s = (r, s')"
  obtains (refused) "rf_world s' = rf_world s" and "rf_indexes s' = rf_indexes s"
  | (ran) storage active q u where "bt_get (srv_storage service) i = Some storage"
      and "refresh_origin_snapshot env (srv_root service) i storage (bt_get (srv_cdn service) i) (bt_get (srv_barrier service) i)
        (s\<lparr>rf_locks := active\<rparr>) = (q, u)"
      and "rf_world s' = rf_world u" and "rf_indexes s' = rf_indexes u"
  using assms unfolding refresh_origin_def by (auto split: option.splits prod.splits sum.splits)

lemma mirrors_match_step:
  assumes "mirrors_match service s" and "refresh_origin env service i s = (r, s')" and root: "srv_root service \<noteq> []"
    and plain: "\<And>j storage. bt_get (srv_storage service) j = Some storage \<Longrightarrow> plain_storage storage"
    and calm: "calm (rf_world s)" and codec: "\<And>k. codec_sha256 (ren_codec env) k \<noteq> []"
  shows "mirrors_match service s'"
  using assms(2)
proof (cases rule: refresh_origin_cases)
  case refused
  then show ?thesis using assms(1) by (simp add: mirrors_match_def)
next
  case (ran storage active q u)
  let ?fs = "world_fs (rf_world s)" and ?fs' = "world_fs (rf_world s')"
  note run = ran(2) and storage = plain [OF ran(1)]
  have remote: "remote_only storage" using storage by (simp add: plain_storage_def)
  have ok: "fs_ok ?fs" using assms(1) by (simp add: mirrors_match_def)
  have "tree_matches st index (subtree ?fs' (fs_key dir))"
    if j: "bt_get (srv_storage service) j = Some st" "origin_dir (srv_root service) j = Inr dir" "bt_get (rf_indexes s') j = Some index"
    for j st dir index
  proof -
    have old: "tree_matches st x (subtree ?fs (fs_key dir))" if "bt_get (rf_indexes s) j = Some x" for x
      using assms(1) j that unfolding mirrors_match_def by blast
    show ?thesis
    proof (cases "j = i")
      case False
      have "bt_get (rf_indexes s) j = Some index" using refresh_indexes(1) [OF run False] j(3) ran(4) by simp
      moreover have "subtree ?fs' (fs_key dir) = subtree ?fs (fs_key dir)"
        using refresh_others [OF run root remote codec j(2)] False ran(3) by (auto simp: subtree_def)
      ultimately show ?thesis using old by simp
    next
      case True
      show ?thesis
      proof (cases q)
        case (Inr response)
        then show ?thesis
          using refreshed_tree [OF run [unfolded Inr] root storage codec, of dir] True ok calm old j ran(1,3,4) by auto
      next
        case (Inl e)
        have index: "bt_get (rf_indexes s) j = Some index" using refresh_indexes(2) [OF run] Inl j(3) ran(4) by simp
        then have "is_dir ?fs (fs_key dir)" using old by (simp add: tree_matches_def subtree_def is_dir_def)
        then have "subtree ?fs' (fs_key dir) = subtree ?fs (fs_key dir)"
          using failed_refresh_keeps_mirror [OF run [unfolded Inl] root storage codec] ok calm j(2) True ran(3) by simp
        then show ?thesis using old [OF index] by simp
      qed
    qed
  qed
  then show ?thesis using refresh_ok [OF run remote] ok ran(3) unfolding mirrors_match_def by simp
qed

lemma history_matches:
  assumes "service_history service s" and root: "srv_root service \<noteq> []"
    and plain: "\<And>j storage. bt_get (srv_storage service) j = Some storage \<Longrightarrow> plain_storage storage"
  shows "mirrors_match service s"
  using assms(1)
proof (induction rule: service_history.induct)
  case (starts s)
  then show ?case by (simp add: mirrors_match_def)
next
  case (elapses s t)
  have "subtree (world_fs (rf_world t)) (fs_key dir) = subtree (world_fs (rf_world s)) (fs_key dir)"
    if "origin_dir (srv_root service) j = Inr dir" for j dir
    using elapses.hyps(3) origin_dir_key(1) [OF root that] by (auto simp: subtree_def)
  then show ?case using elapses.IH elapses.hyps(2,4) unfolding mirrors_match_def by simp
next
  case (refreshes s env i r s')
  then show ?case using mirrors_match_step [OF refreshes.IH refreshes.hyps(4) root plain refreshes.hyps(2,3)] by simp
qed

section \<open>A start begins a history\<close>

lemma refresh_calm:
  assumes "refresh_origin_snapshot env root i storage cdn barrier s = (r, s')" and "plain_storage storage" and "calm (rf_world s)"
  shows "calm (rf_world s')"
proof -
  note stage = preservesD [where I = calm, OF calm_stage_origin_sync [OF assms(2)] _ assms(3)]
  note prepare = preservesD [where I = calm, OF calm_prepare_or_reject] and activate = preservesD [where I = calm, OF calm_activate]
  from assms(1) show ?thesis
  proof (cases rule: refresh_cases)
    case (not_staged e w1)
    then show ?thesis using stage [OF not_staged(1)] by simp
  next
    case (rejected staged w1 e w2)
    then show ?thesis using prepare [OF rejected(2) stage [OF rejected(1)]] by simp
  next
    case (not_activated staged w1 prepared w2 e w3)
    then show ?thesis using activate [OF not_activated(3) prepare [OF not_activated(2) stage [OF not_activated(1)]]] by simp
  next
    case (activated staged w1 config registry w2 w3 response)
    then show ?thesis using activate [OF activated(3) prepare [OF activated(2) stage [OF activated(1)]]]
        refresh_cdn_keeps(1) [OF activated(4)] by (simp add: activate_stores_sel)
  qed
qed

lemma refresh_origin_calm:
  assumes "refresh_origin env service i s = (r, s')" and "calm (rf_world s)"
    and plain: "\<And>j storage. bt_get (srv_storage service) j = Some storage \<Longrightarrow> plain_storage storage"
  shows "calm (rf_world s')"
  using assms(1)
proof (cases rule: refresh_origin_cases)
  case (ran storage active q u)
  then show ?thesis using refresh_calm [OF ran(2) plain [OF ran(1)]] assms(2) by simp
qed (simp add: assms(2))

lemma after_first_refresh_files:
  "rf_world (after_first_refresh env m cdn i s) = rf_world s" "rf_indexes (after_first_refresh env m cdn i s) = rf_indexes s"
  by (simp_all add: after_first_refresh_def Let_def reconcile_origin_cdn_domains_def reconcile_origin_cdn_tenants_def
      split: option.splits prod.splits)

lemma sync_origins_history:
  "sync_origins env m service cdn is s = (r, s') \<Longrightarrow> service_history service s \<Longrightarrow> calm (rf_world s) \<Longrightarrow>
   srv_root service \<noteq> [] \<Longrightarrow> (\<And>i k. codec_sha256 (ren_codec (ste_refresh env i)) k \<noteq> []) \<Longrightarrow>
   (\<And>j storage. bt_get (srv_storage service) j = Some storage \<Longrightarrow> plain_storage storage) \<Longrightarrow>
   service_history service s' \<and> calm (rf_world s')"
proof (induction "is" arbitrary: s)
  case Nil
  then show ?case by simp
next
  case (Cons i rest)
  note plain = Cons.prems(6)
  obtain q t where run: "refresh_origin (ste_refresh env i) service i s = (q, t)" by fastforce
  have t: "service_history service t" "calm (rf_world t)"
    using service_history.refreshes [OF Cons.prems(2,3,5) run] refresh_origin_calm [OF run Cons.prems(3) plain] by simp_all
  show ?case
  proof (cases q)
    case (Inl e)
    then show ?thesis using Cons.prems(1) run t by simp
  next
    case (Inr response)
    let ?t = "after_first_refresh env m cdn i t"
    have "fs_ok (world_fs (rf_world t))"
      using history_matches [OF t(1) Cons.prems(4) plain] by (simp add: mirrors_match_def)
    then have "service_history service ?t"
      by (intro service_history.elapses [OF t(1)]) (simp_all add: after_first_refresh_files)
    moreover have "sync_origins env m service cdn rest ?t = (r, s')" using Cons.prems(1) run Inr by simp
    ultimately show ?thesis using Cons.IH [of ?t] Cons.prems(4,5) plain t(2) by (simp add: after_first_refresh_files)
  qed
qed

text \<open>A way to make storages that changes no file, brings no faults about and makes plain storages.\<close>

definition plain_source :: "(pathbuf \<Rightarrow> origin_config \<Rightarrow> (anyhow, remote_storage) io) \<Rightarrow> bool" where
  "plain_source storage_of \<longleftrightarrow> (\<forall>dir orig w r v. storage_of dir orig w = (r, v) \<longrightarrow>
     world_fs v = world_fs w \<and> (calm w \<longrightarrow> calm v) \<and> (\<forall>storage. r = Inr storage \<longrightarrow> plain_storage storage))"

lemma startup_storages_plain:
  "startup_storages storage_of dir entries storages barriers w = (Inr (storages', barriers'), v) \<Longrightarrow> plain_source storage_of \<Longrightarrow>
   (\<And>j storage. bt_get storages j = Some storage \<Longrightarrow> plain_storage storage) \<Longrightarrow>
   world_fs v = world_fs w \<and> (calm w \<longrightarrow> calm v) \<and> (\<forall>j storage. bt_get storages' j = Some storage \<longrightarrow> plain_storage storage)"
proof (induction storage_of dir entries storages barriers arbitrary: w rule: startup_storages.induct)
  case (1 storage_of dir storages barriers)
  then show ?case by (simp add: io_return_def)
next
  case (2 storage_of dir i orig entries storages barriers)
  from 2(2) obtain storage w1 where made: "storage_of dir orig w = (Inr storage, w1)"
      and rest: "startup_storages storage_of dir entries (bt_insert i storage storages)
        (case activation_barrier_path orig of Some p \<Rightarrow> bt_insert i p barriers | None \<Rightarrow> barriers) w1 = (Inr (storages', barriers'), v)"
    by (auto simp: io_then_Inr)
  have step: "world_fs w1 = world_fs w" "calm w \<longrightarrow> calm w1" "plain_storage storage"
    using 2(3) made unfolding plain_source_def by blast+
  have "world_fs v = world_fs w1 \<and> (calm w1 \<longrightarrow> calm v) \<and> (\<forall>j storage. bt_get storages' j = Some storage \<longrightarrow> plain_storage storage)"
    by (rule 2(1) [OF rest 2(3)]) (use 2(4) step(3) in \<open>auto split: if_splits\<close>)
  then show ?case using step by simp
qed

lemma load_manifest_calm:
  assumes "load_manifest yaml json manifest_path w = (r, v)"
  shows "world_fs v = world_fs w" and "calm w \<Longrightarrow> calm v"
proof -
  have "preserves (\<lambda>w. world_fs w = fs) (load_manifest yaml json manifest_path)" for fs
    unfolding load_manifest_def io_read_to_string_def
    by (auto intro!: preserves_intros preserves_reads [OF reads_simple(2)])
  then show "world_fs v = world_fs w" using assms unfolding preserves_def by (metis snd_conv)
  have "preserves calm (load_manifest yaml json manifest_path)"
    unfolding load_manifest_def io_read_to_string_def by (auto intro!: preserves_intros)
  then show "calm w \<Longrightarrow> calm v" using assms unfolding preserves_def by (metis snd_conv)
qed

section \<open>Properties\<close>



text \<open>A start that succeeds in a file system that works begins such a history, with a service on the mirrors
of the gateway and a storage and an index for the origin of every host that resolves: what holds of histories
holds of a running service.\<close>

theorem start_begins_history:
  assumes "build_render_runtime env vars providers storage_of yaml json manifest_path w external = (Inr rt, s)"
    and "calm w" and "fs_ok (world_fs w)" and "plain_source storage_of"
    and "\<And>i k. codec_sha256 (ren_codec (ste_refresh env i)) k \<noteq> []"
  shows "service_history (rr_service rt) s \<and> calm (rf_world s) \<and> srv_root (rr_service rt) = rr_root rt \<and> rr_root rt \<noteq> [] \<and>
    (\<forall>j storage. bt_get (srv_storage (rr_service rt)) j = Some storage \<longrightarrow> plain_storage storage) \<and>
    (\<forall>host resolved. resolve (rr_resolver rt) host = Some resolved \<longrightarrow>
       (\<exists>storage index. bt_get (srv_storage (rr_service rt)) (rh_origin_id resolved) = Some storage \<and>
          bt_get (rf_indexes s) (rh_origin_id resolved) = Some index))"
proof -
  from assms(1) obtain m w1 so w2 cdn where loaded: "load_manifest yaml json manifest_path w = (Inr m, w1)"
      and made: "build_startup_origins storage_of m manifest_path w1 = (Inr so, w2)"
      and sync: "sync_origins_at_startup env m (rr_service rt) cdn (empty_state w2 external) = (Inr (), s)"
      and resolver: "host_resolver_new m = Inr (rr_resolver rt)"
      and service: "rr_service rt = \<lparr>srv_root = local_store_dir (runtime m), srv_storage = so_storage so,
        srv_barrier = so_barrier so, srv_cdn = sc_refresh cdn\<rparr>"
    by (rule build_render_runtime_Inr)
  have root: "srv_root (rr_service rt) \<noteq> []" using load_manifest_ok [OF loaded] service by (auto simp: manifest_ok_def)
  have same: "srv_root (rr_service rt) = rr_root rt"
    using assms(1) by (auto simp: build_render_runtime_def Let_def split: prod.splits sum.splits)
  from made obtain barriers where "startup_storages storage_of (manifest_dir_of manifest_path) (origins m) [] [] w1 =
      (Inr (so_storage so, barriers), w2)"
    by (auto simp: build_startup_origins_def io_then_Inr io_return_def)
  from startup_storages_plain [OF this assms(4)] have storages: "world_fs w2 = world_fs w" "calm w2"
      "\<And>j storage. bt_get (srv_storage (rr_service rt)) j = Some storage \<Longrightarrow> plain_storage storage"
    using load_manifest_calm [OF loaded] assms(2) service by simp_all
  have "service_history (rr_service rt) s \<and> calm (rf_world s)"
  proof (rule sync_origins_history [OF sync [unfolded sync_origins_at_startup_def] _ _ root assms(5) storages(3)])
    show "service_history (rr_service rt) (empty_state w2 external)"
      using assms(3) storages(1) by (intro service_history.starts) (simp_all add: empty_state_def)
  qed (simp_all add: empty_state_def storages(2))
  moreover have "\<exists>storage index. bt_get (srv_storage (rr_service rt)) (rh_origin_id resolved) = Some storage \<and>
      bt_get (rf_indexes s) (rh_origin_id resolved) = Some index" if "resolve (rr_resolver rt) host = Some resolved" for host resolved
  proof -
    have i: "rh_origin_id resolved \<in> set (bt_keys (origins m))"
      by (rule selects_origin [OF load_manifest_ok [OF loaded] resolve_selects(2) [OF resolver that]])
    then have "ready (rh_origin_id resolved) s"
      using sync_origins_ready [OF sync [unfolded sync_origins_at_startup_def]] by simp
    moreover have "rh_origin_id resolved \<in> set (bt_keys (so_storage so))" using i startup_storages_all [OF made] by simp
    then have "bt_get (srv_storage (rr_service rt)) (rh_origin_id resolved) \<noteq> None" using service by (simp add: map_of_eq_None_iff)
    ultimately show ?thesis by (auto simp: ready_def)
  qed
  moreover have "rr_root rt \<noteq> []" using root same by simp
  ultimately show ?thesis using same storages(3) by blast
qed

section \<open>An example\<close>

text \<open>An origin with one object.\<close>

definition example_history :: "(string, nat) refresh_state" where
  "example_history = snd (refresh_origin example_refresh_env example_service ''w'' (example_refresh_state (world_on [])))"

definition example_site :: "nat render_runtime" where
  "example_site = example_runtime\<lparr>rr_service := example_service\<rparr>"

lemma example_history_run:
  "case refresh_origin example_refresh_env example_service ''w'' (example_refresh_state (world_on [])) of
     (Inr response, s') \<Rightarrow> map_option (\<lambda>index. bt_keys (index_files index)) (bt_get (rf_indexes s') ''w'') = Some [''a''] \<and>
       config_store_get (rf_configs s') ''w'' = Inr default_edge_config \<and>
       stored_metadata (\<lambda>_. ''h'') (\<lambda>_. Inr default_metadata) ''m/w'' ''a'' (world_fs (rf_world s')) = Inr default_metadata
   | (Inl _, _) \<Rightarrow> False"
  by code_simp

lemma example_history_facts:
  "map_option (\<lambda>index. bt_keys (index_files index)) (bt_get (rf_indexes example_history) ''w'') = Some [''a'']"
  "config_store_get (rf_configs example_history) ''w'' = Inr default_edge_config"
  "stored_metadata (\<lambda>_. ''h'') (\<lambda>_. Inr default_metadata) ''m/w'' ''a'' (world_fs (rf_world example_history)) = Inr default_metadata"
  using example_history_run by (simp_all add: example_history_def split: prod.splits sum.splits)

lemma example_plain_storage: "bt_get (srv_storage example_service) j = Some st \<Longrightarrow> plain_storage st"
proof -
  have "canonical_key ''a''" by code_simp
  then have "plain_storage (example_remote ''a'')"
    using example_remote_facts(1) by (auto simp: plain_storage_def example_remote_def preserves_return io_return_def)
  then show "bt_get (srv_storage example_service) j = Some st \<Longrightarrow> plain_storage st"
    by (simp add: example_service_def split: if_splits)
qed

lemma example_is_history: "service_history example_service example_history"
proof (rule service_history.refreshes [where s = "example_refresh_state (world_on [])"])
  show "service_history example_service (example_refresh_state (world_on []))"
    by (rule service_history.starts) (simp_all add: example_refresh_state_def world_on_def fs_ok_def)
  show "refresh_origin example_refresh_env example_service ''w'' (example_refresh_state (world_on [])) =
      (fst (refresh_origin example_refresh_env example_service ''w'' (example_refresh_state (world_on []))), example_history)"
    by (simp add: example_history_def)
qed (simp_all add: example_refresh_state_def world_on_def calm_def example_refresh_env_def example_codec_def)

lemma example_start_setting:
  "calm (world_on fs)" "plain_source (\<lambda>_ _. io_return (example_remote ''.rendermesh/edge.yaml''))"
  "codec_sha256 (ren_codec (ste_refresh example_start_env i)) k \<noteq> []"
  "fs_ok (world_fs (world_on [([Normal ''c''], FileNode ''y'')]))"
proof -
  have "canonical_key ''.rendermesh/edge.yaml''" by code_simp
  then have "plain_storage (example_remote ''.rendermesh/edge.yaml'')"
    using example_remote_facts(1) by (auto simp: plain_storage_def example_remote_def preserves_return io_return_def)
  then show "calm (world_on fs)" "plain_source (\<lambda>_ _. io_return (example_remote ''.rendermesh/edge.yaml''))"
      "codec_sha256 (ren_codec (ste_refresh example_start_env i)) k \<noteq> []"
      "fs_ok (world_fs (world_on [([Normal ''c''], FileNode ''y'')]))"
    by (auto simp: calm_def world_on_def plain_source_def io_return_def example_start_env_def example_refresh_env_def
        example_codec_def fs_ok_def key_ok_def segment_ok_def is_dir_def fs_lookup_def)
qed



theorem start_begins_history_witness:
  "\<exists>rt s index. example_start = (Inr rt, s) \<and> service_history (rr_service rt) s \<and>
     bt_get (rf_indexes s) ''w'' = Some index"
proof -
  obtain rt s resolved where run: "example_start = (Inr rt, s)"
      and resolved: "resolve (rr_resolver rt) ''b.io'' = Some resolved" "rh_origin_id resolved = ''w''"
    using example_start_succeeds by (auto split: prod.splits sum.splits)
  from start_begins_history [OF run [unfolded example_start_def] example_start_setting(1,4,2,3)]
  have "service_history (rr_service rt) s" and "\<exists>index. bt_get (rf_indexes s) ''w'' = Some index"
    using resolved by fastforce+
  then show ?thesis using run by blast
qed

end
