(* ===== verification/Telemetry.thy ===== *)
theory Telemetry
  imports Cdn_Api
begin

text \<open>
  The observability of the process: times (\<open>src/libs/observability.rs\<close>) and the set-up of tracing
  (\<open>src/libs/telemetry.rs\<close>). The clock, the filters of the log, the exporters and the shutdown of
  a provider are those of the standard library and of the tracing and OpenTelemetry packages:
  parameters. What the code builds with their builders is kept as data.
\<close>

section \<open>Elapsed time\<close>

text \<open>\<open>std::time::Duration\<close>: whole seconds, and less than \<open>10 ^ 9\<close> nanoseconds.\<close>

record duration =
  dur_secs :: u64
  dur_nanos :: "32 word"

definition as_millis :: "duration \<Rightarrow> 128 word" where
  "as_millis d = ucast (dur_secs d) * 1000 + ucast (dur_nanos d div 1000000)"

text \<open>The conversion of the 128 bits to 64 fails when it would lose any.\<close>

definition elapsed_ms :: "('i \<Rightarrow> duration) \<Rightarrow> 'i \<Rightarrow> u64" where
  "elapsed_ms elapsed start =
     (let ms = as_millis (elapsed start) in if ms \<le> ucast (- 1 :: u64) then ucast ms else - 1)"

section \<open>Tracing\<close>

datatype otlp_protocol = HttpBinary | HttpJson

text \<open>How an exporter is asked for.\<close>

datatype exporter_transport = TonicExporter | HttpExporter otlp_protocol

definition build_http_exporter :: "(exporter_transport \<Rightarrow> 'x res) \<Rightarrow> otlp_protocol \<Rightarrow> 'x res" where
  "build_http_exporter build protocol = build (HttpExporter protocol)"

definition build_exporter :: "(exporter_transport \<Rightarrow> 'x res) \<Rightarrow> environment \<Rightarrow> 'x res" where
  "build_exporter build env =
     (let protocol = to_ascii_lowercase
        (case env ''OTEL_EXPORTER_OTLP_PROTOCOL'' of Inr p \<Rightarrow> p | Inl _ \<Rightarrow> ''grpc'') in
      if protocol = ''http/protobuf'' then build_http_exporter build HttpBinary
      else if protocol = ''http/json'' then build_http_exporter build HttpJson
      else if protocol = ''grpc'' then build TonicExporter
      else build TonicExporter)"

text \<open>A resource by the service name that is given to its builder.\<close>

record otel_resource =
  res_service_name :: "string option"

definition package_name :: string where
  "package_name = ''rendermesh''"

definition build_resource :: "environment \<Rightarrow> otel_resource" where
  "build_resource env =
     \<lparr>res_service_name = (if isl (env ''OTEL_SERVICE_NAME'') then Some package_name else None)\<rparr>"

datatype 'x span_processor = SimpleExporter 'x | BatchExporter 'x

record 'x tracer_provider =
  tp_resource :: otel_resource
  tp_processor :: "'x span_processor"

text \<open>The layers of a subscriber: the filter, the compact format without targets, and a tracer with its name.\<close>

record ('f, 'x) subscriber =
  sub_filter :: 'f
  sub_fmt_target :: bool
  sub_fmt_compact :: bool
  sub_tracer :: "('x tracer_provider \<times> string) option"

text \<open>What the packages keep for the whole process.\<close>

record ('f, 'x) tracing_globals =
  tg_trace_context :: bool
  tg_provider :: "'x tracer_provider option"
  tg_subscriber :: "('f, 'x) subscriber option"

text \<open>\<open>EnvFilter\<close> from the environment and from a text, its directives, and the building of exporters.\<close>

record ('f, 'x) tracing_env =
  tre_default_filter :: "environment \<Rightarrow> 'f option"
  tre_filter_new :: "string \<Rightarrow> 'f"
  tre_add_directive :: "string \<Rightarrow> 'f \<Rightarrow> 'f"
  tre_build_exporter :: "environment \<Rightarrow> exporter_transport \<Rightarrow> 'x res"

text \<open>Installing a subscriber panics, which is the value None, when there is one.\<close>

definition install :: "('f, 'x) subscriber \<Rightarrow> ('f, 'x) tracing_globals \<Rightarrow> ('f, 'x) tracing_globals option" where
  "install sub globals =
     (case tg_subscriber globals of Some _ \<Rightarrow> None | None \<Rightarrow> Some (globals\<lparr>tg_subscriber := Some sub\<rparr>))"

text \<open>The guard is the provider, if there is one.\<close>

record 'x telemetry_guard =
  guard_provider :: "'x tracer_provider option"

definition use_simple_exporter :: "environment \<Rightarrow> bool" where
  "use_simple_exporter env =
     (case env ''OTEL_USE_SIMPLE_EXPORTER'' of Inr v \<Rightarrow> eq_ignore_ascii_case v ''true'' | Inl _ \<Rightarrow> False)"

definition init_tracing ::
    "('f, 'x) tracing_env \<Rightarrow> environment \<Rightarrow> bool \<Rightarrow> ('f, 'x) tracing_globals \<Rightarrow>
     ('x telemetry_guard res \<times> ('f, 'x) tracing_globals) option" where
  "init_tracing tre env enabled globals =
     (let env_filter = tre_add_directive tre ''otel::tracing=info''
        (case tre_default_filter tre env of Some f \<Rightarrow> f | None \<Rightarrow> tre_filter_new tre ''info'') in
      if \<not> enabled then
        map_option (\<lambda>globals'. (Inr \<lparr>guard_provider = None\<rparr>, globals'))
          (install \<lparr>sub_filter = env_filter, sub_fmt_target = False, sub_fmt_compact = True, sub_tracer = None\<rparr> globals)
      else
        let globals1 = globals\<lparr>tg_trace_context := True\<rparr>; resource = build_resource env in
        case build_exporter (tre_build_exporter tre env) env of
          Inl e \<Rightarrow> Some (Inl e, globals1)
        | Inr exporter \<Rightarrow>
            let processor = (if use_simple_exporter env then SimpleExporter exporter else BatchExporter exporter);
                provider = \<lparr>tp_resource = resource, tp_processor = processor\<rparr>;
                globals2 = globals1\<lparr>tg_provider := Some provider\<rparr> in
            map_option (\<lambda>globals'. (Inr \<lparr>guard_provider = Some provider\<rparr>, globals'))
              (install \<lparr>sub_filter = env_filter, sub_fmt_target = False, sub_fmt_compact = True,
                 sub_tracer = Some (provider, package_name)\<rparr> globals2))"

definition force_flush :: "('x tracer_provider \<Rightarrow> unit res) \<Rightarrow> 'x telemetry_guard \<Rightarrow> unit res" where
  "force_flush flush guard = (case guard_provider guard of Some p \<Rightarrow> flush p | None \<Rightarrow> Inr ())"

text \<open>Dropping the guard shuts its provider down; an error of the shutdown is ignored.\<close>

definition drop_telemetry :: "('x tracer_provider \<Rightarrow> 'o \<Rightarrow> unit res \<times> 'o) \<Rightarrow> 'x telemetry_guard \<Rightarrow> 'o \<Rightarrow> 'o" where
  "drop_telemetry shutdown guard outside =
     (case guard_provider guard of Some p \<Rightarrow> snd (shutdown p outside) | None \<Rightarrow> outside)"

section \<open>Facts\<close>

text \<open>The time is the whole milliseconds, up to the largest number of 64 bits.\<close>

lemma as_millis_nat:
  "unat (as_millis d) = 1000 * unat (dur_secs d) + unat (dur_nanos d) div 1000000"
proof -
  have secs: "unat (dur_secs d) < 2 ^ 64" and nanos: "unat (dur_nanos d) < 2 ^ 32"
    using unsigned_less [of "dur_secs d"] unsigned_less [of "dur_nanos d"] by simp_all
  then have "unat (dur_secs d) * 1000 + unat (dur_nanos d) div 1000000 < 2 ^ 128" by simp
  then show ?thesis
    using secs nanos by (simp add: as_millis_def unat_word_ariths unsigned_ucast_eq take_bit_nat_eq_self unat_div)
qed

theorem elapsed_saturates:
  "unat (elapsed_ms elapsed start) =
   min (1000 * unat (dur_secs (elapsed start)) + unat (dur_nanos (elapsed start)) div 1000000) (2 ^ 64 - 1)"
proof -
  let ?ms = "as_millis (elapsed start)"
  have top: "unat (- 1 :: u64) = 2 ^ 64 - 1" by (simp add: unsigned_minus_1_eq_mask mask_eq_exp_minus_1)
  have "?ms \<le> ucast (- 1 :: u64) \<longleftrightarrow> unat ?ms \<le> 2 ^ 64 - 1"
    by (simp only: word_le_nat_alt unsigned_ucast_eq top) (simp add: take_bit_nat_eq_self)
  then show ?thesis
    by (auto simp: elapsed_ms_def Let_def as_millis_nat [symmetric] unsigned_ucast_eq top take_bit_nat_eq_self)
qed

theorem tracing_follows_switch:
  assumes "init_tracing tre env enabled globals = Some (Inr guard, globals')"
  shows "\<exists>sub. tg_subscriber globals = None \<and> tg_subscriber globals' = Some sub \<and>
    map_option fst (sub_tracer sub) = guard_provider guard \<and> (guard_provider guard \<noteq> None \<longleftrightarrow> enabled) \<and>
    (enabled \<longrightarrow> tg_provider globals' = guard_provider guard \<and> tg_trace_context globals')"
  using assms by (auto simp: init_tracing_def Let_def install_def split: option.splits sum.splits if_splits)

end
