(* ===== verification/Server_Main.thy ===== *)
theory Server_Main
  imports Telemetry Mirror_History Routes
begin

text \<open>
  The process (\<open>src/main.rs\<close>), the state that its handlers share (\<open>src/state.rs\<close>) and the router of the
  HTTP interface (\<open>src/routes/mod.rs\<close> and the \<open>router\<close> functions below it), and what holds of a running
  server as a whole. A router is kept as the calls that build it. What it does with them is the
  documented behaviour of axum: a layer wraps what was added before it, a path with no route goes to
  the fallback, a \<open>GET\<close> handler serves \<open>HEAD\<close> as well. Matching a path with a pattern and the answers
  that layers give by themselves are parameters.
\<close>

section \<open>The router\<close>

text \<open>The handlers; those of the methods of \<open>/echo\<close> are alike.\<close>

datatype handler = GetHealth | EchoRequest | ListOrigins | GetOriginSnapshot | SyncOrigin | RenderPage

datatype layer = OtelInResponseLayer | OtelAxumLayer "string \<Rightarrow> bool" | SystemRouteConfig "string option"
  | CorsAnswers cors_layer | RequestBodyLimitLayer u64 | RenderRouteConfig u64

datatype router =
    NewRouter
  | AddRoute router string "(string \<times> handler) list"
  | MergeRouters router router
  | AddLayer router layer
  | SetFallback router handler

definition health_router :: router where
  "health_router = AddRoute NewRouter ''/health'' [(''GET'', GetHealth)]"

definition echo_router :: router where
  "echo_router = AddRoute NewRouter ''/echo''
     [(''GET'', EchoRequest), (''POST'', EchoRequest), (''PUT'', EchoRequest), (''PATCH'', EchoRequest),
      (''DELETE'', EchoRequest), (''HEAD'', EchoRequest), (''OPTIONS'', EchoRequest)]"

definition origins_router :: router where
  "origins_router =
     AddRoute (AddRoute (AddRoute (AddRoute NewRouter
       ''/_rendermesh/origins'' [(''GET'', ListOrigins)])
       ''/_rendermesh/origins/{origin_id}/snapshot'' [(''GET'', GetOriginSnapshot)])
       ''/_rendermesh/origins/{origin_id}/freshness'' [(''GET'', GetOriginSnapshot)])
       ''/_rendermesh/origins/{origin_id}/sync'' [(''POST'', SyncOrigin)]"

definition system_router :: router where
  "system_router = MergeRouters (MergeRouters (MergeRouters NewRouter health_router) echo_router) origins_router"

definition create_router :: "(string \<Rightarrow> bool) \<Rightarrow> 'ip app_config \<Rightarrow> router" where
  "create_router header_value config =
     (let api_router = MergeRouters NewRouter system_router;
          api_router =
            (if app_otel_enabled config
             then AddLayer (AddLayer api_router OtelInResponseLayer) (OtelAxumLayer (\<lambda>path. path \<noteq> ''/health''))
             else api_router);
          api_router =
            AddLayer (AddLayer api_router (SystemRouteConfig (app_admin_token config)))
              (CorsAnswers (build_cors_layer header_value (app_cors config) None)) in
      AddLayer (AddLayer (SetFallback api_router RenderPage) (RequestBodyLimitLayer (app_body_limit_bytes config)))
        (RenderRouteConfig (app_body_limit_bytes config)))"

text \<open>The routes with the layers around them, the outermost first, and the fallback.\<close>

type_synonym route = "string \<times> (string \<times> handler) list \<times> layer list"

definition wrap :: "layer \<Rightarrow> route \<Rightarrow> route" where
  "wrap l route = (case route of (pattern, methods, layers) \<Rightarrow> (pattern, methods, l # layers))"

fun routes_of :: "router \<Rightarrow> route list" where
  "routes_of NewRouter = []"
| "routes_of (AddRoute r pattern methods) = routes_of r @ [(pattern, methods, [])]"
| "routes_of (MergeRouters r r') = routes_of r @ routes_of r'"
| "routes_of (AddLayer r l) = map (wrap l) (routes_of r)"
| "routes_of (SetFallback r h) = routes_of r"

fun fallback_of :: "router \<Rightarrow> (handler \<times> layer list) option" where
  "fallback_of NewRouter = None"
| "fallback_of (AddRoute r pattern methods) = fallback_of r"
| "fallback_of (MergeRouters r r') = (case fallback_of r of Some f \<Rightarrow> Some f | None \<Rightarrow> fallback_of r')"
| "fallback_of (AddLayer r l) = map_option (\<lambda>(h, layers). (h, l # layers)) (fallback_of r)"
| "fallback_of (SetFallback r h) = Some (h, [])"

text \<open>Where a request goes: to a handler with the captured part of its path, or nowhere.\<close>

datatype target = ToHandler handler string "layer list" | NoMethod "layer list" | NoRoute

definition method_handler :: "(string \<times> handler) list \<Rightarrow> string \<Rightarrow> handler option" where
  "method_handler methods meth =
     (case map_of methods meth of
        Some h \<Rightarrow> Some h
      | None \<Rightarrow> if meth = ''HEAD'' then map_of methods ''GET'' else None)"

definition dispatch :: "(string \<Rightarrow> string \<Rightarrow> string option) \<Rightarrow> router \<Rightarrow> route_request \<Rightarrow> target" where
  "dispatch captures r request =
     (case find (\<lambda>(pattern, _). captures pattern (req_path request) \<noteq> None) (routes_of r) of
        Some (pattern, methods, layers) \<Rightarrow>
          (case method_handler methods (req_method request) of
             Some h \<Rightarrow> ToHandler h (the (captures pattern (req_path request))) layers
           | None \<Rightarrow> NoMethod layers)
      | None \<Rightarrow> (case fallback_of r of Some (h, layers) \<Rightarrow> ToHandler h [] layers | None \<Rightarrow> NoRoute))"

section \<open>Answering requests\<close>

text \<open>The state of the handlers: the stores are those of the refresh state.\<close>

record 'w app_state =
  app_runtime :: "'w render_runtime"
  app_refresh :: "'w refresh_service option"

definition app_state_new_with_runtime :: "'w render_runtime \<Rightarrow> 'w app_state" where
  "app_state_new_with_runtime rt = \<lparr>app_runtime = rt, app_refresh = None\<rparr>"

definition app_state_new_with_refresh :: "'w render_runtime \<Rightarrow> 'w refresh_service \<Rightarrow> 'w app_state" where
  "app_state_new_with_refresh rt service = \<lparr>app_runtime = rt, app_refresh = Some service\<rparr>"

text \<open>
  What the packages do for a request: the captures of a pattern, the answers of a layer instead of
  the handler (preflight requests, bodies over the limit), the body as a text or the status of the
  rejection.
\<close>

record 't server_env =
  sv_refresh :: "'t refresh_env"
  sv_gateway :: "'t gateway_env"
  sv_headers :: header_env
  sv_base64 :: "string \<Rightarrow> string"
  sv_version :: string
  sv_captures :: "string \<Rightarrow> string \<Rightarrow> string option"
  sv_layer_answer :: "layer \<Rightarrow> route_request \<Rightarrow> http_reply option"
  sv_text_body :: "route_request \<Rightarrow> u16 + string"

datatype server_reply = LayerReply http_reply | StatusReply u16 | HealthReply health_status | EchoReply echo_message
  | OriginsReply "origin_snapshot list" | SnapshotReply origin_snapshot | SyncReply "u16 \<times> sync_body" | PageReply http_reply

definition layer_answer :: "'t server_env \<Rightarrow> layer list \<Rightarrow> route_request \<Rightarrow> http_reply option" where
  "layer_answer env layers request =
     (case filter_map (\<lambda>l. sv_layer_answer env l request) layers of [] \<Rightarrow> None | reply # _ \<Rightarrow> Some reply)"

text \<open>The extensions of a request, which the layers put there.\<close>

definition system_route_config :: "layer list \<Rightarrow> string option option" where
  "system_route_config layers =
     (case filter_map (\<lambda>l. case l of SystemRouteConfig token \<Rightarrow> Some token | _ \<Rightarrow> None) layers of
        [] \<Rightarrow> None | tokens \<Rightarrow> Some (last tokens))"

definition render_route_config :: "layer list \<Rightarrow> u64 option" where
  "render_route_config layers =
     (case filter_map (\<lambda>l. case l of RenderRouteConfig limit \<Rightarrow> Some limit | _ \<Rightarrow> None) layers of
        [] \<Rightarrow> None | limits \<Rightarrow> Some (last limits))"

fun run_handler ::
    "'t server_env \<Rightarrow> 'w app_state \<Rightarrow> handler \<Rightarrow> string \<Rightarrow> layer list \<Rightarrow> route_request \<Rightarrow> ('t, 'w) refresh_state \<Rightarrow>
     server_reply \<times> ('t, 'w) refresh_state" where
  "run_handler env app GetHealth param layers request s = (HealthReply (health_status (sv_version env)), s)"
| "run_handler env app EchoRequest param layers request s =
     (case sv_text_body env request of
        Inl status \<Rightarrow> (StatusReply status, s)
      | Inr body \<Rightarrow>
          (EchoReply (echo_reply (sv_base64 env) (req_method request) (req_path request) (req_headers request) body), s))"
| "run_handler env app ListOrigins param layers request s = (OriginsReply (list_origins_reply s), s)"
| "run_handler env app GetOriginSnapshot param layers request s =
     (case get_origin_snapshot s param of
        Inl status \<Rightarrow> (StatusReply status, s)
      | Inr snapshot \<Rightarrow> (SnapshotReply snapshot, s))"
| "run_handler env app SyncOrigin param layers request s =
     (case system_route_config layers of
        None \<Rightarrow> (StatusReply 500, s)
      | Some admin_token \<Rightarrow>
          (case sync_origin_reply (sv_refresh env) admin_token (app_refresh app) param (req_headers request) s of
             (reply, s') \<Rightarrow> (SyncReply reply, s')))"
| "run_handler env app RenderPage param layers request s =
     (case render_route_config layers of
        None \<Rightarrow> (StatusReply 500, s)
      | Some limit \<Rightarrow>
          (case render (sv_headers env) limit (sv_gateway env) (runtime_gateway (app_runtime app) s) request (rf_world s) of
             (reply, w) \<Rightarrow> (PageReply reply, s\<lparr>rf_world := w\<rparr>)))"

definition answer_request ::
    "'t server_env \<Rightarrow> router \<Rightarrow> 'w app_state \<Rightarrow> route_request \<Rightarrow> ('t, 'w) refresh_state \<Rightarrow>
     server_reply \<times> ('t, 'w) refresh_state" where
  "answer_request env r app request s =
     (case dispatch (sv_captures env) r request of
        NoRoute \<Rightarrow> (StatusReply 404, s)
      | NoMethod layers \<Rightarrow>
          (case layer_answer env layers request of Some reply \<Rightarrow> (LayerReply reply, s) | None \<Rightarrow> (StatusReply 405, s))
      | ToHandler h param layers \<Rightarrow>
          (case layer_answer env layers request of
             Some reply \<Rightarrow> (LayerReply reply, s)
           | None \<Rightarrow> run_handler env app h param layers request s))"

section \<open>The process\<close>

text \<open>
  What the process takes from outside: the file of the environment, addresses, tracing, header
  values, the start of the runtime and its constructors, and binding a listener.
\<close>

record ('ip, 'f, 'x, 't, 'w) main_env =
  me_dotenv :: "environment \<Rightarrow> environment"
  me_parse_ip :: "string \<Rightarrow> 'ip option"
  me_localhost :: 'ip
  me_tracing :: "('f, 'x) tracing_env"
  me_header_value :: "string \<Rightarrow> bool"
  me_startup :: "'t startup_env"
  me_providers :: "environment \<Rightarrow> 'w cdn_providers"
  me_storage :: "environment \<Rightarrow> pathbuf \<Rightarrow> origin_config \<Rightarrow> (anyhow, remote_storage) io"
  me_parse_yaml :: "string \<Rightarrow> string + manifest"
  me_parse_json :: "string \<Rightarrow> string + manifest"
  me_bind :: "'ip \<times> u16 \<Rightarrow> unit res"

record ('ip, 'x, 'w) serving =
  sg_addr :: "'ip \<times> u16"
  sg_router :: router
  sg_app :: "'w app_state"
  sg_telemetry :: "'x telemetry_guard"

definition main_config :: "('ip, 'f, 'x, 't, 'w) main_env \<Rightarrow> environment \<Rightarrow> 'ip app_config" where
  "main_config env vars = app_config_from_env (me_parse_ip env) (me_localhost env) (me_dotenv env vars)"

text \<open>Up to serving; None is a panic.\<close>

definition server_main ::
    "('ip, 'f, 'x, 't, 'w) main_env \<Rightarrow> environment \<Rightarrow> ('f, 'x) tracing_globals \<Rightarrow> world \<Rightarrow> 'w \<Rightarrow>
     (('ip, 'x, 'w) serving res \<times> ('t, 'w) refresh_state) option" where
  "server_main env vars globals w external =
     (let config = main_config env vars; vars' = me_dotenv env vars in
      case init_tracing (me_tracing env) vars' (app_otel_enabled config) globals of
        None \<Rightarrow> None
      | Some (Inl e, _) \<Rightarrow> Some (Inl e, empty_state w external)
      | Some (Inr telemetry, _) \<Rightarrow>
          (case build_render_runtime (me_startup env) vars' (me_providers env vars') (me_storage env vars')
                  (me_parse_yaml env) (me_parse_json env) (app_rendermesh_manifest config) w external of
             (Inl e, s) \<Rightarrow> Some (Inl e, s)
           | (Inr rt, s) \<Rightarrow>
               (let app = app_state_new_with_refresh rt (rr_service rt); r = create_router (me_header_value env) config;
                    addr = listen_addr config in
                case me_bind env addr of
                  Inl e \<Rightarrow> Some (Inl e, s)
                | Inr _ \<Rightarrow> Some (Inr \<lparr>sg_addr = addr, sg_router = r, sg_app = app, sg_telemetry = telemetry\<rparr>, s))))"

section \<open>A running server\<close>

text \<open>What happens to a server: requests, and rounds of the background tasks.\<close>

datatype 't server_event = Arrives "'t server_env" route_request | RoundOf "'t refresh_env" string

fun serve_event :: "('ip, 'x, 'w) serving \<Rightarrow> 't server_event \<Rightarrow> ('t, 'w) refresh_state \<Rightarrow> ('t, 'w) refresh_state" where
  "serve_event sv (Arrives env request) s = snd (answer_request env (sg_router sv) (sg_app sv) request s)"
| "serve_event sv (RoundOf env i) s = background_round env (rr_service (app_runtime (sg_app sv))) i s"

section \<open>Requests change no files\<close>

definition looked :: "filesystem \<Rightarrow> bool \<Rightarrow> world \<Rightarrow> bool" where
  "looked fs c w \<longleftrightarrow> world_fs w = fs \<and> (c \<longrightarrow> calm w)"

lemma looked_reads: "reads m f \<Longrightarrow> preserves (looked fs c) m"
  unfolding preserves_def looked_def using readsD(1,2) by (metis prod.collapse)

lemmas looked_intros = reads_simple(1) [THEN looked_reads] reads_simple(2) [THEN looked_reads]
  reads_read_object [THEN looked_reads]

lemma looked_gateway_read: "preserves (looked fs c) (gateway_read env gw i p access)"
  unfolding gateway_read_def by (auto intro!: preserves_intros looked_intros split: sum.split)

lemma looked_serve:
  "preserves (looked fs c) (serve_object_with_options env gw i p s params hs access)"
  "preserves (looked fs c) (serve_object env gw i p s params hs)"
  "preserves (looked fs c) (serve_static_path_with_options env gw i config p s params hs access)"
  "preserves (looked fs c) (serve_static_path env gw i config p s params hs)"
  unfolding serve_static_path_def serve_static_path_with_options_def serve_object_def serve_object_with_options_def
  by (auto intro!: preserves_intros looked_intros looked_gateway_read split: option.split)

lemma looked_missing: "preserves (looked fs c) (handle_missing env gw i config hs)"
  unfolding handle_missing_def
  by (auto intro!: preserves_intros looked_intros looked_serve simp: Let_def split: missing_action.split option.split)

lemma looked_outcome: "preserves (looked fs c) (apply_outcome env gw request resolved config hs outcome eh)"
  unfolding apply_outcome_def
  by (auto intro!: preserves_intros looked_serve looked_missing simp: Let_def split: edge_payload_outcome.split option.split)

lemma looked_hooks: "preserves (looked fs c) (run_hooks env gw request resolved config cors n hooks eh)"
  by (induction hooks arbitrary: n eh)
    (auto intro!: preserves_intros looked_outcome simp: Let_def split: sum.split option.split)

lemma looked_handle: "preserves (looked fs c) (handle env gw request)"
proof -
  have "preserves (looked fs c) (serve_request env gw request resolved config hs)" for resolved config hs
    unfolding serve_request_def by (auto intro!: preserves_intros looked_serve looked_missing simp: Let_def split: option.split)
  then show ?thesis
    unfolding handle_def handle_edge_chain_def
    by (auto intro!: preserves_intros looked_hooks simp: Let_def split: option.split sum.split)
qed

lemma render_looks:
  assumes "render henv limit env gw request w = (reply, v)"
  shows "world_fs v = world_fs w" and "calm w \<Longrightarrow> calm v"
proof -
  have "looked fs c v" if "looked fs c w" for fs c
    using that assms preservesD [where I = "looked fs c", OF looked_handle _ that]
    by (auto simp: render_def split: sum.splits prod.splits)
  then show "world_fs v = world_fs w" and "calm w \<Longrightarrow> calm v"
    unfolding looked_def by blast+
qed

section \<open>Where requests go\<close>

lemma routes_created:
  "routes_of (create_router header_value config) =
   map (\<lambda>(pattern, methods). (pattern, methods,
       [RenderRouteConfig (app_body_limit_bytes config), RequestBodyLimitLayer (app_body_limit_bytes config),
        CorsAnswers (build_cors_layer header_value (app_cors config) None), SystemRouteConfig (app_admin_token config)] @
       (if app_otel_enabled config then [OtelAxumLayer (\<lambda>path. path \<noteq> ''/health''), OtelInResponseLayer] else [])))
     [(''/health'', [(''GET'', GetHealth)]),
      (''/echo'', [(''GET'', EchoRequest), (''POST'', EchoRequest), (''PUT'', EchoRequest), (''PATCH'', EchoRequest),
         (''DELETE'', EchoRequest), (''HEAD'', EchoRequest), (''OPTIONS'', EchoRequest)]),
      (''/_rendermesh/origins'', [(''GET'', ListOrigins)]),
      (''/_rendermesh/origins/{origin_id}/snapshot'', [(''GET'', GetOriginSnapshot)]),
      (''/_rendermesh/origins/{origin_id}/freshness'', [(''GET'', GetOriginSnapshot)]),
      (''/_rendermesh/origins/{origin_id}/sync'', [(''POST'', SyncOrigin)])]"
  by (simp add: create_router_def Let_def system_router_def health_router_def echo_router_def origins_router_def wrap_def)

lemma patterns_created:
  "map fst (routes_of (create_router header_value config)) =
   [''/health'', ''/echo'', ''/_rendermesh/origins'', ''/_rendermesh/origins/{origin_id}/snapshot'',
    ''/_rendermesh/origins/{origin_id}/freshness'', ''/_rendermesh/origins/{origin_id}/sync'']"
  by (simp add: routes_created)

lemma fallback_created:
  "fallback_of (create_router header_value config) = Some (RenderPage,
     [RenderRouteConfig (app_body_limit_bytes config), RequestBodyLimitLayer (app_body_limit_bytes config)])"
  by (simp add: create_router_def Let_def system_router_def health_router_def echo_router_def origins_router_def)

lemma find_route: "find P xs = Some x \<Longrightarrow> x \<in> set xs \<and> P x"
  by (auto simp: find_Some_iff)

lemma method_handler_in: "method_handler methods meth = Some h \<Longrightarrow> h \<in> snd ` set methods"
  by (force simp: method_handler_def split: option.splits if_splits dest: map_of_SomeD)

text \<open>The synchronisation is reached through its route only, and with the token of the configuration.\<close>

lemma sync_route:
  assumes "dispatch captures (create_router header_value config) request = ToHandler SyncOrigin param layers"
  shows "req_method request = ''POST'' \<and> captures ''/_rendermesh/origins/{origin_id}/sync'' (req_path request) = Some param \<and>
    system_route_config layers = Some (app_admin_token config)"
proof -
  let ?routes = "routes_of (create_router header_value config)"
  obtain pattern methods where found: "find (\<lambda>(pattern, _). captures pattern (req_path request) \<noteq> None) ?routes =
        Some (pattern, methods, layers)"
      and h: "method_handler methods (req_method request) = Some SyncOrigin"
      and param: "the (captures pattern (req_path request)) = param"
    using assms by (auto simp: dispatch_def fallback_created split: option.splits prod.splits)
  have route: "(pattern, methods, layers) \<in> set ?routes" and "captures pattern (req_path request) \<noteq> None"
    using find_route [OF found] by auto
  then have "captures pattern (req_path request) = Some param" using param by auto
  moreover have "pattern = ''/_rendermesh/origins/{origin_id}/sync'' \<and> methods = [(''POST'', SyncOrigin)]"
    using route method_handler_in [OF h] unfolding routes_created
    by (simp only: list.map prod.case list.set insert_iff empty_iff HOL.simp_thms Pair_inject) (elim disjE conjE; simp)
  moreover have "system_route_config layers = Some (app_admin_token config)"
    using route unfolding routes_created
    by (simp only: list.map prod.case list.set insert_iff empty_iff HOL.simp_thms Pair_inject)
      (elim disjE conjE; simp add: system_route_config_def)
  ultimately show ?thesis using h by (auto simp: method_handler_def split: if_splits option.splits)
qed

text \<open>A request but for a synchronisation only looks at files.\<close>

lemma answer_cases:
  assumes "answer_request env r app request s = (reply, s')"
  obtains (looks) v where "s' = s\<lparr>rf_world := v\<rparr>" and "world_fs v = world_fs (rf_world s)" and "calm (rf_world s) \<Longrightarrow> calm v"
  | (sync) param layers token body where "dispatch (sv_captures env) r request = ToHandler SyncOrigin param layers"
      and "system_route_config layers = Some token"
      and "sync_origin_reply (sv_refresh env) token (app_refresh app) param (req_headers request) s = (body, s')"
proof -
  have stays: thesis if "s' = s"
    using looks [of "rf_world s"] that by simp
  show thesis
  proof (cases "dispatch (sv_captures env) r request")
    case (ToHandler h param layers)
    show ?thesis
    proof (cases "layer_answer env layers request")
      case None
      then have run: "run_handler env app h param layers request s = (reply, s')"
        using assms ToHandler by (simp add: answer_request_def)
      show ?thesis
      proof (cases h)
        case SyncOrigin
        then show ?thesis using run stays sync ToHandler by (auto split: option.splits prod.splits)
      next
        case RenderPage
        then show ?thesis using run stays looks render_looks by (fastforce split: option.splits prod.splits)
      qed (use run stays in \<open>auto split: sum.splits\<close>)
    qed (use assms ToHandler stays in \<open>simp add: answer_request_def\<close>)
  qed (use assms stays in \<open>auto simp: answer_request_def split: option.splits\<close>)
qed

lemma sync_reply_cases:
  assumes "sync_origin_reply env token (Some service) i hs s = (body, s')"
  shows "s' = s \<or> s' = snd (refresh_origin env service i s)"
  using assms by (auto simp: sync_origin_reply_def split: sum.splits prod.splits refresh_origin_error.splits)

text \<open>What a server that came up consists of.\<close>

lemma server_main_serves:
  assumes "server_main env vars globals w external = Some (Inr sv, s)"
  obtains rt where "build_render_runtime (me_startup env) (me_dotenv env vars) (me_providers env (me_dotenv env vars))
      (me_storage env (me_dotenv env vars)) (me_parse_yaml env) (me_parse_json env)
      (app_rendermesh_manifest (main_config env vars)) w external = (Inr rt, s)"
    and "sg_app sv = \<lparr>app_runtime = rt, app_refresh = Some (rr_service rt)\<rparr>"
    and "sg_router sv = create_router (me_header_value env) (main_config env vars)"
    and "sg_addr sv = listen_addr (main_config env vars)" and "me_bind env (sg_addr sv) = Inr ()"
    and "guard_provider (sg_telemetry sv) \<noteq> None \<longleftrightarrow> app_otel_enabled (main_config env vars)"
  using assms tracing_follows_switch
  by (fastforce simp: server_main_def Let_def app_state_new_with_refresh_def split: option.splits prod.splits sum.splits)

lemma started_ready:
  assumes "build_render_runtime env vars providers storage_of yaml json manifest_path w external = (Inr rt, s)"
    and "resolve (rr_resolver rt) host = Some resolved"
  shows "ready (rh_origin_id resolved) s"
proof -
  obtain m w1 w2 cdn where loaded: "load_manifest yaml json manifest_path w = (Inr m, w1)"
      and sync: "sync_origins_at_startup env m (rr_service rt) cdn (empty_state w2 external) = (Inr (), s)"
      and resolver: "host_resolver_new m = Inr (rr_resolver rt)"
    using build_render_runtime_Inr [OF assms(1)] by metis
  have "rh_origin_id resolved \<in> set (bt_keys (origins m))"
    by (rule selects_origin [OF load_manifest_ok [OF loaded] resolve_selects(2) [OF resolver assms(2)]])
  then show ?thesis using sync_origins_ready [OF sync [unfolded sync_origins_at_startup_def]] by simp
qed

section \<open>The life of a server\<close>

definition event_codec :: "'t server_event \<Rightarrow> sidecar_codec" where
  "event_codec e = (case e of Arrives env _ \<Rightarrow> ren_codec (sv_refresh env) | RoundOf env _ \<Rightarrow> ren_codec env)"

text \<open>An event leaves the files and the stores alone or is a refresh.\<close>

lemma serve_event_cases:
  assumes "app_refresh (sg_app sv) = Some (rr_service (app_runtime (sg_app sv)))"
  obtains (looks) v where "serve_event sv e s = s\<lparr>rf_world := v\<rparr>" and "world_fs v = world_fs (rf_world s)"
      and "calm (rf_world s) \<Longrightarrow> calm v"
  | (refreshes) env i r where "ren_codec env = event_codec e"
      and "refresh_origin env (rr_service (app_runtime (sg_app sv))) i s = (r, serve_event sv e s)"
proof (cases e)
  case (RoundOf env i)
  then show thesis
    using refreshes [of env i "fst (refresh_origin env (rr_service (app_runtime (sg_app sv))) i s)"]
    by (simp add: event_codec_def background_round_def)
next
  case (Arrives env request)
  obtain reply s' where run: "answer_request env (sg_router sv) (sg_app sv) request s = (reply, s')" by fastforce
  from run show thesis
  proof (cases rule: answer_cases)
    case (looks v)
    then show thesis using that(1) run Arrives by simp
  next
    case (sync param layers token body)
    have "s' = s \<or> s' = snd (refresh_origin (sv_refresh env) (rr_service (app_runtime (sg_app sv))) param s)"
      using sync_reply_cases sync(3) assms by simp
    then show thesis
    proof
      assume "s' = s"
      then show thesis using that(1) [of "rf_world s"] run Arrives by simp
    next
      assume "s' = snd (refresh_origin (sv_refresh env) (rr_service (app_runtime (sg_app sv))) param s)"
      then show thesis
        using refreshes [of "sv_refresh env" param "fst (refresh_origin (sv_refresh env) (rr_service (app_runtime (sg_app sv))) param s)"]
          run Arrives by (simp add: event_codec_def)
    qed
  qed
qed

lemma serve_events_history:
  assumes "app_refresh (sg_app sv) = Some (rr_service (app_runtime (sg_app sv)))"
    and root: "srv_root (rr_service (app_runtime (sg_app sv))) \<noteq> []"
    and plain: "\<And>j st. bt_get (srv_storage (rr_service (app_runtime (sg_app sv)))) j = Some st \<Longrightarrow> plain_storage st"
  shows "service_history (rr_service (app_runtime (sg_app sv))) s \<Longrightarrow> calm (rf_world s) \<Longrightarrow>
    (\<And>e k. e \<in> set events \<Longrightarrow> codec_sha256 (event_codec e) k \<noteq> []) \<Longrightarrow>
    service_history (rr_service (app_runtime (sg_app sv))) (fold (serve_event sv) events s) \<and>
    (ready i s \<longrightarrow> ready i (fold (serve_event sv) events s))"
proof (induction events arbitrary: s)
  case Nil
  then show ?case by simp
next
  case (Cons e events)
  let ?service = "rr_service (app_runtime (sg_app sv))" and ?s = "serve_event sv e s"
  have "service_history ?service ?s \<and> calm (rf_world ?s) \<and> (ready i s \<longrightarrow> ready i ?s)"
    using assms(1)
  proof (cases rule: serve_event_cases [where e = e and s = s])
    case (looks v)
    have "fs_ok (world_fs (rf_world s))" using history_matches [OF Cons.prems(1) root plain] by (simp add: mirrors_match_def)
    then have "service_history ?service ?s"
      using looks(1,2) by (intro service_history.elapses [OF Cons.prems(1)]) simp_all
    then show ?thesis using looks(1) looks(3) [OF Cons.prems(2)] by (simp add: ready_def)
  next
    case (refreshes env j r)
    have "codec_sha256 (ren_codec env) k \<noteq> []" for k using refreshes(1) Cons.prems(3) [of e] by simp
    then have "service_history ?service ?s" by (rule service_history.refreshes [OF Cons.prems(1,2) _ refreshes(2)])
    moreover have "calm (rf_world ?s)" by (rule refresh_origin_calm [OF refreshes(2) Cons.prems(2)]) (rule plain)
    ultimately show ?thesis using refresh_origin_ready(1) [OF refreshes(2)] by blast
  qed
  then show ?case using Cons.IH [of ?s] Cons.prems(3) by simp
qed

section \<open>Properties\<close>

text \<open>A request that no system route takes and no layer answers gets the rendering of the gateway, with the
configured limit of bodies and around it neither the CORS layer nor the token of the system routes.\<close>

theorem site_requests_reach_gateway:
  assumes "\<And>route. route \<in> {''/health'', ''/echo'', ''/_rendermesh/origins'', ''/_rendermesh/origins/{origin_id}/snapshot'',
      ''/_rendermesh/origins/{origin_id}/freshness'', ''/_rendermesh/origins/{origin_id}/sync''} \<Longrightarrow>
      sv_captures env route (req_path request) = None"
    and "sv_layer_answer env (RenderRouteConfig limit) request = None"
    and "sv_layer_answer env (RequestBodyLimitLayer limit) request = None"
    and "limit = app_body_limit_bytes config"
  shows "answer_request env (create_router header_value config) app request s =
    (case render (sv_headers env) limit (sv_gateway env) (runtime_gateway (app_runtime app) s) request (rf_world s) of
       (reply, w) \<Rightarrow> (PageReply reply, s\<lparr>rf_world := w\<rparr>))"
proof -
  let ?layers = "[RenderRouteConfig limit, RequestBodyLimitLayer limit]"
  have "find (\<lambda>(pattern, _). sv_captures env pattern (req_path request) \<noteq> None) (routes_of (create_router header_value config)) = None"
  proof -
    have "sv_captures env (fst x) (req_path request) = None" if "x \<in> set (routes_of (create_router header_value config))" for x
      using assms(1) [of "fst x"] image_eqI [OF refl that, of fst, folded list.set_map, unfolded patterns_created] by simp
    then show ?thesis by (force simp: find_None_iff)
  qed
  then have "dispatch (sv_captures env) (create_router header_value config) request = ToHandler RenderPage [] ?layers"
    using assms(4) by (simp add: dispatch_def fallback_created)
  moreover have "layer_answer env ?layers request = None" and "render_route_config ?layers = Some limit"
    using assms(2,3) by (simp_all add: layer_answer_def render_route_config_def)
  ultimately show ?thesis by (simp add: answer_request_def)
qed

text \<open>C27: A request changes a store, a lock or a file of a running server only when it is a \<open>POST\<close> to the
synchronisation of an origin with exactly the token of the environment, which is then not blank; the change is
that of a refresh of this origin.\<close>

theorem changes_need_token:
  assumes "server_main env vars globals w external = Some (Inr sv, s0)"
    and "answer_request senv (sg_router sv) (sg_app sv) request s = (reply, s')"
    and "s' \<noteq> s\<lparr>rf_world := rf_world s'\<rparr> \<or> world_fs (rf_world s') \<noteq> world_fs (rf_world s)"
  shows "\<exists>secret i. me_dotenv env vars ''RENDERMESH_ADMIN_TOKEN'' = Inr secret \<and> trim secret \<noteq> [] \<and>
    map_of (req_headers request) ''authorization'' = Some (''Bearer '' @ trim secret) \<and> req_method request = ''POST'' \<and>
    sv_captures senv ''/_rendermesh/origins/{origin_id}/sync'' (req_path request) = Some i \<and>
    s' = snd (refresh_origin (sv_refresh senv) (rr_service (app_runtime (sg_app sv))) i s)"
proof -
  obtain rt where app: "sg_app sv = \<lparr>app_runtime = rt, app_refresh = Some (rr_service rt)\<rparr>"
      and router: "sg_router sv = create_router (me_header_value env) (main_config env vars)"
    using server_main_serves [OF assms(1)] by metis
  from assms(2) show ?thesis
  proof (cases rule: answer_cases)
    case (looks v)
    then show ?thesis using assms(3) by simp
  next
    case (sync i layers token body)
    note route = sync_route [OF sync(1) [unfolded router]]
    have token: "token = app_admin_token (app_config_from_env (me_parse_ip env) (me_localhost env) (me_dotenv env vars))"
      using route sync(2) by (simp add: main_config_def)
    have run: "sync_origin_reply (sv_refresh senv) (app_admin_token (app_config_from_env (me_parse_ip env) (me_localhost env)
        (me_dotenv env vars))) (Some (rr_service rt)) i (req_headers request) s = (body, s')"
      using sync(3) token app by simp
    have "s' \<noteq> s" using assms(3) by auto
    then show ?thesis using manual_sync_needs_token [OF run] route app by auto
  qed
qed


section \<open>An example\<close>

definition example_vars :: environment where
  "example_vars key =
     (if key = ''RENDERMESH_ADMIN_TOKEN'' then Inr ''t'' else if key = ''RENDERMESH_MANIFEST'' then Inr ''c'' else Inl NotPresent)"

definition example_main :: "(unit, string list, unit, string, nat) main_env" where
  "example_main = \<lparr>me_dotenv = (\<lambda>vars. vars), me_parse_ip = (\<lambda>_. None), me_localhost = (),
     me_tracing = \<lparr>tre_default_filter = (\<lambda>_. None), tre_filter_new = (\<lambda>f. [f]), tre_add_directive = Cons,
       tre_build_exporter = (\<lambda>_ _. Inr ())\<rparr>,
     me_header_value = (\<lambda>_. True), me_startup = example_start_env, me_providers = (\<lambda>_. example_providers),
     me_storage = (\<lambda>_ _ _. io_return (example_remote ''.rendermesh/edge.yaml'')),
     me_parse_yaml = (\<lambda>_. Inr example_start_manifest), me_parse_json = (\<lambda>_. Inl []), me_bind = (\<lambda>_. Inr ())\<rparr>"

definition example_server_env :: "string server_env" where
  "example_server_env = \<lparr>sv_refresh = example_refresh_env, sv_gateway = example_site_env,
     sv_headers = \<lparr>henv_name = Some, henv_value = (\<lambda>_. True)\<rparr>, sv_base64 = (\<lambda>_. []), sv_version = ''1'',
     sv_captures = (\<lambda>pattern path.
       if pattern = ''/_rendermesh/origins/{origin_id}/sync'' \<and> path = ''/_rendermesh/origins/w/sync'' then Some ''w''
       else if pattern = path then Some [] else None),
     sv_layer_answer = (\<lambda>_ _. None), sv_text_body = (\<lambda>_. Inr [])\<rparr>"

definition example_sync_request :: route_request where
  "example_sync_request = \<lparr>req_method = ''POST'', req_path = ''/_rendermesh/origins/w/sync'', req_query = None,
     req_headers = [(''authorization'', ''Bearer t'')], req_to_bytes = (\<lambda>_. Inr [])\<rparr>"

definition example_process ::
    "((unit, unit, nat) serving res \<times> (string, nat) refresh_state) option" where
  "example_process = server_main example_main example_vars \<lparr>tg_trace_context = False, tg_provider = None, tg_subscriber = None\<rparr>
     (world_on [([Normal ''c''], FileNode ''y'')]) 0"

text \<open>The start does not depend on the variables, as the origin has no CDN.\<close>

lemma build_render_runtime_vars:
  assumes "\<And>m v. load_manifest yaml json manifest_path w = (Inr m, v) \<Longrightarrow>
      build_startup_cdn vars providers m = build_startup_cdn vars' providers m"
  shows "build_render_runtime env vars providers storage_of yaml json manifest_path w external =
    build_render_runtime env vars' providers storage_of yaml json manifest_path w external"
  using assms by (auto simp: build_render_runtime_def split: prod.split sum.split)

lemma example_loaded:
  "fst (load_manifest (\<lambda>_. Inr example_start_manifest) (\<lambda>_. Inl []) ''c'' (world_on [([Normal ''c''], FileNode ''y'')])) =
   Inr example_start_manifest"
  by code_simp

definition example_start_service :: "nat refresh_service" where
  "example_start_service = \<lparr>srv_root = ''m'', srv_storage = [(''w'', example_remote ''.rendermesh/edge.yaml'')],
     srv_barrier = [],
     srv_cdn = [(''w'', refresh_from_cloudfront_saas (\<lambda>_ x. (Inl (OtherPurgeError (ErrorMsg [])), x)) ChangedPaths)]\<rparr>"

lemma example_start_parts:
  "build_startup_cdn vars (example_providers :: nat cdn_providers) example_start_manifest =
   Inr \<lparr>sc_refresh = srv_cdn example_start_service, sc_domains = [], sc_tenants = [(''w'', \<lambda>_ x. (Inl (ErrorMsg []), x))]\<rparr>"
  "build_startup_origins (\<lambda>_ _. io_return st) example_start_manifest ''c'' w = (Inr so, v) \<Longrightarrow>
   so_storage so = [(''w'', st)] \<and> so_barrier so = []"
  by (auto simp: build_startup_cdn_def build_origin_cdns_def build_origin_cdn_def build_origin_cdn_domains_def domains_from_config_def
      add_origin_cdn_domains_def example_start_manifest_def example_providers_def example_start_service_def
      build_startup_origins_def io_then_def io_return_def)

lemma example_process_start:
  "build_render_runtime (me_startup example_main) (me_dotenv example_main example_vars) (me_providers example_main (me_dotenv example_main example_vars))
     (me_storage example_main (me_dotenv example_main example_vars)) (me_parse_yaml example_main) (me_parse_json example_main)
     (app_rendermesh_manifest (main_config example_main example_vars)) (world_on [([Normal ''c''], FileNode ''y'')]) 0 = example_start"
proof -
  have "app_rendermesh_manifest (main_config example_main example_vars) = ''c''" by code_simp
  moreover have "build_startup_cdn example_vars example_providers m = build_startup_cdn (\<lambda>_. Inl NotPresent) example_providers m"
    if "load_manifest (\<lambda>_. Inr example_start_manifest) (\<lambda>_. Inl []) ''c'' (world_on [([Normal ''c''], FileNode ''y'')]) = (Inr m, v)"
    for m v using that example_loaded by (simp add: example_start_parts(1))
  ultimately show ?thesis
    by (simp add: example_main_def example_start_def) (rule build_render_runtime_vars, assumption)
qed

lemma example_runtime_service:
  assumes "example_start = (Inr rt, s)"
  shows "rr_service rt = example_start_service" and "rr_root rt = ''m''"
proof -
  obtain m w1 so w2 cdn where parts: "load_manifest (\<lambda>_. Inr example_start_manifest) (\<lambda>_. Inl []) ''c''
        (world_on [([Normal ''c''], FileNode ''y'')]) = (Inr m, w1)"
      "build_startup_origins (\<lambda>_ _. io_return (example_remote ''.rendermesh/edge.yaml'')) m ''c'' w1 = (Inr so, w2)"
      "build_startup_cdn (\<lambda>_. Inl NotPresent) (example_providers :: nat cdn_providers) m = Inr cdn"
      and service: "rr_service rt = \<lparr>srv_root = local_store_dir (runtime m), srv_storage = so_storage so,
        srv_barrier = so_barrier so, srv_cdn = sc_refresh cdn\<rparr>"
    using build_render_runtime_Inr [OF assms [unfolded example_start_def]] by metis
  have m: "m = example_start_manifest" using example_loaded parts(1) by simp
  show *: "rr_service rt = example_start_service"
  proof -
    have "sc_refresh cdn = srv_cdn example_start_service" using parts(3) m by (auto simp: example_start_parts(1))
    then show ?thesis
      using service m example_start_parts(2) [OF parts(2) [unfolded m]]
      by (simp add: example_start_service_def example_start_manifest_def [THEN arg_cong [of _ _ runtime]])
  qed
  have "rr_root rt = srv_root (rr_service rt)"
    using assms unfolding example_start_def by (auto simp: build_render_runtime_def Let_def split: prod.splits sum.splits)
  then show "rr_root rt = ''m''" using * by (simp add: example_start_service_def)
qed

lemma example_traced:
  "case init_tracing (me_tracing example_main) (me_dotenv example_main example_vars)
     (app_otel_enabled (main_config example_main example_vars))
     \<lparr>tg_trace_context = False, tg_provider = None, tg_subscriber = None\<rparr> of
     Some (Inr _, _) \<Rightarrow> True | _ \<Rightarrow> False"
  by code_simp

lemma example_synced:
  "rf_indexes (snd (answer_request example_server_env (create_router (me_header_value example_main) (main_config example_main example_vars))
     \<lparr>app_runtime = rt, app_refresh = Some example_start_service\<rparr> example_sync_request (empty_state (world_on []) 0))) \<noteq> []"
  by code_simp

lemma example_process_serves:
  obtains sv s resolved where "example_process = Some (Inr sv, s)"
    and "resolve (rr_resolver (app_runtime (sg_app sv))) ''b.io'' = Some resolved" and "rh_origin_id resolved = ''w''"
    and "rr_root (app_runtime (sg_app sv)) = ''m''"
    and "rf_indexes (snd (answer_request example_server_env (sg_router sv) (sg_app sv) example_sync_request
       (empty_state (world_on []) 0))) \<noteq> []"
proof -
  obtain rt s resolved where start: "example_start = (Inr rt, s)" "resolve (rr_resolver rt) ''b.io'' = Some resolved"
      "rh_origin_id resolved = ''w''"
    using example_start_succeeds by (auto split: prod.splits sum.splits)
  obtain telemetry globals where traced: "init_tracing (me_tracing example_main) (me_dotenv example_main example_vars)
      (app_otel_enabled (main_config example_main example_vars))
      \<lparr>tg_trace_context = False, tg_provider = None, tg_subscriber = None\<rparr> = Some (Inr telemetry, globals)"
    using example_traced by (auto split: option.splits prod.splits sum.splits)
  have bound: "me_bind example_main addr = Inr ()" for addr by (simp add: example_main_def)
  obtain sv where sv: "example_process = Some (Inr sv, s)"
      "sg_app sv = \<lparr>app_runtime = rt, app_refresh = Some (rr_service rt)\<rparr>"
      "sg_router sv = create_router (me_header_value example_main) (main_config example_main example_vars)"
    unfolding example_process_def server_main_def Let_def example_process_start
    by (simp add: traced bound start(1) app_state_new_with_refresh_def)
  then show thesis using that [OF sv(1)] start example_runtime_service [OF start(1)] example_synced by simp
qed

theorem changes_need_token_witness:
  "\<exists>sv s0. example_process = Some (Inr sv, s0) \<and>
     snd (answer_request example_server_env (sg_router sv) (sg_app sv) example_sync_request (empty_state (world_on []) 0)) =
     snd (refresh_origin example_refresh_env (rr_service (app_runtime (sg_app sv))) ''w'' (empty_state (world_on []) 0))"
proof -
  obtain sv s0 where run: "example_process = Some (Inr sv, s0)"
      and changed: "rf_indexes (snd (answer_request example_server_env (sg_router sv) (sg_app sv) example_sync_request
        (empty_state (world_on []) 0))) \<noteq> []"
    by (rule example_process_serves)
  obtain reply s' where answer: "answer_request example_server_env (sg_router sv) (sg_app sv) example_sync_request
      (empty_state (world_on []) 0) = (reply, s')" by fastforce
  have "s' \<noteq> (empty_state (world_on []) 0)\<lparr>rf_world := rf_world s'\<rparr>"
    using changed answer by (metis empty_state_def refresh_state.select_convs(4) refresh_state.update_convs(1) snd_conv)
  then have "s' = snd (refresh_origin example_refresh_env (rr_service (app_runtime (sg_app sv))) ''w'' (empty_state (world_on []) 0))"
    using changes_need_token [OF run [unfolded example_process_def] answer]
    by (auto simp: example_server_env_def example_sync_request_def)
  then show ?thesis using run answer by (intro exI [of _ sv] exI [of _ s0]) simp
qed


end
