(* ===== verification/Spec2Isabelle.thy ===== *)
theory Spec2Isabelle
  imports Gateway_Facts Refresh_Facts Cloudflare_Cdn Saas_Client S3_Storage Startup Routes Mirror_History Server_Main
begin

text \<open>
  RenderMesh serves static sites from local mirrors of remote origins. A manifest names the
  origins (an S3 bucket or a local directory each), the hosts and their origins, and the CDN in
  front of every origin. At the start, on a timer and on request an origin is \<^emph>\<open>refreshed\<close>: its
  objects are listed and compared with the freshness index, a staging directory is brought up
  to date, prepared (edge configuration, templates, activation barrier) and swapped with the
  mirror, the stores in memory follow, and the CDN is purged. The gateway answers requests
  from the mirrors: the host selects the origin, its edge configuration the hooks, redirects,
  rewrites and the treatment of missing objects.

  \<^bold>\<open>Foundations.\<close>
  \<^item> \<open>Prelude\<close>: results (\<open>error + value\<close>, errors are chains of messages as in \<open>anyhow\<close>), string
    functions of the Rust library, \<open>u64\<close> and \<open>u16\<close> as words, the collections of hints
    (\<open>result_simps\<close>, \<open>map_simps\<close>).
  \<^item> \<open>Ordered_Map\<close>: \<open>BTreeMap\<close> and \<open>BTreeSet\<close> as sorted lists, with a locale of ordered maps.
  \<^item> \<open>Actions\<close>: computations that may fail and change a state on the way (\<open>io_then\<close>, \<open>io_lift\<close>,
    \<open>io_context\<close>): an \<open>async fn\<close> with its question marks.
  \<^item> \<open>File_System\<close>: the part of \<open>tokio::fs\<close> that is used, over a list of paths with nodes. A
    \<open>world\<close> is a file system, a count of steps and a schedule of faults: every call may fail
    at any step, writing calls even after a part of their work. A theorem about a run of the
    program therefore covers every I/O error at every point; \<open>calm\<close> worlds have no faults.
    \<open>keeps\<close>, \<open>ensures\<close> and \<open>reads\<close> are the three kinds of facts on actions, each with its rules.
  \<^item> \<open>Dir_Walk\<close>, \<open>Dir_Collect\<close>: the loops \<open>while let Some(dir) = stack.pop()\<close>. A walk runs on fuel
    \<open>walk_fuel\<close>, which counts the nodes of the file system, the directories on the stack and two
    more; the locale \<open>dir_walk\<close> shows that this is enough for every loop of the program, under
    every schedule of faults, \<open>dir_sweep\<close> what a walk that removes files leaves, and
    \<open>dir_collect\<close>, \<open>dir_listing\<close> what a walk that collects files returns. They are interpreted on
    the loops of \<open>sync.rs\<close> (\<open>Sync_Walks\<close>) and of \<open>local_directory_storage.rs\<close>.

  \<^bold>\<open>The data of an origin.\<close>
  \<^item> \<open>Mirror_Paths\<close> (\<open>repositories/local_mirror.rs\<close>, \<open>repositories/sync.rs\<close>): ids, keys, the paths
    of objects and their metadata sidecars, that they stay below the mirror and apart.
  \<^item> \<open>Manifest\<close> (\<open>dto/manifest.rs\<close>, \<open>services/manifest.rs\<close>, \<open>services/config_format.rs\<close>): the records,
    the validation and its declarative reading \<open>manifest_ok\<close>, the host resolver and
    its specification \<open>selects\<close> (the most specific covering entry).
  \<^item> \<open>Edge_Config\<close> (\<open>dto/edge.rs\<close>, \<open>services/edge_config.rs\<close>, \<open>services/edge_config_store.rs\<close>),
    \<open>Static_Rules\<close> (\<open>services/static_rules.rs\<close>), \<open>Edge_Hooks\<close> (\<open>services/edge_hooks.rs\<close>,
    \<open>repositories/edge_http.rs\<close>), \<open>Cors\<close> (\<open>services/cors.rs\<close>).
  \<^item> \<open>Freshness\<close> (\<open>services/freshness.rs\<close>), \<open>Origin_Runtime\<close> (\<open>services/origin_runtime.rs\<close>),
    \<open>Template_Store\<close> (\<open>services/template_store.rs\<close>), \<open>Local_Mirror\<close> (\<open>repositories/local_mirror.rs\<close>).

  \<^bold>\<open>The gateway.\<close> \<open>Render_Gateway\<close> (\<open>services/render_gateway.rs\<close>, \<open>dto/render.rs\<close>) is the way from a
  request to a response, branch by branch; \<open>Gateway_Facts\<close> shows what holds of every response:
  its body comes from the origin of the host, no connection-level header is set, CORS headers
  cannot be overridden, \<open>HEAD\<close> is \<open>GET\<close> without the body, a failing hook decides, no file changes.

  \<^bold>\<open>Refreshing.\<close>
  \<^item> \<open>Local_Storage\<close> (\<open>repositories/local_directory_storage.rs\<close>) and \<open>S3_Storage\<close>
    (\<open>repositories/s3_storage.rs\<close>, \<open>repositories/origin_storage.rs\<close>): the sources. The S3 loop has no
    bound, so it is a \<open>partial_function\<close> and not returning is the value \<open>None\<close>; it is proved equal to
    the chain of pages, and a bucket on which it does not return is shown.
  \<^item> \<open>Mirror_Sync\<close> (\<open>repositories/sync.rs\<close>): staging, download, removal, the swap with its restore.
    \<open>Sync_Walks\<close> and \<open>Sync_Facts\<close>: the staged tree is exactly the mirror brought up to date,
    activation is all or nothing, staging touches no mirror, whatever fails.
  \<^item> \<open>Origin_Refresh\<close> (\<open>services/origin_refresh.rs\<close>, \<open>dto/origin_sync.rs\<close>): the whole refresh over
    \<open>refresh_state\<close> (files, stores, locks, and the state of the outside world \<open>'w\<close> the CDN acts on).
    \<open>Refresh_Facts\<close>: a failed refresh changes no store, other origins are kept, the stores
    describe the mirror, the CDN cannot undo an activation, locks exclude each other (a step
    relation \<open>lock_step\<close> over the interleavings of tasks).

  \<^bold>\<open>CDNs.\<close> \<open>Cdn_Refresh\<close> (\<open>services/cdn_refresh.rs\<close>), \<open>Cdn_Hosts\<close> and \<open>Cdn_Api\<close> (\<open>services/cdn_domains.rs\<close>,
  \<open>services/cdn_tenants.rs\<close>, \<open>repositories/cdn.rs\<close>) are what is asked of a CDN; \<open>Cloudflare_Cdn\<close>
  (\<open>repositories/cloudflare_cdn.rs\<close>), \<open>Cloudfront_Cdn\<close> (\<open>repositories/cloudfront_cdn.rs\<close>), \<open>Saas_Cdn\<close>
  (\<open>repositories/cloudfront_saas_cdn.rs\<close>) and \<open>Saas_Client\<close> (its \<open>aws_client.rs\<close>) the three providers.
  The requests a provider sends are observed by logging them in the state; the theorems say
  which are sent, in which order, and what the counters and failures then report.

  \<^bold>\<open>The start.\<close> \<open>Startup\<close> (\<open>services/startup.rs\<close> and its modules, \<open>repositories/manifest.rs\<close>): from the
  manifest file to the running service, with the first refreshes and the background rounds, and
  that from then on every host that resolves has what the gateway needs to answer it.

  \<^bold>\<open>The parts together.\<close> \<open>End_To_End\<close> composes the storage, the refresh and the gateway: what a
  refresh found new or changed is what the gateway answers with, and for a local directory this
  is the content of the file in it. \<open>Mirror_History\<close> takes the life of a service, any number of
  refreshes with any outcome (\<open>service_history\<close>), and shows that the mirrors are at every point what
  the indexes say, so that every indexed object is served, and that a successful start begins such
  a life. Remotes and CDNs may fail at will; the local file system has no faults while a refresh
  runs (\<open>Calm_Runs\<close>), which two counterexamples of \<open>Sync_Facts\<close> show to be needed, and the keys of the
  remote are canonical (no empty segments or dots), which a third one shows.

  \<^bold>\<open>The interface.\<close> \<open>Server_Config\<close> (\<open>config.rs\<close>, \<open>routes/cors.rs\<close>) reads the configuration of the process;
  \<open>Routes\<close> (\<open>routes/render.rs\<close>, \<open>routes/system/\<close>, \<open>error.rs\<close>) are the handlers around the gateway, the
  status and the manual synchronisation: who may start one, what limits a body, which status an
  outcome gets. \<open>Telemetry\<close> (\<open>libs/telemetry.rs\<close>, \<open>libs/observability.rs\<close>) is the set-up of tracing and
  the measuring of times.

  \<^bold>\<open>The process.\<close> \<open>Server_Main\<close> (\<open>main.rs\<close>, \<open>state.rs\<close>, \<open>routes/mod.rs\<close>, the \<open>router\<close> functions below it)
  composes everything: from the environment over tracing, start and router to a bound listener
  (\<open>server_main\<close>), and from there through requests and background rounds in any order
  (\<open>serve_event\<close>). A request changes something only with the token of the environment, and the
  mirrors follow the indexes at every point in the life of a server.

  \<^bold>\<open>Parameters.\<close> Code that is not in the repository is an argument: the YAML and JSON parsers,
  URL parsing, SHA-256, MIME types, Handlebars, the HTTP client, the AWS SDK, clocks, process ids
  and random numbers. What a theorem needs of one (a digest is not empty, a storage leaves
  the local files alone) is a hypothesis of it.

  \<^bold>\<open>Not modelled.\<close> The spans and events that handlers record, which have no effect on results; the
  inside of axum and tower (matching a path and what a layer answers by itself are parameters, the
  order of routes, layers and fallback is as documented) and the scheduling of tokio: requests and
  refreshes are taken one after the other, while the lock theorem speaks of interleavings; symbolic
  links in mirrors; the locks around the stores, whose operations are atomic here.
\<close>

end
